(* ===== verification/Prelude.thy ===== *)
theory Prelude
  imports Main "HOL-Library.Word"
begin

text \<open>
  The shared vocabulary of the development: the machine integers of the Rust sources, the
  outcome of a computation that may panic, the Rust standard library operations the sources
  use (slices, decimal parsing and printing, UTF-8 validation, iterator collection into a
  \<open>Result\<close>).  Every generic lemma on them that the component theories share lives here, most of
  them in the collection \<open>outcome_simps\<close>.  The collections \<open>io_simps\<close> and
  \<open>emits_intros\<close> are filled by theory \<open>Async\<close>, which has the monad of the asynchronous code.
\<close>

named_theorems outcome_simps \<open>equations of the panic monad and of the question-mark operator\<close>
named_theorems io_simps \<open>equations that run an asynchronous computation on a state\<close>
named_theorems emits_intros \<open>which effects a computation may emit\<close>

type_synonym u8 = "8 word"
type_synonym u64 = "64 word"
type_synonym u128 = "128 word"
type_synonym usize = "64 word"
type_synonym bytes = "u8 list"

text \<open>\<open>num256::Uint256\<close> wraps an arbitrary precision unsigned integer; its arithmetic is third
  party code and enters the model as parameters (theory \<open>Extern\<close>).\<close>

type_synonym uint256 = nat

abbreviation u64_MAX :: nat where "u64_MAX \<equiv> 2 ^ 64 - 1"
abbreviation u128_MAX :: nat where "u128_MAX \<equiv> 2 ^ 128 - 1"
abbreviation u32_MAX :: nat where "u32_MAX \<equiv> 2 ^ 32 - 1"
abbreviation u8_MAX :: nat where "u8_MAX \<equiv> 2 ^ 8 - 1"
abbreviation usize_MAX :: nat where "usize_MAX \<equiv> 2 ^ 64 - 1"


section \<open>Computations that may panic\<close>

text \<open>A Rust expression either produces a value or unwinds (a failed \<open>assert!\<close>, an
  \<open>unwrap\<close> of an error, an index out of range, an explicit \<open>panic!\<close>).\<close>

datatype 'a outcome = Ret 'a | Panic string

fun bind_out :: "'a outcome \<Rightarrow> ('a \<Rightarrow> 'b outcome) \<Rightarrow> 'b outcome" where
  "bind_out (Ret x) f = f x"
| "bind_out (Panic p) f = Panic p"

text \<open>The operator \<open>?\<close>: an error value returns early with that error.\<close>

fun try_out :: "('e + 'a) outcome \<Rightarrow> ('a \<Rightarrow> ('e + 'b) outcome) \<Rightarrow> ('e + 'b) outcome" where
  "try_out (Ret (Inr x)) f = f x"
| "try_out (Ret (Inl e)) f = Ret (Inl e)"
| "try_out (Panic p) f = Panic p"

fun try_sum :: "('e + 'a) \<Rightarrow> ('a \<Rightarrow> ('e + 'b)) \<Rightarrow> ('e + 'b)" where
  "try_sum (Inr x) f = f x"
| "try_sum (Inl e) f = Inl e"

fun unwrap_sum :: "('e + 'a) \<Rightarrow> 'a outcome" where
  "unwrap_sum (Inr x) = Ret x"
| "unwrap_sum (Inl e) = Panic ''called unwrap on an Err value''"

fun unwrap_opt :: "'a option \<Rightarrow> 'a outcome" where
  "unwrap_opt (Some x) = Ret x"
| "unwrap_opt None = Panic ''called unwrap on a None value''"

text \<open>\<open>map_err\<close>, and the implicit \<open>From\<close> conversion \<open>?\<close> applies to the error.\<close>

fun map_err :: "('e \<Rightarrow> 'f) \<Rightarrow> ('e + 'a) \<Rightarrow> ('f + 'a)" where
  "map_err g (Inr x) = Inr x"
| "map_err g (Inl e) = Inl (g e)"

fun is_ok :: "('e + 'a) \<Rightarrow> bool" where
  "is_ok (Inr x) = True"
| "is_ok (Inl e) = False"

abbreviation is_err :: "('e + 'a) \<Rightarrow> bool" where
  "is_err r \<equiv> \<not> is_ok r"

fun is_panic :: "'a outcome \<Rightarrow> bool" where
  "is_panic (Panic p) = True"
| "is_panic (Ret x) = False"

declare bind_out.simps [outcome_simps] try_out.simps [outcome_simps] try_sum.simps [outcome_simps]
  unwrap_sum.simps [outcome_simps] unwrap_opt.simps [outcome_simps] map_err.simps [outcome_simps]

lemma bind_out_Ret_iff [outcome_simps]:
  "bind_out m f = Ret y \<longleftrightarrow> (\<exists>x. m = Ret x \<and> f x = Ret y)"
  by (cases m) auto

lemma bind_out_Panic_iff [outcome_simps]:
  "bind_out m f = Panic p \<longleftrightarrow> m = Panic p \<or> (\<exists>x. m = Ret x \<and> f x = Panic p)"
  by (cases m) auto

lemma bind_out_assoc: "bind_out (bind_out m f) g = bind_out m (\<lambda>x. bind_out (f x) g)"
  by (cases m) auto

lemma try_out_Ok_iff [outcome_simps]:
  "try_out m f = Ret (Inr y) \<longleftrightarrow> (\<exists>x. m = Ret (Inr x) \<and> f x = Ret (Inr y))"
  by (cases "(m, f)" rule: try_out.cases) auto

lemma try_out_Err_iff [outcome_simps]:
  "try_out m f = Ret (Inl e) \<longleftrightarrow> m = Ret (Inl e) \<or> (\<exists>x. m = Ret (Inr x) \<and> f x = Ret (Inl e))"
  by (cases "(m, f)" rule: try_out.cases) auto

lemma try_sum_Ok_iff [outcome_simps]:
  "try_sum m f = Inr y \<longleftrightarrow> (\<exists>x. m = Inr x \<and> f x = Inr y)"
  by (cases m) auto

lemma try_sum_Err_iff [outcome_simps]:
  "try_sum m f = Inl e \<longleftrightarrow> m = Inl e \<or> (\<exists>x. m = Inr x \<and> f x = Inl e)"
  by (cases m) auto

lemma unwrap_sum_Ret_iff [outcome_simps]: "unwrap_sum m = Ret y \<longleftrightarrow> m = Inr y"
  by (cases m) auto

lemma unwrap_opt_Ret_iff [outcome_simps]: "unwrap_opt m = Ret y \<longleftrightarrow> m = Some y"
  by (cases m) auto

lemma map_err_Ok_iff [outcome_simps]: "map_err g m = Inr y \<longleftrightarrow> m = Inr y"
  by (cases m) auto

lemma is_ok_iff: "is_ok r \<longleftrightarrow> (\<exists>x. r = Inr x)"
  by (cases r) auto


section \<open>Iteration over vectors\<close>

text \<open>A \<open>for\<close> loop whose body uses \<open>?\<close> and pushes one value per item, and
  \<open>iter().map(f).collect::<Result<Vec<_>, _>>()\<close>: the first error ends the loop.\<close>

fun map_sum_list :: "('a \<Rightarrow> 'e + 'b) \<Rightarrow> 'a list \<Rightarrow> 'e + 'b list" where
  "map_sum_list f [] = Inr []"
| "map_sum_list f (x # xs) = try_sum (f x) (\<lambda>y. try_sum (map_sum_list f xs) (\<lambda>ys. Inr (y # ys)))"

fun map_out_list :: "('a \<Rightarrow> 'b outcome) \<Rightarrow> 'a list \<Rightarrow> 'b list outcome" where
  "map_out_list f [] = Ret []"
| "map_out_list f (x # xs) = bind_out (f x) (\<lambda>y. bind_out (map_out_list f xs) (\<lambda>ys. Ret (y # ys)))"

fun map_try_list :: "('a \<Rightarrow> ('e + 'b) outcome) \<Rightarrow> 'a list \<Rightarrow> ('e + 'b list) outcome" where
  "map_try_list f [] = Ret (Inr [])"
| "map_try_list f (x # xs) =
     try_out (f x) (\<lambda>y. try_out (map_try_list f xs) (\<lambda>ys. Ret (Inr (y # ys))))"

lemma map_sum_list_Ok_iff:
  "map_sum_list f xs = Inr ys \<longleftrightarrow> list_all2 (\<lambda>x y. f x = Inr y) xs ys"
  by (induction xs arbitrary: ys) (auto simp: outcome_simps list_all2_Cons1)

lemma map_sum_list_all_Ok:
  "(\<And>x. x \<in> set xs \<Longrightarrow> f x = Inr (g x)) \<Longrightarrow> map_sum_list f xs = Inr (map g xs)"
  by (induction xs) auto

lemma map_sum_list_map: "map_sum_list f (map g xs) = map_sum_list (f \<circ> g) xs"
  by (induction xs) auto

lemma map_out_list_Ret_iff:
  "map_out_list f xs = Ret ys \<longleftrightarrow> list_all2 (\<lambda>x y. f x = Ret y) xs ys"
  by (induction xs arbitrary: ys) (auto simp: outcome_simps list_all2_Cons1)

lemma map_out_list_all_Ret:
  "(\<And>x. x \<in> set xs \<Longrightarrow> f x = Ret (g x)) \<Longrightarrow> map_out_list f xs = Ret (map g xs)"
  by (induction xs) auto

lemma map_try_list_Ok_iff:
  "map_try_list f xs = Ret (Inr ys) \<longleftrightarrow> list_all2 (\<lambda>x y. f x = Ret (Inr y)) xs ys"
  by (induction xs arbitrary: ys) (auto simp: outcome_simps list_all2_Cons1)

lemma map_try_list_all_Ok:
  "(\<And>x. x \<in> set xs \<Longrightarrow> f x = Ret (Inr (g x))) \<Longrightarrow> map_try_list f xs = Ret (Inr (map g xs))"
  by (induction xs) auto

lemma map_try_list_Panic:
  "x \<in> set xs \<Longrightarrow> (\<And>x. x \<in> set xs \<Longrightarrow> is_panic (f x)) \<Longrightarrow> is_panic (map_try_list f xs)"
proof (induction xs)
  case (Cons a xs)
  from Cons.prems(2) [of a] show ?case by (cases "f a") auto
qed simp


section \<open>Slices and byte strings\<close>

text \<open>\<open>&input[a..b]\<close>: a range out of order or past the end panics.\<close>

definition slice_range :: "'a list \<Rightarrow> usize \<Rightarrow> usize \<Rightarrow> 'a list outcome" where
  "slice_range xs a b =
     (if unat a > unat b then Panic ''slice index starts after its end''
      else if unat b > length xs then Panic ''range end index out of range''
      else Ret (take (unat b - unat a) (drop (unat a) xs)))"

text \<open>\<open>&input[a..]\<close>.\<close>

definition slice_from :: "'a list \<Rightarrow> usize \<Rightarrow> 'a list outcome" where
  "slice_from xs a =
     (if unat a > length xs then Panic ''range start index out of range''
      else Ret (drop (unat a) xs))"

text \<open>\<open>slice.get(i)\<close>.\<close>

definition get_at :: "'a list \<Rightarrow> nat \<Rightarrow> 'a option" where
  "get_at xs i = (if i < length xs then Some (xs ! i) else None)"

lemma slice_range_Ret_iff:
  "slice_range xs a b = Ret ys \<longleftrightarrow>
     unat a \<le> unat b \<and> unat b \<le> length xs \<and> ys = take (unat b - unat a) (drop (unat a) xs)"
  by (auto simp: slice_range_def)

lemma slice_range_length: "slice_range xs a b = Ret ys \<Longrightarrow> length ys = unat b - unat a"
  by (auto simp: slice_range_Ret_iff)

lemma slice_from_Ret_iff:
  "slice_from xs a = Ret ys \<longleftrightarrow> unat a \<le> length xs \<and> ys = drop (unat a) xs"
  by (auto simp: slice_from_def)

lemma slice_range_append:
  "unat a = length pre \<Longrightarrow> unat b = length pre + length mid \<Longrightarrow>
     slice_range (pre @ mid @ post) a b = Ret mid"
  by (simp add: slice_range_def)

text \<open>The number a big-endian byte string denotes, and the byte string of a given length that
  denotes a number.\<close>

definition be_value :: "bytes \<Rightarrow> nat" where
  "be_value bs = foldl (\<lambda>acc b. acc * 256 + unat b) 0 bs"

fun be_bytes :: "nat \<Rightarrow> nat \<Rightarrow> bytes" where
  "be_bytes 0 n = []"
| "be_bytes (Suc k) n = be_bytes k (n div 256) @ [of_nat (n mod 256)]"

lemma be_value_Nil [simp]: "be_value [] = 0"
  by (simp add: be_value_def)

lemma be_value_snoc [simp]: "be_value (bs @ [b]) = be_value bs * 256 + unat b"
  by (simp add: be_value_def)

lemma length_be_bytes [simp]: "length (be_bytes k n) = k"
  by (induction k arbitrary: n) auto

lemma be_value_be_bytes: "be_value (be_bytes k n) = n mod 256 ^ k"
proof (induction k arbitrary: n)
  case (Suc k)
  have "n mod 256 < 256" by simp
  then have "unat (of_nat (n mod 256) :: u8) = n mod 256"
    by (simp add: unsigned_of_nat take_bit_nat_eq_self)
  with Suc show ?case by (simp add: mod_mult2_eq mult.commute)
qed simp

lemma be_value_be_bytes_id: "n < 256 ^ k \<Longrightarrow> be_value (be_bytes k n) = n"
  by (simp add: be_value_be_bytes)

lemma be_value_bound: "be_value bs < 256 ^ length bs"
proof (induction bs rule: rev_induct)
  case (snoc b bs)
  have b: "unat b < 256" using unsigned_less [of b] by simp
  from snoc have "be_value bs + 1 \<le> 256 ^ length bs" by simp
  then have "(be_value bs + 1) * 256 \<le> 256 ^ length bs * 256" by (rule mult_le_mono1)
  with b show ?case by simp
qed simp


section \<open>Strings\<close>

text \<open>A Rust \<open>String\<close> is its UTF-8 bytes.  \<open>String::from_utf8\<close> accepts exactly the
  well-formed sequences of the Unicode standard: no overlong forms, no surrogates, nothing past
  \<open>U+10FFFF\<close>.\<close>

definition byte_char :: "u8 \<Rightarrow> char" where
  "byte_char b = char_of (unat b)"

definition char_byte :: "char \<Rightarrow> u8" where
  "char_byte c = of_nat (of_char c)"

definition in_range :: "u8 \<Rightarrow> nat \<Rightarrow> nat \<Rightarrow> bool" where
  "in_range b lo hi \<longleftrightarrow> lo \<le> unat b \<and> unat b \<le> hi"

definition utf8_seq2 :: "u8 \<Rightarrow> u8 \<Rightarrow> bool" where
  "utf8_seq2 a b \<longleftrightarrow> in_range a 0xC2 0xDF \<and> in_range b 0x80 0xBF"

definition utf8_seq3 :: "u8 \<Rightarrow> u8 \<Rightarrow> u8 \<Rightarrow> bool" where
  "utf8_seq3 a b c \<longleftrightarrow> in_range c 0x80 0xBF \<and>
     (unat a = 0xE0 \<and> in_range b 0xA0 0xBF \<or>
      in_range a 0xE1 0xEC \<and> in_range b 0x80 0xBF \<or>
      unat a = 0xED \<and> in_range b 0x80 0x9F \<or>
      in_range a 0xEE 0xEF \<and> in_range b 0x80 0xBF)"

definition utf8_seq4 :: "u8 \<Rightarrow> u8 \<Rightarrow> u8 \<Rightarrow> u8 \<Rightarrow> bool" where
  "utf8_seq4 a b c d \<longleftrightarrow> in_range c 0x80 0xBF \<and> in_range d 0x80 0xBF \<and>
     (unat a = 0xF0 \<and> in_range b 0x90 0xBF \<or>
      in_range a 0xF1 0xF3 \<and> in_range b 0x80 0xBF \<or>
      unat a = 0xF4 \<and> in_range b 0x80 0x8F)"

fun utf8_valid :: "bytes \<Rightarrow> bool" where
  "utf8_valid [] = True"
| "utf8_valid (a # rest) =
     (if unat a \<le> 0x7F then utf8_valid rest
      else case rest of
        [] \<Rightarrow> False
      | b # rest2 \<Rightarrow>
          if utf8_seq2 a b then utf8_valid rest2
          else (case rest2 of
             [] \<Rightarrow> False
           | c # rest3 \<Rightarrow>
               if utf8_seq3 a b c then utf8_valid rest3
               else (case rest3 of
                  [] \<Rightarrow> False
                | d # rest4 \<Rightarrow> utf8_seq4 a b c d \<and> utf8_valid rest4)))"

definition from_utf8 :: "bytes \<Rightarrow> string option" where
  "from_utf8 bs = (if utf8_valid bs then Some (map byte_char bs) else None)"

lemma utf8_valid_ascii: "(\<And>b. b \<in> set bs \<Longrightarrow> unat b \<le> 0x7F) \<Longrightarrow> utf8_valid bs"
  by (induction bs) auto

lemma byte_char_char_byte [simp]: "byte_char (char_byte c) = c"
proof -
  have "of_char c < (256 :: nat)" by (rule nat_of_char_less_256)
  then show ?thesis
    by (simp add: byte_char_def char_byte_def unsigned_of_nat take_bit_nat_eq_self)
qed

subsection \<open>Decimal printing and parsing\<close>

fun dec_string :: "nat \<Rightarrow> string" where
  "dec_string n =
     (if n < 10 then [char_of (48 + n)] else dec_string (n div 10) @ [char_of (48 + n mod 10)])"

declare dec_string.simps [simp del]

text \<open>\<open>str::parse\<close> for an unsigned integer type with maximum \<open>m\<close>: an optional plus sign, at
  least one digit, and an error as soon as the value passes the maximum.\<close>

fun parse_digits :: "nat \<Rightarrow> nat \<Rightarrow> string \<Rightarrow> nat option" where
  "parse_digits m acc [] = Some acc"
| "parse_digits m acc (c # cs) =
     (let d = of_char c :: nat in
      if 48 \<le> d \<and> d \<le> 57 then
        (let v = acc * 10 + (d - 48) in if v > m then None else parse_digits m v cs)
      else None)"

definition parse_uint :: "nat \<Rightarrow> string \<Rightarrow> nat option" where
  "parse_uint m s =
     (case s of
        [] \<Rightarrow> None
      | c # cs \<Rightarrow>
          if c = CHR ''+'' then (if cs = [] then None else parse_digits m 0 cs)
          else parse_digits m 0 s)"

definition parse_u64 :: "string \<Rightarrow> u64 option" where
  "parse_u64 s = map_option of_nat (parse_uint u64_MAX s)"

definition parse_usize :: "string \<Rightarrow> usize option" where
  "parse_usize s = map_option of_nat (parse_uint usize_MAX s)"

definition parse_u8 :: "string \<Rightarrow> u8 option" where
  "parse_u8 s = map_option of_nat (parse_uint u8_MAX s)"

lemma parse_digits_append:
  "parse_digits m acc (xs @ ys) = Option.bind (parse_digits m acc xs) (\<lambda>v. parse_digits m v ys)"
  by (induction xs arbitrary: acc) (auto simp: Let_def)

lemma of_char_digit: "d < 10 \<Longrightarrow> of_char (char_of (48 + d) :: char) = (48 + d :: nat)"
  by simp

lemma parse_digits_dec_string: "n \<le> m \<Longrightarrow> parse_digits m 0 (dec_string n) = Some n"
proof (induction n rule: dec_string.induct)
  case (1 n)
  show ?case
  proof (cases "n < 10")
    case True
    with "1.prems" show ?thesis by (simp add: dec_string.simps [of n])
  next
    case False
    with 1 have "parse_digits m 0 (dec_string (n div 10)) = Some (n div 10)" by simp
    moreover have "of_char (char_of (48 + n mod 10) :: char) = (48 + n mod 10 :: nat)"
      by (rule of_char_digit) simp
    ultimately show ?thesis
      using False "1.prems" by (simp add: dec_string.simps [of n] parse_digits_append Let_def)
  qed
qed

lemma dec_string_hd: "\<exists>d < (10 :: nat). \<exists>cs. dec_string n = char_of (48 + d) # cs"
proof (induction n rule: dec_string.induct)
  case (1 n)
  show ?case
  proof (cases "n < 10")
    case True
    then show ?thesis by (auto simp: dec_string.simps [of n])
  next
    case False
    with 1 obtain d :: nat and cs where "d < 10" "dec_string (n div 10) = char_of (48 + d) # cs" by auto
    with False show ?thesis by (auto simp: dec_string.simps [of n])
  qed
qed

lemma parse_uint_dec_string: "n \<le> m \<Longrightarrow> parse_uint m (dec_string n) = Some n"
proof -
  assume le: "n \<le> m"
  obtain d :: nat and cs where d: "d < 10" "dec_string n = char_of (48 + d) # cs"
    using dec_string_hd [of n] by auto
  have "char_of (48 + d) \<noteq> CHR ''+''"
  proof
    assume "char_of (48 + d) = CHR ''+''"
    then have "of_char (char_of (48 + d) :: char) = (of_char CHR ''+'' :: nat)" by simp
    with d(1) show False by simp
  qed
  with d parse_digits_dec_string [OF le] show ?thesis by (simp add: parse_uint_def)
qed

lemma parse_u64_dec_string: "n \<le> u64_MAX \<Longrightarrow> parse_u64 (dec_string n) = Some (of_nat n)"
  unfolding parse_u64_def by (simp only: parse_uint_dec_string option.map)

lemma parse_usize_dec_string: "n \<le> usize_MAX \<Longrightarrow> parse_usize (dec_string n) = Some (of_nat n)"
  unfolding parse_usize_def by (simp only: parse_uint_dec_string option.map)

lemma parse_u8_dec_string: "n \<le> u8_MAX \<Longrightarrow> parse_u8 (dec_string n) = Some (of_nat n)"
  unfolding parse_u8_def by (simp only: parse_uint_dec_string option.map)

lemma unat_of_nat_u64: "n \<le> u64_MAX \<Longrightarrow> unat (of_nat n :: u64) = n"
  by (simp add: unsigned_of_nat take_bit_nat_eq_self)

lemma unat_u64_le: "unat (n :: u64) \<le> u64_MAX"
proof -
  have "unat n < 2 ^ LENGTH(64)" by (rule unsigned_less)
  then show ?thesis by simp
qed

lemma unat_of_nat_u8: "n \<le> u8_MAX \<Longrightarrow> unat (of_nat n :: u8) = n"
  by (simp add: unsigned_of_nat take_bit_nat_eq_self)

end
