(* ===== verification/Async.thy ===== *)
theory Async
  imports Prelude
begin

text \<open>
  The monad of the asynchronous code.  A computation talks to nodes it does not control (an
  Ethereum node, a Cosmos node, a file system), so it is modelled against an environment whose
  answer to each request may depend on the moment of the request: the state counts the requests
  made so far and every answer is a function of that count.  Since the answer functions are
  universally quantified in the theorems, this covers every behaviour of the nodes, failures and
  changes of mind between two calls included.  What the program does to the outside world
  (transactions it submits, files it writes) is recorded in order in a trace.

  A computation may also panic (\<open>Panic\<close>) or never return (\<open>None\<close>), as the retry loops and
  the main loops may.  So that what a loop does on its way can be talked about although it never
  returns, a run may be watched up to a moment only, the \<open>horizon\<close> of its state: there it is cut
  off, before the next request, as if it had panicked.  A statement about all states is therefore a
  statement about every finite piece of every run; a state whose horizon is \<open>None\<close> lets the
  computation run undisturbed.
\<close>

named_theorems back_intros \<open>which computations come back\<close>

record 'e io_state =
  clock :: nat
  trace :: "'e list"
  horizon :: "nat option"

type_synonym ('e, 'a) io = "'e io_state \<Rightarrow> ('a outcome \<times> 'e io_state) option"

definition return_io :: "'a \<Rightarrow> ('e, 'a) io" where
  "return_io x s = Some (Ret x, s)"

definition panic_io :: "string \<Rightarrow> ('e, 'a) io" where
  "panic_io p s = Some (Panic p, s)"

definition bind_io :: "('e, 'a) io \<Rightarrow> ('a \<Rightarrow> ('e, 'b) io) \<Rightarrow> ('e, 'b) io" where
  "bind_io m f s =
     Option.bind (m s) (\<lambda>(r, s'). case r of Ret x \<Rightarrow> f x s' | Panic p \<Rightarrow> Some (Panic p, s'))"

text \<open>A synchronous piece of code inside an asynchronous function.\<close>

definition lift_io :: "'a outcome \<Rightarrow> ('e, 'a) io" where
  "lift_io r s = Some (r, s)"

text \<open>The operator \<open>?\<close> on an awaited result.\<close>

definition try_io :: "('e, 'err + 'a) io \<Rightarrow> ('a \<Rightarrow> ('e, 'err + 'b) io) \<Rightarrow> ('e, 'err + 'b) io" where
  "try_io m f = bind_io m (\<lambda>r. case r of Inl e \<Rightarrow> return_io (Inl e) | Inr x \<Rightarrow> f x)"

text \<open>A request to a node: the answer at this moment, and time passes.\<close>

definition cut_off :: "'e io_state \<Rightarrow> bool" where
  "cut_off s \<longleftrightarrow> horizon s = Some (clock s)"

lemma not_cut_off [simp]: "horizon s = None \<Longrightarrow> \<not> cut_off s"
  by (simp add: cut_off_def)

definition end_of_run :: string where
  "end_of_run = ''end of the observation''"

definition query_io :: "(nat \<Rightarrow> 'a) \<Rightarrow> ('e, 'a) io" where
  "query_io ans s =
     (if cut_off s then Some (Panic end_of_run, s)
      else Some (Ret (ans (clock s)), s\<lparr>clock := Suc (clock s)\<rparr>))"

text \<open>A request with an effect on the outside world.\<close>

definition effect_io :: "'e \<Rightarrow> (nat \<Rightarrow> 'a) \<Rightarrow> ('e, 'a) io" where
  "effect_io e ans s =
     (if cut_off s then Some (Panic end_of_run, s)
      else Some (Ret (ans (clock s)), s\<lparr>clock := Suc (clock s), trace := trace s @ [e]\<rparr>))"

text \<open>A loop over a vector whose body awaits.\<close>

fun for_io :: "'a list \<Rightarrow> ('a \<Rightarrow> ('e, unit) io) \<Rightarrow> ('e, unit) io" where
  "for_io [] f = return_io ()"
| "for_io (x # xs) f = bind_io (f x) (\<lambda>_. for_io xs f)"

text \<open>The loops that retry a request until it succeeds, sleeping in between.\<close>

partial_function (option) retry_io :: "('e, 'err + 'a) io \<Rightarrow> 'e io_state \<Rightarrow> ('a outcome \<times> 'e io_state) option" where
  "retry_io m s =
     Option.bind (m s) (\<lambda>(r, s').
       case r of
         Ret (Inr x) \<Rightarrow> Some (Ret x, s')
       | Ret (Inl e) \<Rightarrow> retry_io m s'
       | Panic p \<Rightarrow> Some (Panic p, s'))"


section \<open>Running a computation\<close>

lemma return_io_run [io_simps]: "return_io x s = Some (Ret x, s)"
  by (simp add: return_io_def)

lemma panic_io_run [io_simps]: "panic_io p s = Some (Panic p, s)"
  by (simp add: panic_io_def)

lemma lift_io_run [io_simps]: "lift_io r s = Some (r, s)"
  by (simp add: lift_io_def)

lemma query_io_run [io_simps]:
  "horizon s = None \<Longrightarrow> query_io ans s = Some (Ret (ans (clock s)), s\<lparr>clock := Suc (clock s)\<rparr>)"
  by (simp add: query_io_def)

lemma effect_io_run [io_simps]:
  "horizon s = None \<Longrightarrow> effect_io e ans s =
     Some (Ret (ans (clock s)), s\<lparr>clock := Suc (clock s), trace := trace s @ [e]\<rparr>)"
  by (simp add: effect_io_def)

lemma bind_io_return [simp]: "bind_io (return_io x) f = f x"
  by (rule ext) (simp add: bind_io_def return_io_def)

lemma bind_io_lift [simp]:
  "bind_io (lift_io r) f = (case r of Ret x \<Rightarrow> f x | Panic p \<Rightarrow> panic_io p)"
  by (rule ext) (auto simp: bind_io_def lift_io_def panic_io_def split: outcome.splits)

lemma bind_io_panic [simp]: "bind_io (panic_io p) f = panic_io p"
  by (rule ext) (simp add: bind_io_def panic_io_def)

lemma bind_io_query [io_simps]:
  "horizon s = None \<Longrightarrow> bind_io (query_io ans) f s = f (ans (clock s)) (s\<lparr>clock := Suc (clock s)\<rparr>)"
  by (simp add: bind_io_def query_io_def)

lemma bind_io_effect [io_simps]:
  "horizon s = None \<Longrightarrow> bind_io (effect_io e ans) f s =
     f (ans (clock s)) (s\<lparr>clock := Suc (clock s), trace := trace s @ [e]\<rparr>)"
  by (simp add: bind_io_def effect_io_def)

lemma bind_io_assoc: "bind_io (bind_io m f) g = bind_io m (\<lambda>x. bind_io (f x) g)"
  by (rule ext) (auto simp: bind_io_def split: option.splits outcome.splits bind_splits)

lemma try_io_return [simp]:
  "try_io (return_io r) f = (case r of Inl e \<Rightarrow> return_io (Inl e) | Inr x \<Rightarrow> f x)"
  by (simp add: try_io_def)

lemma try_io_query [io_simps]:
  "horizon s = None \<Longrightarrow> try_io (query_io ans) f s =
     (case ans (clock s) of
        Inl e \<Rightarrow> Some (Ret (Inl e), s\<lparr>clock := Suc (clock s)\<rparr>)
      | Inr x \<Rightarrow> f x (s\<lparr>clock := Suc (clock s)\<rparr>))"
  by (simp add: try_io_def bind_io_query return_io_run split: sum.splits)

lemma try_io_effect [io_simps]:
  "horizon s = None \<Longrightarrow> try_io (effect_io e ans) f s =
     (case ans (clock s) of
        Inl err \<Rightarrow> Some (Ret (Inl err), s\<lparr>clock := Suc (clock s), trace := trace s @ [e]\<rparr>)
      | Inr x \<Rightarrow> f x (s\<lparr>clock := Suc (clock s), trace := trace s @ [e]\<rparr>))"
  by (simp add: try_io_def bind_io_effect return_io_run split: sum.splits)

text \<open>What a run that comes back went through.\<close>

lemma bind_io_Some_iff:
  "bind_io m f s = Some (r, t) \<longleftrightarrow>
     (\<exists>x s1. m s = Some (Ret x, s1) \<and> f x s1 = Some (r, t)) \<or>
     (\<exists>p. m s = Some (Panic p, t) \<and> r = Panic p)"
proof (cases "m s")
  case (Some q)
  obtain r1 s1 where q: "q = (r1, s1)" by (cases q)
  show ?thesis by (cases r1) (auto simp: bind_io_def Some q)
qed (simp add: bind_io_def)

lemma try_io_Some_iff:
  "try_io m f s = Some (r, t) \<longleftrightarrow>
     (\<exists>x s1. m s = Some (Ret (Inr x), s1) \<and> f x s1 = Some (r, t)) \<or>
     (\<exists>e. m s = Some (Ret (Inl e), t) \<and> r = Ret (Inl e)) \<or>
     (\<exists>p. m s = Some (Panic p, t) \<and> r = Panic p)"
proof (cases "m s")
  case (Some q)
  obtain r1 s1 where q: "q = (r1, s1)" by (cases q)
  show ?thesis
  proof (cases r1)
    case (Ret v)
    then show ?thesis by (cases v) (auto simp: try_io_def bind_io_def return_io_def Some q)
  qed (auto simp: try_io_def bind_io_def Some q)
qed (simp add: try_io_def bind_io_def)

lemma bind_io_mono [partial_function_mono]:
  assumes "\<And>s. mono_option (\<lambda>f. B f s)" and "\<And>y s. mono_option (\<lambda>f. C y f s)"
  shows "mono_option (\<lambda>f. bind_io (B f) (\<lambda>y. C y f) s)"
  unfolding bind_io_def
proof (rule bind_mono)
  show "mono_option (\<lambda>f. B f s)" by (rule assms)
  show "mono_option (\<lambda>f. case y of (Ret x, s') \<Rightarrow> C x f s' | (Panic p, s') \<Rightarrow> Some (Panic p, s'))" for y
    by (cases y; cases "fst y") (auto intro: assms(2) option.const_mono)
qed


section \<open>Retry loops\<close>

lemma retry_io_step:
  "horizon s = None \<Longrightarrow> retry_io (query_io ans) s =
     (case ans (clock s) of
        Inr x \<Rightarrow> Some (Ret x, s\<lparr>clock := Suc (clock s)\<rparr>)
      | Inl e \<Rightarrow> retry_io (query_io ans) (s\<lparr>clock := Suc (clock s)\<rparr>))"
  by (subst retry_io.simps) (simp add: query_io_def split: sum.splits)

text \<open>The loop returns the first good answer of the node, however many requests fail first.\<close>

lemma retry_io_returns:
  "horizon s = None \<Longrightarrow> \<forall>j < k. is_err (ans (clock s + j)) \<Longrightarrow> ans (clock s + k) = Inr x \<Longrightarrow>
     retry_io (query_io ans) s = Some (Ret x, s\<lparr>clock := clock s + k + 1\<rparr>)"
proof (induction k arbitrary: s)
  case 0
  then show ?case by (simp add: retry_io_step)
next
  case (Suc k)
  from Suc.prems(2) have "is_err (ans (clock s))" by auto
  then obtain e where e: "ans (clock s) = Inl e" by (cases "ans (clock s)") auto
  let ?s = "s\<lparr>clock := Suc (clock s)\<rparr>"
  have "retry_io (query_io ans) ?s = Some (Ret x, ?s\<lparr>clock := clock ?s + k + 1\<rparr>)"
    by (rule Suc.IH) (use Suc.prems in auto)
  with e Suc.prems(1) show ?case by (simp add: retry_io_step [of s ans])
qed

text \<open>Conversely a value it returns is an answer of the node at some later moment.\<close>

definition first_answer :: "(nat \<Rightarrow> 'err + 'a) \<Rightarrow> 'e io_state \<Rightarrow> 'a outcome \<Rightarrow> 'e io_state \<Rightarrow> bool" where
  "first_answer ans s r t \<longleftrightarrow> (\<exists>k x. r = Ret x \<and> ans (clock s + k) = Inr x \<and>
     t = s\<lparr>clock := clock s + k + 1\<rparr> \<and> (\<forall>j < k. is_err (ans (clock s + j)))) \<or>
   (\<exists>h. r = Panic end_of_run \<and> t = s\<lparr>clock := h\<rparr> \<and> horizon s = Some h)"

lemma first_answer_now:
  "ans (clock s) = Inr x \<Longrightarrow> first_answer ans s (Ret x) (s\<lparr>clock := Suc (clock s)\<rparr>)"
  unfolding first_answer_def by (intro disjI1 exI [of _ 0] exI [of _ x]) simp

lemma first_answer_cut: "cut_off s \<Longrightarrow> first_answer ans s (Panic end_of_run) s"
  by (simp add: first_answer_def cut_off_def)

lemma first_answer_later:
  assumes "ans (clock s) = Inl e" and "first_answer ans (s\<lparr>clock := Suc (clock s)\<rparr>) r t"
  shows "first_answer ans s r t"
proof -
  from assms(2) consider k x where "r = Ret x" "ans (Suc (clock s) + k) = Inr x"
    "t = s\<lparr>clock := Suc (Suc (clock s) + k)\<rparr>" "\<forall>j < k. is_err (ans (Suc (clock s) + j))"
    | (cut) "first_answer ans s r t"
    by (auto simp: first_answer_def)
  then show ?thesis
  proof cases
    case 1
    with assms(1) show ?thesis unfolding first_answer_def
      by (intro disjI1 exI [of _ "Suc k"] exI [of _ x]) (auto simp: less_Suc_eq_0_disj)
  qed
qed

lemma retry_io_answer:
  fixes ans :: "nat \<Rightarrow> 'err + 'a" and s :: "'e io_state"
  assumes "retry_io (query_io ans) s = Some (r, t)"
  shows "first_answer ans s r t"
proof -
  let ?P = "\<lambda>(m :: ('e, 'err + 'a) io) (s :: 'e io_state) q. m = query_io ans \<longrightarrow> first_answer ans s (fst q) (snd q)"
  have "?P (query_io ans) s (r, t)"
  proof (rule retry_io.raw_induct [where P = ?P, OF _ assms], intro impI)
    fix f and m :: "('e, 'err + 'a) io" and s :: "'e io_state" and q
    assume IH: "\<And>m' s' q'. f m' s' = Some q' \<Longrightarrow> ?P m' s' q'"
      and eq: "Option.bind (m s) (\<lambda>(r, s'). case r of
           Ret (Inl e) \<Rightarrow> f m s' | Ret (Inr x) \<Rightarrow> Some (Ret x, s')
         | Panic p \<Rightarrow> Some (Panic p, s')) = Some q"
      and m: "m = query_io ans"
    show "first_answer ans s (fst q) (snd q)"
    proof (cases "cut_off s")
      case True
      with eq m show ?thesis by (auto simp: query_io_def intro: first_answer_cut)
    next
      case False
      show ?thesis
      proof (cases "ans (clock s)")
        case (Inr x)
        with eq m False show ?thesis by (auto simp: query_io_def intro: first_answer_now)
      next
        case (Inl e)
        with eq m False have "f m (s\<lparr>clock := Suc (clock s)\<rparr>) = Some q" by (simp add: query_io_def)
        from IH [OF this] m have "first_answer ans (s\<lparr>clock := Suc (clock s)\<rparr>) (fst q) (snd q)"
          by simp
        with Inl show ?thesis by (rule first_answer_later)
      qed
    qed
  qed
  then show ?thesis by simp
qed

text \<open>A node that never gives a good answer keeps the loop running forever.\<close>

lemma retry_io_diverges:
  "horizon s = None \<Longrightarrow> \<forall>j. is_err (ans (clock s + j)) \<Longrightarrow> retry_io (query_io ans) s = None"
proof (rule ccontr)
  assume h: "horizon s = None" and err: "\<forall>j. is_err (ans (clock s + j))" and "retry_io (query_io ans) s \<noteq> None"
  then obtain r t where "retry_io (query_io ans) s = Some (r, t)" by auto
  then obtain k x where "ans (clock s + k) = Inr x"
    using h by (auto dest!: retry_io_answer simp: first_answer_def)
  with err [rule_format, of k] show False by simp
qed

section \<open>What a computation may do to the outside world\<close>

text \<open>\<open>emits P m\<close>: whenever \<open>m\<close> comes back (with a value, a panic or at the horizon), it has
  only appended effects that satisfy \<open>P\<close> to the trace; since every finite piece of a run ends at
  some horizon, this is a property of runs that never end as well.  \<open>yields Q m\<close>: every value \<open>m\<close> returns satisfies
  \<open>Q\<close>.\<close>

definition emits :: "('e \<Rightarrow> bool) \<Rightarrow> ('e, 'a) io \<Rightarrow> bool" where
  "emits P m \<longleftrightarrow> (\<forall>s r t. m s = Some (r, t) \<longrightarrow> (\<exists>new. trace t = trace s @ new \<and> list_all P new))"

definition yields :: "('a \<Rightarrow> bool) \<Rightarrow> ('e, 'a) io \<Rightarrow> bool" where
  "yields Q m \<longleftrightarrow> (\<forall>s x t. m s = Some (Ret x, t) \<longrightarrow> Q x)"

abbreviation silent :: "('e, 'a) io \<Rightarrow> bool" where
  "silent m \<equiv> emits (\<lambda>_. False) m"

lemma emitsI:
  "(\<And>s r t. m s = Some (r, t) \<Longrightarrow> \<exists>new. trace t = trace s @ new \<and> list_all P new) \<Longrightarrow> emits P m"
  by (simp add: emits_def)

lemma emitsD:
  "emits P m \<Longrightarrow> m s = Some (r, t) \<Longrightarrow> \<exists>new. trace t = trace s @ new \<and> list_all P new"
  by (simp add: emits_def)

lemma silentD: "silent m \<Longrightarrow> m s = Some (r, t) \<Longrightarrow> trace t = trace s"
  by (fastforce dest: emitsD simp: list_all_iff)

lemma emits_weaken: "emits P m \<Longrightarrow> (\<And>e. P e \<Longrightarrow> Q e) \<Longrightarrow> emits Q m"
  unfolding emits_def by (meson list.pred_mono_strong)

lemma emits_silent [intro]: "silent m \<Longrightarrow> emits P m"
  by (erule emits_weaken) simp

lemma emits_return [emits_intros]: "emits P (return_io x)"
  by (simp add: emits_def return_io_def)

lemma emits_panic [emits_intros]: "emits P (panic_io p)"
  by (simp add: emits_def panic_io_def)

lemma emits_lift [emits_intros]: "emits P (lift_io r)"
  by (simp add: emits_def lift_io_def)

lemma emits_query [emits_intros]: "emits P (query_io ans)"
  by (auto simp: emits_def query_io_def)

lemma emits_effect [emits_intros]: "P e \<Longrightarrow> emits P (effect_io e ans)"
  by (auto simp: emits_def effect_io_def)

lemma emits_bind_yields:
  assumes m: "emits P m" and q: "yields Q m" and f: "\<And>x. Q x \<Longrightarrow> emits P (f x)"
  shows "emits P (bind_io m f)"
proof (rule emitsI)
  fix s r t
  assume "bind_io m f s = Some (r, t)"
  then consider (ret) x s1 where "m s = Some (Ret x, s1)" "f x s1 = Some (r, t)"
    | (pan) p where "m s = Some (Panic p, t)"
    by (auto simp: bind_io_Some_iff)
  then show "\<exists>new. trace t = trace s @ new \<and> list_all P new"
  proof cases
    case ret
    from q ret(1) have "Q x" by (auto simp: yields_def)
    from emitsD [OF f [OF this] ret(2)] emitsD [OF m ret(1)] show ?thesis by force
  next
    case pan
    with m show ?thesis by (rule emitsD)
  qed
qed

lemma yields_True: "yields (\<lambda>_. True) m"
  by (simp add: yields_def)

lemma emits_bind [emits_intros]: "emits P m \<Longrightarrow> (\<And>x. emits P (f x)) \<Longrightarrow> emits P (bind_io m f)"
  by (rule emits_bind_yields [OF _ yields_True])

lemma emits_try_yields:
  "emits P m \<Longrightarrow> yields (\<lambda>r. \<forall>x. r = Inr x \<longrightarrow> Q x) m \<Longrightarrow> (\<And>x. Q x \<Longrightarrow> emits P (f x)) \<Longrightarrow>
     emits P (try_io m f)"
  unfolding try_io_def by (erule (1) emits_bind_yields) (auto intro: emits_return split: sum.splits)

lemma emits_try [emits_intros]: "emits P m \<Longrightarrow> (\<And>x. emits P (f x)) \<Longrightarrow> emits P (try_io m f)"
  unfolding try_io_def by (rule emits_bind) (auto intro: emits_return split: sum.splits)

lemma emits_for [emits_intros]:
  "(\<And>x. x \<in> set xs \<Longrightarrow> emits P (f x)) \<Longrightarrow> emits P (for_io xs f)"
  by (induction xs) (auto intro: emits_intros)

lemma emits_retry [emits_intros]: "emits P (retry_io (query_io ans))"
  by (rule emitsI) (auto dest!: retry_io_answer simp: first_answer_def)

lemma emits_if [emits_intros]:
  "(b \<Longrightarrow> emits P m) \<Longrightarrow> (\<not> b \<Longrightarrow> emits P n) \<Longrightarrow> emits P (if b then m else n)"
  by simp

lemma emits_case_sum [emits_intros]:
  "(\<And>e. r = Inl e \<Longrightarrow> emits P (f e)) \<Longrightarrow> (\<And>x. r = Inr x \<Longrightarrow> emits P (g x)) \<Longrightarrow>
     emits P (case r of Inl e \<Rightarrow> f e | Inr x \<Rightarrow> g x)"
  by (cases r) auto

lemma emits_case_option [emits_intros]:
  "(r = None \<Longrightarrow> emits P f) \<Longrightarrow> (\<And>x. r = Some x \<Longrightarrow> emits P (g x)) \<Longrightarrow>
     emits P (case r of None \<Rightarrow> f | Some x \<Rightarrow> g x)"
  by (cases r) auto

lemma emits_case_outcome [emits_intros]:
  "(\<And>x. r = Ret x \<Longrightarrow> emits P (f x)) \<Longrightarrow> (\<And>p. r = Panic p \<Longrightarrow> emits P (g p)) \<Longrightarrow>
     emits P (case r of Ret x \<Rightarrow> f x | Panic p \<Rightarrow> g p)"
  by (cases r) auto

lemma emits_case_prod [emits_intros]:
  "(\<And>a b. q = (a, b) \<Longrightarrow> emits P (f a b)) \<Longrightarrow> emits P (case q of (a, b) \<Rightarrow> f a b)"
  by (cases q) auto

lemma emits_Let [emits_intros]: "emits P (f x) \<Longrightarrow> emits P (let y = x in f y)"
  by simp

text \<open>The effects of a run, taken out of its trace.\<close>

lemma emits_trace:
  "emits P m \<Longrightarrow> m s = Some (r, t) \<Longrightarrow> trace s = [] \<Longrightarrow> e \<in> set (trace t) \<Longrightarrow> P e"
  by (fastforce dest: emitsD simp: list_all_iff)

text \<open>The continuation of a synchronous step runs only on the value the step has.\<close>

lemma emits_try_lift [emits_intros]:
  "(\<And>x. r = Ret (Inr x) \<Longrightarrow> emits P (f x)) \<Longrightarrow> emits P (try_io (lift_io r) f)"
  by (rule emits_try_yields [where Q = "\<lambda>x. r = Ret (Inr x)"])
    (auto simp: yields_def lift_io_def intro: emits_lift)

lemma emits_bind_lift [emits_intros]:
  "(\<And>x. r = Ret x \<Longrightarrow> emits P (f x)) \<Longrightarrow> emits P (bind_io (lift_io r) f)"
  by (cases r) (auto intro: emits_panic)

section \<open>How often a computation acts\<close>

text \<open>\<open>emits_upto n P m\<close>: at most \<open>n\<close> effects, each of which satisfies \<open>P\<close>.\<close>

definition emits_upto :: "nat \<Rightarrow> ('e \<Rightarrow> bool) \<Rightarrow> ('e, 'a) io \<Rightarrow> bool" where
  "emits_upto n P m \<longleftrightarrow> (\<forall>s r t. m s = Some (r, t) \<longrightarrow>
     (\<exists>new. trace t = trace s @ new \<and> list_all P new \<and> length new \<le> n))"

lemma emits_uptoI:
  "(\<And>s r t. m s = Some (r, t) \<Longrightarrow> \<exists>new. trace t = trace s @ new \<and> list_all P new \<and> length new \<le> n) \<Longrightarrow>
     emits_upto n P m"
  by (simp add: emits_upto_def)

lemma emits_uptoD:
  "emits_upto n P m \<Longrightarrow> m s = Some (r, t) \<Longrightarrow>
     \<exists>new. trace t = trace s @ new \<and> list_all P new \<and> length new \<le> n"
  by (simp add: emits_upto_def)

lemma emits_upto_emits: "emits_upto n P m \<Longrightarrow> emits P m"
  unfolding emits_upto_def emits_def by blast

lemma upto_silent: "silent m \<Longrightarrow> emits_upto n P m"
  by (rule emits_uptoI) (auto dest: silentD)

lemma upto_effect: "P e \<Longrightarrow> 0 < n \<Longrightarrow> emits_upto n P (effect_io e ans)"
  by (rule emits_uptoI) (auto simp: effect_io_def split: if_splits)

lemma upto_bind:
  assumes m: "emits_upto n P m" and f: "\<And>x. emits_upto k P (f x)"
  shows "emits_upto (n + k) P (bind_io m f)"
proof (rule emits_uptoI)
  fix s r t
  assume "bind_io m f s = Some (r, t)"
  then consider (ret) x s1 where "m s = Some (Ret x, s1)" "f x s1 = Some (r, t)"
    | (pan) p where "m s = Some (Panic p, t)"
    by (auto simp: bind_io_Some_iff)
  then show "\<exists>new. trace t = trace s @ new \<and> list_all P new \<and> length new \<le> n + k"
  proof cases
    case ret
    from emits_uptoD [OF m ret(1)] obtain u where u: "trace s1 = trace s @ u" "list_all P u" "length u \<le> n"
      by blast
    from emits_uptoD [OF f ret(2)] obtain v where v: "trace t = trace s1 @ v" "list_all P v" "length v \<le> k"
      by blast
    from u v show ?thesis by (intro exI [of _ "u @ v"]) simp
  next
    case pan
    from emits_uptoD [OF m pan] show ?thesis by force
  qed
qed

text \<open>A computation that asks first and acts in its continuation.\<close>

lemma upto_bind_silent: "silent m \<Longrightarrow> (\<And>x. emits_upto n P (f x)) \<Longrightarrow> emits_upto n P (bind_io m f)"
  using upto_bind [of 0 P m n f] by (simp add: upto_silent)

lemma upto_try_silent: "silent m \<Longrightarrow> (\<And>x. emits_upto n P (f x)) \<Longrightarrow> emits_upto n P (try_io m f)"
  unfolding try_io_def
  by (erule upto_bind_silent) (auto intro: upto_silent emits_return split: sum.splits)

text \<open>A computation that acts once and whose continuation only asks.\<close>

lemma upto_bind_last: "emits_upto n P m \<Longrightarrow> (\<And>x. silent (f x)) \<Longrightarrow> emits_upto n P (bind_io m f)"
  using upto_bind [of n P m 0 f] by (simp add: upto_silent)

lemma upto_try_last: "emits_upto n P m \<Longrightarrow> (\<And>x. silent (f x)) \<Longrightarrow> emits_upto n P (try_io m f)"
  unfolding try_io_def
  by (erule upto_bind_last) (auto intro: emits_return split: sum.splits)

lemma upto_try_lift: "(\<And>x. r = Ret (Inr x) \<Longrightarrow> emits_upto n P (f x)) \<Longrightarrow> emits_upto n P (try_io (lift_io r) f)"
  by (rule emits_uptoI) (fastforce simp: try_io_Some_iff lift_io_def dest: emits_uptoD)

lemma upto_if:
  "(b \<Longrightarrow> emits_upto n P m) \<Longrightarrow> (\<not> b \<Longrightarrow> emits_upto n P k) \<Longrightarrow> emits_upto n P (if b then m else k)"
  by simp

lemma upto_for:
  "(\<And>x. x \<in> set xs \<Longrightarrow> emits_upto n P (f x)) \<Longrightarrow> emits_upto (length xs * n) P (for_io xs f)"
proof (induction xs)
  case (Cons x xs)
  have "emits_upto (n + length xs * n) P (bind_io (f x) (\<lambda>_. for_io xs f))"
    by (rule upto_bind) (use Cons in auto)
  then show ?case by simp
qed (simp add: upto_silent emits_return)

text \<open>A retry loop around any computation does nothing but what the computation does.\<close>

lemma emits_retry_any:
  fixes m :: "('e, 'err + 'a) io"
  assumes m: "emits P m"
  shows "emits P (retry_io m)"
proof (rule emitsI)
  fix s r t
  assume run: "retry_io m s = Some (r, t)"
  let ?P = "\<lambda>(k :: ('e, 'err + 'a) io) (s :: 'e io_state) q. k = m \<longrightarrow> (\<exists>new. trace (snd q) = trace s @ new \<and> list_all P new)"
  have "?P m s (r, t)"
  proof (rule retry_io.raw_induct [where P = ?P, OF _ run], intro impI)
    fix f and k :: "('e, 'err + 'a) io" and s :: "'e io_state" and q
    assume IH: "\<And>k' s' q'. f k' s' = Some q' \<Longrightarrow> ?P k' s' q'" and k: "k = m"
      and eq: "Option.bind (k s) (\<lambda>(r, s'). case r of
           Ret (Inl e) \<Rightarrow> f k s' | Ret (Inr x) \<Rightarrow> Some (Ret x, s')
         | Panic p \<Rightarrow> Some (Panic p, s')) = Some q"
    from eq obtain r1 s1 where r1: "m s = Some (r1, s1)"
      and rest: "(case r1 of Ret (Inl e) \<Rightarrow> f k s1 | Ret (Inr x) \<Rightarrow> Some (Ret x, s1) | Panic p \<Rightarrow> Some (Panic p, s1)) = Some q"
      by (cases "m s") (auto simp: k)
    from emitsD [OF m r1] obtain u where u: "trace s1 = trace s @ u" "list_all P u" by blast
    show "\<exists>new. trace (snd q) = trace s @ new \<and> list_all P new"
    proof (cases "\<exists>e. r1 = Ret (Inl e)")
      case True
      with rest have "f k s1 = Some q" by auto
      from IH [OF this] k obtain v where "trace (snd q) = trace s1 @ v" "list_all P v" by blast
      with u show ?thesis by (intro exI [of _ "u @ v"]) simp
    next
      case False
      with rest have "snd q = s1" by (auto split: outcome.splits sum.splits)
      with u show ?thesis by blast
    qed
  qed
  then show "\<exists>new. trace t = trace s @ new \<and> list_all P new" by simp
qed

section \<open>Loops with a state\<close>

text \<open>\<open>for x in xs { ... }\<close> whose body updates local variables.\<close>

fun fold_io :: "('a \<Rightarrow> 'c \<Rightarrow> ('e, 'c) io) \<Rightarrow> 'a list \<Rightarrow> 'c \<Rightarrow> ('e, 'c) io" where
  "fold_io f [] c = return_io c"
| "fold_io f (x # xs) c = bind_io (f x c) (\<lambda>c'. fold_io f xs c')"

text \<open>\<open>while\<close> and \<open>loop\<close>: the body either goes on with new values of the local variables
  (\<open>Inl\<close>) or leaves the loop with a result (\<open>Inr\<close>).\<close>

partial_function (option) loop_io :: "('c \<Rightarrow> ('e, 'c + 'a) io) \<Rightarrow> 'c \<Rightarrow> 'e io_state \<Rightarrow> ('a outcome \<times> 'e io_state) option" where
  "loop_io body c s =
     Option.bind (body c s) (\<lambda>(r, s').
       case r of
         Ret (Inl c') \<Rightarrow> loop_io body c' s'
       | Ret (Inr x) \<Rightarrow> Some (Ret x, s')
       | Panic p \<Rightarrow> Some (Panic p, s'))"

lemma loop_io_unfold:
  "loop_io body c = bind_io (body c) (\<lambda>r. case r of Inl c' \<Rightarrow> loop_io body c' | Inr x \<Rightarrow> return_io x)"
  by (rule ext, subst loop_io.simps)
    (auto simp: bind_io_def return_io_def split: option.splits outcome.splits sum.splits bind_splits)

lemma emits_fold [emits_intros]:
  "(\<And>x c. x \<in> set xs \<Longrightarrow> emits P (f x c)) \<Longrightarrow> emits P (fold_io f xs c)"
  by (induction xs arbitrary: c) (auto intro: emits_intros)

lemma yields_fold:
  assumes "Q c" and "\<And>x c. x \<in> set xs \<Longrightarrow> Q c \<Longrightarrow> yields Q (f x c)"
  shows "yields Q (fold_io f xs c)"
  using assms
proof (induction xs arbitrary: c)
  case Nil
  then show ?case by (simp add: yields_def return_io_def)
next
  case (Cons x xs)
  show ?case
  proof (unfold yields_def, intro allI impI)
    fix s y t
    assume "fold_io f (x # xs) c s = Some (Ret y, t)"
    then obtain c' s1 where c': "f x c s = Some (Ret c', s1)" "fold_io f xs c' s1 = Some (Ret y, t)"
      by (auto simp: bind_io_Some_iff)
    from Cons.prems(2) [of x c] Cons.prems(1) c'(1) have "Q c'" by (auto simp: yields_def)
    then have "yields Q (fold_io f xs c')" by (rule Cons.IH) (use Cons.prems(2) in auto)
    with c'(2) show "Q y" by (auto simp: yields_def)
  qed
qed

text \<open>Rule induction for runs of a loop that come back: an invariant of the local variables and of
  the state, and what holds when the loop is left.\<close>

lemma loop_io_induct:
  fixes body :: "'c \<Rightarrow> ('e, 'c + 'a) io"
  assumes run: "loop_io body c s = Some (r, t)" and init: "I c s"
    and step: "\<And>c s c' s'. I c s \<Longrightarrow> body c s = Some (Ret (Inl c'), s') \<Longrightarrow> I c' s'"
    and fin: "\<And>c s x s'. I c s \<Longrightarrow> body c s = Some (Ret (Inr x), s') \<Longrightarrow> Q (Ret x) s'"
    and pan: "\<And>c s p s'. I c s \<Longrightarrow> body c s = Some (Panic p, s') \<Longrightarrow> Q (Panic p) s'"
  shows "Q r t"
proof -
  let ?P = "\<lambda>(b :: 'c \<Rightarrow> ('e, 'c + 'a) io) c (s :: 'e io_state) q. b = body \<longrightarrow> I c s \<longrightarrow> Q (fst q) (snd q)"
  have "?P body c s (r, t)"
  proof (rule loop_io.raw_induct [where P = ?P, OF _ run], intro impI)
    fix f and b :: "'c \<Rightarrow> ('e, 'c + 'a) io" and c and s :: "'e io_state" and q
    assume IH: "\<And>b' c' s' q'. f b' c' s' = Some q' \<Longrightarrow> ?P b' c' s' q'" and b: "b = body" and I: "I c s"
      and eq: "Option.bind (b c s) (\<lambda>(r, s'). case r of
           Ret (Inl c') \<Rightarrow> f b c' s' | Ret (Inr x) \<Rightarrow> Some (Ret x, s')
         | Panic p \<Rightarrow> Some (Panic p, s')) = Some q"
    from eq obtain r1 s1 where r1: "body c s = Some (r1, s1)"
      and rest: "(case r1 of Ret (Inl c') \<Rightarrow> f b c' s1 | Ret (Inr x) \<Rightarrow> Some (Ret x, s1) | Panic p \<Rightarrow> Some (Panic p, s1)) = Some q"
      by (cases "body c s") (auto simp: b)
    consider (go) c' where "r1 = Ret (Inl c')" | (leave) x where "r1 = Ret (Inr x)" | (p) p where "r1 = Panic p"
      by (metis outcome.exhaust sum.exhaust)
    then show "Q (fst q) (snd q)"
    proof cases
      case go
      with rest have "f b c' s1 = Some q" by simp
      from IH [OF this] b step [OF I] r1 go show ?thesis by blast
    next
      case leave
      with rest have "q = (Ret x, s1)" by simp
      with fin [OF I] r1 leave show ?thesis by simp
    next
      case p
      with rest have "q = (Panic p, s1)" by simp
      with pan [OF I] r1 p show ?thesis by simp
    qed
  qed
  with init show ?thesis by simp
qed

lemma emits_loop [emits_intros]:
  assumes "\<And>c. emits P (body c)"
  shows "emits P (loop_io body c)"
proof (rule emitsI)
  fix s r t
  assume run: "loop_io body c s = Some (r, t)"
  let ?I = "\<lambda>s'. \<exists>new. trace s' = trace s @ new \<and> list_all P new"
  have step: "?I s2" if "?I s1" "body c' s1 = Some (q, s2)" for c' s1 q s2
  proof -
    from emitsD [OF assms that(2)] that(1) show ?thesis by force
  qed
  show "?I t"
    by (rule loop_io_induct [where I = "\<lambda>c. ?I" and Q = "\<lambda>r. ?I", OF run])
      (force intro: step)+
qed

lemma yields_loop:
  assumes "I c" and "\<And>c. I c \<Longrightarrow> yields (\<lambda>r. case r of Inl c' \<Rightarrow> I c' | Inr x \<Rightarrow> Q x) (body c)"
  shows "yields Q (loop_io body c)"
proof (unfold yields_def, intro allI impI)
  fix s x t
  assume run: "loop_io body c s = Some (Ret x, t)"
  have "\<forall>x'. Ret x = Ret x' \<longrightarrow> Q x'"
  proof (rule loop_io_induct [where I = "\<lambda>c s. I c" and Q = "\<lambda>r s. \<forall>x. r = Ret x \<longrightarrow> Q x", OF run])
    show "I c" by (rule assms(1))
    show "I c'" if "I c" "body c s = Some (Ret (Inl c'), s')" for c s c' s'
      using assms(2) [OF that(1)] that(2) by (force simp: yields_def)
    show "\<forall>x. Ret y = Ret x \<longrightarrow> Q x" if "I c" "body c s = Some (Ret (Inr y), s')" for c s y s'
      using assms(2) [OF that(1)] that(2) by (force simp: yields_def)
  qed simp
  then show "Q x" by simp
qed

text \<open>A body that comes back and decreases a measure whenever it goes on: the loop comes back.\<close>

lemma loop_io_returns:
  fixes body :: "'c \<Rightarrow> ('e, 'c + 'a) io"
  assumes "\<And>c s. I c \<Longrightarrow> \<exists>r t. body c s = Some (r, t)"
    and "\<And>c s c' t. I c \<Longrightarrow> body c s = Some (Ret (Inl c'), t) \<Longrightarrow> I c' \<and> \<mu> c' < (\<mu> c :: nat)"
    and "I c"
  shows "\<exists>r t. loop_io body c s = Some (r, t)"
  using assms(3)
proof (induction "\<mu> c" arbitrary: c s rule: less_induct)
  case less
  from assms(1) [OF less.prems] obtain r t where rt: "body c s = Some (r, t)" by blast
  show ?case
  proof (cases "\<exists>c'. r = Ret (Inl c')")
    case True
    then obtain c' where c': "r = Ret (Inl c')" by blast
    with assms(2) [OF less.prems] rt have "I c'" "\<mu> c' < \<mu> c" by auto
    from less.hyps [OF this(2,1), of t] rt c' show ?thesis by (subst loop_io.simps) simp
  next
    case False
    with rt show ?thesis by (subst loop_io.simps) (auto split: outcome.splits sum.splits)
  qed
qed

text \<open>A body that never leaves: the loop never returns a value.\<close>

lemma loop_io_forever:
  assumes "\<And>c s x t. body c s \<noteq> Some (Ret (Inr x), t)"
  shows "loop_io body c s \<noteq> Some (Ret x, t)"
proof
  assume run: "loop_io body c s = Some (Ret x, t)"
  have "is_panic (Ret x)"
    by (rule loop_io_induct [where I = "\<lambda>c s. True" and Q = "\<lambda>r s. is_panic r", OF run])
      (use assms in auto)
  then show False by simp
qed

section \<open>Computations that come back\<close>

definition comes_back :: "('e, 'a) io \<Rightarrow> bool" where
  "comes_back m \<longleftrightarrow> (\<forall>s. m s \<noteq> None)"

lemma comes_backD: "comes_back m \<Longrightarrow> \<exists>r t. m s = Some (r, t)"
  by (auto simp: comes_back_def)

lemma back_return [back_intros]: "comes_back (return_io x)"
  by (simp add: comes_back_def return_io_def)

lemma back_panic [back_intros]: "comes_back (panic_io p)"
  by (simp add: comes_back_def panic_io_def)

lemma back_lift [back_intros]: "comes_back (lift_io r)"
  by (simp add: comes_back_def lift_io_def)

lemma back_query [back_intros]: "comes_back (query_io ans)"
  by (simp add: comes_back_def query_io_def)

lemma back_effect [back_intros]: "comes_back (effect_io e ans)"
  by (simp add: comes_back_def effect_io_def)

lemma back_bind [back_intros]: "comes_back m \<Longrightarrow> (\<And>x. comes_back (f x)) \<Longrightarrow> comes_back (bind_io m f)"
  unfolding comes_back_def bind_io_def
  by (auto split: bind_splits prod.splits outcome.splits)

lemma back_try [back_intros]: "comes_back m \<Longrightarrow> (\<And>x. comes_back (f x)) \<Longrightarrow> comes_back (try_io m f)"
  unfolding try_io_def by (rule back_bind) (auto intro: back_return split: sum.splits)

lemma back_for [back_intros]: "(\<And>x. x \<in> set xs \<Longrightarrow> comes_back (f x)) \<Longrightarrow> comes_back (for_io xs f)"
  by (induction xs) (auto intro: back_intros)

lemma back_fold [back_intros]: "(\<And>x c. x \<in> set xs \<Longrightarrow> comes_back (f x c)) \<Longrightarrow> comes_back (fold_io f xs c)"
  by (induction xs arbitrary: c) (auto intro: back_intros)

lemma back_if [back_intros]:
  "(b \<Longrightarrow> comes_back m) \<Longrightarrow> (\<not> b \<Longrightarrow> comes_back n) \<Longrightarrow> comes_back (if b then m else n)"
  by simp

lemma back_case_sum [back_intros]:
  "(\<And>e. r = Inl e \<Longrightarrow> comes_back (f e)) \<Longrightarrow> (\<And>x. r = Inr x \<Longrightarrow> comes_back (g x)) \<Longrightarrow>
     comes_back (case r of Inl e \<Rightarrow> f e | Inr x \<Rightarrow> g x)"
  by (cases r) auto

lemma back_case_option [back_intros]:
  "(r = None \<Longrightarrow> comes_back f) \<Longrightarrow> (\<And>x. r = Some x \<Longrightarrow> comes_back (g x)) \<Longrightarrow>
     comes_back (case r of None \<Rightarrow> f | Some x \<Rightarrow> g x)"
  by (cases r) auto

lemma back_case_list [back_intros]:
  "(r = [] \<Longrightarrow> comes_back f) \<Longrightarrow> (\<And>x xs. r = x # xs \<Longrightarrow> comes_back (g x xs)) \<Longrightarrow>
     comes_back (case r of [] \<Rightarrow> f | x # xs \<Rightarrow> g x xs)"
  by (cases r) auto

lemma back_case_prod [back_intros]:
  "(\<And>a b. q = (a, b) \<Longrightarrow> comes_back (f a b)) \<Longrightarrow> comes_back (case q of (a, b) \<Rightarrow> f a b)"
  by (cases q) auto

lemma emits_case_list [emits_intros]:
  "(r = [] \<Longrightarrow> emits P f) \<Longrightarrow> (\<And>x xs. r = x # xs \<Longrightarrow> emits P (g x xs)) \<Longrightarrow>
     emits P (case r of [] \<Rightarrow> f | x # xs \<Rightarrow> g x xs)"
  by (cases r) auto

lemma back_loop:
  fixes body :: "'c \<Rightarrow> ('e, 'c + 'a) io" and \<mu> :: "'c \<Rightarrow> nat"
  assumes "\<And>c. I c \<Longrightarrow> comes_back (body c)"
    and "\<And>c s c' t. I c \<Longrightarrow> body c s = Some (Ret (Inl c'), t) \<Longrightarrow> I c' \<and> \<mu> c' < \<mu> c"
    and "I c"
  shows "comes_back (loop_io body c)"
  unfolding comes_back_def
proof
  fix s
  have "\<exists>r t. loop_io body c s = Some (r, t)"
    by (rule loop_io_returns [where I = I and \<mu> = \<mu>]) (use assms comes_backD in blast)+
  then show "loop_io body c s \<noteq> None" by auto
qed

text \<open>Effects of a computation one of whose values was returned before.\<close>

lemma yields_bind: "yields Q m \<Longrightarrow> (\<And>x. Q x \<Longrightarrow> yields R (f x)) \<Longrightarrow> yields R (bind_io m f)"
  unfolding yields_def by (fastforce simp: bind_io_Some_iff)

lemma yields_return: "Q x \<Longrightarrow> yields Q (return_io x)"
  by (simp add: yields_def return_io_def)

lemma yields_panic: "yields Q (panic_io p)"
  by (simp add: yields_def panic_io_def)

lemma yields_lift: "(\<And>x. r = Ret x \<Longrightarrow> Q x) \<Longrightarrow> yields Q (lift_io r)"
  by (simp add: yields_def lift_io_def)

lemma yields_query: "(\<And>n. Q (ans n)) \<Longrightarrow> yields Q (query_io ans)"
  by (auto simp: yields_def query_io_def)

lemma yields_weaken: "yields Q m \<Longrightarrow> (\<And>x. Q x \<Longrightarrow> R x) \<Longrightarrow> yields R m"
  by (auto simp: yields_def)

text \<open>Rules for one step of a computation, the more specific ones first: what a synchronous step or
  a request gave is known to what follows.\<close>

lemma yields_bind_lift: "(\<And>x. r = Ret x \<Longrightarrow> yields R (f x)) \<Longrightarrow> yields R (bind_io (lift_io r) f)"
  by (cases r) (auto intro: yields_panic)

lemma yields_bind_query: "(\<And>n. yields R (f (ans n))) \<Longrightarrow> yields R (bind_io (query_io ans) f)"
  unfolding yields_def by (fastforce simp: bind_io_Some_iff query_io_def split: if_splits)

lemma yields_bind_any: "(\<And>x. yields R (f x)) \<Longrightarrow> yields R (bind_io m f)"
  by (rule yields_bind [OF yields_True])

lemma yields_try_any: "(\<And>e. R (Inl e)) \<Longrightarrow> (\<And>x. yields R (f x)) \<Longrightarrow> yields R (try_io m f)"
  unfolding try_io_def by (rule yields_bind_any) (auto intro: yields_return split: sum.splits)

lemma yields_if: "(b \<Longrightarrow> yields R m) \<Longrightarrow> (\<not> b \<Longrightarrow> yields R n) \<Longrightarrow> yields R (if b then m else n)"
  by simp

lemma yields_case_sum:
  "(\<And>e. r = Inl e \<Longrightarrow> yields R (f e)) \<Longrightarrow> (\<And>x. r = Inr x \<Longrightarrow> yields R (g x)) \<Longrightarrow>
     yields R (case r of Inl e \<Rightarrow> f e | Inr x \<Rightarrow> g x)"
  by (cases r) auto

lemma yields_case_option:
  "(r = None \<Longrightarrow> yields R f) \<Longrightarrow> (\<And>x. r = Some x \<Longrightarrow> yields R (g x)) \<Longrightarrow>
     yields R (case r of None \<Rightarrow> f | Some x \<Rightarrow> g x)"
  by (cases r) auto

lemma yields_case_list:
  "(r = [] \<Longrightarrow> yields R f) \<Longrightarrow> (\<And>x xs. r = x # xs \<Longrightarrow> yields R (g x xs)) \<Longrightarrow>
     yields R (case r of [] \<Rightarrow> f | x # xs \<Rightarrow> g x xs)"
  by (cases r) auto

lemma yields_case_prod:
  "(\<And>a b. q = (a, b) \<Longrightarrow> yields R (f a b)) \<Longrightarrow> yields R (case q of (a, b) \<Rightarrow> f a b)"
  by (cases q) auto

lemmas yields_rules = yields_return yields_panic yields_bind_lift yields_bind_query yields_if
  yields_case_sum yields_case_option yields_case_list yields_case_prod yields_bind_any

section \<open>Effects that depend on what was answered\<close>

lemma emits_upto_weaken: "emits_upto n P m \<Longrightarrow> (\<And>e. P e \<Longrightarrow> Q e) \<Longrightarrow> emits_upto n Q m"
  unfolding emits_upto_def by (meson list.pred_mono_strong)

lemma upto_try_yields:
  assumes "silent m" "yields (\<lambda>r. \<forall>x. r = Inr x \<longrightarrow> Q x) m" "\<And>x. Q x \<Longrightarrow> emits_upto n P (f x)"
  shows "emits_upto n P (try_io m f)"
proof (rule emits_uptoI)
  fix s r t
  assume "try_io m f s = Some (r, t)"
  then consider (ok) x s1 where "m s = Some (Ret (Inr x), s1)" "f x s1 = Some (r, t)"
    | (err) r' where "m s = Some (r', t)"
    by (auto simp: try_io_Some_iff)
  then show "\<exists>new. trace t = trace s @ new \<and> list_all P new \<and> length new \<le> n"
  proof cases
    case ok
    with assms(2) have "Q x" by (auto simp: yields_def)
    from emits_uptoD [OF assms(3) [OF this] ok(2)] silentD [OF assms(1) ok(1)] show ?thesis by simp
  next
    case err
    from silentD [OF assms(1) err] show ?thesis by simp
  qed
qed

lemma upto_bind_yields:
  assumes "silent m" "yields Q m" "\<And>x. Q x \<Longrightarrow> emits_upto n P (f x)"
  shows "emits_upto n P (bind_io m f)"
proof (rule emits_uptoI)
  fix s r t
  assume "bind_io m f s = Some (r, t)"
  then consider (ok) x s1 where "m s = Some (Ret x, s1)" "f x s1 = Some (r, t)"
    | (panic) r' where "m s = Some (r', t)"
    by (auto simp: bind_io_Some_iff)
  then show "\<exists>new. trace t = trace s @ new \<and> list_all P new \<and> length new \<le> n"
  proof cases
    case ok
    with assms(2) have "Q x" by (auto simp: yields_def)
    from emits_uptoD [OF assms(3) [OF this] ok(2)] silentD [OF assms(1) ok(1)] show ?thesis by simp
  next
    case panic
    from silentD [OF assms(1) panic] show ?thesis by simp
  qed
qed

lemma upto_try: "emits_upto n P m \<Longrightarrow> (\<And>x. emits_upto k P (f x)) \<Longrightarrow> emits_upto (n + k) P (try_io m f)"
  unfolding try_io_def by (erule upto_bind) (auto intro: upto_silent emits_return split: sum.splits)

lemma yields_try:
  "yields (\<lambda>r. \<forall>e. r = Inl e \<longrightarrow> Q (Inl e)) m \<Longrightarrow> (\<And>x. yields Q (f x)) \<Longrightarrow> yields Q (try_io m f)"
  unfolding try_io_def by (erule yields_bind) (auto intro: yields_return split: sum.splits)

lemma yields_retry_io:
  assumes "yields (\<lambda>r. \<forall>x. r = Inr x \<longrightarrow> Q x) m"
  shows "yields Q (retry_io m)"
proof (unfold yields_def, intro allI impI)
  fix s x t
  assume "retry_io m s = Some (Ret x, t)"
  then have "(\<lambda>r. \<forall>x. r = Ret x \<longrightarrow> Q x) (fst (Ret x, t))"
  proof (rule retry_io.raw_induct [where P = "\<lambda>m s q. yields (\<lambda>r. \<forall>x. r = Inr x \<longrightarrow> Q x) m \<longrightarrow> (\<forall>x. fst q = Ret x \<longrightarrow> Q x)", THEN mp, rotated])
    show "yields (\<lambda>r. \<forall>x. r = Inr x \<longrightarrow> Q x) m" by (rule assms)
  qed (force simp: yields_def split: bind_splits outcome.splits sum.splits prod.splits)
  then show "Q x" by simp
qed

end
