(* ===== verification/Extern.thy ===== *)
theory Extern
  imports Prelude "HOL-Library.Sorting_Algorithms"
begin

text \<open>
  The third party crates the sources call, as parameters of the model.  \<open>num256\<close> (big
  integers), \<open>clarity\<close> (Ethereum addresses, keys, signatures and ABI encoding) and
  \<open>deep_space\<close> (Cosmos addresses and keys) each are a record of functions; a definition takes
  the record it calls as an argument.  What the sources rely on is stated as the predicates
  \<open>num256_laws\<close>, \<open>clarity_laws\<close> and so on, which the theorems that need them name as
  hypotheses; a reference instance shows that they can hold.

  The error type of the repository (\<open>gravity_utils/src/error.rs\<close>) and its conversions are here
  too, because every component returns it.
\<close>

text \<open>An Ethereum address is 160 bits; the zero address and \<open>EthAddress::default()\<close> are all
  zeros.\<close>

type_synonym eth_address = "160 word"

abbreviation ZERO_ADDRESS :: eth_address where "ZERO_ADDRESS \<equiv> 0"

record eth_signature =
  sig_v :: uint256
  sig_r :: uint256
  sig_s :: uint256

type_synonym eth_private_key = bytes

datatype cosmos_address = CosmosAddress (cosmos_bytes: bytes) (cosmos_prefix: string)

type_synonym cosmos_private_key = bytes

text \<open>\<open>clarity::abi::Token\<close>, the constructors the sources build.\<close>

datatype token =
    TUint uint256
  | TAddress eth_address
  | TString string
  | TFixedString string
  | TBytes bytes
  | TUnboundedBytes bytes
  | TDynamic "token list"
  | TStruct "token list"


section \<open>Error types\<close>

datatype fee_info = FeeInsufficientFees string | FeeInsufficientGas

datatype cosmos_grpc_error =
    BadInput string
  | NodeNotSynced
  | ChainNotRunning
  | InsufficientFees fee_info
  | OtherGrpcError string

datatype web3_error = BadResponse string | OtherWeb3Error string

datatype rpc_error =
    RpcCosmos cosmos_grpc_error
  | RpcWeb3 web3_error
  | RpcStatus string

datatype gravity_error =
    ValidationError string
  | UnrecoverableError string
  | RpcError rpc_error

definition from_cosmos_grpc_error :: "cosmos_grpc_error \<Rightarrow> gravity_error" where
  "from_cosmos_grpc_error e = RpcError (RpcCosmos e)"

definition from_clarity_error :: "string \<Rightarrow> gravity_error" where
  "from_clarity_error e = ValidationError e"

definition from_web3_error :: "web3_error \<Rightarrow> gravity_error" where
  "from_web3_error e = RpcError (RpcWeb3 e)"

definition from_status :: "string \<Rightarrow> gravity_error" where
  "from_status e = RpcError (RpcStatus e)"

definition from_cosmos_address_error :: "string \<Rightarrow> gravity_error" where
  "from_cosmos_address_error e = ValidationError e"

definition from_parse_big_int_error :: "string \<Rightarrow> gravity_error" where
  "from_parse_big_int_error e = ValidationError e"

type_synonym 'a gresult = "gravity_error + 'a"


section \<open>The crate \<open>num256\<close>\<close>

record num256 =
  u256_from_bytes_be :: "bytes \<Rightarrow> uint256"
  u256_to_bytes_be :: "uint256 \<Rightarrow> bytes"
  u256_add :: "uint256 \<Rightarrow> uint256 \<Rightarrow> uint256 outcome"
  u256_sub :: "uint256 \<Rightarrow> uint256 \<Rightarrow> uint256 outcome"
  u256_mul :: "uint256 \<Rightarrow> uint256 \<Rightarrow> uint256 outcome"
  u256_to_string :: "uint256 \<Rightarrow> string"
  u256_parse :: "string \<Rightarrow> string + uint256"

text \<open>What the sources rely on: big-endian conversion, decimal printing, and arithmetic that is
  exact as long as the result fits in 256 bits and panics otherwise.\<close>

definition num256_reads_be :: "num256 \<Rightarrow> bool" where
  "num256_reads_be N \<longleftrightarrow> (\<forall>bs. u256_from_bytes_be N bs = be_value bs)"

definition num256_writes_be :: "num256 \<Rightarrow> bool" where
  "num256_writes_be N \<longleftrightarrow>
     (\<forall>n. be_value (u256_to_bytes_be N n) = n) \<and>
     (\<forall>n k. 0 < k \<longrightarrow> n < 256 ^ k \<longrightarrow> length (u256_to_bytes_be N n) \<le> k)"

definition num256_prints :: "num256 \<Rightarrow> bool" where
  "num256_prints N \<longleftrightarrow> (\<forall>n. u256_to_string N n = dec_string n)"

definition num256_parses :: "num256 \<Rightarrow> bool" where
  "num256_parses N \<longleftrightarrow> (\<forall>n. n < 2 ^ 256 \<longrightarrow> u256_parse N (u256_to_string N n) = Inr n)"

definition num256_arith :: "num256 \<Rightarrow> bool" where
  "num256_arith N \<longleftrightarrow>
     (\<forall>a b. if a + b < 2 ^ 256 then u256_add N a b = Ret (a + b) else is_panic (u256_add N a b)) \<and>
     (\<forall>a b. if b \<le> a then u256_sub N a b = Ret (a - b) else is_panic (u256_sub N a b)) \<and>
     (\<forall>a b. if a * b < 2 ^ 256 then u256_mul N a b = Ret (a * b) else is_panic (u256_mul N a b))"

text \<open>\<open>value.to_string().parse::<u64>().unwrap()\<close>, the conversion used all over the event
  parser, and its siblings for \<open>usize\<close> and \<open>u8\<close>.\<close>

definition u256_as_u64 :: "num256 \<Rightarrow> uint256 \<Rightarrow> u64 outcome" where
  "u256_as_u64 N n = unwrap_opt (parse_u64 (u256_to_string N n))"

definition u256_as_usize :: "num256 \<Rightarrow> uint256 \<Rightarrow> usize outcome" where
  "u256_as_usize N n = unwrap_opt (parse_usize (u256_to_string N n))"

definition u256_as_u8 :: "num256 \<Rightarrow> uint256 \<Rightarrow> u8 outcome" where
  "u256_as_u8 N n = unwrap_opt (parse_u8 (u256_to_string N n))"

lemma u256_as_u64_exact:
  "num256_prints N \<Longrightarrow> n \<le> u64_MAX \<Longrightarrow> u256_as_u64 N n = Ret (of_nat n)"
  unfolding u256_as_u64_def num256_prints_def by (simp only: parse_u64_dec_string unwrap_opt.simps)

lemma u256_as_usize_exact:
  "num256_prints N \<Longrightarrow> n \<le> usize_MAX \<Longrightarrow> u256_as_usize N n = Ret (of_nat n)"
  unfolding u256_as_usize_def num256_prints_def
  by (simp only: parse_usize_dec_string unwrap_opt.simps)

lemma u256_as_u8_exact:
  "num256_prints N \<Longrightarrow> n \<le> u8_MAX \<Longrightarrow> u256_as_u8 N n = Ret (of_nat n)"
  unfolding u256_as_u8_def num256_prints_def by (simp only: parse_u8_dec_string unwrap_opt.simps)

text \<open>A reference instance.\<close>

fun min_bytes :: "nat \<Rightarrow> bytes" where
  "min_bytes n = (if n < 256 then [of_nat n] else min_bytes (n div 256) @ [of_nat (n mod 256)])"

declare min_bytes.simps [simp del]

definition num256_ref :: num256 where
  "num256_ref = \<lparr>
     u256_from_bytes_be = be_value,
     u256_to_bytes_be = min_bytes,
     u256_add = (\<lambda>a b. if a + b < 2 ^ 256 then Ret (a + b) else Panic ''attempt to add with overflow''),
     u256_sub = (\<lambda>a b. if b \<le> a then Ret (a - b) else Panic ''attempt to subtract with overflow''),
     u256_mul = (\<lambda>a b. if a * b < 2 ^ 256 then Ret (a * b) else Panic ''attempt to multiply with overflow''),
     u256_to_string = dec_string,
     u256_parse = (\<lambda>s. case parse_uint (2 ^ 256 - 1) s of None \<Rightarrow> Inl ''invalid digit'' | Some n \<Rightarrow> Inr n)\<rparr>"

lemma be_value_min_bytes: "be_value (min_bytes n) = n"
proof (induction n rule: min_bytes.induct)
  case (1 n)
  have last: "be_value [of_nat k] = k" if "k < 256" for k
    using that be_value_snoc [of "[]"] by (simp add: unsigned_of_nat take_bit_nat_eq_self)
  show ?case
  proof (cases "n < 256")
    case True
    then show ?thesis by (simp add: min_bytes.simps [of n] last)
  next
    case False
    with 1 have "be_value (min_bytes (n div 256)) = n div 256" by simp
    then show ?thesis
      by (subst min_bytes.simps) (simp add: False unsigned_of_nat take_bit_nat_eq_self)
  qed
qed

lemma length_min_bytes: "n < 256 ^ k \<Longrightarrow> 0 < k \<Longrightarrow> length (min_bytes n) \<le> k"
proof (induction n arbitrary: k rule: min_bytes.induct)
  case (1 n)
  show ?case
  proof (cases "n < 256")
    case True
    with "1.prems" show ?thesis by (simp add: min_bytes.simps [of n])
  next
    case False
    with "1.prems" obtain j where k: "k = Suc j" "0 < j"
      by (cases k; cases "k - 1") auto
    with "1.prems" have "n div 256 < 256 ^ j" by (simp add: div_less_iff_less_mult mult.commute)
    with "1.IH" [OF False, of j] k False show ?thesis by (simp add: min_bytes.simps [of n])
  qed
qed

lemma num256_ref_laws:
  "num256_reads_be num256_ref" "num256_writes_be num256_ref" "num256_prints num256_ref"
  "num256_parses num256_ref" "num256_arith num256_ref"
proof -
  show "num256_reads_be num256_ref" by (simp add: num256_reads_be_def num256_ref_def)
  show "num256_writes_be num256_ref"
    by (simp add: num256_writes_be_def num256_ref_def be_value_min_bytes length_min_bytes)
  show "num256_prints num256_ref" by (simp add: num256_prints_def num256_ref_def)
  have "parse_uint (2 ^ 256 - 1) (dec_string n) = Some n" if "n < 2 ^ 256" for n
    using that by (intro parse_uint_dec_string) linarith
  then show "num256_parses num256_ref"
    by (simp add: num256_parses_def num256_ref_def del: power_numeral)
  show "num256_arith num256_ref"
    by (simp add: num256_arith_def num256_ref_def del: power_numeral)
qed


section \<open>The crate \<open>clarity\<close>\<close>

record clarity =
  address_from_slice :: "bytes \<Rightarrow> string + eth_address"
  address_parse :: "string \<Rightarrow> string + eth_address"
  address_to_string :: "eth_address \<Rightarrow> string"
  address_cmp :: "eth_address comparator"
  signature_parse :: "string \<Rightarrow> string + eth_signature"
  signature_to_bytes :: "eth_signature \<Rightarrow> bytes"
  signature_is_valid :: "eth_signature \<Rightarrow> bool"
  signature_recover :: "eth_signature \<Rightarrow> bytes \<Rightarrow> string + eth_address"
  encode_tokens :: "token list \<Rightarrow> bytes"
  encode_call :: "string \<Rightarrow> token list \<Rightarrow> string + bytes"
  get_ethereum_msg_hash :: "bytes \<Rightarrow> bytes"
  eth_key_to_address :: "eth_private_key \<Rightarrow> eth_address"
  sign_ethereum_msg :: "eth_private_key \<Rightarrow> bytes \<Rightarrow> eth_signature"
  hex_str_to_bytes :: "string \<Rightarrow> string + bytes"

text \<open>An address is read from exactly twenty bytes, big-endian; printing and parsing are inverse;
  the address order is a total order that agrees with equality, as the Rust trait \<open>Ord\<close> asks.\<close>

definition clarity_slices :: "clarity \<Rightarrow> bool" where
  "clarity_slices C \<longleftrightarrow>
     (\<forall>bs. length bs = 20 \<longrightarrow> address_from_slice C bs = Inr (of_nat (be_value bs))) \<and>
     (\<forall>bs. length bs \<noteq> 20 \<longrightarrow> is_err (address_from_slice C bs))"

definition clarity_addresses :: "clarity \<Rightarrow> bool" where
  "clarity_addresses C \<longleftrightarrow> (\<forall>a. address_parse C (address_to_string C a) = Inr a)"

definition clarity_order :: "clarity \<Rightarrow> bool" where
  "clarity_order C \<longleftrightarrow> (\<forall>a b. compare (address_cmp C) a b = Equiv \<longleftrightarrow> a = b)"

text \<open>A signature made with a key over a message recovers, from the hash of that message, to the
  address of the key, and is valid.\<close>

definition clarity_signatures :: "clarity \<Rightarrow> bool" where
  "clarity_signatures C \<longleftrightarrow>
     (\<forall>k m. signature_recover C (sign_ethereum_msg C k m) (get_ethereum_msg_hash C m) = Inr (eth_key_to_address C k)) \<and>
     (\<forall>k m. signature_is_valid C (sign_ethereum_msg C k m))"

text \<open>\<open>From\<close> conversions into \<open>Token\<close>.\<close>

definition token_u64 :: "u64 \<Rightarrow> token" where
  "token_u64 n = TUint (unat n)"

definition token_addresses :: "eth_address list \<Rightarrow> token" where
  "token_addresses xs = TDynamic (map TAddress xs)"

definition token_u64s :: "u64 list \<Rightarrow> token" where
  "token_u64s xs = TDynamic (map token_u64 xs)"

definition token_u256s :: "uint256 list \<Rightarrow> token" where
  "token_u256s xs = TDynamic (map TUint xs)"

lemma inj_token_u64: "inj token_u64"
  by (rule injI) (auto simp: token_u64_def intro: unsigned_word_eqI)

lemma token_addresses_inject [simp]: "token_addresses xs = token_addresses ys \<longleftrightarrow> xs = ys"
  by (auto simp: token_addresses_def inj_def intro: map_injective)

lemma token_u64s_inject [simp]: "token_u64s xs = token_u64s ys \<longleftrightarrow> xs = ys"
  using inj_token_u64 by (auto simp: token_u64s_def inj_map_eq_map)

lemma token_u256s_inject [simp]: "token_u256s xs = token_u256s ys \<longleftrightarrow> xs = ys"
  by (auto simp: token_u256s_def inj_def intro: map_injective)


section \<open>The crate \<open>deep_space\<close>\<close>

record deep_space =
  cosmos_parse :: "string \<Rightarrow> string + cosmos_address"
  cosmos_to_string :: "cosmos_address \<Rightarrow> string"
  cosmos_to_bech32 :: "cosmos_address \<Rightarrow> string \<Rightarrow> string + string"
  cosmos_from_bytes :: "bytes \<Rightarrow> string \<Rightarrow> string + cosmos_address"
  cosmos_key_to_address :: "cosmos_private_key \<Rightarrow> string \<Rightarrow> string + cosmos_address"
  cosmos_key_from_phrase :: "string \<Rightarrow> string \<Rightarrow> string + cosmos_private_key"
  COSMOS_DEFAULT_PREFIX :: string
  bytes_to_hex_str :: "bytes \<Rightarrow> string"

definition deep_space_addresses :: "deep_space \<Rightarrow> bool" where
  "deep_space_addresses S \<longleftrightarrow> (\<forall>a. cosmos_parse S (cosmos_to_string S a) = Inr a)"

text \<open>Twenty raw bytes always make an address, the address they denote.\<close>

definition deep_space_bytes :: "deep_space \<Rightarrow> bool" where
  "deep_space_bytes S \<longleftrightarrow>
     (\<forall>bs p. length bs = 20 \<longrightarrow> cosmos_from_bytes S bs p = Inr (CosmosAddress bs p))"

text \<open>The three crates together.\<close>

record libs =
  nm :: num256
  cl :: clarity
  ds :: deep_space

end
