(* ===== verification/Proto.thy ===== *)
theory Proto
  imports Extern
begin

text \<open>
  The protobuf messages of the Cosmos module (\<open>gravity_proto/src/prost/nab.v1.rs\<close>) that the
  orchestrator, the relayer and the client exchange with it: the objects it stores, the
  confirmations and claims it receives, and the envelope \<open>deep_space::Msg\<close> that carries one of
  them under its type URL.
\<close>

record coin =
  denom :: string
  coin_amount :: uint256

record proto_erc20_token =
  perc_contract :: string
  perc_amount :: string

record proto_outgoing_transfer_tx =
  ptx_id :: u64
  ptx_sender :: string
  ptx_dest_address :: string
  ptx_erc20_token :: "proto_erc20_token option"
  ptx_erc20_fee :: "proto_erc20_token option"

record proto_outgoing_tx_batch =
  pb_batch_nonce :: u64
  pb_batch_timeout :: u64
  pb_transactions :: "proto_outgoing_transfer_tx list"
  pb_token_contract :: string
  pb_block :: u64

record proto_outgoing_logic_call =
  plc_transfers :: "proto_erc20_token list"
  plc_fees :: "proto_erc20_token list"
  plc_logic_contract_address :: string
  plc_payload :: bytes
  plc_timeout :: u64
  plc_invalidation_id :: bytes
  plc_invalidation_nonce :: u64
  plc_block :: u64

record bridge_validator =
  bv_power :: u64
  bv_ethereum_address :: string

record proto_valset =
  pv_nonce :: u64
  pv_members :: "bridge_validator list"
  pv_height :: u64
  pv_reward_amount :: string
  pv_reward_token :: string

section \<open>Messages\<close>

record msg_set_orchestrator_address =
  mso_validator :: string
  mso_orchestrator :: string
  mso_eth_address :: string

record msg_valset_confirm =
  mvc_nonce :: u64
  mvc_orchestrator :: string
  mvc_eth_address :: string
  mvc_signature :: string

record msg_send_to_eth =
  mse_sender :: string
  mse_eth_dest :: string
  mse_amount :: "coin option"
  mse_bridge_fee :: "coin option"

record msg_request_batch =
  mrb_sender :: string
  mrb_denom :: string

record msg_confirm_batch =
  mcb_nonce :: u64
  mcb_token_contract :: string
  mcb_eth_signer :: string
  mcb_orchestrator :: string
  mcb_signature :: string

record msg_confirm_logic_call =
  mcl_invalidation_id :: string
  mcl_invalidation_nonce :: u64
  mcl_eth_signer :: string
  mcl_orchestrator :: string
  mcl_signature :: string

record msg_send_to_cosmos_claim =
  msc_event_nonce :: u64
  msc_block_height :: u64
  msc_token_contract :: string
  msc_amount :: string
  msc_ethereum_sender :: string
  msc_cosmos_receiver :: string
  msc_orchestrator :: string

record msg_batch_send_to_eth_claim =
  mbe_event_nonce :: u64
  mbe_block_height :: u64
  mbe_batch_nonce :: u64
  mbe_token_contract :: string
  mbe_orchestrator :: string

record msg_erc20_deployed_claim =
  med_event_nonce :: u64
  med_block_height :: u64
  med_cosmos_denom :: string
  med_token_contract :: string
  med_name :: string
  med_symbol :: string
  med_decimals :: u64
  med_orchestrator :: string

record msg_logic_call_executed_claim =
  mle_event_nonce :: u64
  mle_block_height :: u64
  mle_invalidation_id :: bytes
  mle_invalidation_nonce :: u64
  mle_orchestrator :: string

record msg_valset_updated_claim =
  mvu_event_nonce :: u64
  mvu_valset_nonce :: u64
  mvu_block_height :: u64
  mvu_members :: "bridge_validator list"
  mvu_reward_amount :: string
  mvu_reward_token :: string
  mvu_orchestrator :: string

record msg_cancel_send_to_eth =
  mce_transaction_id :: u64
  mce_sender :: string

text \<open>\<open>prost_types::Any\<close>: the value is one of the three objects a validator signs.\<close>

datatype any_value =
    AnyValset proto_valset
  | AnyBatch proto_outgoing_tx_batch
  | AnyLogicCall proto_outgoing_logic_call

record any =
  any_type_url :: string
  any_content :: any_value

record msg_submit_bad_signature_evidence =
  mbs_subject :: "any option"
  mbs_signature :: string
  mbs_sender :: string

datatype msg_body =
    MsgSetOrchestratorAddress msg_set_orchestrator_address
  | MsgValsetConfirm msg_valset_confirm
  | MsgSendToEth msg_send_to_eth
  | MsgRequestBatch msg_request_batch
  | MsgConfirmBatch msg_confirm_batch
  | MsgConfirmLogicCall msg_confirm_logic_call
  | MsgSendToCosmosClaim msg_send_to_cosmos_claim
  | MsgBatchSendToEthClaim msg_batch_send_to_eth_claim
  | MsgErc20DeployedClaim msg_erc20_deployed_claim
  | MsgLogicCallExecutedClaim msg_logic_call_executed_claim
  | MsgValsetUpdatedClaim msg_valset_updated_claim
  | MsgCancelSendToEth msg_cancel_send_to_eth
  | MsgSubmitBadSignatureEvidence msg_submit_bad_signature_evidence

datatype cosmos_msg = Msg (msg_type_url: string) (msg_value: msg_body)

text \<open>The names of the messages in \<open>module/proto/nab/v1/msgs.proto\<close>, as the type URLs the Cosmos module
  decodes them by.\<close>

fun message_url :: "msg_body \<Rightarrow> string" where
  "message_url (MsgSetOrchestratorAddress m) = ''/nab.v1.MsgSetOrchestratorAddress''"
| "message_url (MsgValsetConfirm m) = ''/nab.v1.MsgValsetConfirm''"
| "message_url (MsgSendToEth m) = ''/nab.v1.MsgSendToEth''"
| "message_url (MsgRequestBatch m) = ''/nab.v1.MsgRequestBatch''"
| "message_url (MsgConfirmBatch m) = ''/nab.v1.MsgConfirmBatch''"
| "message_url (MsgConfirmLogicCall m) = ''/nab.v1.MsgConfirmLogicCall''"
| "message_url (MsgSendToCosmosClaim m) = ''/nab.v1.MsgSendToCosmosClaim''"
| "message_url (MsgBatchSendToEthClaim m) = ''/nab.v1.MsgBatchSendToEthClaim''"
| "message_url (MsgErc20DeployedClaim m) = ''/nab.v1.MsgERC20DeployedClaim''"
| "message_url (MsgLogicCallExecutedClaim m) = ''/nab.v1.MsgLogicCallExecutedClaim''"
| "message_url (MsgValsetUpdatedClaim m) = ''/nab.v1.MsgValsetUpdatedClaim''"
| "message_url (MsgCancelSendToEth m) = ''/nab.v1.MsgCancelSendToEth''"
| "message_url (MsgSubmitBadSignatureEvidence m) = ''/nab.v1.MsgSubmitBadSignatureEvidence''"

fun subject_url :: "any_value \<Rightarrow> string" where
  "subject_url (AnyValset v) = ''/nab.v1.Valset''"
| "subject_url (AnyBatch b) = ''/nab.v1.OutgoingTxBatch''"
| "subject_url (AnyLogicCall c) = ''/nab.v1.OutgoingLogicCall''"

fun well_typed_body :: "msg_body \<Rightarrow> bool" where
  "well_typed_body (MsgSubmitBadSignatureEvidence m) \<longleftrightarrow>
     (case mbs_subject m of Some s \<Rightarrow> any_type_url s = subject_url (any_content s) | None \<Rightarrow> False)"
| "well_typed_body _ \<longleftrightarrow> True"

definition well_typed_msg :: "cosmos_msg \<Rightarrow> bool" where
  "well_typed_msg m \<longleftrightarrow> msg_type_url m = message_url (msg_value m) \<and> well_typed_body (msg_value m)"

text \<open>The event nonce a claim message carries; the other messages carry none.\<close>

fun claim_event_nonce :: "msg_body \<Rightarrow> u64 option" where
  "claim_event_nonce (MsgSendToCosmosClaim c) = Some (msc_event_nonce c)"
| "claim_event_nonce (MsgBatchSendToEthClaim c) = Some (mbe_event_nonce c)"
| "claim_event_nonce (MsgErc20DeployedClaim c) = Some (med_event_nonce c)"
| "claim_event_nonce (MsgLogicCallExecutedClaim c) = Some (mle_event_nonce c)"
| "claim_event_nonce (MsgValsetUpdatedClaim c) = Some (mvu_event_nonce c)"
| "claim_event_nonce _ = None"


section \<open>Answers of the query service\<close>

record any_message =
  type_url :: string
  any_value :: bytes

record attestation =
  att_observed :: bool
  att_votes :: "string list"
  att_height :: u64
  att_claim :: "any_message option"

record delegate_keys_by_eth_response =
  dke_validator_address :: string
  dke_orchestrator_address :: string

record delegate_keys_by_orchestrator_response =
  dko_validator_address :: string
  dko_eth_address :: string

record denom_to_erc20_response =
  dte_erc20 :: string
  dte_cosmos_originated :: bool

record pending_send_to_eth_response =
  transfers_in_batches :: "proto_outgoing_transfer_tx list"
  unbatched_transfers :: "proto_outgoing_transfer_tx list"

end
