(* ===== verification/Bridge_Types.thy ===== *)
theory Bridge_Types
  imports Proto
begin

text \<open>
  The parsed objects of the bridge and their conversions from and to the protobuf messages:
  \<open>gravity_utils/src/types.rs\<close> (\<open>Erc20Token\<close>), \<open>types/batches.rs\<close>
  (\<open>BatchTransaction\<close>, \<open>TransactionBatch\<close>, \<open>BatchConfirmResponse\<close>) and
  \<open>types/logic_call.rs\<close> (\<open>LogicCall\<close>, \<open>LogicCallConfirmResponse\<close>).  The shared contract
  of the conversions, that reading back what was written gives the object again, is the locale
  \<open>proto_codec\<close>; it is interpreted on each of the four pairs of conversions.
\<close>

record erc20_token =
  amount :: uint256
  token_contract_address :: eth_address

record batch_transaction =
  tx_id :: u64
  tx_sender :: cosmos_address
  tx_destination :: eth_address
  tx_erc20_token :: erc20_token
  tx_erc20_fee :: erc20_token

record transaction_batch =
  batch_nonce :: u64
  batch_timeout :: u64
  batch_transactions :: "batch_transaction list"
  batch_total_fee :: erc20_token
  batch_token_contract :: eth_address

record batch_confirm_response =
  bcr_nonce :: u64
  bcr_orchestrator :: cosmos_address
  bcr_token_contract :: eth_address
  bcr_ethereum_signer :: eth_address
  bcr_eth_signature :: eth_signature

record logic_call =
  lc_transfers :: "erc20_token list"
  lc_fees :: "erc20_token list"
  lc_logic_contract_address :: eth_address
  lc_payload :: bytes
  lc_timeout :: u64
  lc_invalidation_id :: bytes
  lc_invalidation_nonce :: u64

record logic_call_confirm_response =
  lcr_invalidation_id :: bytes
  lcr_invalidation_nonce :: u64
  lcr_ethereum_signer :: eth_address
  lcr_orchestrator :: cosmos_address
  lcr_eth_signature :: eth_signature


section \<open>Parsing helpers\<close>

text \<open>\<open>field.parse()?\<close> at the types the messages use, with the error conversion of \<open>?\<close>.\<close>

definition parse_amount :: "libs \<Rightarrow> string \<Rightarrow> uint256 gresult" where
  "parse_amount L s = map_err from_parse_big_int_error (u256_parse (nm L) s)"

definition parse_eth :: "libs \<Rightarrow> string \<Rightarrow> eth_address gresult" where
  "parse_eth L s = map_err from_clarity_error (address_parse (cl L) s)"

definition parse_cosmos :: "libs \<Rightarrow> string \<Rightarrow> cosmos_address gresult" where
  "parse_cosmos L s = map_err from_cosmos_address_error (cosmos_parse (ds L) s)"

definition parse_sig :: "libs \<Rightarrow> string \<Rightarrow> eth_signature gresult" where
  "parse_sig L s = map_err from_clarity_error (signature_parse (cl L) s)"

text \<open>What the conversions rely on.\<close>

definition libs_parse :: "libs \<Rightarrow> bool" where
  "libs_parse L \<longleftrightarrow> num256_parses (nm L) \<and> clarity_addresses (cl L) \<and> deep_space_addresses (ds L)"

lemma parse_amount_to_string [simp]:
  "libs_parse L \<Longrightarrow> n < 2 ^ 256 \<Longrightarrow> parse_amount L (u256_to_string (nm L) n) = Inr n"
  by (simp add: parse_amount_def libs_parse_def num256_parses_def del: power_numeral)

lemma parse_eth_to_string [simp]:
  "libs_parse L \<Longrightarrow> parse_eth L (address_to_string (cl L) a) = Inr a"
  by (simp add: parse_eth_def libs_parse_def clarity_addresses_def)

lemma parse_cosmos_to_string [simp]:
  "libs_parse L \<Longrightarrow> parse_cosmos L (cosmos_to_string (ds L) a) = Inr a"
  by (simp add: parse_cosmos_def libs_parse_def deep_space_addresses_def)


section \<open>\<open>Erc20Token\<close>\<close>

definition erc20_token_try_from :: "libs \<Rightarrow> proto_erc20_token \<Rightarrow> erc20_token gresult" where
  "erc20_token_try_from L input =
     try_sum (parse_amount L (perc_amount input)) (\<lambda>a.
     try_sum (parse_eth L (perc_contract input)) (\<lambda>c.
     Inr \<lparr>amount = a, token_contract_address = c\<rparr>))"

definition erc20_token_to_proto :: "libs \<Rightarrow> erc20_token \<Rightarrow> proto_erc20_token" where
  "erc20_token_to_proto L t =
     \<lparr>perc_contract = address_to_string (cl L) (token_contract_address t),
      perc_amount = u256_to_string (nm L) (amount t)\<rparr>"


section \<open>Transactions and batches\<close>

definition batch_transaction_try_from :: "libs \<Rightarrow> proto_outgoing_transfer_tx \<Rightarrow> batch_transaction gresult" where
  "batch_transaction_try_from L input =
     (case (ptx_erc20_fee input, ptx_erc20_token input) of
        (Some pfee, Some ptoken) \<Rightarrow>
          try_sum (parse_cosmos L (ptx_sender input)) (\<lambda>sender.
          try_sum (parse_eth L (ptx_dest_address input)) (\<lambda>dest.
          try_sum (erc20_token_try_from L ptoken) (\<lambda>token.
          try_sum (erc20_token_try_from L pfee) (\<lambda>fee.
          Inr \<lparr>tx_id = ptx_id input, tx_sender = sender, tx_destination = dest,
               tx_erc20_token = token, tx_erc20_fee = fee\<rparr>))))
      | _ \<Rightarrow> Inl (ValidationError ''Cannot have tx with null erc20_token!''))"

definition batch_transaction_to_proto :: "libs \<Rightarrow> batch_transaction \<Rightarrow> proto_outgoing_transfer_tx" where
  "batch_transaction_to_proto L tx =
     \<lparr>ptx_id = tx_id tx,
      ptx_sender = cosmos_to_string (ds L) (tx_sender tx),
      ptx_dest_address = address_to_string (cl L) (tx_destination tx),
      ptx_erc20_token = Some (erc20_token_to_proto L (tx_erc20_token tx)),
      ptx_erc20_fee = Some (erc20_token_to_proto L (tx_erc20_fee tx))\<rparr>"

text \<open>The loop of \<open>TransactionBatch::try_from\<close>: parse each transaction, keep a running total of
  the fees whose token contract is the one of the first transaction.\<close>

fun batch_loop :: "libs \<Rightarrow> proto_outgoing_transfer_tx list \<Rightarrow> batch_transaction list \<Rightarrow>
    erc20_token option \<Rightarrow> (batch_transaction list \<times> erc20_token option) gresult outcome" where
  "batch_loop L [] transactions running_total_fee = Ret (Inr (transactions, running_total_fee))"
| "batch_loop L (p # ps) transactions running_total_fee =
     try_out (Ret (batch_transaction_try_from L p)) (\<lambda>tx.
     bind_out
       (case running_total_fee of
          Some total_fee \<Rightarrow>
            bind_out (u256_add (nm L) (amount total_fee) (amount (tx_erc20_fee tx))) (\<lambda>a.
            Ret (Some \<lparr>amount = a, token_contract_address = token_contract_address total_fee\<rparr>))
        | None \<Rightarrow> Ret (Some (tx_erc20_fee tx))) (\<lambda>total.
     batch_loop L ps (transactions @ [tx]) total))"

definition transaction_batch_try_from :: "libs \<Rightarrow> proto_outgoing_tx_batch \<Rightarrow> transaction_batch gresult outcome" where
  "transaction_batch_try_from L input =
     try_out (batch_loop L (pb_transactions input) [] None) (\<lambda>(transactions, running_total_fee).
     case running_total_fee of
       Some total_fee \<Rightarrow>
         Ret (Inr \<lparr>batch_nonce = pb_batch_nonce input, batch_timeout = pb_batch_timeout input,
                   batch_transactions = transactions, batch_total_fee = total_fee,
                   batch_token_contract = token_contract_address total_fee\<rparr>)
     | None \<Rightarrow> Ret (Inl (ValidationError ''Transaction batch containing no transactions!'')))"

definition transaction_batch_to_proto :: "libs \<Rightarrow> transaction_batch \<Rightarrow> proto_outgoing_tx_batch" where
  "transaction_batch_to_proto L b =
     \<lparr>pb_batch_nonce = batch_nonce b,
      pb_batch_timeout = batch_timeout b,
      pb_transactions = map (batch_transaction_to_proto L) (batch_transactions b),
      pb_token_contract = address_to_string (cl L) (batch_token_contract b),
      pb_block = 0\<rparr>"

definition batch_confirm_response_try_from :: "libs \<Rightarrow> msg_confirm_batch \<Rightarrow> batch_confirm_response gresult" where
  "batch_confirm_response_try_from L input =
     try_sum (parse_cosmos L (mcb_orchestrator input)) (\<lambda>orchestrator.
     try_sum (parse_eth L (mcb_token_contract input)) (\<lambda>token_contract.
     try_sum (parse_eth L (mcb_eth_signer input)) (\<lambda>signer.
     try_sum (parse_sig L (mcb_signature input)) (\<lambda>signature.
     Inr \<lparr>bcr_nonce = mcb_nonce input, bcr_orchestrator = orchestrator,
          bcr_token_contract = token_contract, bcr_ethereum_signer = signer,
          bcr_eth_signature = signature\<rparr>))))"

text \<open>The amounts, destinations and fees of a batch, as parallel ABI arrays.  The two assertions
  compare the lengths of vectors filled by the same loop.\<close>

definition get_checkpoint_values :: "transaction_batch \<Rightarrow> (token \<times> token \<times> token) outcome" where
  "get_checkpoint_values b =
     (let amounts = map (\<lambda>item. TUint (amount (tx_erc20_token item))) (batch_transactions b);
          fees = map (\<lambda>item. TUint (amount (tx_erc20_fee item))) (batch_transactions b);
          destinations = map tx_destination (batch_transactions b)
      in if length amounts \<noteq> length destinations then Panic ''assertion failed''
         else if length fees \<noteq> length destinations then Panic ''assertion failed''
         else Ret (TDynamic amounts, token_addresses destinations, TDynamic fees))"


section \<open>Logic calls\<close>

definition logic_call_try_from :: "libs \<Rightarrow> proto_outgoing_logic_call \<Rightarrow> logic_call gresult" where
  "logic_call_try_from L input =
     try_sum (map_sum_list (erc20_token_try_from L) (plc_transfers input)) (\<lambda>transfers.
     try_sum (map_sum_list (erc20_token_try_from L) (plc_fees input)) (\<lambda>fees.
     if transfers = [] \<or> fees = [] then
       Inl (ValidationError ''Transaction batch containing no transactions!'')
     else
       try_sum (parse_eth L (plc_logic_contract_address input)) (\<lambda>contract.
       Inr \<lparr>lc_transfers = transfers, lc_fees = fees, lc_logic_contract_address = contract,
            lc_payload = plc_payload input, lc_timeout = plc_timeout input,
            lc_invalidation_id = plc_invalidation_id input,
            lc_invalidation_nonce = plc_invalidation_nonce input\<rparr>)))"

definition logic_call_to_proto :: "libs \<Rightarrow> logic_call \<Rightarrow> proto_outgoing_logic_call" where
  "logic_call_to_proto L c =
     \<lparr>plc_transfers = map (erc20_token_to_proto L) (lc_transfers c),
      plc_fees = map (erc20_token_to_proto L) (lc_fees c),
      plc_logic_contract_address = address_to_string (cl L) (lc_logic_contract_address c),
      plc_payload = lc_payload c,
      plc_timeout = lc_timeout c,
      plc_invalidation_id = lc_invalidation_id c,
      plc_invalidation_nonce = lc_invalidation_nonce c,
      plc_block = 0\<rparr>"

definition logic_call_confirm_response_try_from :: "libs \<Rightarrow> msg_confirm_logic_call \<Rightarrow> logic_call_confirm_response gresult outcome" where
  "logic_call_confirm_response_try_from L input =
     bind_out (unwrap_sum (hex_str_to_bytes (cl L) (mcl_invalidation_id input))) (\<lambda>invalidation_id. Ret (
     try_sum (parse_cosmos L (mcl_orchestrator input)) (\<lambda>orchestrator.
     try_sum (parse_eth L (mcl_eth_signer input)) (\<lambda>signer.
     try_sum (parse_sig L (mcl_signature input)) (\<lambda>signature.
     Inr \<lparr>lcr_invalidation_id = invalidation_id, lcr_invalidation_nonce = mcl_invalidation_nonce input,
          lcr_ethereum_signer = signer, lcr_orchestrator = orchestrator,
          lcr_eth_signature = signature\<rparr>)))))"


section \<open>The contract of the conversions\<close>

locale proto_codec =
  fixes to_proto :: "'a \<Rightarrow> 'p"
    and try_from :: "'p \<Rightarrow> 'a gresult outcome"
    and wf :: "'a \<Rightarrow> bool"
  assumes round_trip: "wf x \<Longrightarrow> try_from (to_proto x) = Ret (Inr x)"
begin

lemma to_proto_inject: "wf x \<Longrightarrow> wf y \<Longrightarrow> to_proto x = to_proto y \<longleftrightarrow> x = y"
  by (metis round_trip outcome.inject(1) sum.inject(2))

lemma round_trip_list:
  "list_all wf xs \<Longrightarrow> map_try_list try_from (map to_proto xs) = Ret (Inr xs)"
  by (induction xs) (simp_all add: round_trip)

end

definition wf_erc20_token :: "libs \<Rightarrow> erc20_token \<Rightarrow> bool" where
  "wf_erc20_token L t \<longleftrightarrow> libs_parse L \<and> amount t < 2 ^ 256"

definition wf_batch_transaction :: "libs \<Rightarrow> batch_transaction \<Rightarrow> bool" where
  "wf_batch_transaction L tx \<longleftrightarrow>
     wf_erc20_token L (tx_erc20_token tx) \<and> wf_erc20_token L (tx_erc20_fee tx)"

definition total_fees :: "batch_transaction list \<Rightarrow> nat" where
  "total_fees txs = (\<Sum>tx \<leftarrow> txs. amount (tx_erc20_fee tx))"

text \<open>A batch is well formed when it has a transaction, its token is the fee token of the first
  one, and its total fee is the sum of the fees and fits in 256 bits.\<close>

definition wf_transaction_batch :: "libs \<Rightarrow> transaction_batch \<Rightarrow> bool" where
  "wf_transaction_batch L b \<longleftrightarrow>
     num256_arith (nm L) \<and> batch_transactions b \<noteq> [] \<and>
     list_all (wf_batch_transaction L) (batch_transactions b) \<and>
     batch_token_contract b = token_contract_address (tx_erc20_fee (hd (batch_transactions b))) \<and>
     batch_total_fee b = \<lparr>amount = total_fees (batch_transactions b), token_contract_address = batch_token_contract b\<rparr> \<and>
     total_fees (batch_transactions b) < 2 ^ 256"

definition wf_logic_call :: "libs \<Rightarrow> logic_call \<Rightarrow> bool" where
  "wf_logic_call L c \<longleftrightarrow> libs_parse L \<and> lc_transfers c \<noteq> [] \<and> lc_fees c \<noteq> [] \<and>
     list_all (wf_erc20_token L) (lc_transfers c) \<and> list_all (wf_erc20_token L) (lc_fees c)"

lemma erc20_token_round_trip:
  "wf_erc20_token L t \<Longrightarrow> erc20_token_try_from L (erc20_token_to_proto L t) = Inr t"
  by (simp add: wf_erc20_token_def erc20_token_try_from_def erc20_token_to_proto_def del: power_numeral)

lemma erc20_tokens_round_trip:
  "list_all (wf_erc20_token L) ts \<Longrightarrow>
     map_sum_list (erc20_token_try_from L) (map (erc20_token_to_proto L) ts) = Inr ts"
  by (induction ts) (simp_all add: erc20_token_round_trip)

lemma batch_transaction_round_trip:
  "wf_batch_transaction L tx \<Longrightarrow>
     batch_transaction_try_from L (batch_transaction_to_proto L tx) = Inr tx"
  by (auto simp: wf_batch_transaction_def batch_transaction_try_from_def batch_transaction_to_proto_def
      erc20_token_round_trip wf_erc20_token_def [of L "tx_erc20_fee tx"])

lemma logic_call_round_trip:
  "wf_logic_call L c \<Longrightarrow> logic_call_try_from L (logic_call_to_proto L c) = Inr c"
  by (simp add: wf_logic_call_def logic_call_try_from_def logic_call_to_proto_def erc20_tokens_round_trip)

interpretation erc20_codec: proto_codec "erc20_token_to_proto L" "\<lambda>p. Ret (erc20_token_try_from L p)" "wf_erc20_token L" for L
  by unfold_locales (simp add: erc20_token_round_trip)

interpretation transfer_codec: proto_codec "batch_transaction_to_proto L" "\<lambda>p. Ret (batch_transaction_try_from L p)" "wf_batch_transaction L" for L
  by unfold_locales (simp add: batch_transaction_round_trip)

interpretation logic_call_codec: proto_codec "logic_call_to_proto L" "\<lambda>p. Ret (logic_call_try_from L p)" "wf_logic_call L" for L
  by unfold_locales (simp add: logic_call_round_trip)


section \<open>The fee total of a parsed batch\<close>

lemma u256_add_Ret:
  "num256_arith N \<Longrightarrow> u256_add N a b = Ret c \<Longrightarrow> c = a + b \<and> a + b < 2 ^ 256"
  unfolding num256_arith_def by (metis is_panic.simps(2) outcome.inject(1))

lemma u256_add_exact: "num256_arith N \<Longrightarrow> a + b < 2 ^ 256 \<Longrightarrow> u256_add N a b = Ret (a + b)"
  unfolding num256_arith_def by meson

lemma u256_add_overflow: "num256_arith N \<Longrightarrow> 2 ^ 256 \<le> a + b \<Longrightarrow> is_panic (u256_add N a b)"
  unfolding num256_arith_def by (meson not_le)

lemma u256_sub_exact: "num256_arith N \<Longrightarrow> b \<le> a \<Longrightarrow> u256_sub N a b = Ret (a - b)"
  unfolding num256_arith_def by meson

lemma u256_sub_underflow: "num256_arith N \<Longrightarrow> a < b \<Longrightarrow> is_panic (u256_sub N a b)"
  unfolding num256_arith_def by (meson not_le)

lemma u256_mul_Ret:
  "num256_arith N \<Longrightarrow> u256_mul N a b = Ret c \<Longrightarrow> c = a * b \<and> a * b < 2 ^ 256"
  unfolding num256_arith_def by (metis is_panic.simps(2) outcome.inject(1))

fun add_fees :: "erc20_token option \<Rightarrow> batch_transaction list \<Rightarrow> erc20_token option" where
  "add_fees t [] = t"
| "add_fees None (tx # txs) = add_fees (Some (tx_erc20_fee tx)) txs"
| "add_fees (Some t) (tx # txs) =
     add_fees (Some \<lparr>amount = amount t + amount (tx_erc20_fee tx),
                     token_contract_address = token_contract_address t\<rparr>) txs"

lemma add_fees_Some:
  "add_fees (Some t) txs =
     Some \<lparr>amount = amount t + total_fees txs, token_contract_address = token_contract_address t\<rparr>"
  by (induction txs arbitrary: t) (simp_all add: total_fees_def add.assoc)

lemma add_fees_None:
  "txs \<noteq> [] \<Longrightarrow> add_fees None txs =
     Some \<lparr>amount = total_fees txs, token_contract_address = token_contract_address (tx_erc20_fee (hd txs))\<rparr>"
  by (cases txs) (simp_all add: add_fees_Some total_fees_def)

lemma batch_loop_result:
  assumes "num256_arith (nm L)" "batch_loop L ps acc t = Ret (Inr (txs, tot))"
  shows "\<exists>new. map_sum_list (batch_transaction_try_from L) ps = Inr new \<and> txs = acc @ new \<and>
           tot = add_fees t new"
  using assms(2)
proof (induction ps arbitrary: acc t)
  case (Cons p ps)
  from Cons.prems obtain tx t' where tx: "batch_transaction_try_from L p = Inr tx"
    and t': "add_fees t [tx] = Some t'" "batch_loop L ps (acc @ [tx]) (Some t') = Ret (Inr (txs, tot))"
    by (cases t) (auto simp: outcome_simps dest!: u256_add_Ret [OF assms(1)])
  from Cons.IH [OF t'(2)] obtain new where "map_sum_list (batch_transaction_try_from L) ps = Inr new"
    "txs = acc @ [tx] @ new" "tot = add_fees (Some t') new" by auto
  with tx t'(1) show ?case by (cases t) auto
qed simp

lemma batch_loop_computes:
  assumes N: "num256_arith (nm L)"
    and "map_sum_list (batch_transaction_try_from L) ps = Inr new"
    and "(case t of None \<Rightarrow> 0 | Some t \<Rightarrow> amount t) + total_fees new < 2 ^ 256"
  shows "batch_loop L ps acc t = Ret (Inr (acc @ new, add_fees t new))"
  using assms(2,3)
proof (induction ps arbitrary: acc t new)
  case (Cons p ps)
  from Cons.prems(1) obtain tx rest where tx: "batch_transaction_try_from L p = Inr tx"
    and rest: "map_sum_list (batch_transaction_try_from L) ps = Inr rest" and new: "new = tx # rest"
    by (auto simp: outcome_simps)
  show ?case
  proof (cases t)
    case None
    with Cons.IH [OF rest, of "Some (tx_erc20_fee tx)" "acc @ [tx]"] Cons.prems(2) tx show ?thesis
      by (simp add: new total_fees_def del: power_numeral)
  next
    case (Some u)
    with Cons.prems(2) have b: "amount u + amount (tx_erc20_fee tx) + total_fees rest < 2 ^ 256"
      by (simp add: new total_fees_def add.assoc del: power_numeral)
    then have "u256_add (nm L) (amount u) (amount (tx_erc20_fee tx)) =
        Ret (amount u + amount (tx_erc20_fee tx))"
      by (intro u256_add_exact [OF N]) linarith
    with Some b tx show ?thesis
      by (simp add: new Cons.IH [OF rest] del: power_numeral)
  qed
qed simp

lemma map_sum_list_transfers:
  "list_all (wf_batch_transaction L) txs \<Longrightarrow>
     map_sum_list (batch_transaction_try_from L) (map (batch_transaction_to_proto L) txs) = Inr txs"
  by (induction txs) (simp_all add: batch_transaction_round_trip)

lemma transaction_batch_round_trip:
  assumes "wf_transaction_batch L b"
  shows "transaction_batch_try_from L (transaction_batch_to_proto L b) = Ret (Inr b)"
proof -
  let ?txs = "batch_transactions b"
  from assms have "batch_loop L (map (batch_transaction_to_proto L) ?txs) [] None =
      Ret (Inr ([] @ ?txs, add_fees None ?txs))"
    unfolding wf_transaction_batch_def by (intro batch_loop_computes map_sum_list_transfers) auto
  with assms show ?thesis
    by (auto simp: transaction_batch_try_from_def transaction_batch_to_proto_def add_fees_None
        wf_transaction_batch_def)
qed

interpretation batch_codec: proto_codec "transaction_batch_to_proto L" "transaction_batch_try_from L" "wf_transaction_batch L" for L
  by unfold_locales (rule transaction_batch_round_trip)

lemma get_checkpoint_values_total [simp]:
  "get_checkpoint_values b =
     Ret (TDynamic (map (\<lambda>item. TUint (amount (tx_erc20_token item))) (batch_transactions b)),
          token_addresses (map tx_destination (batch_transactions b)),
          TDynamic (map (\<lambda>item. TUint (amount (tx_erc20_fee item))) (batch_transactions b)))"
  by (simp add: get_checkpoint_values_def)

text \<open>C26: lists of batches and of logic calls survive the conversion to the protobuf messages and
  back, the total fee of a batch included.\<close>

theorem batches_round_trip:
  assumes "list_all (wf_transaction_batch L) bs" "list_all (wf_logic_call L) cs"
  shows "map_try_list (transaction_batch_try_from L) (map (transaction_batch_to_proto L) bs) = Ret (Inr bs) \<and>
    map_try_list (\<lambda>p. Ret (logic_call_try_from L p)) (map (logic_call_to_proto L) cs) = Ret (Inr cs)"
  using batch_codec.round_trip_list [OF assms(1)] logic_call_codec.round_trip_list [OF assms(2)] by blast

end
