(* ===== verification/Floats.thy ===== *)
theory Floats
  imports Prelude Complex_Main "HOL-Library.Log_Nat"
begin

text \<open>
  IEEE binary floating point as the sources use it: non-negative finite values, represented by
  the rational they denote, with every conversion and operation rounded to the nearest
  representable value, ties to the even significand.  \<open>f32\<close> has 24 significant bits and
  \<open>f64\<close> has 53.  The exponent range is not cut off: the values of the sources lie between
  \<open>2^-32\<close> and \<open>2^64\<close> (\<open>f32\<close>) where neither overflow nor gradual underflow occurs.
\<close>

text \<open>The exponent of the leading bit of a positive rational.\<close>

definition ilog2 :: "rat \<Rightarrow> int" where
  "ilog2 x =
     (let (n, d) = quotient_of x; k = bitlen n - bitlen d
      in if 2 powi k \<le> x then k else k - 1)"

definition round_half_even :: "rat \<Rightarrow> int" where
  "round_half_even x =
     (let f = \<lfloor>x\<rfloor>; r = x - of_int f
      in if r < 1 / 2 then f else if r > 1 / 2 then f + 1 else if even f then f else f + 1)"

text \<open>Rounding to \<open>p\<close> significant bits.\<close>

definition round_sig :: "nat \<Rightarrow> rat \<Rightarrow> rat" where
  "round_sig p x =
     (if x \<le> 0 then 0
      else let u = 2 powi (ilog2 x - int p + 1) in of_int (round_half_even (x / u)) * u)"

abbreviation fl32 :: "rat \<Rightarrow> rat" where "fl32 \<equiv> round_sig 24"
abbreviation fl64 :: "rat \<Rightarrow> rat" where "fl64 \<equiv> round_sig 53"

section \<open>The leading exponent\<close>

lemma powi_less_exp: "(2 :: rat) powi m < 2 powi n \<Longrightarrow> m < n"
  by (rule ccontr) (use power_int_increasing [of n m "2 :: rat"] in simp)

lemma bitlen_bounds_rat:
  assumes "0 < n"
  shows "(2 :: rat) powi (bitlen n - 1) \<le> of_int n" "of_int n < (2 :: rat) powi bitlen n"
proof -
  have pos: "0 < bitlen n"
    using bitlen_nonneg [of n] bitlen_eq_zero_iff [of n] assms by linarith
  have b: "2 ^ nat (bitlen n - 1) \<le> n \<and> n < 2 ^ nat (bitlen n)"
    using bitlen_bounds [OF assms] .
  have "(2 :: rat) powi (bitlen n - 1) = of_int (2 ^ nat (bitlen n - 1))"
    using pos by (simp add: power_int_def)
  also have "\<dots> \<le> of_int n" using b by (simp only: of_int_le_iff)
  finally show "(2 :: rat) powi (bitlen n - 1) \<le> of_int n" .
  have "of_int n < (of_int (2 ^ nat (bitlen n)) :: rat)" using b by (simp only: of_int_less_iff)
  also have "\<dots> = 2 powi bitlen n" using pos by (simp add: power_int_def)
  finally show "of_int n < (2 :: rat) powi bitlen n" .
qed

lemma ilog2_bounds:
  assumes "0 < x"
  shows "2 powi ilog2 x \<le> x" "x < 2 powi (ilog2 x + 1)"
proof -
  obtain n d where q: "quotient_of x = (n, d)" by (cases "quotient_of x")
  then have d: "0 < d" and x: "x = of_int n / of_int d"
    using quotient_of_denom_pos [OF q] quotient_of_div [OF q] by auto
  with assms have n: "0 < n" by (simp add: zero_less_divide_iff)
  let ?k = "bitlen n - bitlen d"
  have dpos: "(0 :: rat) < of_int d" using d by simp
  have "x < 2 powi bitlen n / of_int d"
    using bitlen_bounds_rat(2) [OF n] dpos by (simp add: x divide_strict_right_mono)
  also have "\<dots> \<le> 2 powi bitlen n / 2 powi (bitlen d - 1)"
    using bitlen_bounds_rat(1) [OF d] dpos by (intro divide_left_mono) auto
  also have "\<dots> = 2 powi (?k + 1)"
    by (simp add: power_int_diff [symmetric] algebra_simps)
  finally have hi: "x < 2 powi (?k + 1)" .
  have "2 powi (?k - 1) = (2 :: rat) powi (bitlen n - 1) / 2 powi bitlen d"
    by (simp add: power_int_diff [symmetric] algebra_simps)
  also have "\<dots> \<le> of_int n / 2 powi bitlen d"
    using bitlen_bounds_rat(1) [OF n] by (intro divide_right_mono) auto
  also have "\<dots> \<le> x"
    unfolding x using bitlen_bounds_rat(2) [OF d] dpos n by (intro divide_left_mono) auto
  finally have lo: "2 powi (?k - 1) \<le> x" .
  show "2 powi ilog2 x \<le> x" using lo by (auto simp: ilog2_def q Let_def)
  show "x < 2 powi (ilog2 x + 1)" using hi by (auto simp: ilog2_def q Let_def)
qed

lemma ilog2_unique:
  assumes "2 powi e \<le> x" "x < 2 powi (e + 1)"
  shows "ilog2 x = e"
proof -
  have pos: "0 < x" using assms(1) by (rule less_le_trans [rotated]) simp
  have "(2 :: rat) powi ilog2 x < 2 powi (e + 1)" "(2 :: rat) powi e < 2 powi (ilog2 x + 1)"
    using ilog2_bounds [OF pos] assms by linarith+
  then have "ilog2 x < e + 1" "e < ilog2 x + 1"
    by (auto dest: powi_less_exp)
  then show ?thesis by linarith
qed

lemma ilog2_mono: "0 < x \<Longrightarrow> x \<le> y \<Longrightarrow> ilog2 x \<le> ilog2 y"
proof -
  assume x: "0 < x" "x \<le> y"
  have "(2 :: rat) powi ilog2 x < 2 powi (ilog2 y + 1)"
    using ilog2_bounds(1) [OF x(1)] ilog2_bounds(2) [of y] x by linarith
  then have "ilog2 x < ilog2 y + 1" by (rule powi_less_exp)
  then show ?thesis by simp
qed

section \<open>Rounding\<close>

lemma round_half_even_of_int [simp]: "round_half_even (of_int k) = k"
  by (simp add: round_half_even_def)

text \<open>Rounding when the integer part is known.\<close>

lemma round_half_even_floor:
  assumes "of_int f \<le> x" "x < of_int f + 1"
  shows "round_half_even x =
    (if x - of_int f < 1 / 2 then f else if x - of_int f > 1 / 2 then f + 1 else if even f then f else f + 1)"
proof -
  have "\<lfloor>x\<rfloor> = f" using assms by (simp add: floor_eq_iff)
  then show ?thesis by (simp add: round_half_even_def Let_def)
qed

lemma round_half_even_near: "\<bar>of_int (round_half_even x) - x\<bar> \<le> 1 / 2"
proof -
  have "of_int \<lfloor>x\<rfloor> \<le> x" "x < of_int \<lfloor>x\<rfloor> + 1" by linarith+
  then have "0 \<le> x - of_int \<lfloor>x\<rfloor>" "x - of_int \<lfloor>x\<rfloor> < 1" by linarith+
  then show ?thesis unfolding round_half_even_def Let_def abs_if by (simp, linarith)
qed

lemma round_half_even_mono: "x \<le> y \<Longrightarrow> round_half_even x \<le> round_half_even y"
proof -
  assume le: "x \<le> y"
  then have f: "\<lfloor>x\<rfloor> \<le> \<lfloor>y\<rfloor>" by (rule floor_mono)
  have up: "round_half_even x \<le> \<lfloor>x\<rfloor> + 1" and lo: "\<lfloor>y\<rfloor> \<le> round_half_even y"
    by (auto simp: round_half_even_def Let_def)
  show ?thesis
  proof (cases "\<lfloor>x\<rfloor> = \<lfloor>y\<rfloor>")
    case True
    with le show ?thesis by (auto simp: round_half_even_def Let_def)
  next
    case False
    with f up lo show ?thesis by linarith
  qed
qed

lemma round_sig_eq:
  assumes "2 powi e \<le> x" "x < 2 powi (e + 1)"
  shows "round_sig p x = of_int (round_half_even (x / 2 powi (e - int p + 1))) * 2 powi (e - int p + 1)"
proof -
  have "0 < x" using assms(1) by (rule less_le_trans [rotated]) simp
  with ilog2_unique [OF assms] show ?thesis by (simp add: round_sig_def Let_def)
qed

lemma round_sig_binade:
  assumes x: "0 < x" and p: "0 < p"
  shows "2 powi ilog2 x \<le> round_sig p x" "round_sig p x \<le> 2 powi (ilog2 x + 1)"
proof -
  define u :: rat where "u = 2 powi (ilog2 x - int p + 1)"
  have u: "0 < u" by (simp add: u_def)
  have lo: "2 powi ilog2 x = of_int (2 ^ (p - 1)) * u"
    using p by (simp add: u_def power_int_of_nat [symmetric] power_int_add [symmetric] of_nat_diff
        del: power_int_of_nat)
  have hi: "2 powi (ilog2 x + 1) = of_int (2 ^ p) * u"
    by (simp add: u_def power_int_of_nat [symmetric] power_int_add [symmetric]
        del: power_int_of_nat)
  have r: "round_sig p x = of_int (round_half_even (x / u)) * u"
    using x by (simp add: round_sig_def u_def Let_def)
  have "of_int (2 ^ (p - 1)) \<le> x / u" "x / u \<le> of_int (2 ^ p)"
    using ilog2_bounds [OF x] u by (simp_all add: lo hi pos_le_divide_eq pos_divide_le_eq)
  then have "round_half_even (of_int (2 ^ (p - 1))) \<le> round_half_even (x / u)"
    "round_half_even (x / u) \<le> round_half_even (of_int (2 ^ p))"
    by (auto intro: round_half_even_mono)
  then have "2 ^ (p - 1) \<le> round_half_even (x / u)" "round_half_even (x / u) \<le> 2 ^ p"
    by (simp_all only: round_half_even_of_int)
  then show "2 powi ilog2 x \<le> round_sig p x" "round_sig p x \<le> 2 powi (ilog2 x + 1)"
    unfolding lo hi r using u by (simp_all only: mult_le_cancel_right_pos of_int_le_iff)
qed

lemma round_sig_nonneg: "0 \<le> round_sig p x"
proof (cases "x \<le> 0")
  case False
  have "0 \<le> round_half_even (x / u)" if "0 < u" for u :: rat
    using round_half_even_mono [of 0 "x / u"] that False by (simp add: round_half_even_def)
  with False show ?thesis by (simp add: round_sig_def Let_def)
qed (simp add: round_sig_def)

lemma round_sig_mono:
  assumes le: "x \<le> y" and p: "0 < p"
  shows "round_sig p x \<le> round_sig p y"
proof (cases "x \<le> 0")
  case True
  then show ?thesis using round_sig_nonneg [of p y] by (simp add: round_sig_def)
next
  case False
  then have x: "0 < x" and y: "0 < y" using le by auto
  show ?thesis
  proof (cases "ilog2 x = ilog2 y")
    case True
    let ?u = "2 powi (ilog2 y - int p + 1) :: rat"
    have "x / ?u \<le> y / ?u" using le by (intro divide_right_mono) auto
    then have "round_half_even (x / ?u) \<le> round_half_even (y / ?u)" by (rule round_half_even_mono)
    then show ?thesis using x y True by (simp add: round_sig_def Let_def)
  next
    case False
    with ilog2_mono [OF x le] have "ilog2 x + 1 \<le> ilog2 y" by linarith
    then have "(2 :: rat) powi (ilog2 x + 1) \<le> 2 powi ilog2 y"
      by (simp add: power_int_increasing)
    with round_sig_binade(2) [OF x p] round_sig_binade(1) [OF y p] show ?thesis by linarith
  qed
qed

text \<open>A value with at most \<open>p\<close> significant bits is represented exactly.\<close>

lemma round_sig_exact:
  assumes "2 powi e \<le> x" "x < 2 powi (e + 1)" "x = of_int m * 2 powi (e - int p + 1)"
  shows "round_sig p x = x"
proof -
  have "x / 2 powi (e - int p + 1) = of_int m" using assms(3) by simp
  with round_sig_eq [OF assms(1,2), of p] assms(3) show ?thesis by simp
qed

end
