(* ===== verification/Valsets.thy ===== *)
theory Valsets
  imports Bridge_Types Floats
begin

text \<open>
  Validator sets and signatures: \<open>gravity_utils/src/types/valsets.rs\<close> and
  \<open>types/signatures.rs\<close>.  The heart of the relayer is \<open>order_sigs\<close>, which lines the
  confirmations of validators up with the members of the validator set in the contract and decides
  whether they carry enough power; \<open>power_diff\<close> measures how far two sets are apart.
\<close>

text \<open>The trait \<open>Confirm\<close>, as the dictionary of its two methods.\<close>

record 't confirm =
  get_eth_address :: "'t \<Rightarrow> eth_address"
  get_signature :: "'t \<Rightarrow> eth_signature"

record valset_confirm_response =
  vcr_orchestrator :: cosmos_address
  vcr_eth_address :: eth_address
  vcr_nonce :: u64
  vcr_eth_signature :: eth_signature

record valset_member =
  vm_power :: u64
  vm_eth_address :: "eth_address option"

record valset =
  vs_nonce :: u64
  vs_members :: "valset_member list"
  vs_reward_amount :: uint256
  vs_reward_token :: "eth_address option"

record gravity_signature =
  gs_power :: u64
  gs_eth_address :: eth_address
  gs_v :: uint256
  gs_r :: uint256
  gs_s :: uint256

record gravity_signature_arrays =
  ga_addresses :: "eth_address list"
  ga_powers :: "u64 list"
  ga_v :: token
  ga_r :: token
  ga_s :: token

record signature_status =
  ordered_signatures :: "gravity_signature list"
  power_of_good_sigs :: u64
  power_of_unset_keys :: u64
  number_of_unset_key_validators :: nat
  power_of_nonvoters :: u64
  number_of_nonvoters :: nat
  num_validators :: nat

definition valset_confirm :: "valset_confirm_response confirm" where
  "valset_confirm = \<lparr>get_eth_address = vcr_eth_address, get_signature = vcr_eth_signature\<rparr>"

definition batch_confirm :: "batch_confirm_response confirm" where
  "batch_confirm = \<lparr>get_eth_address = bcr_ethereum_signer, get_signature = bcr_eth_signature\<rparr>"

definition logic_call_confirm :: "logic_call_confirm_response confirm" where
  "logic_call_confirm = \<lparr>get_eth_address = lcr_ethereum_signer, get_signature = lcr_eth_signature\<rparr>"


section \<open>Ordering signatures\<close>

definition TOTAL_GRAVITY_POWER :: u64 where
  "TOTAL_GRAVITY_POWER = 4294967295"

definition gravity_power_to_percent :: "u64 \<Rightarrow> rat" where
  "gravity_power_to_percent input =
     fl32 (fl32 (fl32 (of_nat (unat input)) / fl32 (of_nat (unat TOTAL_GRAVITY_POWER))) * 100)"

fun get_hashmap_loop :: "'t confirm \<Rightarrow> 't list \<Rightarrow> (eth_address \<rightharpoonup> 't) \<Rightarrow> (eth_address \<rightharpoonup> 't)" where
  "get_hashmap_loop K [] out = out"
| "get_hashmap_loop K (i # is) out = get_hashmap_loop K is (out(get_eth_address K i \<mapsto> i))"

definition get_hashmap :: "'t confirm \<Rightarrow> 't list \<Rightarrow> (eth_address \<rightharpoonup> 't)" where
  "get_hashmap K input = get_hashmap_loop K input Map.empty"

definition no_signature :: "u64 \<Rightarrow> eth_address \<Rightarrow> gravity_signature" where
  "no_signature p a = \<lparr>gs_power = p, gs_eth_address = a, gs_v = 0, gs_r = 0, gs_s = 0\<rparr>"

text \<open>The body of the loop of \<open>get_signature_status\<close> for one member.\<close>

definition signature_step :: "clarity \<Rightarrow> 't confirm \<Rightarrow> bytes \<Rightarrow> (eth_address \<rightharpoonup> 't) \<Rightarrow> valset_member \<Rightarrow>
    signature_status \<Rightarrow> signature_status outcome" where
  "signature_step C K signed_message signatures_hashmap member st =
     (case vm_eth_address member of
        Some eth_address \<Rightarrow>
          (case signatures_hashmap eth_address of
             Some sig \<Rightarrow>
               if get_eth_address K sig \<noteq> eth_address then Panic ''assertion failed''
               else if \<not> signature_is_valid C (get_signature K sig) then Panic ''assertion failed''
               else bind_out (unwrap_sum (signature_recover C (get_signature K sig) signed_message)) (\<lambda>recover_key.
                 if recover_key = get_eth_address K sig then
                   Ret (st\<lparr>ordered_signatures := ordered_signatures st @
                             [\<lparr>gs_power = vm_power member, gs_eth_address = get_eth_address K sig,
                               gs_v = sig_v (get_signature K sig), gs_r = sig_r (get_signature K sig),
                               gs_s = sig_s (get_signature K sig)\<rparr>],
                           power_of_good_sigs := power_of_good_sigs st + vm_power member\<rparr>)
                 else Panic ''Found invalid signature how did this get here?'')
           | None \<Rightarrow>
               Ret (st\<lparr>ordered_signatures := ordered_signatures st @ [no_signature (vm_power member) eth_address],
                       power_of_nonvoters := power_of_nonvoters st + vm_power member,
                       number_of_nonvoters := number_of_nonvoters st + 1\<rparr>))
      | None \<Rightarrow>
          Ret (st\<lparr>ordered_signatures := ordered_signatures st @ [no_signature (vm_power member) ZERO_ADDRESS],
                  power_of_unset_keys := power_of_unset_keys st + vm_power member,
                  number_of_unset_key_validators := number_of_unset_key_validators st + 1\<rparr>))"

fun signature_loop :: "clarity \<Rightarrow> 't confirm \<Rightarrow> bytes \<Rightarrow> (eth_address \<rightharpoonup> 't) \<Rightarrow> valset_member list \<Rightarrow>
    signature_status \<Rightarrow> signature_status outcome" where
  "signature_loop C K msg sigs [] st = Ret st"
| "signature_loop C K msg sigs (member # ms) st =
     bind_out (signature_step C K msg sigs member st) (\<lambda>st'. signature_loop C K msg sigs ms st')"

definition empty_status :: signature_status where
  "empty_status = \<lparr>ordered_signatures = [], power_of_good_sigs = 0, power_of_unset_keys = 0,
     number_of_unset_key_validators = 0, power_of_nonvoters = 0, number_of_nonvoters = 0,
     num_validators = 0\<rparr>"

definition get_signature_status :: "clarity \<Rightarrow> 't confirm \<Rightarrow> valset \<Rightarrow> bytes \<Rightarrow> 't list \<Rightarrow> signature_status gresult outcome" where
  "get_signature_status C K self signed_message signatures =
     (if signatures = [] then Ret (Inl (ValidationError ''No signatures!''))
      else bind_out (signature_loop C K signed_message (get_hashmap K signatures) (vs_members self) empty_status) (\<lambda>st.
        Ret (Inr (st\<lparr>num_validators := length (vs_members self)\<rparr>))))"

definition order_sigs :: "clarity \<Rightarrow> 't confirm \<Rightarrow> valset \<Rightarrow> bytes \<Rightarrow> 't list \<Rightarrow> gravity_signature list gresult outcome" where
  "order_sigs C K self signed_message signatures =
     try_out (get_signature_status C K self signed_message signatures) (\<lambda>status.
     if gravity_power_to_percent (power_of_good_sigs status) < 66 then
       Ret (Inl (ValidationError ''power voting! Can not execute on Ethereum!''))
     else Ret (Inr (ordered_signatures status)))"

definition to_arrays :: "gravity_signature list \<Rightarrow> gravity_signature_arrays" where
  "to_arrays input =
     \<lparr>ga_addresses = map gs_eth_address input,
      ga_powers = map gs_power input,
      ga_v = token_u256s (map gs_v input),
      ga_r = token_u256s (map gs_r input),
      ga_s = token_u256s (map gs_s input)\<rparr>"


section \<open>Members and powers\<close>

fun filter_empty_loop :: "valset_member list \<Rightarrow> eth_address list \<Rightarrow> u64 list \<Rightarrow> eth_address list \<times> u64 list" where
  "filter_empty_loop [] addresses powers = (addresses, powers)"
| "filter_empty_loop (val # vals) addresses powers =
     (case vm_eth_address val of
        Some a \<Rightarrow> filter_empty_loop vals (addresses @ [a]) (powers @ [vm_power val])
      | None \<Rightarrow> filter_empty_loop vals (addresses @ [ZERO_ADDRESS]) (powers @ [vm_power val]))"

definition filter_empty_addresses :: "valset \<Rightarrow> eth_address list \<times> u64 list" where
  "filter_empty_addresses self = filter_empty_loop (vs_members self) [] []"

fun get_power_loop :: "valset_member list \<Rightarrow> eth_address \<Rightarrow> cosmos_grpc_error + u64" where
  "get_power_loop [] address = Inl (BadInput ''All Eth Addresses must be set'')"
| "get_power_loop (val # vals) address =
     (if vm_eth_address val = Some address then Inr (vm_power val) else get_power_loop vals address)"

definition get_power :: "valset \<Rightarrow> eth_address \<Rightarrow> cosmos_grpc_error + u64" where
  "get_power self address = get_power_loop (vs_members self) address"

text \<open>A \<open>HashSet\<close> is the list of its elements without repetition; its iteration order is
  arbitrary, and \<open>power_diff_any_order\<close> shows that nothing depends on it.\<close>

fun to_hashmap_loop :: "valset_member list \<Rightarrow> (eth_address \<rightharpoonup> u64) \<Rightarrow> (eth_address \<rightharpoonup> u64)" where
  "to_hashmap_loop [] res = res"
| "to_hashmap_loop (item # items) res =
     (case vm_eth_address item of
        Some address \<Rightarrow> to_hashmap_loop items (res(address \<mapsto> vm_power item))
      | None \<Rightarrow> to_hashmap_loop items res)"

definition to_hashmap :: "valset \<Rightarrow> (eth_address \<rightharpoonup> u64)" where
  "to_hashmap self = to_hashmap_loop (vs_members self) Map.empty"

fun to_hashset_loop :: "valset_member list \<Rightarrow> eth_address list \<Rightarrow> eth_address list" where
  "to_hashset_loop [] res = res"
| "to_hashset_loop (item # items) res =
     (case vm_eth_address item of
        Some address \<Rightarrow> to_hashset_loop items (List.insert address res)
      | None \<Rightarrow> to_hashset_loop items res)"

definition to_hashset :: "valset \<Rightarrow> eth_address list" where
  "to_hashset self = to_hashset_loop (vs_members self) []"

text \<open>The two loops of \<open>power_diff\<close>.\<close>

fun symmetric_difference_loop :: "(eth_address \<rightharpoonup> u64) \<Rightarrow> (eth_address \<rightharpoonup> u64) \<Rightarrow> eth_address list \<Rightarrow> u64 \<Rightarrow> u64 outcome" where
  "symmetric_difference_loop a b [] total_power_diff = Ret total_power_diff"
| "symmetric_difference_loop a b (item # items) total_power_diff =
     bind_out (unwrap_opt (case a item of Some val \<Rightarrow> Some val | None \<Rightarrow> b item)) (\<lambda>p.
     symmetric_difference_loop a b items (total_power_diff + p))"

fun intersection_loop :: "(eth_address \<rightharpoonup> u64) \<Rightarrow> (eth_address \<rightharpoonup> u64) \<Rightarrow> eth_address list \<Rightarrow> u64 \<Rightarrow> u64 outcome" where
  "intersection_loop a b [] total_power_diff = Ret total_power_diff"
| "intersection_loop a b (item # items) total_power_diff =
     bind_out (unwrap_opt (a item)) (\<lambda>power_a.
     bind_out (unwrap_opt (b item)) (\<lambda>power_b.
     intersection_loop a b items
       (if power_a > power_b then total_power_diff + (power_a - power_b)
        else total_power_diff + (power_b - power_a))))"

definition power_diff_over :: "valset \<Rightarrow> valset \<Rightarrow> eth_address list \<Rightarrow> eth_address list \<Rightarrow> rat outcome" where
  "power_diff_over self other symmetric_difference intersection =
     bind_out (symmetric_difference_loop (to_hashmap self) (to_hashmap other) symmetric_difference 0) (\<lambda>d.
     bind_out (intersection_loop (to_hashmap self) (to_hashmap other) intersection d) (\<lambda>total_power_diff.
     Ret (fl32 (fl32 (of_nat (unat total_power_diff)) / fl32 (of_nat u32_MAX)))))"

definition power_diff :: "valset \<Rightarrow> valset \<Rightarrow> rat outcome" where
  "power_diff self other =
     (let a_map = to_hashset self; b_map = to_hashset other in
      power_diff_over self other
        (filter (\<lambda>x. x \<notin> set b_map) a_map @ filter (\<lambda>x. x \<notin> set a_map) b_map)
        (filter (\<lambda>x. x \<in> set b_map) a_map))"


section \<open>The order of members and signatures\<close>

text \<open>\<open>Option<EthAddress>\<close> compares \<open>None\<close> below every address.\<close>

fun option_cmp :: "eth_address comparator \<Rightarrow> eth_address option \<Rightarrow> eth_address option \<Rightarrow> comp" where
  "option_cmp c None None = Equiv"
| "option_cmp c None (Some b) = Less"
| "option_cmp c (Some a) None = Greater"
| "option_cmp c (Some a) (Some b) = compare c a b"

fun reverse_cmp :: "comp \<Rightarrow> comp" where
  "reverse_cmp Less = Greater"
| "reverse_cmp Equiv = Equiv"
| "reverse_cmp Greater = Less"

definition valset_member_cmp :: "clarity \<Rightarrow> valset_member \<Rightarrow> valset_member \<Rightarrow> comp" where
  "valset_member_cmp C self other =
     (if vm_power self \<noteq> vm_power other then compare default (vm_power self) (vm_power other)
      else reverse_cmp (option_cmp (address_cmp C) (vm_eth_address self) (vm_eth_address other)))"

definition gravity_signature_cmp :: "clarity \<Rightarrow> gravity_signature \<Rightarrow> gravity_signature \<Rightarrow> comp" where
  "gravity_signature_cmp C self other =
     (if gs_power self \<noteq> gs_power other then compare default (gs_power self) (gs_power other)
      else reverse_cmp (compare (address_cmp C) (gs_eth_address self) (gs_eth_address other)))"


section \<open>Conversions from and to the protobuf messages\<close>

definition valset_member_from_proto :: "libs \<Rightarrow> bridge_validator \<Rightarrow> valset_member" where
  "valset_member_from_proto L input =
     \<lparr>vm_power = bv_power input,
      vm_eth_address = (case address_parse (cl L) (bv_ethereum_address input) of Inr e \<Rightarrow> Some e | Inl _ \<Rightarrow> None)\<rparr>"

definition valset_member_to_proto :: "libs \<Rightarrow> valset_member \<Rightarrow> bridge_validator" where
  "valset_member_to_proto L input =
     \<lparr>bv_power = vm_power input,
      bv_ethereum_address = (case vm_eth_address input of Some e \<Rightarrow> address_to_string (cl L) e | None \<Rightarrow> [])\<rparr>"

definition valset_from_proto :: "libs \<Rightarrow> proto_valset \<Rightarrow> valset outcome" where
  "valset_from_proto L input =
     bind_out (unwrap_sum (address_parse (cl L) (pv_reward_token input))) (\<lambda>parsed_reward_token.
     let reward_token = (if parsed_reward_token = ZERO_ADDRESS then None else Some parsed_reward_token) in
     bind_out (unwrap_sum (u256_parse (nm L) (pv_reward_amount input))) (\<lambda>reward_amount.
     Ret \<lparr>vs_nonce = pv_nonce input,
          vs_members = map (valset_member_from_proto L) (pv_members input),
          vs_reward_amount = reward_amount,
          vs_reward_token = reward_token\<rparr>))"

definition valset_to_proto :: "libs \<Rightarrow> valset \<Rightarrow> proto_valset" where
  "valset_to_proto L self =
     \<lparr>pv_nonce = vs_nonce self,
      pv_members = map (valset_member_to_proto L) (vs_members self),
      pv_height = 0,
      pv_reward_amount = u256_to_string (nm L) (vs_reward_amount self),
      pv_reward_token = address_to_string (cl L)
        (case vs_reward_token self of Some t \<Rightarrow> t | None \<Rightarrow> ZERO_ADDRESS)\<rparr>"

definition valset_confirm_response_try_from :: "libs \<Rightarrow> msg_valset_confirm \<Rightarrow> valset_confirm_response gresult" where
  "valset_confirm_response_try_from L input =
     try_sum (parse_cosmos L (mvc_orchestrator input)) (\<lambda>orchestrator.
     try_sum (parse_eth L (mvc_eth_address input)) (\<lambda>eth_address.
     try_sum (parse_sig L (mvc_signature input)) (\<lambda>signature.
     Inr \<lparr>vcr_orchestrator = orchestrator, vcr_eth_address = eth_address,
          vcr_nonce = mvc_nonce input, vcr_eth_signature = signature\<rparr>)))"


section \<open>The power threshold in single precision\<close>

text \<open>\<open>u32::MAX as f32\<close> rounds up to \<open>2^32\<close>.\<close>

lemma fl32_total_power: "fl32 4294967295 = 4294967296"
proof -
  have "round_half_even (4294967295 / 256) = 16777216"
    by (subst round_half_even_floor [where f = 16777215]) simp_all
  then show ?thesis by (subst round_sig_eq [where e = 31]) (simp_all add: power_int_def)
qed

definition percent_of_rat :: "rat \<Rightarrow> rat" where
  "percent_of_rat x = fl32 (fl32 (fl32 x / 4294967296) * 100)"

lemma gravity_power_to_percent_alt: "gravity_power_to_percent p = percent_of_rat (of_nat (unat p))"
  by (simp add: gravity_power_to_percent_def percent_of_rat_def TOTAL_GRAVITY_POWER_def fl32_total_power)

lemma percent_of_rat_mono: "x \<le> y \<Longrightarrow> percent_of_rat x \<le> percent_of_rat y"
  unfolding percent_of_rat_def
  by (intro round_sig_mono mult_right_mono divide_right_mono) simp_all

lemma percent_below_threshold: "percent_of_rat 2834678143 < 66"
proof -
  have "round_half_even (2834678143 / 256) = 11072961"
    by (subst round_half_even_floor [where f = 11072961]) simp_all
  then have a: "fl32 2834678143 = 2834678016"
    by (subst round_sig_eq [where e = 31]) (simp_all add: power_int_def)
  have b: "fl32 (2834678016 / 4294967296) = 2834678016 / 4294967296"
    by (rule round_sig_exact [where e = "-1" and m = 11072961]) (simp_all add: power_int_def power_divide)
  have "round_half_even (2834678016 / 4294967296 * 100 * 131072) = 8650751"
    by (subst round_half_even_floor [where f = 8650750]) simp_all
  then have c: "fl32 (2834678016 / 4294967296 * 100) < 66"
    by (subst round_sig_eq [where e = 6]) (simp_all add: power_int_def power_divide)
  show ?thesis by (simp only: percent_of_rat_def a b c)
qed

lemma percent_at_threshold: "66 \<le> percent_of_rat 2834678144"
proof -
  have "round_half_even (2834678144 / 256) = 11072962"
    by (subst round_half_even_floor [where f = 11072961]) simp_all
  then have a: "fl32 2834678144 = 2834678272"
    by (subst round_sig_eq [where e = 31]) (simp_all add: power_int_def)
  have b: "fl32 (2834678272 / 4294967296) = 2834678272 / 4294967296"
    by (rule round_sig_exact [where e = "-1" and m = 11072962]) (simp_all add: power_int_def power_divide)
  have "round_half_even (2834678272 / 4294967296 * 100 * 131072) = 8650752"
    by (subst round_half_even_floor [where f = 8650751]) simp_all
  then have c: "66 \<le> fl32 (2834678272 / 4294967296 * 100)"
    by (subst round_sig_eq [where e = 6]) (simp_all add: power_int_def power_divide)
  show ?thesis by (simp only: percent_of_rat_def a b c)
qed

lemma percent_threshold: "gravity_power_to_percent p < 66 \<longleftrightarrow> unat p < 2834678144"
proof
  assume lt: "gravity_power_to_percent p < 66"
  show "unat p < 2834678144"
  proof (rule ccontr)
    assume "\<not> unat p < 2834678144"
    then have "(of_nat 2834678144 :: rat) \<le> of_nat (unat p)" by (simp only: of_nat_le_iff not_less)
    then have "percent_of_rat 2834678144 \<le> percent_of_rat (of_nat (unat p))"
      by (intro percent_of_rat_mono) simp
    with lt percent_at_threshold show False by (simp add: gravity_power_to_percent_alt)
  qed
next
  assume "unat p < 2834678144"
  then have "(of_nat (unat p) :: rat) \<le> of_nat 2834678143" by (simp only: of_nat_le_iff)
  then have "percent_of_rat (of_nat (unat p)) \<le> percent_of_rat 2834678143"
    by (intro percent_of_rat_mono) simp
  with percent_below_threshold show "gravity_power_to_percent p < 66"
    by (simp add: gravity_power_to_percent_alt)
qed


section \<open>What \<open>get_signature_status\<close> collects\<close>

text \<open>A member has voted when a confirmation under its address is at hand; its vote is sound when
  the confirmation's signature is valid and recovers to that address.\<close>

definition has_voted :: "(eth_address \<rightharpoonup> 't) \<Rightarrow> valset_member \<Rightarrow> bool" where
  "has_voted sigs m \<longleftrightarrow> (case vm_eth_address m of None \<Rightarrow> False | Some a \<Rightarrow> sigs a \<noteq> None)"

definition has_no_key :: "valset_member \<Rightarrow> bool" where
  "has_no_key m \<longleftrightarrow> vm_eth_address m = None"

definition has_not_voted :: "(eth_address \<rightharpoonup> 't) \<Rightarrow> valset_member \<Rightarrow> bool" where
  "has_not_voted sigs m \<longleftrightarrow> (case vm_eth_address m of None \<Rightarrow> False | Some a \<Rightarrow> sigs a = None)"

definition sound_vote :: "clarity \<Rightarrow> 't confirm \<Rightarrow> bytes \<Rightarrow> (eth_address \<rightharpoonup> 't) \<Rightarrow> valset_member \<Rightarrow> bool" where
  "sound_vote C K msg sigs m \<longleftrightarrow>
     (case vm_eth_address m of
        None \<Rightarrow> True
      | Some a \<Rightarrow> (case sigs a of
          None \<Rightarrow> True
        | Some sig \<Rightarrow> get_eth_address K sig = a \<and> signature_is_valid C (get_signature K sig) \<and>
            signature_recover C (get_signature K sig) msg = Inr a))"

text \<open>The entry of a member in the ordered list.\<close>

definition ordered_signature :: "'t confirm \<Rightarrow> (eth_address \<rightharpoonup> 't) \<Rightarrow> valset_member \<Rightarrow> gravity_signature" where
  "ordered_signature K sigs m =
     (case vm_eth_address m of
        None \<Rightarrow> no_signature (vm_power m) ZERO_ADDRESS
      | Some a \<Rightarrow> (case sigs a of
          None \<Rightarrow> no_signature (vm_power m) a
        | Some sig \<Rightarrow> \<lparr>gs_power = vm_power m, gs_eth_address = a, gs_v = sig_v (get_signature K sig),
                       gs_r = sig_r (get_signature K sig), gs_s = sig_s (get_signature K sig)\<rparr>))"

definition power_where :: "(valset_member \<Rightarrow> bool) \<Rightarrow> valset_member list \<Rightarrow> u64" where
  "power_where P ms = (\<Sum>m \<leftarrow> filter P ms. vm_power m)"

definition count_where :: "(valset_member \<Rightarrow> bool) \<Rightarrow> valset_member list \<Rightarrow> nat" where
  "count_where P ms = length (filter P ms)"

lemma power_where_Nil [simp]: "power_where P [] = 0"
  by (simp add: power_where_def)

lemma power_where_Cons [simp]:
  "power_where P (m # ms) = (if P m then vm_power m + power_where P ms else power_where P ms)"
  by (simp add: power_where_def)

lemma count_where_Nil [simp]: "count_where P [] = 0"
  by (simp add: count_where_def)

lemma count_where_Cons [simp]:
  "count_where P (m # ms) = (if P m then Suc (count_where P ms) else count_where P ms)"
  by (simp add: count_where_def)

definition add_members :: "'t confirm \<Rightarrow> (eth_address \<rightharpoonup> 't) \<Rightarrow> valset_member list \<Rightarrow> signature_status \<Rightarrow> signature_status" where
  "add_members K sigs ms st =
     \<lparr>ordered_signatures = ordered_signatures st @ map (ordered_signature K sigs) ms,
      power_of_good_sigs = power_of_good_sigs st + power_where (has_voted sigs) ms,
      power_of_unset_keys = power_of_unset_keys st + power_where has_no_key ms,
      number_of_unset_key_validators = number_of_unset_key_validators st + count_where has_no_key ms,
      power_of_nonvoters = power_of_nonvoters st + power_where (has_not_voted sigs) ms,
      number_of_nonvoters = number_of_nonvoters st + count_where (has_not_voted sigs) ms,
      num_validators = num_validators st\<rparr>"

lemma add_members_Nil [simp]: "add_members K sigs [] st = st"
  by (simp add: add_members_def)

lemma add_members_Cons: "add_members K sigs (m # ms) st = add_members K sigs ms (add_members K sigs [m] st)"
  by (simp add: add_members_def add.assoc)

lemmas vote_defs = has_voted_def has_not_voted_def has_no_key_def sound_vote_def ordered_signature_def

lemma signature_step_sound:
  assumes "sound_vote C K msg sigs m"
  shows "signature_step C K msg sigs m st = Ret (add_members K sigs [m] st)"
proof (cases "vm_eth_address m")
  case None
  then show ?thesis by (cases st) (simp add: signature_step_def add_members_def vote_defs)
next
  case (Some a)
  with assms show ?thesis
    by (cases st; cases "sigs a") (simp_all add: signature_step_def add_members_def vote_defs)
qed

lemma signature_step_unsound:
  "\<not> sound_vote C K msg sigs m \<Longrightarrow> is_panic (signature_step C K msg sigs m st)"
proof -
  assume "\<not> sound_vote C K msg sigs m"
  then obtain a sig where a: "vm_eth_address m = Some a" "sigs a = Some sig"
    and bad: "get_eth_address K sig = a \<longrightarrow> signature_is_valid C (get_signature K sig) \<longrightarrow>
      signature_recover C (get_signature K sig) msg \<noteq> Inr a"
    by (auto simp: sound_vote_def split: option.splits)
  then show ?thesis
    by (cases "signature_recover C (get_signature K sig) msg") (auto simp: signature_step_def)
qed

lemma signature_loop_sound:
  "list_all (sound_vote C K msg sigs) ms \<Longrightarrow>
     signature_loop C K msg sigs ms st = Ret (add_members K sigs ms st)"
  by (induction ms arbitrary: st) (simp_all add: signature_step_sound add_members_Cons [symmetric])

lemma signature_loop_unsound:
  "\<not> list_all (sound_vote C K msg sigs) ms \<Longrightarrow> is_panic (signature_loop C K msg sigs ms st)"
proof (induction ms arbitrary: st)
  case (Cons m ms)
  show ?case
  proof (cases "sound_vote C K msg sigs m")
    case True
    with Cons show ?thesis by (simp add: signature_step_sound)
  next
    case False
    then have "is_panic (signature_step C K msg sigs m st)" by (rule signature_step_unsound)
    then show ?thesis by (cases "signature_step C K msg sigs m st") simp_all
  qed
qed simp

lemma get_signature_status_sound:
  "signatures \<noteq> [] \<Longrightarrow> list_all (sound_vote C K msg (get_hashmap K signatures)) (vs_members v) \<Longrightarrow>
     get_signature_status C K v msg signatures =
       Ret (Inr ((add_members K (get_hashmap K signatures) (vs_members v) empty_status)
         \<lparr>num_validators := length (vs_members v)\<rparr>))"
  by (simp add: get_signature_status_def signature_loop_sound)

lemma get_signature_status_unsound:
  assumes "signatures \<noteq> []" "\<not> list_all (sound_vote C K msg (get_hashmap K signatures)) (vs_members v)"
  shows "is_panic (get_signature_status C K v msg signatures)"
proof -
  have "is_panic (signature_loop C K msg (get_hashmap K signatures) (vs_members v) empty_status)"
    using assms(2) by (rule signature_loop_unsound)
  with assms(1) show ?thesis
    by (cases "signature_loop C K msg (get_hashmap K signatures) (vs_members v) empty_status")
      (simp_all add: get_signature_status_def)
qed

text \<open>The power of the votes at hand, and the least power \<open>order_sigs\<close> accepts.\<close>

definition voted_power :: "'t confirm \<Rightarrow> valset \<Rightarrow> 't list \<Rightarrow> u64" where
  "voted_power K v signatures = power_where (has_voted (get_hashmap K signatures)) (vs_members v)"

definition ACCEPTED_POWER :: nat where
  "ACCEPTED_POWER = 2834678144"

lemma order_sigs_sound:
  assumes "signatures \<noteq> []" "list_all (sound_vote C K msg (get_hashmap K signatures)) (vs_members v)"
  shows "order_sigs C K v msg signatures =
    (if unat (voted_power K v signatures) < ACCEPTED_POWER
     then Ret (Inl (ValidationError ''power voting! Can not execute on Ethereum!''))
     else Ret (Inr (map (ordered_signature K (get_hashmap K signatures)) (vs_members v))))"
  by (simp add: order_sigs_def get_signature_status_sound [OF assms] percent_threshold
      add_members_def empty_status_def voted_power_def ACCEPTED_POWER_def)

lemma order_sigs_unsound:
  assumes "signatures \<noteq> []" "\<not> list_all (sound_vote C K msg (get_hashmap K signatures)) (vs_members v)"
  shows "is_panic (order_sigs C K v msg signatures)"
  using get_signature_status_unsound [OF assms]
  by (cases "get_signature_status C K v msg signatures") (simp_all add: order_sigs_def)

lemma order_sigs_empty:
  "order_sigs C K v msg [] = Ret (Inl (ValidationError ''No signatures!''))"
  by (simp add: order_sigs_def get_signature_status_def)

lemma order_sigs_Ok_iff:
  "order_sigs C K v msg signatures = Ret (Inr gs) \<longleftrightarrow>
     signatures \<noteq> [] \<and> list_all (sound_vote C K msg (get_hashmap K signatures)) (vs_members v) \<and>
     ACCEPTED_POWER \<le> unat (voted_power K v signatures) \<and>
     gs = map (ordered_signature K (get_hashmap K signatures)) (vs_members v)"
proof (cases "signatures = []")
  case True
  then show ?thesis by (simp add: order_sigs_empty)
next
  case ne: False
  show ?thesis
  proof (cases "list_all (sound_vote C K msg (get_hashmap K signatures)) (vs_members v)")
    case True
    with ne show ?thesis by (auto simp: order_sigs_sound)
  next
    case False
    with ne have "is_panic (order_sigs C K v msg signatures)" by (rule order_sigs_unsound)
    with False show ?thesis by auto
  qed
qed

lemma order_sigs_panic_iff:
  "is_panic (order_sigs C K v msg signatures) \<longleftrightarrow>
     signatures \<noteq> [] \<and> \<not> list_all (sound_vote C K msg (get_hashmap K signatures)) (vs_members v)"
  by (cases "signatures = []";
      cases "list_all (sound_vote C K msg (get_hashmap K signatures)) (vs_members v)")
    (simp_all add: order_sigs_empty order_sigs_sound order_sigs_unsound)

text \<open>The hash map holds the last confirmation of each address.\<close>

lemma find_snoc: "find P (xs @ [y]) = (case find P xs of None \<Rightarrow> if P y then Some y else None | Some x \<Rightarrow> Some x)"
  by (induction xs) auto

lemma get_hashmap_loop_find:
  "get_hashmap_loop K xs out a =
     (case find (\<lambda>x. get_eth_address K x = a) (rev xs) of None \<Rightarrow> out a | Some x \<Rightarrow> Some x)"
  by (induction xs arbitrary: out) (auto simp: find_snoc split: option.splits)

lemma get_hashmap_find: "get_hashmap K xs a = find (\<lambda>x. get_eth_address K x = a) (rev xs)"
  by (simp add: get_hashmap_def get_hashmap_loop_find split: option.splits)

lemma get_hashmap_Some:
  "get_hashmap K xs a = Some x \<Longrightarrow> x \<in> set xs \<and> get_eth_address K x = a"
  unfolding get_hashmap_find find_Some_iff by (metis nth_mem set_rev)

text \<open>The three powers of the status add up to the power of the set, and the counts to its
  size.\<close>

lemma power_partition:
  "power_where (has_voted sigs) ms + power_where (has_not_voted sigs) ms + power_where has_no_key ms =
     power_where (\<lambda>_. True) ms"
proof (induction ms)
  case (Cons m ms)
  then show ?case
    by (cases "vm_eth_address m"; cases "sigs (the (vm_eth_address m))")
      (simp_all add: has_voted_def has_not_voted_def has_no_key_def algebra_simps)
qed simp

lemma count_partition:
  "count_where (has_voted sigs) ms + count_where (has_not_voted sigs) ms + count_where has_no_key ms =
     length ms"
proof (induction ms)
  case (Cons m ms)
  then show ?case
    by (cases "vm_eth_address m"; cases "sigs (the (vm_eth_address m))")
      (simp_all add: has_voted_def has_not_voted_def has_no_key_def)
qed simp

lemma ordered_signature_address [simp]:
  "gs_eth_address (ordered_signature K sigs m) =
     (case vm_eth_address m of Some a \<Rightarrow> a | None \<Rightarrow> ZERO_ADDRESS)"
  by (auto simp: ordered_signature_def no_signature_def split: option.splits)

lemma ordered_signature_power [simp]: "gs_power (ordered_signature K sigs m) = vm_power m"
  by (auto simp: ordered_signature_def no_signature_def split: option.splits)

lemma filter_empty_loop_map:
  "filter_empty_loop ms as ps =
     (as @ map (\<lambda>m. case vm_eth_address m of Some a \<Rightarrow> a | None \<Rightarrow> ZERO_ADDRESS) ms, ps @ map vm_power ms)"
  by (induction ms arbitrary: as ps) (auto split: option.splits)

lemma filter_empty_addresses_map:
  "filter_empty_addresses v =
     (map (\<lambda>m. case vm_eth_address m of Some a \<Rightarrow> a | None \<Rightarrow> ZERO_ADDRESS) (vs_members v),
      map vm_power (vs_members v))"
  by (simp add: filter_empty_addresses_def filter_empty_loop_map)

text \<open>Powers the Cosmos module normalises to at most \<open>u32::MAX\<close> in total never wrap.\<close>

definition member_power :: "(valset_member \<Rightarrow> bool) \<Rightarrow> valset_member list \<Rightarrow> nat" where
  "member_power P ms = (\<Sum>m \<leftarrow> filter P ms. unat (vm_power m))"

definition normalized :: "valset \<Rightarrow> bool" where
  "normalized v \<longleftrightarrow> member_power (\<lambda>_. True) (vs_members v) \<le> u32_MAX"

lemma member_power_le: "member_power P ms \<le> member_power (\<lambda>_. True) ms"
  by (induction ms) (auto simp: member_power_def)

lemma of_nat_member_power: "power_where P ms = of_nat (member_power P ms)"
  by (induction ms) (auto simp: member_power_def power_where_def)

lemma unat_power_where:
  assumes "normalized v"
  shows "unat (power_where P (vs_members v)) = member_power P (vs_members v)"
proof -
  from member_power_le assms have "member_power P (vs_members v) \<le> u32_MAX"
    unfolding normalized_def by (rule le_trans)
  then show ?thesis
    unfolding of_nat_member_power by (intro unat_of_nat_u64) (erule order_trans, simp)
qed

section \<open>The distance of two validator sets\<close>

definition power_at :: "(eth_address \<rightharpoonup> u64) \<Rightarrow> eth_address \<Rightarrow> nat" where
  "power_at m a = (case m a of None \<Rightarrow> 0 | Some p \<Rightarrow> unat p)"

definition power_gap :: "(eth_address \<rightharpoonup> u64) \<Rightarrow> (eth_address \<rightharpoonup> u64) \<Rightarrow> eth_address \<Rightarrow> nat" where
  "power_gap a b x = (power_at a x - power_at b x) + (power_at b x - power_at a x)"

text \<open>The sum over all addresses of the absolute difference of their powers.\<close>

definition power_distance :: "valset \<Rightarrow> valset \<Rightarrow> nat" where
  "power_distance v w =
     (\<Sum>x \<in> dom (to_hashmap v) \<union> dom (to_hashmap w). power_gap (to_hashmap v) (to_hashmap w) x)"

lemma symmetric_difference_loop_sum:
  "\<forall>x \<in> set xs. (x \<in> dom a) \<noteq> (x \<in> dom b) \<Longrightarrow>
     symmetric_difference_loop a b xs t = Ret (t + of_nat (\<Sum>x \<leftarrow> xs. power_gap a b x))"
proof (induction xs arbitrary: t)
  case (Cons x xs)
  then show ?case
    by (cases "a x"; cases "b x") (auto simp: power_gap_def power_at_def dom_def add.assoc)
qed simp

lemma word_gap:
  fixes p q :: u64
  shows "(if p > q then t + (p - q) else t + (q - p)) = t + of_nat ((unat p - unat q) + (unat q - unat p))"
proof (cases "p > q")
  case True
  then have "unat q \<le> unat p" by (simp add: word_less_nat_alt)
  with True show ?thesis by (simp add: of_nat_diff)
next
  case False
  then have "unat p \<le> unat q" by (simp add: word_less_nat_alt)
  with False show ?thesis by (simp add: of_nat_diff)
qed

lemma intersection_loop_sum:
  "\<forall>x \<in> set xs. x \<in> dom a \<and> x \<in> dom b \<Longrightarrow>
     intersection_loop a b xs t = Ret (t + of_nat (\<Sum>x \<leftarrow> xs. power_gap a b x))"
proof (induction xs arbitrary: t)
  case (Cons x xs)
  then obtain p q where pq: "a x = Some p" "b x = Some q" by auto
  have "intersection_loop a b (x # xs) t =
      intersection_loop a b xs (t + of_nat (power_gap a b x))"
    by (simp only: intersection_loop.simps pq unwrap_opt.simps bind_out.simps word_gap
        power_gap_def power_at_def option.simps)
  with Cons show ?case by (simp add: add.assoc)
qed simp

lemma to_hashset_loop_set: "set (to_hashset_loop ms res) = set res \<union> {a. \<exists>m \<in> set ms. vm_eth_address m = Some a}"
  by (induction ms arbitrary: res) (auto split: option.splits)

lemma to_hashset_loop_distinct: "distinct res \<Longrightarrow> distinct (to_hashset_loop ms res)"
  by (induction ms arbitrary: res) (auto split: option.splits)

lemma to_hashmap_loop_dom: "dom (to_hashmap_loop ms res) = dom res \<union> {a. \<exists>m \<in> set ms. vm_eth_address m = Some a}"
  by (induction ms arbitrary: res) (auto split: option.splits)

lemma set_to_hashset: "set (to_hashset v) = dom (to_hashmap v)"
  by (simp add: to_hashset_def to_hashmap_def to_hashset_loop_set to_hashmap_loop_dom)

lemma distinct_to_hashset: "distinct (to_hashset v)"
  by (simp add: to_hashset_def to_hashset_loop_distinct)

lemma power_distance_split:
  assumes "set sd = (dom (to_hashmap v) - dom (to_hashmap w)) \<union> (dom (to_hashmap w) - dom (to_hashmap v))"
    "set is = dom (to_hashmap v) \<inter> dom (to_hashmap w)" "distinct sd" "distinct is"
  shows "power_distance v w =
    (\<Sum>x \<leftarrow> sd. power_gap (to_hashmap v) (to_hashmap w) x) + (\<Sum>x \<leftarrow> is. power_gap (to_hashmap v) (to_hashmap w) x)"
proof -
  have "dom (to_hashmap v) \<union> dom (to_hashmap w) = set sd \<union> set is" "set sd \<inter> set is = {}"
    using assms(1,2) by auto
  with assms(3,4) show ?thesis
    by (simp add: power_distance_def sum.union_disjoint sum_list_distinct_conv_sum_set)
qed

text \<open>Whatever order the hash sets are walked in, \<open>power_diff\<close> is the distance, modulo the wrap
  of its 64-bit accumulator, in single precision.\<close>

lemma power_diff_any_order:
  assumes "set sd = (dom (to_hashmap v) - dom (to_hashmap w)) \<union> (dom (to_hashmap w) - dom (to_hashmap v))"
    "set is = dom (to_hashmap v) \<inter> dom (to_hashmap w)" "distinct sd" "distinct is"
  shows "power_diff_over v w sd is =
    Ret (fl32 (fl32 (of_nat (power_distance v w mod 2 ^ 64)) / 4294967296))"
proof -
  have 1: "symmetric_difference_loop (to_hashmap v) (to_hashmap w) sd 0 =
      Ret (0 + of_nat (\<Sum>x \<leftarrow> sd. power_gap (to_hashmap v) (to_hashmap w) x))"
    using assms(1) by (intro symmetric_difference_loop_sum) auto
  have 2: "intersection_loop (to_hashmap v) (to_hashmap w) is t =
      Ret (t + of_nat (\<Sum>x \<leftarrow> is. power_gap (to_hashmap v) (to_hashmap w) x))" for t
    using assms(2) by (intro intersection_loop_sum) auto
  have 3: "fl32 (of_nat u32_MAX) = 4294967296" using fl32_total_power by simp
  show ?thesis unfolding power_diff_over_def 1 2 3 power_distance_split [OF assms] bind_out.simps
    by (simp only: add_0 of_nat_add [symmetric] unat_of_nat len_num1 len_bit0 mult_1_right) simp
qed

lemma power_diff_distance:
  "power_diff v w = Ret (fl32 (fl32 (of_nat (power_distance v w mod 2 ^ 64)) / 4294967296))"
  unfolding power_diff_def Let_def
  by (rule power_diff_any_order)
    (auto simp: set_to_hashset distinct_to_hashset simp del: domIff)

lemma power_gap_commute: "power_gap a b x = power_gap b a x"
  by (simp add: power_gap_def)

lemma power_distance_commute: "power_distance v w = power_distance w v"
  unfolding power_distance_def by (simp add: power_gap_commute Un_commute)

lemma power_distance_zero_iff:
  "power_distance v w = 0 \<longleftrightarrow>
     (\<forall>x. power_at (to_hashmap v) x = power_at (to_hashmap w) x)"
proof -
  have fin: "finite (dom (to_hashmap v) \<union> dom (to_hashmap w))"
    by (simp flip: set_to_hashset)
  have gap: "power_gap a b x = 0 \<longleftrightarrow> power_at a x = power_at b x" for a b x
    by (auto simp: power_gap_def)
  have out: "power_at (to_hashmap v) x = power_at (to_hashmap w) x"
    if "x \<notin> dom (to_hashmap v) \<union> dom (to_hashmap w)" for x
    using that by (auto simp: power_at_def domIff)
  show ?thesis
    unfolding power_distance_def sum_eq_0_iff [OF fin] gap using out by blast
qed

text \<open>The triangle inequality, and the bound two normalised sets stay under.\<close>

lemma power_gap_le: "power_gap a b x \<le> power_at a x + power_at b x"
  by (simp add: power_gap_def)

lemma to_hashmap_power_le:
  "(\<Sum>x \<in> dom (to_hashmap_loop ms res). power_at (to_hashmap_loop ms res) x) \<le>
     (\<Sum>x \<in> dom res. power_at res x) + (\<Sum>m \<leftarrow> ms. unat (vm_power m))"
  if "finite (dom res)" for res
  using that
proof (induction ms arbitrary: res)
  case (Cons m ms)
  show ?case
  proof (cases "vm_eth_address m")
    case None
    with Cons.IH [OF Cons.prems] show ?thesis by simp
  next
    case (Some a)
    let ?r = "res(a \<mapsto> vm_power m)"
    have "(\<Sum>x \<in> dom ?r. power_at ?r x) =
        unat (vm_power m) + (\<Sum>x \<in> dom res - {a}. power_at res x)"
      using Cons.prems by (simp add: sum.insert_remove power_at_def)
    also have "\<dots> \<le> unat (vm_power m) + (\<Sum>x \<in> dom res. power_at res x)"
      using Cons.prems by (intro add_left_mono sum_mono2) auto
    finally have "(\<Sum>x \<in> dom ?r. power_at ?r x) \<le> \<dots>" .
    moreover have "(\<Sum>x \<in> dom (to_hashmap_loop ms ?r). power_at (to_hashmap_loop ms ?r) x) \<le>
        (\<Sum>x \<in> dom ?r. power_at ?r x) + (\<Sum>m \<leftarrow> ms. unat (vm_power m))"
      using Cons.prems by (intro Cons.IH) simp
    ultimately show ?thesis using Some by (simp del: fun_upd_apply)
  qed
qed simp

lemma normalized_power_le:
  "normalized v \<Longrightarrow> (\<Sum>x \<in> dom (to_hashmap v). power_at (to_hashmap v) x) \<le> u32_MAX"
  using to_hashmap_power_le [of Map.empty "vs_members v"]
  by (simp add: to_hashmap_def normalized_def member_power_def)

lemma power_distance_le:
  assumes "normalized v" "normalized w"
  shows "power_distance v w \<le> 2 * u32_MAX"
proof -
  let ?a = "to_hashmap v" and ?b = "to_hashmap w"
  have fin: "finite (dom ?a)" "finite (dom ?b)" by (simp_all flip: set_to_hashset)
  have sub: "(\<Sum>x \<in> dom m \<union> D. power_at m x) = (\<Sum>x \<in> dom m. power_at m x)"
    if "finite (dom m)" "finite D" for m :: "eth_address \<rightharpoonup> u64" and D
    using that by (intro sum.mono_neutral_right) (auto simp: power_at_def split: option.splits)
  have "power_distance v w \<le> (\<Sum>x \<in> dom ?a \<union> dom ?b. power_at ?a x + power_at ?b x)"
    unfolding power_distance_def by (intro sum_mono power_gap_le)
  also have "\<dots> = (\<Sum>x \<in> dom ?a. power_at ?a x) + (\<Sum>x \<in> dom ?b. power_at ?b x)"
    using sub [OF fin] sub [OF fin(2,1)] by (simp add: sum.distrib Un_commute)
  also have "\<dots> \<le> u32_MAX + u32_MAX"
    by (intro add_mono normalized_power_le assms)
  finally show ?thesis by simp
qed

lemma fl32_two: "fl32 2 = 2"
  by (rule round_sig_exact [where e = 1 and m = 8388608]) (simp_all add: power_int_def power_divide)

lemma fl32_double_total: "fl32 8589934590 = 8589934592"
proof -
  have "round_half_even (8589934590 / 512) = 16777216"
    by (subst round_half_even_floor [where f = 16777215]) simp_all
  then show ?thesis by (subst round_sig_eq [where e = 32]) (simp_all add: power_int_def)
qed

lemma power_diff_bounds:
  assumes "normalized v" "normalized w"
  obtains d where "power_diff v w = Ret d" "0 \<le> d" "d \<le> 2"
proof -
  have le: "power_distance v w \<le> 2 * u32_MAX" using assms by (rule power_distance_le)
  then have m: "power_distance v w mod 2 ^ 64 = power_distance v w" by simp
  let ?x = "of_nat (power_distance v w) :: rat"
  have "?x \<le> of_nat (2 * u32_MAX)" using le by (simp only: of_nat_le_iff)
  then have "fl32 ?x \<le> fl32 8589934590" by (intro round_sig_mono) simp_all
  then have "fl32 (fl32 ?x / 4294967296) \<le> fl32 2"
    by (intro round_sig_mono) (simp_all add: fl32_double_total)
  moreover have "0 \<le> fl32 (fl32 ?x / 4294967296)" by (rule round_sig_nonneg)
  moreover have "power_diff v w = Ret (fl32 (fl32 ?x / 4294967296))"
    by (simp only: power_diff_distance m)
  ultimately show thesis by (intro that) (simp_all add: fl32_two)
qed

section \<open>The order of members and signatures is a total order\<close>

lemma comparator_option_cmp: "comparator (option_cmp c)"
proof
  fix a b d :: "eth_address option"
  show "option_cmp c a a = Equiv" by (cases a) simp_all
  show "option_cmp c a b = Equiv \<Longrightarrow> option_cmp c b d = Equiv \<Longrightarrow> option_cmp c a d = Equiv"
    by (cases a; cases b; cases d) (auto intro: compare.trans_equiv)
  show "option_cmp c a b = Less \<Longrightarrow> option_cmp c b d = Less \<Longrightarrow> option_cmp c a d = Less"
    by (cases a; cases b; cases d) (auto intro: compare.trans_less)
  show "option_cmp c b a = Greater \<longleftrightarrow> option_cmp c a b = Less"
    by (cases a; cases b) (auto simp: compare.greater_iff_sym_less)
qed

text \<open>Members and signatures are ordered alike: by power, and within one power by the reverse of
  the order of addresses.\<close>

locale power_then_address =
  fixes cmp :: "'m \<Rightarrow> 'm \<Rightarrow> comp"
    and power :: "'m \<Rightarrow> u64"
    and address :: "'m \<Rightarrow> 'k"
    and address_order :: "'k \<Rightarrow> 'k \<Rightarrow> comp"
  assumes addresses: "comparator address_order"
    and cmp_eq: "cmp x y = (if power x \<noteq> power y then compare default (power x) (power y)
      else reverse_cmp (address_order (address x) (address y)))"
begin

lemma reverse_cmp_iff:
  "reverse_cmp c = Less \<longleftrightarrow> c = Greater" "reverse_cmp c = Equiv \<longleftrightarrow> c = Equiv"
  "reverse_cmp c = Greater \<longleftrightarrow> c = Less"
  by (cases c; simp)+

lemma default_less: "compare default p q = Less \<longleftrightarrow> p < q" for p q :: u64
  by (simp add: compare_default_eq_Less_iff)

lemma default_greater: "compare default p q = Greater \<longleftrightarrow> q < p" for p q :: u64
  by (simp add: compare_default_eq_Greater_iff)

lemma default_equiv: "compare default p q = Equiv \<longleftrightarrow> p = q" for p q :: u64
  by (simp add: compare_default_eq_Equiv_iff)

lemma cmp_less_iff:
  "cmp x y = Less \<longleftrightarrow>
     power x < power y \<or> power x = power y \<and> address_order (address y) (address x) = Less"
  by (auto simp: cmp_eq reverse_cmp_iff default_less comparator.greater_iff_sym_less [OF addresses])

lemma cmp_equiv_iff:
  "cmp x y = Equiv \<longleftrightarrow> power x = power y \<and> address_order (address x) (address y) = Equiv"
  by (auto simp: cmp_eq reverse_cmp_iff default_equiv)

lemma cmp_greater_iff: "cmp x y = Greater \<longleftrightarrow> cmp y x = Less"
  by (auto simp: cmp_eq reverse_cmp_iff default_less default_greater
      comparator.greater_iff_sym_less [OF addresses])

lemma comparator_cmp: "comparator cmp"
proof
  show "cmp a a = Equiv" for a by (simp add: cmp_equiv_iff comparator.refl [OF addresses])
  show "cmp a b = Equiv \<Longrightarrow> cmp b c = Equiv \<Longrightarrow> cmp a c = Equiv" for a b c
    by (auto simp: cmp_equiv_iff intro: comparator.trans_equiv [OF addresses])
  show "cmp a b = Less \<Longrightarrow> cmp b c = Less \<Longrightarrow> cmp a c = Less" for a b c
    by (auto simp: cmp_less_iff intro: comparator.trans_less [OF addresses])
  show "cmp b a = Greater \<longleftrightarrow> cmp a b = Less" for a b by (rule cmp_greater_iff)
qed

text \<open>What a descending pair of the list looks like.\<close>

lemma not_greater_iff:
  "cmp x y \<noteq> Greater \<longleftrightarrow>
     power x < power y \<or> power x = power y \<and> address_order (address x) (address y) \<noteq> Less"
  by (auto simp: cmp_greater_iff cmp_less_iff)

end

interpretation member_order: power_then_address "valset_member_cmp C" vm_power vm_eth_address "option_cmp (address_cmp C)" for C
  by (intro power_then_address.intro) (simp_all add: comparator_option_cmp valset_member_cmp_def)

interpretation signature_order: power_then_address "gravity_signature_cmp C" gs_power gs_eth_address "compare (address_cmp C)" for C
  by (intro power_then_address.intro) (simp_all add: compare.comparator_axioms gravity_signature_cmp_def)

lift_definition valset_member_order :: "clarity \<Rightarrow> valset_member comparator" is valset_member_cmp
  by (rule member_order.comparator_cmp)

lift_definition gravity_signature_order :: "clarity \<Rightarrow> gravity_signature comparator" is gravity_signature_cmp
  by (rule signature_order.comparator_cmp)

text \<open>\<open>members.sort(); members.reverse();\<close> gives descending powers, and ascending addresses
  within one power.\<close>

definition sort_reverse :: "'m comparator \<Rightarrow> 'm list \<Rightarrow> 'm list" where
  "sort_reverse c xs = rev (Sorting_Algorithms.sort c xs)"

lemma sorted_pair:
  "Sorting_Algorithms.sorted c (xs @ x # ys @ y # zs) \<Longrightarrow> compare c x y \<noteq> Greater"
proof -
  assume "Sorting_Algorithms.sorted c (xs @ x # ys @ y # zs)"
  then have "Sorting_Algorithms.sorted c (x # ys @ y # zs)"
    by (simp add: sorted_append_iff)
  then show ?thesis using sorted_Cons_imp_not_less [of c x "ys @ y # zs" y]
    by (auto simp: compare.greater_iff_sym_less)
qed

lemma sort_reverse_pairs:
  assumes "sort_reverse c ms = xs @ x # ys @ y # zs"
  shows "compare c y x \<noteq> Greater"
proof -
  from assms have "Sorting_Algorithms.sort c ms = rev zs @ y # rev ys @ x # rev xs"
    unfolding sort_reverse_def by (metis append.assoc append_Cons append_Nil rev_append rev_rev_ident rev.simps(2))
  then have "Sorting_Algorithms.sorted c (rev zs @ y # rev ys @ x # rev xs)"
    using sorted_sort [of c ms] by simp
  then show ?thesis by (rule sorted_pair)
qed

lemma mset_sort_reverse [simp]: "mset (sort_reverse c ms) = mset ms"
  by (simp add: sort_reverse_def)

lemma set_sort_reverse [simp]: "set (sort_reverse c ms) = set ms"
  by (simp add: sort_reverse_def)

lemma length_sort_reverse [simp]: "length (sort_reverse c ms) = length ms"
  by (simp add: sort_reverse_def)


section \<open>Round trip of validator sets\<close>

text \<open>An empty address field does not parse, so a member without a key survives the trip.\<close>

definition clarity_no_empty :: "clarity \<Rightarrow> bool" where
  "clarity_no_empty C \<longleftrightarrow> is_err (address_parse C [])"

definition wf_valset :: "libs \<Rightarrow> valset \<Rightarrow> bool" where
  "wf_valset L v \<longleftrightarrow> libs_parse L \<and> clarity_no_empty (cl L) \<and> vs_reward_amount v < 2 ^ 256 \<and>
     vs_reward_token v \<noteq> Some ZERO_ADDRESS"

lemma valset_member_round_trip:
  assumes "libs_parse L" "clarity_no_empty (cl L)"
  shows "valset_member_from_proto L (valset_member_to_proto L m) = m"
proof (cases "vm_eth_address m")
  case None
  with assms show ?thesis
    by (cases "address_parse (cl L) []")
      (auto simp: valset_member_from_proto_def valset_member_to_proto_def clarity_no_empty_def)
next
  case (Some a)
  with assms show ?thesis
    by (simp add: valset_member_from_proto_def valset_member_to_proto_def libs_parse_def clarity_addresses_def)
qed

lemma valset_round_trip:
  assumes "wf_valset L v"
  shows "valset_from_proto L (valset_to_proto L v) = Ret v"
proof -
  from assms have L: "libs_parse L" "clarity_no_empty (cl L)" by (simp_all add: wf_valset_def)
  have ms: "map (valset_member_from_proto L) (map (valset_member_to_proto L) ms) = ms" for ms
    by (induction ms) (simp_all add: valset_member_round_trip [OF L])
  from assms have "u256_parse (nm L) (u256_to_string (nm L) (vs_reward_amount v)) = Inr (vs_reward_amount v)"
    by (simp add: wf_valset_def libs_parse_def num256_parses_def del: power_numeral)
  with assms ms [of "vs_members v"] show ?thesis
    by (cases "vs_reward_token v")
      (auto simp: valset_from_proto_def valset_to_proto_def wf_valset_def libs_parse_def
        clarity_addresses_def Let_def simp del: map_map)
qed

interpretation valset_codec: proto_codec "valset_to_proto L"
  "\<lambda>p. bind_out (valset_from_proto L p) (\<lambda>v. Ret (Inr v))" "wf_valset L" for L
  by unfold_locales (simp add: valset_round_trip)

section \<open>What the component promises\<close>

text \<open>C9: \<open>order_sigs\<close> gives the signature list exactly when there is a confirmation, every
  confirmation under the address of a member is valid and recovers to that address, and the members
  that confirmed hold at least \<open>ACCEPTED_POWER\<close>; the list then has one entry for each member, in
  the order of the set.  It panics exactly when one of the confirmations of a member is not sound.\<close>

theorem order_sigs_outcome:
  "(order_sigs C K v msg signatures = Ret (Inr gs) \<longleftrightarrow>
     signatures \<noteq> [] \<and> list_all (sound_vote C K msg (get_hashmap K signatures)) (vs_members v) \<and>
     ACCEPTED_POWER \<le> unat (voted_power K v signatures) \<and>
     gs = map (ordered_signature K (get_hashmap K signatures)) (vs_members v)) \<and>
   (is_panic (order_sigs C K v msg signatures) \<longleftrightarrow>
     signatures \<noteq> [] \<and> \<not> list_all (sound_vote C K msg (get_hashmap K signatures)) (vs_members v))"
  by (simp only: order_sigs_Ok_iff order_sigs_panic_iff simp_thms)


text \<open>The status of a normalised validator set splits its power into the power that signed,
  that has a key but did not sign, and that has no key; nobody is counted twice, and the list of
  signatures has one entry for each member.\<close>

lemma status_partition:
  assumes "get_signature_status C K v msg signatures = Ret (Inr st)" "normalized v"
  shows "unat (power_of_good_sigs st) + unat (power_of_nonvoters st) + unat (power_of_unset_keys st) =
      member_power (\<lambda>_. True) (vs_members v) \<and>
    number_of_nonvoters st + number_of_unset_key_validators st \<le> num_validators st \<and>
    length (ordered_signatures st) = num_validators st"
proof -
  let ?sigs = "get_hashmap K signatures" and ?ms = "vs_members v"
  from assms(1) have ne: "signatures \<noteq> []" by (auto simp: get_signature_status_def)
  then have "list_all (sound_vote C K msg ?sigs) ?ms"
    using get_signature_status_unsound [of signatures C K msg v] assms(1) by force
  with ne assms(1) have st: "st = (add_members K ?sigs ?ms empty_status)\<lparr>num_validators := length ?ms\<rparr>"
    by (simp add: get_signature_status_sound)
  have "member_power (has_voted ?sigs) ms + member_power (has_not_voted ?sigs) ms + member_power has_no_key ms =
      member_power (\<lambda>_. True) ms" for ms
    by (induction ms) (auto simp: member_power_def has_voted_def has_not_voted_def has_no_key_def split: option.splits)
  then have "unat (power_of_good_sigs st) + unat (power_of_nonvoters st) + unat (power_of_unset_keys st) =
      member_power (\<lambda>_. True) ?ms"
    by (simp add: st add_members_def empty_status_def unat_power_where [OF assms(2)])
  moreover have "number_of_nonvoters st + number_of_unset_key_validators st \<le> num_validators st"
    using count_partition [of ?sigs ?ms] by (simp add: st add_members_def empty_status_def)
  ultimately show ?thesis by (simp add: st add_members_def empty_status_def)
qed

text \<open>C25: \<open>power_diff\<close> never panics, is symmetric, and for normalised sets is the single precision
  value of the distance of the two power assignments, a number between zero and two.\<close>

theorem power_diff_metric:
  assumes "normalized v" "normalized w"
  shows "\<exists>d. power_diff v w = Ret d \<and> power_diff w v = Ret d \<and> 0 \<le> d \<and> d \<le> 2 \<and>
    d = fl32 (fl32 (of_nat (power_distance v w)) / 4294967296)"
proof -
  obtain d where d: "power_diff v w = Ret d" "0 \<le> d" "d \<le> 2" using power_diff_bounds [OF assms] by blast
  moreover have "power_diff w v = power_diff v w"
    by (simp only: power_diff_distance power_distance_commute)
  moreover have "power_distance v w mod 2 ^ 64 = power_distance v w"
    using power_distance_le [OF assms] by simp
  then have "power_diff v w = Ret (fl32 (fl32 (of_nat (power_distance v w)) / 4294967296))"
    by (simp only: power_diff_distance)
  ultimately show ?thesis by simp
qed

text \<open>A list of validator sets survives the conversion to the protobuf messages and back, so
  what a node sends is what the orchestrator signs.\<close>

lemma valsets_round_trip:
  assumes "list_all (wf_valset L) vs"
  shows "map_out_list (valset_from_proto L) (map (valset_to_proto L) vs) = Ret vs"
  using assms by (induction vs) (simp_all add: valset_round_trip)

end
