(* ===== verification/Events.thy ===== *)
theory Events
  imports Valsets
begin

text \<open>
  The events of the Gravity contract: \<open>gravity_utils/src/types/ethereum_events.rs\<close> and
  \<open>types/event_signatures.rs\<close>.  There is no ABI decoder in the sources: each event is cut out
  of the bytes of its log by hand, with wrapping \<open>usize\<close> offsets and panicking slices, which is
  how it is modelled here.  The reference against which the parsers are proved is the ABI layout
  the contract writes (\<open>encode_valset_data\<close> and its siblings below).
\<close>

definition TRANSACTION_BATCH_EXECUTED_EVENT_SIG :: string where
  "TRANSACTION_BATCH_EXECUTED_EVENT_SIG = ''TransactionBatchExecutedEvent(uint256,address,uint256)''"

definition SENT_TO_COSMOS_EVENT_SIG :: string where
  "SENT_TO_COSMOS_EVENT_SIG = ''SendToCosmosEvent(address,address,bytes32,uint256,uint256)''"

definition ERC20_DEPLOYED_EVENT_SIG :: string where
  "ERC20_DEPLOYED_EVENT_SIG = ''ERC20DeployedEvent(string,address,string,string,uint8,uint256)''"

definition LOGIC_CALL_EVENT_SIG :: string where
  "LOGIC_CALL_EVENT_SIG = ''LogicCallEvent(bytes32,uint256,bytes,uint256)''"

definition VALSET_UPDATED_EVENT_SIG :: string where
  "VALSET_UPDATED_EVENT_SIG = ''ValsetUpdatedEvent(uint256,uint256,uint256,address,address[],uint256[])''"

text \<open>\<open>web30::types::Log\<close>, the fields the parsers read.\<close>

record log =
  topics :: "bytes list"
  log_data :: bytes
  block_number :: "uint256 option"

record valset_updated_event =
  vu_valset_nonce :: u64
  vu_event_nonce :: u64
  vu_block_height :: uint256
  vu_reward_amount :: uint256
  vu_reward_token :: "eth_address option"
  vu_members :: "valset_member list"

record valset_data_bytes =
  vd_event_nonce :: u64
  vd_reward_amount :: uint256
  vd_reward_token :: "eth_address option"
  vd_members :: "valset_member list"

record transaction_batch_executed_event =
  be_batch_nonce :: u64
  be_block_height :: uint256
  be_erc20 :: eth_address
  be_event_nonce :: u64

record send_to_cosmos_event =
  sc_erc20 :: eth_address
  sc_sender :: eth_address
  sc_destination :: cosmos_address
  sc_amount :: uint256
  sc_event_nonce :: u64
  sc_block_height :: uint256

record erc20_deployed_event =
  ed_cosmos_denom :: string
  ed_erc20_address :: eth_address
  ed_name :: string
  ed_symbol :: string
  ed_decimals :: u8
  ed_event_nonce :: u64
  ed_block_height :: uint256

record logic_call_executed_event =
  le_invalidation_id :: bytes
  le_invalidation_nonce :: u64
  le_return_data :: bytes
  le_event_nonce :: u64
  le_block_height :: uint256


section \<open>\<open>ValsetUpdatedEvent\<close>\<close>

text \<open>\<open>Uint256::from_bytes_be(&input[start..start + 32])\<close>.\<close>

definition read_word :: "num256 \<Rightarrow> bytes \<Rightarrow> usize \<Rightarrow> uint256 outcome" where
  "read_word N input start =
     bind_out (slice_range input start (start + 32)) (\<lambda>bs. Ret (u256_from_bytes_be N bs))"

text \<open>The body of the loop over the members.\<close>

definition decode_member :: "libs \<Rightarrow> bytes \<Rightarrow> usize \<Rightarrow> usize \<Rightarrow> usize \<Rightarrow> valset_member gresult outcome" where
  "decode_member L input powers_offset eth_addresses_offset i =
     (let power_start = i * 32 + powers_offset;
          address_start = i * 32 + eth_addresses_offset;
          address_end = address_start + 32
      in bind_out (read_word (nm L) input power_start) (\<lambda>power.
         bind_out (slice_range input (address_start + 12) address_end) (\<lambda>address_data.
         case address_from_slice (cl L) address_data of
           Inl e \<Rightarrow> Ret (Inl (ValidationError ''Ethereum Address parsing error, probably incorrect parsing''))
         | Inr eth_address \<Rightarrow>
             if power > u64_MAX then
               Ret (Inl (ValidationError ''Power greater than u64::MAX, probably incorrect parsing''))
             else bind_out (u256_as_u64 (nm L) power) (\<lambda>power.
               Ret (Inr \<lparr>vm_power = power, vm_eth_address = Some eth_address\<rparr>)))))"

text \<open>The dynamic part: the two arrays, from the sixth word on.  The length of the second array is
  read and checked for overflow, but the length that is then compared is the first one again.\<close>

definition decode_valset_arrays :: "libs \<Rightarrow> bytes \<Rightarrow> valset_member list gresult outcome" where
  "decode_valset_arrays L input =
     bind_out (read_word (nm L) input (5 * 32)) (\<lambda>len_eth_addresses.
     let eth_addresses_offset = 5 * 32 + 32 in
     if len_eth_addresses > usize_MAX then
       Ret (Inl (ValidationError ''Ethereum array len overflow, probably incorrect parsing''))
     else bind_out (u256_as_usize (nm L) len_eth_addresses) (\<lambda>len_eth_addresses.
     let index_start = (6 + len_eth_addresses) * 32; powers_offset = index_start + 32 in
     bind_out (read_word (nm L) input index_start) (\<lambda>len_powers.
     if len_powers > usize_MAX then
       Ret (Inl (ValidationError ''Powers array len overflow, probably incorrect parsing''))
     else bind_out (unwrap_opt (parse_usize (dec_string (unat len_eth_addresses)))) (\<lambda>len_powers.
     if len_powers \<noteq> len_eth_addresses then
       Ret (Inl (ValidationError ''Array len mismatch, probably incorrect parsing''))
     else map_try_list (decode_member L input powers_offset eth_addresses_offset)
            (map of_nat [0..<unat len_eth_addresses])))))"

definition decode_data_bytes :: "libs \<Rightarrow> bytes \<Rightarrow> valset_data_bytes gresult outcome" where
  "decode_data_bytes L input =
     bind_out (read_word (nm L) input 0) (\<lambda>event_nonce.
     if event_nonce > u64_MAX then
       Ret (Inl (ValidationError ''Nonce overflow, probably incorrect parsing''))
     else bind_out (u256_as_u64 (nm L) event_nonce) (\<lambda>event_nonce.
     bind_out (read_word (nm L) input 32) (\<lambda>reward_amount.
     bind_out (slice_range input (2 * 32) (2 * 32 + 32)) (\<lambda>reward_token_data.
     bind_out (slice_from reward_token_data 12) (\<lambda>reward_token_bytes.
     case address_from_slice (cl L) reward_token_bytes of
       Inl e \<Rightarrow> Ret (Inl (ValidationError ''Bad reward address, must be incorrect parsing''))
     | Inr reward_token \<Rightarrow>
         let reward_token = (if reward_token = ZERO_ADDRESS then None else Some reward_token) in
         try_out (decode_valset_arrays L input) (\<lambda>validators.
         Ret (Inr \<lparr>vd_event_nonce = event_nonce, vd_reward_amount = reward_amount,
                   vd_reward_token = reward_token, vd_members = validators\<rparr>)))))))"

definition no_block_number :: gravity_error where
  "no_block_number = ValidationError ''Log does not have block number, we only search logs already in blocks?''"

definition valset_updated_from_log :: "libs \<Rightarrow> log \<Rightarrow> valset_updated_event gresult outcome" where
  "valset_updated_from_log L input =
     (case get_at (topics input) 1 of
        None \<Rightarrow> Ret (Inl (ValidationError ''Too few topics''))
      | Some valset_nonce_data \<Rightarrow>
          let valset_nonce = u256_from_bytes_be (nm L) valset_nonce_data in
          if valset_nonce > u64_MAX then
            Ret (Inl (ValidationError ''Nonce overflow, probably incorrect parsing''))
          else bind_out (u256_as_u64 (nm L) valset_nonce) (\<lambda>valset_nonce.
            case block_number input of
              None \<Rightarrow> Ret (Inl no_block_number)
            | Some block_height \<Rightarrow>
                try_out (decode_data_bytes L (log_data input)) (\<lambda>decoded_bytes.
                Ret (Inr \<lparr>vu_valset_nonce = valset_nonce,
                          vu_event_nonce = vd_event_nonce decoded_bytes,
                          vu_block_height = block_height,
                          vu_reward_amount = vd_reward_amount decoded_bytes,
                          vu_reward_token = vd_reward_token decoded_bytes,
                          vu_members = vd_members decoded_bytes\<rparr>))))"

definition valset_updated_from_logs :: "libs \<Rightarrow> log list \<Rightarrow> valset_updated_event list gresult outcome" where
  "valset_updated_from_logs L input = map_try_list (valset_updated_from_log L) input"

definition valset_updated_filter_by_event_nonce :: "u64 \<Rightarrow> valset_updated_event list \<Rightarrow> valset_updated_event list" where
  "valset_updated_filter_by_event_nonce event_nonce input = filter (\<lambda>item. vu_event_nonce item > event_nonce) input"


section \<open>\<open>TransactionBatchExecutedEvent\<close>\<close>

text \<open>\<open>EthAddress::from_slice(&data[12..32])?\<close>.\<close>

definition topic_address :: "libs \<Rightarrow> bytes \<Rightarrow> eth_address gresult outcome" where
  "topic_address L data =
     bind_out (slice_range data 12 32) (\<lambda>bs. Ret (map_err from_clarity_error (address_from_slice (cl L) bs)))"

definition transaction_batch_executed_from_log :: "libs \<Rightarrow> log \<Rightarrow> transaction_batch_executed_event gresult outcome" where
  "transaction_batch_executed_from_log L input =
     (case (get_at (topics input) 1, get_at (topics input) 2) of
        (Some batch_nonce_data, Some erc20_data) \<Rightarrow>
          let batch_nonce = u256_from_bytes_be (nm L) batch_nonce_data in
          try_out (topic_address L erc20_data) (\<lambda>erc20.
          let event_nonce = u256_from_bytes_be (nm L) (log_data input) in
          case block_number input of
            None \<Rightarrow> Ret (Inl no_block_number)
          | Some block_height \<Rightarrow>
              if event_nonce > u64_MAX \<or> batch_nonce > u64_MAX \<or> block_height > u64_MAX then
                Ret (Inl (ValidationError ''Event nonce overflow, probably incorrect parsing''))
              else
                bind_out (u256_as_u64 (nm L) batch_nonce) (\<lambda>batch_nonce.
                bind_out (u256_as_u64 (nm L) event_nonce) (\<lambda>event_nonce.
                Ret (Inr \<lparr>be_batch_nonce = batch_nonce, be_block_height = block_height,
                          be_erc20 = erc20, be_event_nonce = event_nonce\<rparr>))))
      | _ \<Rightarrow> Ret (Inl (ValidationError ''Too few topics'')))"

definition transaction_batch_executed_from_logs :: "libs \<Rightarrow> log list \<Rightarrow> transaction_batch_executed_event list gresult outcome" where
  "transaction_batch_executed_from_logs L input = map_try_list (transaction_batch_executed_from_log L) input"

definition transaction_batch_executed_filter_by_event_nonce :: "u64 \<Rightarrow> transaction_batch_executed_event list \<Rightarrow> transaction_batch_executed_event list" where
  "transaction_batch_executed_filter_by_event_nonce event_nonce input = filter (\<lambda>item. be_event_nonce item > event_nonce) input"


section \<open>\<open>SendToCosmosEvent\<close>\<close>

definition send_to_cosmos_from_log :: "libs \<Rightarrow> log \<Rightarrow> send_to_cosmos_event gresult outcome" where
  "send_to_cosmos_from_log L input =
     (case (get_at (topics input) 1, get_at (topics input) 2, get_at (topics input) 3) of
        (Some erc20_data, Some sender_data, Some destination_data) \<Rightarrow>
          try_out (topic_address L erc20_data) (\<lambda>erc20.
          try_out (topic_address L sender_data) (\<lambda>sender.
          bind_out (slice_range destination_data 12 32) (\<lambda>c_address_bytes.
          bind_out (unwrap_sum (cosmos_from_bytes (ds L) c_address_bytes (COSMOS_DEFAULT_PREFIX (ds L)))) (\<lambda>destination.
          bind_out (slice_range (log_data input) 0 32) (\<lambda>amount_data.
          bind_out (slice_from (log_data input) 32) (\<lambda>event_nonce_data.
          let amt = u256_from_bytes_be (nm L) amount_data;
              event_nonce = u256_from_bytes_be (nm L) event_nonce_data in
          case block_number input of
            None \<Rightarrow> Ret (Inl no_block_number)
          | Some block_height \<Rightarrow>
              if event_nonce > u64_MAX \<or> block_height > u64_MAX then
                Ret (Inl (ValidationError ''Event nonce overflow, probably incorrect parsing''))
              else
                bind_out (u256_as_u64 (nm L) event_nonce) (\<lambda>event_nonce.
                Ret (Inr \<lparr>sc_erc20 = erc20, sc_sender = sender, sc_destination = destination,
                          sc_amount = amt, sc_event_nonce = event_nonce, sc_block_height = block_height\<rparr>))))))))
      | _ \<Rightarrow> Ret (Inl (ValidationError ''Too few topics'')))"

definition send_to_cosmos_from_logs :: "libs \<Rightarrow> log list \<Rightarrow> send_to_cosmos_event list gresult outcome" where
  "send_to_cosmos_from_logs L input = map_try_list (send_to_cosmos_from_log L) input"

definition send_to_cosmos_filter_by_event_nonce :: "u64 \<Rightarrow> send_to_cosmos_event list \<Rightarrow> send_to_cosmos_event list" where
  "send_to_cosmos_filter_by_event_nonce event_nonce input = filter (\<lambda>item. sc_event_nonce item > event_nonce) input"


section \<open>\<open>Erc20DeployedEvent\<close>\<close>

text \<open>One dynamic string: its length word at \<open>len_start\<close>, which must not pass \<open>u32::MAX\<close>, and
  then its bytes, which must be UTF-8.  The result carries the end of the string.\<close>

definition read_string :: "libs \<Rightarrow> bytes \<Rightarrow> usize \<Rightarrow> string \<Rightarrow> (string \<times> usize) gresult outcome" where
  "read_string L data len_start overflow_message =
     bind_out (read_word (nm L) data len_start) (\<lambda>str_len.
     if str_len > u32_MAX then Ret (Inl (ValidationError overflow_message))
     else bind_out (u256_as_usize (nm L) str_len) (\<lambda>str_len.
     let index_start = len_start + 32; index_end = index_start + str_len in
     bind_out (slice_range data index_start index_end) (\<lambda>bs.
     case from_utf8 bs of
       None \<Rightarrow> Ret (Inl (ValidationError '' is not valid utf8, probably incorrect parsing''))
     | Some s \<Rightarrow> Ret (Inr (s, index_end)))))"

text \<open>The start of the next 32 byte word.\<close>

definition next_word :: "usize \<Rightarrow> usize" where
  "next_word index_end = ((index_end + 31) div 32) * 32"

definition erc20_deployed_from_log :: "libs \<Rightarrow> log \<Rightarrow> erc20_deployed_event gresult outcome" where
  "erc20_deployed_from_log L input =
     (case get_at (topics input) 1 of
        None \<Rightarrow> Ret (Inl (ValidationError ''Too few topics''))
      | Some new_token_contract_data \<Rightarrow>
          try_out (topic_address L new_token_contract_data) (\<lambda>erc20.
          bind_out (read_word (nm L) (log_data input) (3 * 32)) (\<lambda>decimals.
          if decimals > u8_MAX then
            Ret (Inl (ValidationError ''Decimals overflow, probably incorrect parsing''))
          else bind_out (u256_as_u8 (nm L) decimals) (\<lambda>decimals.
          bind_out (read_word (nm L) (log_data input) (4 * 32)) (\<lambda>nonce.
          if nonce > u64_MAX then
            Ret (Inl (ValidationError ''Nonce overflow, probably incorrect parsing''))
          else bind_out (u256_as_u64 (nm L) nonce) (\<lambda>event_nonce.
          try_out (read_string L (log_data input) (5 * 32)
              ''denom length overflow, probably incorrect parsing'') (\<lambda>(denom, index_end).
          try_out (read_string L (log_data input) (next_word index_end)
              ''ERC20 Name length overflow, probably incorrect parsing'') (\<lambda>(erc20_name, index_end).
          try_out (read_string L (log_data input) (next_word index_end)
              ''Symbol length overflow, probably incorrect parsing'') (\<lambda>(symbol, index_end).
          case block_number input of
            None \<Rightarrow> Ret (Inl no_block_number)
          | Some block_height \<Rightarrow>
              Ret (Inr \<lparr>ed_cosmos_denom = denom, ed_erc20_address = erc20, ed_name = erc20_name,
                        ed_symbol = symbol, ed_decimals = decimals, ed_event_nonce = event_nonce,
                        ed_block_height = block_height\<rparr>))))))))))"

definition erc20_deployed_from_logs :: "libs \<Rightarrow> log list \<Rightarrow> erc20_deployed_event list gresult outcome" where
  "erc20_deployed_from_logs L input = map_try_list (erc20_deployed_from_log L) input"

definition erc20_deployed_filter_by_event_nonce :: "u64 \<Rightarrow> erc20_deployed_event list \<Rightarrow> erc20_deployed_event list" where
  "erc20_deployed_filter_by_event_nonce event_nonce input = filter (\<lambda>item. ed_event_nonce item > event_nonce) input"


section \<open>\<open>LogicCallExecutedEvent\<close>\<close>

definition logic_call_executed_from_log :: "log \<Rightarrow> logic_call_executed_event gresult outcome" where
  "logic_call_executed_from_log input = Panic ''not implemented''"

definition logic_call_executed_from_logs :: "log list \<Rightarrow> logic_call_executed_event list gresult outcome" where
  "logic_call_executed_from_logs input = map_try_list logic_call_executed_from_log input"

definition logic_call_executed_filter_by_event_nonce :: "u64 \<Rightarrow> logic_call_executed_event list \<Rightarrow> logic_call_executed_event list" where
  "logic_call_executed_filter_by_event_nonce event_nonce input = filter (\<lambda>item. le_event_nonce item > event_nonce) input"

section \<open>The ABI layout the contract writes\<close>

definition abi_word :: "nat \<Rightarrow> bytes" where
  "abi_word n = be_bytes 32 n"

definition abi_words :: "nat list \<Rightarrow> bytes" where
  "abi_words ns = concat (map abi_word ns)"

lemma length_abi_word [simp]: "length (abi_word n) = 32"
  by (simp add: abi_word_def)

lemma length_abi_words [simp]: "length (abi_words ns) = 32 * length ns"
  by (induction ns) (simp_all add: abi_words_def)

lemma abi_words_Nil [simp]: "abi_words [] = []"
  by (simp add: abi_words_def)

lemma abi_words_Cons [simp]: "abi_words (n # ns) = abi_word n @ abi_words ns"
  by (simp add: abi_words_def)

lemma abi_words_append [simp]: "abi_words (ms @ ns) = abi_words ms @ abi_words ns"
  by (simp add: abi_words_def)

lemma be_value_abi_word: "n < 2 ^ 256 \<Longrightarrow> be_value (abi_word n) = n"
proof -
  assume "n < 2 ^ 256"
  moreover have "(256 :: nat) ^ 32 = 2 ^ 256" by simp
  ultimately show ?thesis unfolding abi_word_def by (intro be_value_be_bytes_id) simp
qed

lemma drop_be_bytes: "drop k (be_bytes (k + m) n) = be_bytes m n"
  by (induction m arbitrary: n) simp_all

lemma drop_12_abi_word: "drop 12 (abi_word n) = be_bytes 20 n"
  using drop_be_bytes [of 12 20 n] by (simp add: abi_word_def)

lemma address_from_word:
  assumes "clarity_slices C"
  shows "address_from_slice C (be_bytes 20 (unat a)) = Inr a"
proof -
  have "unat a < 2 ^ LENGTH(160)" by (rule unsigned_less)
  then have "unat a < 256 ^ 20" by simp
  then have "be_value (be_bytes 20 (unat a)) = unat a" by (rule be_value_be_bytes_id)
  with assms show ?thesis by (simp add: clarity_slices_def)
qed

text \<open>Where the \<open>i\<close>-th word of the data lies.\<close>

lemma take_drop_abi_words:
  "i < length ns \<Longrightarrow> take 32 (drop (32 * i) (abi_words ns)) = abi_word (ns ! i)"
proof (induction ns arbitrary: i)
  case (Cons n ns)
  then show ?case by (cases i) simp_all
qed simp

definition fits :: "nat list \<Rightarrow> bool" where
  "fits ns \<longleftrightarrow> 32 * length ns < 2 ^ 64 \<and> (\<forall>n \<in> set ns. n < 2 ^ 256)"

lemma unat_word_offset:
  assumes "32 * length ns < 2 ^ 64" "i < length ns" "k \<le> 32"
  shows "unat (of_nat (32 * i + k) :: usize) = 32 * i + k"
proof -
  have "32 * i + 32 \<le> 32 * length ns" using assms(2) by simp
  with assms(1,3) have "32 * i + k \<le> u64_MAX" by linarith
  then show ?thesis by (rule unat_of_nat_u64)
qed

lemma slice_abi_word:
  assumes "32 * length ns < 2 ^ 64" "i < length ns" "j \<le> k" "k \<le> 32"
  shows "slice_range (abi_words ns) (of_nat (32 * i + j)) (of_nat (32 * i + k)) =
    Ret (take (k - j) (drop j (abi_word (ns ! i))))"
proof -
  have u: "unat (of_nat (32 * i + j) :: usize) = 32 * i + j" "unat (of_nat (32 * i + k) :: usize) = 32 * i + k"
    by (rule unat_word_offset [OF assms(1,2)]; use assms(3,4) in simp)+
  have "32 * i + k \<le> 32 * length ns" using assms(2,4) by linarith
  moreover have "take (k - j) (drop (32 * i + j) (abi_words ns)) =
      take (k - j) (drop j (take 32 (drop (32 * i) (abi_words ns))))"
    using assms(3,4) by (simp add: drop_take add.commute min_def)
  ultimately show ?thesis
    unfolding slice_range_def u using assms(3) by (simp add: take_drop_abi_words [OF assms(2)])
qed

lemma read_abi_word:
  assumes "num256_reads_be N" "fits ns" "i < length ns" "start = of_nat (32 * i)"
  shows "read_word N (abi_words ns) start = Ret (ns ! i)"
proof -
  have "start + 32 = of_nat (32 * i + 32)" by (simp add: assms(4))
  then have "slice_range (abi_words ns) start (start + 32) = Ret (abi_word (ns ! i))"
    using slice_abi_word [of ns i 0 32] assms(2-4) by (simp add: fits_def)
  moreover have "ns ! i < 2 ^ 256" using assms(2,3) by (simp add: fits_def)
  ultimately show ?thesis
    using assms(1) by (simp add: read_word_def num256_reads_be_def be_value_abi_word)
qed

lemma slice_abi_address:
  assumes "fits ns" "i < length ns" "start = of_nat (32 * i)"
  shows "slice_range (abi_words ns) (start + 12) (start + 32) = Ret (be_bytes 20 (ns ! i))"
proof -
  have "start + 12 = of_nat (32 * i + 12)" "start + 32 = of_nat (32 * i + 32)"
    by (simp_all add: assms(3))
  then show ?thesis
    using slice_abi_word [of ns i 12 32] assms(1,2) by (simp add: fits_def drop_12_abi_word)
qed


section \<open>Parsing inverts the layout: validator set updates\<close>

text \<open>The data words of a \<open>ValsetUpdatedEvent\<close>: nonce, reward amount, reward token, the offsets
  of the two arrays, and the two arrays with their lengths.  The length word of the second array
  is a parameter: the contract writes the number of members there.\<close>

definition member_address :: "valset_member \<Rightarrow> nat" where
  "member_address m = (case vm_eth_address m of Some a \<Rightarrow> unat a | None \<Rightarrow> 0)"

definition valset_head_words :: "valset_data_bytes \<Rightarrow> nat list" where
  "valset_head_words d =
     [unat (vd_event_nonce d), vd_reward_amount d,
      (case vd_reward_token d of Some t \<Rightarrow> unat t | None \<Rightarrow> 0),
      160, 192 + 32 * length (vd_members d), length (vd_members d)]"

lemma length_valset_head_words [simp]: "length (valset_head_words d) = 6"
  by (simp add: valset_head_words_def)

definition valset_data_words :: "nat \<Rightarrow> valset_data_bytes \<Rightarrow> nat list" where
  "valset_data_words len_powers d =
     valset_head_words d @ map member_address (vd_members d) @ [len_powers] @ map (\<lambda>m. unat (vm_power m)) (vd_members d)"

definition encode_valset_data :: "valset_data_bytes \<Rightarrow> bytes" where
  "encode_valset_data d = abi_words (valset_data_words (length (vd_members d)) d)"

text \<open>Data the contract can write: every member has an address, a missing reward token is the
  zero address, and the whole log is addressable.\<close>

definition wf_valset_data :: "valset_data_bytes \<Rightarrow> bool" where
  "wf_valset_data d \<longleftrightarrow> vd_reward_amount d < 2 ^ 256 \<and> vd_reward_token d \<noteq> Some ZERO_ADDRESS \<and>
     list_all (\<lambda>m. vm_eth_address m \<noteq> None) (vd_members d) \<and>
     32 * (7 + 2 * length (vd_members d)) < 2 ^ 64"

definition libs_decode :: "libs \<Rightarrow> bool" where
  "libs_decode L \<longleftrightarrow> num256_reads_be (nm L) \<and> num256_prints (nm L) \<and> clarity_slices (cl L)"

lemma unat_address_bound: "unat (a :: eth_address) < 2 ^ 256"
proof -
  have "unat a < 2 ^ LENGTH(160)" by (rule unsigned_less)
  also have "(2 :: nat) ^ LENGTH(160) \<le> 2 ^ 256" by (rule power_increasing) simp_all
  finally show ?thesis .
qed

lemma unat_u64_bound: "unat (n :: u64) < 2 ^ 256"
proof -
  have "unat n < 2 ^ LENGTH(64)" by (rule unsigned_less)
  also have "(2 :: nat) ^ LENGTH(64) \<le> 2 ^ 256" by (rule power_increasing) simp_all
  finally show ?thesis .
qed

lemma length_valset_data_words [simp]:
  "length (valset_data_words k d) = 7 + 2 * length (vd_members d)"
  by (simp add: valset_data_words_def)

lemma fits_valset_data_words:
  assumes "wf_valset_data d" "k \<le> usize_MAX"
  shows "fits (valset_data_words k d)"
proof -
  have small: "n < 2 ^ 256" if "n < 2 ^ 64" for n :: nat
    using that by (rule less_le_trans) (rule power_increasing, simp_all)
  have len: "192 + 32 * length (vd_members d) < 2 ^ 64" "k < 2 ^ 64"
    using assms by (simp_all add: wf_valset_data_def)
  have tok: "(case vd_reward_token d of Some t \<Rightarrow> unat t | None \<Rightarrow> 0) < 2 ^ 256"
    by (cases "vd_reward_token d") (simp_all add: unat_address_bound del: power_numeral)
  have mem: "member_address m < 2 ^ 256" for m
    by (cases "vm_eth_address m") (simp_all add: member_address_def unat_address_bound del: power_numeral)
  have "vd_reward_amount d < 2 ^ 256" using assms(1) by (simp add: wf_valset_data_def)
  moreover have "192 + 32 * length (vd_members d) < 2 ^ 256" "k < 2 ^ 256" "length (vd_members d) < 2 ^ 256"
    by (rule small, use len in simp)+
  ultimately have "\<forall>n \<in> set (valset_data_words k d). n < 2 ^ 256"
    using tok mem unat_u64_bound
    by (auto simp: valset_data_words_def valset_head_words_def simp del: power_numeral)
  with assms(1) show ?thesis by (simp add: fits_def wf_valset_data_def)
qed

lemma nth_valset_data_words:
  assumes "i < length (vd_members d)"
  shows "valset_data_words k d ! (6 + i) = member_address (vd_members d ! i)"
    "valset_data_words k d ! (7 + length (vd_members d) + i) = unat (vm_power (vd_members d ! i))"
proof -
  have 1: "(xs @ ys @ [z] @ zs) ! (length xs + i) = ys ! i" if "i < length ys" for xs ys zs :: "nat list" and z
    using that by (simp add: nth_append)
  have 2: "(xs @ ys @ [z] @ zs) ! (Suc (length xs + length ys) + i) = zs ! i" for xs ys zs :: "nat list" and z
    by (simp add: nth_append)
  show "valset_data_words k d ! (6 + i) = member_address (vd_members d ! i)"
    using assms 1 [of "map member_address (vd_members d)" "valset_head_words d" k]
    by (simp add: valset_data_words_def)
  show "valset_data_words k d ! (7 + length (vd_members d) + i) = unat (vm_power (vd_members d ! i))"
    using assms 2 [of "valset_head_words d" "map member_address (vd_members d)"]
    by (simp add: valset_data_words_def)
qed

lemma decode_member_words:
  assumes L: "libs_decode L" and d: "wf_valset_data d" "k \<le> usize_MAX" and i: "i < length (vd_members d)"
  shows "decode_member L (abi_words (valset_data_words k d))
      ((6 + of_nat (length (vd_members d))) * 32 + 32) (5 * 32 + 32) (of_nat i) = Ret (Inr (vd_members d ! i))"
proof -
  let ?ws = "valset_data_words k d" and ?n = "length (vd_members d)" and ?m = "vd_members d ! i"
  have fits: "fits ?ws" using d by (rule fits_valset_data_words)
  from d(1) i obtain a where a: "vm_eth_address ?m = Some a"
    by (auto simp: wf_valset_data_def list_all_length)
  have ps: "of_nat i * 32 + ((6 + of_nat ?n) * 32 + 32) = (of_nat (32 * (7 + ?n + i)) :: usize)"
    by (simp add: algebra_simps)
  have as: "of_nat i * 32 + (5 * 32 + 32) = (of_nat (32 * (6 + i)) :: usize)"
    by (simp add: algebra_simps)
  have 1: "read_word (nm L) (abi_words ?ws) (of_nat (32 * (7 + ?n + i))) = Ret (unat (vm_power ?m))"
    using L i nth_valset_data_words(2) [OF i, of k]
    by (subst read_abi_word [OF _ fits, of _ "7 + ?n + i"]) (simp_all add: libs_decode_def)
  have 2: "slice_range (abi_words ?ws) (of_nat (32 * (6 + i)) + 12) (of_nat (32 * (6 + i)) + 32) =
      Ret (be_bytes 20 (unat a))"
    using i nth_valset_data_words(1) [OF i, of k] a
    by (subst slice_abi_address [OF fits, of "6 + i"]) (simp_all add: member_address_def)
  have 3: "address_from_slice (cl L) (be_bytes 20 (unat a)) = Inr a"
    using L by (intro address_from_word) (simp add: libs_decode_def)
  have 4: "u256_as_u64 (nm L) (unat (vm_power ?m)) = Ret (vm_power ?m)" "\<not> unat (vm_power ?m) > u64_MAX"
    using L unat_u64_le [of "vm_power ?m"] by (simp_all add: libs_decode_def u256_as_u64_exact)
  show ?thesis
    unfolding decode_member_def Let_def ps as 1 2 bind_out.simps 3 sum.case
    using 4 a by (cases ?m) simp
qed

lemma decode_valset_arrays_words:
  assumes L: "libs_decode L" and d: "wf_valset_data d" "k \<le> usize_MAX"
  shows "decode_valset_arrays L (abi_words (valset_data_words k d)) = Ret (Inr (vd_members d))"
proof -
  let ?ws = "valset_data_words k d" and ?n = "length (vd_members d)"
  have fits: "fits ?ws" using d by (rule fits_valset_data_words)
  have n: "?n \<le> usize_MAX" using d(1) by (simp add: wf_valset_data_def)
  have u: "unat (of_nat ?n :: usize) = ?n" using n by (rule unat_of_nat_u64)
  have 1: "read_word (nm L) (abi_words ?ws) (5 * 32) = Ret ?n"
    using L by (subst read_abi_word [OF _ fits, of _ 5]) (simp_all add: libs_decode_def valset_data_words_def valset_head_words_def)
  have w: "?ws ! (6 + ?n) = k" by (simp add: valset_data_words_def nth_append)
  have s: "(6 + of_nat ?n) * 32 = (of_nat (32 * (6 + ?n)) :: usize)" by simp
  have 2: "read_word (nm L) (abi_words ?ws) ((6 + of_nat ?n) * 32) = Ret k"
    unfolding s using L w by (subst read_abi_word [OF _ fits, of _ "6 + ?n"]) (simp_all add: libs_decode_def)
  have 3: "u256_as_usize (nm L) ?n = Ret (of_nat ?n)"
    using L n by (intro u256_as_usize_exact) (simp_all add: libs_decode_def)
  have 4: "parse_usize (dec_string ?n) = Some (of_nat ?n)" using n by (rule parse_usize_dec_string)
  have "map_try_list (decode_member L (abi_words ?ws) ((6 + of_nat ?n) * 32 + 32) (5 * 32 + 32))
      (map of_nat [0..<?n]) = Ret (Inr (vd_members d))"
    unfolding map_try_list_Ok_iff list_all2_conv_all_nth
    using decode_member_words [OF L d] by simp
  moreover have "(?n > usize_MAX) = False" "(k > usize_MAX) = False" using n d(2) by simp_all
  ultimately show ?thesis
    unfolding decode_valset_arrays_def
    by (simp only: 1 2 3 4 u bind_out.simps unwrap_opt.simps Let_def if_False simp_thms)
qed

text \<open>Whatever the length word of the powers says, as long as it fits a \<open>usize\<close>, the decoded
  members are the same.\<close>

lemma decode_data_bytes_words:
  assumes L: "libs_decode L" and d: "wf_valset_data d" "k \<le> usize_MAX"
  shows "decode_data_bytes L (abi_words (valset_data_words k d)) = Ret (Inr d)"
proof -
  let ?ws = "valset_data_words k d"
  let ?tok = "case vd_reward_token d of Some t \<Rightarrow> t | None \<Rightarrow> ZERO_ADDRESS"
  have fits: "fits ?ws" using d by (rule fits_valset_data_words)
  have ws: "?ws ! 0 = unat (vd_event_nonce d)" "?ws ! 1 = vd_reward_amount d" "?ws ! 2 = unat ?tok"
    by (simp_all add: valset_data_words_def valset_head_words_def split: option.splits)
  have 1: "read_word (nm L) (abi_words ?ws) 0 = Ret (unat (vd_event_nonce d))"
    using L ws by (subst read_abi_word [OF _ fits, of _ 0]) (simp_all add: libs_decode_def)
  have 2: "read_word (nm L) (abi_words ?ws) 32 = Ret (vd_reward_amount d)"
    using L ws by (subst read_abi_word [OF _ fits, of _ 1]) (simp_all add: libs_decode_def)
  have 3: "slice_range (abi_words ?ws) (2 * 32) (2 * 32 + 32) = Ret (abi_word (unat ?tok))"
    using slice_abi_word [of ?ws 2 0 32] fits ws by (simp add: fits_def)
  have 4: "slice_from (abi_word (unat ?tok)) 12 = Ret (be_bytes 20 (unat ?tok))"
    by (simp add: slice_from_def drop_12_abi_word)
  have 5: "address_from_slice (cl L) (be_bytes 20 (unat ?tok)) = Inr ?tok"
    using L by (intro address_from_word) (simp add: libs_decode_def)
  have 6: "u256_as_u64 (nm L) (unat (vd_event_nonce d)) = Ret (vd_event_nonce d)"
    "\<not> unat (vd_event_nonce d) > u64_MAX"
    using L unat_u64_le [of "vd_event_nonce d"] by (simp_all add: libs_decode_def u256_as_u64_exact)
  have 7: "(if ?tok = ZERO_ADDRESS then None else Some ?tok) = vd_reward_token d"
    using d(1) by (auto simp: wf_valset_data_def split: option.splits)
  show ?thesis
    unfolding decode_data_bytes_def 1 2 3 4 5 bind_out.simps sum.case Let_def 6(1) 7
      decode_valset_arrays_words [OF L d]
    using 6(2) by simp
qed

section \<open>Parsing inverts the layout: strings\<close>

definition pad32 :: "bytes \<Rightarrow> bytes" where
  "pad32 bs = bs @ replicate (((length bs + 31) div 32) * 32 - length bs) 0"

definition abi_string :: "string \<Rightarrow> bytes" where
  "abi_string s = abi_word (length s) @ pad32 (map char_byte s)"

definition wf_string :: "string \<Rightarrow> bool" where
  "wf_string s \<longleftrightarrow> utf8_valid (map char_byte s) \<and> length s \<le> u32_MAX"

lemma round_up_32: "(n :: nat) \<le> ((n + 31) div 32) * 32"
proof -
  have "(n + 31) mod 32 < 32" by simp
  with div_mult_mod_eq [of "n + 31" 32] show ?thesis by linarith
qed

lemma length_pad32 [simp]: "length (pad32 bs) = ((length bs + 31) div 32) * 32"
  using round_up_32 [of "length bs"] by (simp add: pad32_def)

lemma length_abi_string [simp]: "length (abi_string s) = 32 + ((length s + 31) div 32) * 32"
  by (simp add: abi_string_def)

lemma unat_add_small:
  "unat a + k \<le> usize_MAX \<Longrightarrow> b = of_nat k \<Longrightarrow> unat (a + b :: usize) = unat a + k"
proof -
  assume le: "unat a + k \<le> usize_MAX" and b: "b = of_nat k"
  have "a + b = of_nat (unat a + k)" by (simp add: b)
  then show ?thesis using unat_of_nat_u64 [OF le] by simp
qed

lemma from_utf8_wf: "wf_string s \<Longrightarrow> from_utf8 (map char_byte s) = Some s"
  by (simp add: wf_string_def from_utf8_def comp_def)

lemma read_word_append:
  assumes "num256_reads_be N" "unat start = length pre" "length pre + 32 \<le> usize_MAX" "n < 2 ^ 256"
  shows "read_word N (pre @ abi_word n @ post) start = Ret n"
proof -
  have "unat (start + 32) = length pre + 32"
    using assms(2,3) by (subst unat_add_small [of start 32]) simp_all
  then have "slice_range (pre @ abi_word n @ post) start (start + 32) = Ret (abi_word n)"
    using assms(2) by (intro slice_range_append) simp_all
  with assms(1,4) show ?thesis by (simp add: read_word_def num256_reads_be_def be_value_abi_word)
qed

lemma u32_bound: "n \<le> u32_MAX \<Longrightarrow> n < 2 ^ 256"
proof -
  assume "n \<le> u32_MAX"
  then have "n < 2 ^ 32" by simp
  also have "(2 :: nat) ^ 32 \<le> 2 ^ 256" by (rule power_increasing) simp_all
  finally show ?thesis .
qed

lemma read_string_bytes:
  assumes L: "libs_decode L" and len: "length s \<le> u32_MAX" and start: "unat start = length pre"
    and fit: "length pre + 64 + length s \<le> usize_MAX"
  shows "read_string L (pre @ abi_string s @ post) start msg =
    (case from_utf8 (map char_byte s) of
       None \<Rightarrow> Ret (Inl (ValidationError '' is not valid utf8, probably incorrect parsing''))
     | Some s' \<Rightarrow> Ret (Inr (s', start + 32 + of_nat (length s))))"
proof -
  let ?data = "pre @ abi_string s @ post"
  obtain rest where data: "?data = pre @ abi_word (length s) @ map char_byte s @ rest"
    by (simp add: abi_string_def pad32_def)
  have 1: "read_word (nm L) ?data start = Ret (length s)"
    unfolding data using L fit u32_bound [OF len]
    by (intro read_word_append) (simp_all add: libs_decode_def start)
  have 2: "u256_as_usize (nm L) (length s) = Ret (of_nat (length s))"
    using L fit by (intro u256_as_usize_exact) (simp_all add: libs_decode_def)
  have u: "unat (start + 32) = length pre + 32"
    using fit start by (subst unat_add_small [of start 32]) simp_all
  then have v: "unat (start + 32 + of_nat (length s)) = length pre + 32 + length s"
    using fit by (subst unat_add_small [of "start + 32" "length s"]) simp_all
  have 3: "slice_range ?data (start + 32) (start + 32 + of_nat (length s)) = Ret (map char_byte s)"
    unfolding data using slice_range_append [of "start + 32" "pre @ abi_word (length s)"
        "start + 32 + of_nat (length s)" "map char_byte s" rest] u v by simp
  have "(length s > u32_MAX) = False" using len by simp
  then show ?thesis
    unfolding read_string_def by (simp only: 1 2 3 bind_out.simps Let_def if_False)
qed

lemma read_string_append:
  assumes "libs_decode L" "wf_string s" "unat start = length pre" "length pre + 64 + length s \<le> usize_MAX"
  shows "read_string L (pre @ abi_string s @ post) start msg = Ret (Inr (s, start + 32 + of_nat (length s)))"
  using read_string_bytes [of L s start pre] assms from_utf8_wf [OF assms(2)] by (simp add: wf_string_def)

text \<open>A string that is not UTF-8 is refused.\<close>

lemma read_string_invalid:
  assumes "libs_decode L" "length s \<le> u32_MAX" "\<not> utf8_valid (map char_byte s)" "unat start = length pre"
    "length pre + 64 + length s \<le> usize_MAX"
  shows "read_string L (pre @ abi_string s @ post) start msg =
    Ret (Inl (ValidationError '' is not valid utf8, probably incorrect parsing''))"
  using read_string_bytes [OF assms(1,2,4,5)] assms(3) by (simp add: from_utf8_def)

lemma unat_next_word:
  assumes "unat e + 31 \<le> usize_MAX"
  shows "unat (next_word e) = ((unat e + 31) div 32) * 32"
proof -
  have "unat (e + 31) = unat e + 31" using assms by (intro unat_add_small) simp_all
  then have "next_word e = of_nat (((unat e + 31) div 32) * 32)"
    by (simp add: next_word_def word_arith_nat_div)
  moreover have "((unat e + 31) div 32) * 32 \<le> usize_MAX"
    using assms by (meson div_times_less_eq_dividend le_trans)
  ultimately show ?thesis by (simp only: unat_of_nat_u64)
qed

lemma after_string:
  assumes "unat start = length pre" "32 dvd length pre" "length pre + 96 + length s \<le> usize_MAX"
  shows "unat (next_word (start + 32 + of_nat (length s))) = length (pre @ abi_string s)"
proof -
  have "unat (start + 32) = length pre + 32"
    using assms by (subst unat_add_small [of start 32]) simp_all
  then have u: "unat (start + 32 + of_nat (length s)) = length pre + 32 + length s"
    using assms by (subst unat_add_small [of "start + 32" "length s"]) simp_all
  from assms(2) obtain q where q: "length pre = 32 * q" by (rule dvdE)
  have "(32 * (q + 1) + (length s + 31)) div 32 = (q + 1) + (length s + 31) div 32" by simp
  then have "(63 + (32 * q + length s)) div 32 * 32 = 32 * q + (32 + (length s + 31) div 32 * 32)"
    by (simp add: algebra_simps)
  with q show ?thesis using assms(3) by (subst unat_next_word) (simp_all add: u)
qed

section \<open>Parsing inverts the layout: whole logs\<close>

definition address_topic :: "eth_address \<Rightarrow> bytes" where
  "address_topic a = abi_word (unat a)"

text \<open>The log of each event as the contract emits it, after the topic with the event
  signature.\<close>

definition valset_updated_log :: "bytes \<Rightarrow> valset_updated_event \<Rightarrow> log" where
  "valset_updated_log sig e =
     \<lparr>topics = [sig, abi_word (unat (vu_valset_nonce e))],
      log_data = encode_valset_data \<lparr>vd_event_nonce = vu_event_nonce e,
        vd_reward_amount = vu_reward_amount e, vd_reward_token = vu_reward_token e, vd_members = vu_members e\<rparr>,
      block_number = Some (vu_block_height e)\<rparr>"

definition wf_valset_updated :: "valset_updated_event \<Rightarrow> bool" where
  "wf_valset_updated e \<longleftrightarrow> wf_valset_data \<lparr>vd_event_nonce = vu_event_nonce e,
     vd_reward_amount = vu_reward_amount e, vd_reward_token = vu_reward_token e, vd_members = vu_members e\<rparr>"

definition transaction_batch_executed_log :: "bytes \<Rightarrow> transaction_batch_executed_event \<Rightarrow> log" where
  "transaction_batch_executed_log sig e =
     \<lparr>topics = [sig, abi_word (unat (be_batch_nonce e)), address_topic (be_erc20 e)],
      log_data = abi_word (unat (be_event_nonce e)), block_number = Some (be_block_height e)\<rparr>"

definition wf_transaction_batch_executed :: "transaction_batch_executed_event \<Rightarrow> bool" where
  "wf_transaction_batch_executed e \<longleftrightarrow> be_block_height e \<le> u64_MAX"

definition send_to_cosmos_log :: "bytes \<Rightarrow> send_to_cosmos_event \<Rightarrow> log" where
  "send_to_cosmos_log sig e =
     \<lparr>topics = [sig, address_topic (sc_erc20 e), address_topic (sc_sender e),
                replicate 12 0 @ cosmos_bytes (sc_destination e)],
      log_data = abi_words [sc_amount e, unat (sc_event_nonce e)],
      block_number = Some (sc_block_height e)\<rparr>"

definition wf_send_to_cosmos :: "libs \<Rightarrow> send_to_cosmos_event \<Rightarrow> bool" where
  "wf_send_to_cosmos L e \<longleftrightarrow> sc_block_height e \<le> u64_MAX \<and> sc_amount e < 2 ^ 256 \<and>
     length (cosmos_bytes (sc_destination e)) = 20 \<and>
     cosmos_prefix (sc_destination e) = COSMOS_DEFAULT_PREFIX (ds L)"

definition erc20_deployed_head :: "erc20_deployed_event \<Rightarrow> nat list" where
  "erc20_deployed_head e =
     [160, 160 + length (abi_string (ed_cosmos_denom e)),
      160 + length (abi_string (ed_cosmos_denom e)) + length (abi_string (ed_name e)),
      unat (ed_decimals e), unat (ed_event_nonce e)]"

definition erc20_deployed_log :: "bytes \<Rightarrow> erc20_deployed_event \<Rightarrow> log" where
  "erc20_deployed_log sig e =
     \<lparr>topics = [sig, address_topic (ed_erc20_address e)],
      log_data = abi_words (erc20_deployed_head e) @ abi_string (ed_cosmos_denom e) @
        abi_string (ed_name e) @ abi_string (ed_symbol e),
      block_number = Some (ed_block_height e)\<rparr>"

definition wf_erc20_deployed :: "erc20_deployed_event \<Rightarrow> bool" where
  "wf_erc20_deployed e \<longleftrightarrow>
     wf_string (ed_cosmos_denom e) \<and> wf_string (ed_name e) \<and> wf_string (ed_symbol e)"

lemma topic_address_topic:
  assumes "libs_decode L"
  shows "topic_address L (address_topic a) = Ret (Inr a)"
proof -
  have "slice_range (address_topic a) 12 32 = Ret (be_bytes 20 (unat a))"
    by (simp add: slice_range_def address_topic_def drop_12_abi_word)
  with assms address_from_word [of "cl L" a] show ?thesis
    by (simp add: topic_address_def libs_decode_def)
qed

lemma read_u64_word:
  assumes "libs_decode L"
  shows "u256_from_bytes_be (nm L) (abi_word (unat (n :: u64))) = unat n"
    "u256_as_u64 (nm L) (unat n) = Ret n" "(u64_MAX < unat n) = False"
  using assms unat_u64_le [of n] unat_u64_bound [of n]
  by (simp_all add: libs_decode_def num256_reads_be_def be_value_abi_word u256_as_u64_exact)

lemma valset_updated_parses:
  assumes L: "libs_decode L" and e: "wf_valset_updated e"
  shows "valset_updated_from_log L (valset_updated_log sig e) = Ret (Inr e)"
proof -
  have "decode_data_bytes L (log_data (valset_updated_log sig e)) = Ret (Inr \<lparr>vd_event_nonce = vu_event_nonce e,
      vd_reward_amount = vu_reward_amount e, vd_reward_token = vu_reward_token e, vd_members = vu_members e\<rparr>)"
    using e unfolding valset_updated_log_def encode_valset_data_def wf_valset_updated_def
    by (simp, intro decode_data_bytes_words [OF L]) (auto simp: wf_valset_data_def)
  moreover have "get_at (topics (valset_updated_log sig e)) 1 = Some (abi_word (unat (vu_valset_nonce e)))"
    "block_number (valset_updated_log sig e) = Some (vu_block_height e)"
    by (simp_all add: get_at_def valset_updated_log_def)
  ultimately show ?thesis
    by (simp only: valset_updated_from_log_def option.case read_u64_word [OF L] Let_def if_False
        bind_out.simps try_out.simps) simp
qed

lemma transaction_batch_executed_parses:
  assumes L: "libs_decode L" and e: "wf_transaction_batch_executed e"
  shows "transaction_batch_executed_from_log L (transaction_batch_executed_log sig e) = Ret (Inr e)"
proof -
  have "(be_block_height e > u64_MAX) = False" using e by (simp add: wf_transaction_batch_executed_def)
  then show ?thesis
    unfolding transaction_batch_executed_from_log_def transaction_batch_executed_log_def
    using read_u64_word(3) [OF L, of "be_event_nonce e"] read_u64_word(3) [OF L, of "be_batch_nonce e"]
    by (simp add: get_at_def topic_address_topic [OF L] read_u64_word(1,2) [OF L] Let_def)
qed

lemma send_to_cosmos_parses:
  assumes L: "libs_decode L" "deep_space_bytes (ds L)" and e: "wf_send_to_cosmos L e"
  shows "send_to_cosmos_from_log L (send_to_cosmos_log sig e) = Ret (Inr e)"
proof -
  let ?log = "send_to_cosmos_log sig e"
  have "(sc_block_height e > u64_MAX) = False" using e by (simp add: wf_send_to_cosmos_def)
  moreover have "slice_range (replicate 12 0 @ cosmos_bytes (sc_destination e)) 12 32 =
      Ret (cosmos_bytes (sc_destination e))"
    using e by (simp add: slice_range_def wf_send_to_cosmos_def)
  moreover have "cosmos_from_bytes (ds L) (cosmos_bytes (sc_destination e)) (COSMOS_DEFAULT_PREFIX (ds L)) =
      Inr (sc_destination e)"
    using L(2) e by (cases "sc_destination e") (simp add: deep_space_bytes_def wf_send_to_cosmos_def)
  moreover have "slice_range (log_data ?log) 0 32 = Ret (abi_word (sc_amount e))"
    "slice_from (log_data ?log) 32 = Ret (abi_word (unat (sc_event_nonce e)))"
    by (simp_all add: slice_range_def slice_from_def send_to_cosmos_log_def)
  moreover have "u256_from_bytes_be (nm L) (abi_word (sc_amount e)) = sc_amount e"
    using L(1) e by (simp add: libs_decode_def num256_reads_be_def be_value_abi_word wf_send_to_cosmos_def)
  moreover have "topics ?log = [sig, address_topic (sc_erc20 e), address_topic (sc_sender e),
      replicate 12 0 @ cosmos_bytes (sc_destination e)]" "block_number ?log = Some (sc_block_height e)"
    by (simp_all add: send_to_cosmos_log_def)
  ultimately show ?thesis
    unfolding send_to_cosmos_from_log_def using read_u64_word(3) [OF L(1), of "sc_event_nonce e"]
    by (simp add: get_at_def topic_address_topic [OF L(1)] read_u64_word(1,2) [OF L(1)] Let_def)
qed

text \<open>Three strings of at most \<open>u32::MAX\<close> bytes stay far below the address space.\<close>

lemma erc20_deployed_strings:
  fixes e :: erc20_deployed_event and sig :: bytes
  defines "data \<equiv> log_data (erc20_deployed_log sig e)"
  assumes L: "libs_decode L" and e: "wf_erc20_deployed e"
  obtains i1 i2 i3 where
    "read_string L data (5 * 32) m1 = Ret (Inr (ed_cosmos_denom e, i1))"
    "read_string L data (next_word i1) m2 = Ret (Inr (ed_name e, i2))"
    "read_string L data (next_word i2) m3 = Ret (Inr (ed_symbol e, i3))"
proof -
  let ?h = "abi_words (erc20_deployed_head e)" and ?s1 = "ed_cosmos_denom e" and ?s2 = "ed_name e" and ?s3 = "ed_symbol e"
  have len: "length ?s1 \<le> u32_MAX" "length ?s2 \<le> u32_MAX" "length ?s3 \<le> u32_MAX"
    and wf: "wf_string ?s1" "wf_string ?s2" "wf_string ?s3"
    using e by (simp_all add: wf_erc20_deployed_def wf_string_def)
  have al: "length (abi_string s) \<le> 2 ^ 33" if "length s \<le> u32_MAX" for s
    using that div_times_less_eq_dividend [of "length s + 31" 32] by (simp del: div_times_less_eq_dividend)
  note al1 = al [OF len(1)] and al2 = al [OF len(2)]
  have h: "length ?h = 160" by (simp add: erc20_deployed_head_def)
  define i1 where "i1 = (5 * 32 :: usize) + 32 + of_nat (length ?s1)"
  define i2 where "i2 = next_word i1 + 32 + of_nat (length ?s2)"
  define i3 where "i3 = next_word i2 + 32 + of_nat (length ?s3)"
  have n1: "unat (next_word i1) = length (?h @ abi_string ?s1)"
    unfolding i1_def by (rule after_string) (use h len in simp_all)
  have n2: "unat (next_word i2) = length ((?h @ abi_string ?s1) @ abi_string ?s2)"
    unfolding i2_def using h len al1 by (intro after_string n1) (simp_all del: length_abi_string, simp)
  show thesis
  proof (rule that)
    show "read_string L data (5 * 32) m1 = Ret (Inr (?s1, i1))"
      unfolding data_def erc20_deployed_log_def log.simps i1_def
      by (rule read_string_append [OF L wf(1)]) (use h len in simp_all)
    show "read_string L data (next_word i1) m2 = Ret (Inr (?s2, i2))"
      using read_string_append [OF L wf(2) n1, of "abi_string ?s3"] h len al1
      by (simp add: data_def erc20_deployed_log_def i2_def del: length_abi_string)
    show "read_string L data (next_word i2) m3 = Ret (Inr (?s3, i3))"
      using read_string_append [OF L wf(3) n2, of "[]"] h len al1 al2
      by (simp add: data_def erc20_deployed_log_def i3_def del: length_abi_string)
  qed
qed

lemma erc20_deployed_parses:
  assumes L: "libs_decode L" and e: "wf_erc20_deployed e"
  shows "erc20_deployed_from_log L (erc20_deployed_log sig e) = Ret (Inr e)"
proof -
  let ?log = "erc20_deployed_log sig e"
  define rest where "rest = abi_string (ed_cosmos_denom e) @ abi_string (ed_name e) @ abi_string (ed_symbol e)"
  define o1 o2 o3 where o: "o1 = erc20_deployed_head e ! 0" "o2 = erc20_deployed_head e ! 1" "o3 = erc20_deployed_head e ! 2"
  have data: "log_data ?log = abi_words [o1, o2, o3] @ abi_word (unat (ed_decimals e)) @
      (abi_word (unat (ed_event_nonce e)) @ rest)"
    by (simp add: erc20_deployed_log_def rest_def o erc20_deployed_head_def)
  have d8: "unat (ed_decimals e) \<le> u8_MAX" using unsigned_less [of "ed_decimals e", where 'a = nat] by simp
  have N: "num256_reads_be (nm L)" using L by (simp add: libs_decode_def)
  have 1: "read_word (nm L) (log_data ?log) (3 * 32) = Ret (unat (ed_decimals e))"
    unfolding data using d8 by (intro read_word_append [OF N] u32_bound) simp_all
  have 2: "read_word (nm L) (log_data ?log) (4 * 32) = Ret (unat (ed_event_nonce e))"
    unfolding data using read_word_append [OF N, of "4 * 32" "abi_words [o1, o2, o3] @ abi_word (unat (ed_decimals e))"
      "unat (ed_event_nonce e)" rest] unat_u64_bound by simp
  have 3: "u256_as_u8 (nm L) (unat (ed_decimals e)) = Ret (ed_decimals e)" "(unat (ed_decimals e) > u8_MAX) = False"
    using L d8 by (simp_all add: u256_as_u8_exact libs_decode_def)
  have t: "get_at (topics ?log) 1 = Some (address_topic (ed_erc20_address e))"
    "block_number ?log = Some (ed_block_height e)"
    by (simp_all add: erc20_deployed_log_def get_at_def)
  obtain i1 i2 i3 where
    "read_string L (log_data ?log) (5 * 32) ''denom length overflow, probably incorrect parsing'' = Ret (Inr (ed_cosmos_denom e, i1))"
    "read_string L (log_data ?log) (next_word i1) ''ERC20 Name length overflow, probably incorrect parsing'' = Ret (Inr (ed_name e, i2))"
    "read_string L (log_data ?log) (next_word i2) ''Symbol length overflow, probably incorrect parsing'' = Ret (Inr (ed_symbol e, i3))"
    using erc20_deployed_strings [OF L e] by blast
  then show ?thesis
    by (simp only: erc20_deployed_from_log_def t option.case topic_address_topic [OF L] try_out.simps
        1 2 3 bind_out.simps if_False read_u64_word [OF L] prod.case) simp
qed


section \<open>Logs in sequence\<close>

text \<open>What the five event types share: a vector of logs is parsed one by one, in order, and the
  events already seen are dropped by their nonce.  The oracle relies on these laws.\<close>

locale event_parser =
  fixes from_log :: "log \<Rightarrow> 'ev gresult outcome"
    and from_logs :: "log list \<Rightarrow> 'ev list gresult outcome"
    and filter_by_event_nonce :: "u64 \<Rightarrow> 'ev list \<Rightarrow> 'ev list"
    and event_nonce :: "'ev \<Rightarrow> u64"
  assumes from_logs_each: "from_logs logs = Ret (Inr evs) \<longleftrightarrow> list_all2 (\<lambda>l e. from_log l = Ret (Inr e)) logs evs"
    and filter_nonce: "filter_by_event_nonce n evs = filter (\<lambda>e. n < event_nonce e) evs"
begin

lemma from_logs_length: "from_logs logs = Ret (Inr evs) \<Longrightarrow> length evs = length logs"
  by (simp add: from_logs_each list_all2_lengthD)

lemma from_logs_append:
  "from_logs (xs @ ys) = Ret (Inr evs) \<longleftrightarrow>
     (\<exists>us vs. evs = us @ vs \<and> from_logs xs = Ret (Inr us) \<and> from_logs ys = Ret (Inr vs))"
  unfolding from_logs_each list_all2_append1 by (metis list_all2_lengthD)

lemma from_logs_written:
  assumes "\<And>e. e \<in> set es \<Longrightarrow> from_log (write e) = Ret (Inr e)"
  shows "from_logs (map write es) = Ret (Inr es)"
  using assms by (simp add: from_logs_each list_all2_conv_all_nth)

lemma filter_new: "e \<in> set (filter_by_event_nonce n evs) \<longleftrightarrow> e \<in> set evs \<and> n < event_nonce e"
  by (auto simp: filter_nonce)

text \<open>Dropping what was seen up to \<open>n\<close> and then what was seen up to a later \<open>m\<close> is dropping
  what was seen up to \<open>m\<close>: an event is submitted once however often the loop runs.\<close>

lemma filter_twice:
  "n \<le> m \<Longrightarrow> filter_by_event_nonce m (filter_by_event_nonce n evs) = filter_by_event_nonce m evs"
  unfolding filter_nonce filter_filter by (rule filter_cong) auto

lemma filter_all_seen: "(\<And>e. e \<in> set evs \<Longrightarrow> event_nonce e \<le> n) \<Longrightarrow> filter_by_event_nonce n evs = []"
  by (auto simp: filter_nonce filter_empty_conv not_less)

end

interpretation valset_events: event_parser "valset_updated_from_log L" "valset_updated_from_logs L"
  valset_updated_filter_by_event_nonce vu_event_nonce for L
  by unfold_locales (simp_all add: valset_updated_from_logs_def map_try_list_Ok_iff valset_updated_filter_by_event_nonce_def)

interpretation batch_events: event_parser "transaction_batch_executed_from_log L" "transaction_batch_executed_from_logs L"
  transaction_batch_executed_filter_by_event_nonce be_event_nonce for L
  by unfold_locales (simp_all add: transaction_batch_executed_from_logs_def map_try_list_Ok_iff
      transaction_batch_executed_filter_by_event_nonce_def)

interpretation deposit_events: event_parser "send_to_cosmos_from_log L" "send_to_cosmos_from_logs L"
  send_to_cosmos_filter_by_event_nonce sc_event_nonce for L
  by unfold_locales (simp_all add: send_to_cosmos_from_logs_def map_try_list_Ok_iff send_to_cosmos_filter_by_event_nonce_def)

interpretation erc20_events: event_parser "erc20_deployed_from_log L" "erc20_deployed_from_logs L"
  erc20_deployed_filter_by_event_nonce ed_event_nonce for L
  by unfold_locales (simp_all add: erc20_deployed_from_logs_def map_try_list_Ok_iff erc20_deployed_filter_by_event_nonce_def)

interpretation call_events: event_parser logic_call_executed_from_log logic_call_executed_from_logs
  logic_call_executed_filter_by_event_nonce le_event_nonce
  by unfold_locales (simp_all add: logic_call_executed_from_logs_def map_try_list_Ok_iff
      logic_call_executed_filter_by_event_nonce_def)

text \<open>The parser of logic call events is a stub: one log of that kind and the caller panics.\<close>

lemma logic_call_logs_panic: "logs \<noteq> [] \<Longrightarrow> is_panic (logic_call_executed_from_logs logs)"
  by (cases logs) (simp_all add: logic_call_executed_from_logs_def logic_call_executed_from_log_def)

section \<open>What the component promises\<close>

text \<open>C24: the logs of validator set updates, as the contract lays them out, parse to the events that
  were logged, in their order.\<close>

theorem valset_updated_round_trip:
  assumes "libs_decode L" "list_all wf_valset_updated es"
  shows "valset_updated_from_logs L (map (valset_updated_log sig) es) = Ret (Inr es)"
  using assms by (intro valset_events.from_logs_written valset_updated_parses) (auto simp: list_all_iff)

text \<open>The logs of deposits, as the contract lays them out, parse to the events that were logged.\<close>

lemma send_to_cosmos_round_trip:
  assumes "libs_decode L" "deep_space_bytes (ds L)" "list_all (wf_send_to_cosmos L) es"
  shows "send_to_cosmos_from_logs L (map (send_to_cosmos_log sig) es) = Ret (Inr es)"
  using assms by (intro deposit_events.from_logs_written send_to_cosmos_parses) (auto simp: list_all_iff)

text \<open>The same for executed batches.\<close>

lemma transaction_batch_executed_round_trip:
  assumes "libs_decode L" "list_all wf_transaction_batch_executed es"
  shows "transaction_batch_executed_from_logs L (map (transaction_batch_executed_log sig) es) = Ret (Inr es)"
  using assms by (intro batch_events.from_logs_written transaction_batch_executed_parses) (auto simp: list_all_iff)

text \<open>The logs of deployed ERC20 representations, whose three strings are of variable length, parse to
  the events that were logged.\<close>

lemma erc20_deployed_round_trip:
  assumes "libs_decode L" "list_all wf_erc20_deployed es"
  shows "erc20_deployed_from_logs L (map (erc20_deployed_log sig) es) = Ret (Inr es)"
  using assms by (intro erc20_events.from_logs_written erc20_deployed_parses) (auto simp: list_all_iff)

text \<open>C38: the length word of the array of powers is read but never compared with the length of the
  array of addresses: whatever it says, as long as it fits a \<open>usize\<close>, the data decode to the same
  validator set, and the branch that reports a length mismatch is never taken.\<close>

theorem powers_length_ignored:
  assumes "libs_decode L" "wf_valset_data d" "k \<le> usize_MAX" "k' \<le> usize_MAX"
  shows "decode_data_bytes L (abi_words (valset_data_words k d)) = decode_data_bytes L (abi_words (valset_data_words k' d)) \<and>
    decode_data_bytes L (abi_words (valset_data_words k d)) = Ret (Inr d)"
  using assms by (simp only: decode_data_bytes_words simp_thms)

end
