(* ===== verification/Env.thy ===== *)
theory Env
  imports Async Events
begin

text \<open>
  The nodes the program talks to, as parameters: the Ethereum node behind \<open>web30::client::Web3\<close>,
  the Cosmos node behind \<open>deep_space::Contact\<close>, the gRPC query client of the bridge module and
  the timer of the runtime.  Each request is a function of its arguments and of the moment it is
  made.  What the program does to the outside world is an \<open>effect\<close>.  The retry loops of
  \<open>gravity_utils/src/get_with_retry.rs\<close> are here, next to the requests they retry.
\<close>

text \<open>Durations in seconds.\<close>

type_synonym duration = nat

datatype send_tx_option =
    GasPriceMultiplier rat
  | GasLimit uint256
  | Nonce uint256
  | OtherOption string

record transaction_request =
  tr_from :: "eth_address option"
  tr_to :: eth_address
  tr_nonce :: "uint256 option"
  tr_gas_price :: "uint256 option"
  tr_gas :: "uint256 option"
  tr_value :: "uint256 option"
  tr_data :: "bytes option"

text \<open>\<open>eth_syncing\<close> and \<open>get_chain_status\<close>.\<close>

datatype chain_status = Moving u64 | Syncing | WaitingToStart

record fee =
  fee_amount :: "coin list"
  gas_limit :: u64

record message_args =
  ma_sequence :: u64
  ma_account_number :: u64
  ma_chain_id :: string
  ma_fee :: fee

record tx_response =
  txhash :: string
  tx_code :: nat

record web3 =
  WETH_CONTRACT_ADDRESS :: eth_address
  eth_block_number :: "nat \<Rightarrow> web3_error + uint256"
  eth_get_balance :: "eth_address \<Rightarrow> nat \<Rightarrow> web3_error + uint256"
  eth_get_transaction_count :: "eth_address \<Rightarrow> nat \<Rightarrow> web3_error + uint256"
  eth_gas_price :: "nat \<Rightarrow> web3_error + uint256"
  eth_estimate_gas :: "transaction_request \<Rightarrow> nat \<Rightarrow> web3_error + uint256"
  net_version :: "nat \<Rightarrow> web3_error + u64"
  simulate_transaction :: "eth_address \<Rightarrow> uint256 \<Rightarrow> bytes \<Rightarrow> eth_address \<Rightarrow> nat \<Rightarrow> web3_error + bytes"
  send_transaction :: "eth_address \<Rightarrow> bytes \<Rightarrow> uint256 \<Rightarrow> eth_address \<Rightarrow> eth_private_key \<Rightarrow>
    send_tx_option list \<Rightarrow> nat \<Rightarrow> web3_error + uint256"
  wait_for_transaction :: "uint256 \<Rightarrow> duration \<Rightarrow> nat \<Rightarrow> web3_error + unit"
  web3_check_for_events :: "uint256 \<Rightarrow> uint256 option \<Rightarrow> eth_address list \<Rightarrow> string list \<Rightarrow> nat \<Rightarrow> web3_error + log list"
  check_erc20_approved :: "eth_address \<Rightarrow> eth_address \<Rightarrow> eth_address \<Rightarrow> nat \<Rightarrow> web3_error + bool"
  approve_erc20_transfers :: "eth_address \<Rightarrow> eth_private_key \<Rightarrow> eth_address \<Rightarrow> send_tx_option list \<Rightarrow> nat \<Rightarrow> web3_error + uint256"
  get_uniswap_price :: "eth_address \<Rightarrow> eth_address \<Rightarrow> eth_address \<Rightarrow> uint256 \<Rightarrow> uint256 option \<Rightarrow> nat \<Rightarrow> web3_error + uint256"
  get_erc20_balance :: "eth_address \<Rightarrow> eth_address \<Rightarrow> nat \<Rightarrow> web3_error + uint256"
  get_erc20_decimals :: "eth_address \<Rightarrow> eth_address \<Rightarrow> nat \<Rightarrow> web3_error + uint256"

text \<open>\<open>sign_std_msg\<close> is a method of the private key; it is pure.\<close>

record contact =
  get_prefix :: string
  sign_std_msg :: "cosmos_private_key \<Rightarrow> cosmos_msg list \<Rightarrow> message_args \<Rightarrow> string \<Rightarrow> cosmos_grpc_error + bytes"
  get_balances :: "cosmos_address \<Rightarrow> nat \<Rightarrow> cosmos_grpc_error + coin list"
  get_message_args :: "cosmos_address \<Rightarrow> fee \<Rightarrow> nat \<Rightarrow> cosmos_grpc_error + message_args"
  cosmos_send_transaction :: "bytes \<Rightarrow> nat \<Rightarrow> cosmos_grpc_error + tx_response"
  wait_for_tx :: "tx_response \<Rightarrow> duration \<Rightarrow> nat \<Rightarrow> cosmos_grpc_error + tx_response"
  get_chain_status :: "nat \<Rightarrow> cosmos_grpc_error + chain_status"
  wait_for_next_block :: "duration \<Rightarrow> nat \<Rightarrow> cosmos_grpc_error + unit"

text \<open>The parameters of the bridge module, of which the callers read the contract address and the test
  runner the chain as well.\<close>

record params =
  pm_gravity_id :: string
  pm_contract_source_hash :: string
  bridge_ethereum_address :: string
  bridge_chain_id :: u64
  pm_signed_valsets_window :: u64
  pm_signed_batches_window :: u64
  pm_signed_logic_calls_window :: u64
  pm_target_batch_timeout :: u64
  pm_average_block_time :: u64
  pm_average_ethereum_block_time :: u64
  pm_slash_fraction_valset :: bytes
  pm_slash_fraction_batch :: bytes
  pm_slash_fraction_logic_call :: bytes
  pm_unbond_slashing_valsets_window :: u64
  pm_slash_fraction_bad_eth_signature :: bytes
  pm_valset_reward :: "coin option"

record grpc =
  grpc_params :: "nat \<Rightarrow> string + params option"
  valset_request :: "u64 \<Rightarrow> nat \<Rightarrow> string + proto_valset option"
  current_valset_request :: "nat \<Rightarrow> string + proto_valset option"
  last_pending_valset_request_by_addr :: "string \<Rightarrow> nat \<Rightarrow> string + proto_valset list"
  last_valset_requests :: "nat \<Rightarrow> string + proto_valset list"
  valset_confirms_by_nonce :: "u64 \<Rightarrow> nat \<Rightarrow> string + msg_valset_confirm list"
  last_pending_batch_request_by_addr :: "string \<Rightarrow> nat \<Rightarrow> string + proto_outgoing_tx_batch option"
  outgoing_tx_batches :: "nat \<Rightarrow> string + proto_outgoing_tx_batch list"
  batch_confirms :: "u64 \<Rightarrow> string \<Rightarrow> nat \<Rightarrow> string + msg_confirm_batch list"
  last_event_nonce_by_addr :: "string \<Rightarrow> nat \<Rightarrow> string + u64"
  outgoing_logic_calls :: "nat \<Rightarrow> string + proto_outgoing_logic_call list"
  logic_confirms :: "bytes \<Rightarrow> u64 \<Rightarrow> nat \<Rightarrow> string + msg_confirm_logic_call list"
  last_pending_logic_call_by_addr :: "string \<Rightarrow> nat \<Rightarrow> string + proto_outgoing_logic_call option"
  grpc_attestations :: "u64 \<Rightarrow> nat \<Rightarrow> string + attestation list"
  pending_send_to_eth :: "string \<Rightarrow> nat \<Rightarrow> string + pending_send_to_eth_response"
  get_delegate_key_by_eth :: "string \<Rightarrow> nat \<Rightarrow> string + delegate_keys_by_eth_response"
  get_delegate_key_by_orchestrator :: "string \<Rightarrow> nat \<Rightarrow> string + delegate_keys_by_orchestrator_response"
  denom_to_erc20 :: "string \<Rightarrow> nat \<Rightarrow> string + denom_to_erc20_response"

text \<open>The timer: whether a deadline that was set has passed at a moment.\<close>

type_synonym timer = "duration \<Rightarrow> nat \<Rightarrow> bool"

datatype effect =
    EthSendTransaction (eth_to: eth_address) (eth_payload: bytes) (eth_value: uint256)
      (eth_from: eth_address) (eth_key: eth_private_key) (eth_options: "send_tx_option list")
  | EthApprove (approve_erc20: eth_address) (approve_key: eth_private_key)
      (approve_target: eth_address) (approve_options: "send_tx_option list")
  | CosmosSendTransaction (cosmos_tx_bytes: bytes)

type_synonym 'a act = "(effect, 'a) io"

text \<open>A request whose error is converted by \<open>?\<close>.\<close>

definition ask :: "('err \<Rightarrow> 'f) \<Rightarrow> (nat \<Rightarrow> 'err + 'a) \<Rightarrow> ('f + 'a) act" where
  "ask conv ans = query_io (\<lambda>n. map_err conv (ans n))"

definition eth_send :: "web3 \<Rightarrow> eth_address \<Rightarrow> bytes \<Rightarrow> uint256 \<Rightarrow> eth_address \<Rightarrow> eth_private_key \<Rightarrow>
    send_tx_option list \<Rightarrow> (web3_error + uint256) act" where
  "eth_send W to payload val from sk opts =
     effect_io (EthSendTransaction to payload val from sk opts) (send_transaction W to payload val from sk opts)"

definition eth_approve :: "web3 \<Rightarrow> eth_address \<Rightarrow> eth_private_key \<Rightarrow> eth_address \<Rightarrow> send_tx_option list \<Rightarrow>
    (web3_error + uint256) act" where
  "eth_approve W erc20 sk target opts =
     effect_io (EthApprove erc20 sk target opts) (approve_erc20_transfers W erc20 sk target opts)"

definition cosmos_send :: "contact \<Rightarrow> bytes \<Rightarrow> (cosmos_grpc_error + tx_response) act" where
  "cosmos_send K msg_bytes = effect_io (CosmosSendTransaction msg_bytes) (cosmos_send_transaction K msg_bytes)"

lemma emits_ask [emits_intros]: "emits P (ask conv ans)"
  by (simp add: ask_def emits_query)

lemma back_ask [back_intros]: "comes_back (ask conv ans)"
  by (simp add: ask_def back_query)

lemma emits_eth_send [emits_intros]:
  "P (EthSendTransaction to payload val from sk opts) \<Longrightarrow> emits P (eth_send W to payload val from sk opts)"
  by (simp add: eth_send_def emits_effect)

lemma emits_eth_approve [emits_intros]:
  "P (EthApprove erc20 sk target opts) \<Longrightarrow> emits P (eth_approve W erc20 sk target opts)"
  by (simp add: eth_approve_def emits_effect)

lemma emits_cosmos_send [emits_intros]:
  "P (CosmosSendTransaction b) \<Longrightarrow> emits P (cosmos_send K b)"
  by (simp add: cosmos_send_def emits_effect)


section \<open>Requests repeated until they succeed\<close>

definition RETRY_TIME :: duration where
  "RETRY_TIME = 5"

definition get_block_number_with_retry :: "web3 \<Rightarrow> uint256 act" where
  "get_block_number_with_retry W = retry_io (query_io (eth_block_number W))"

definition get_eth_balances_with_retry :: "eth_address \<Rightarrow> web3 \<Rightarrow> uint256 act" where
  "get_eth_balances_with_retry address W = retry_io (query_io (eth_get_balance W address))"

definition get_balances_with_retry :: "cosmos_address \<Rightarrow> contact \<Rightarrow> coin list act" where
  "get_balances_with_retry address K = retry_io (query_io (get_balances K address))"

definition get_net_version_with_retry :: "web3 \<Rightarrow> u64 act" where
  "get_net_version_with_retry W = retry_io (query_io (net_version W))"

text \<open>What the four loops promise: as soon as the node answers, that answer; never anything but an
  answer; and no return while the node fails.\<close>

locale stubborn =
  fixes request :: "nat \<Rightarrow> 'err + 'a"
    and get_with_retry :: "'a act"
  assumes retries: "get_with_retry = retry_io (query_io request)"
begin

lemma returns_first_answer:
  "horizon s = None \<Longrightarrow> \<forall>j < k. is_err (request (clock s + j)) \<Longrightarrow> request (clock s + k) = Inr x \<Longrightarrow>
     get_with_retry s = Some (Ret x, s\<lparr>clock := clock s + k + 1\<rparr>)"
  unfolding retries by (rule retry_io_returns)

lemma only_answers: "get_with_retry s = Some (r, t) \<Longrightarrow> first_answer request s r t"
  unfolding retries by (rule retry_io_answer)

lemma never_panics: "horizon s = None \<Longrightarrow> get_with_retry s \<noteq> Some (Panic p, t)"
  using only_answers [of s "Panic p" t] by (auto simp: first_answer_def)

lemma waits_forever: "horizon s = None \<Longrightarrow> \<forall>j. is_err (request (clock s + j)) \<Longrightarrow> get_with_retry s = None"
  unfolding retries by (rule retry_io_diverges)

lemma no_effect: "emits P get_with_retry"
  unfolding retries by (rule emits_retry)

end

interpretation block_number_retry: stubborn "eth_block_number W" "get_block_number_with_retry W" for W
  by unfold_locales (rule get_block_number_with_retry_def)

interpretation eth_balance_retry: stubborn "eth_get_balance W a" "get_eth_balances_with_retry a W" for W a
  by unfold_locales (rule get_eth_balances_with_retry_def)

interpretation balances_retry: stubborn "get_balances K a" "get_balances_with_retry a K" for K a
  by unfold_locales (rule get_balances_with_retry_def)

interpretation net_version_retry: stubborn "net_version W" "get_net_version_with_retry W" for W
  by unfold_locales (rule get_net_version_with_retry_def)

lemmas retry_no_effect [emits_intros] =
  block_number_retry.no_effect eth_balance_retry.no_effect balances_retry.no_effect net_version_retry.no_effect

text \<open>The block number with retry is the first answer the node gives from now on; the call
  does not come back exactly when the node never answers.\<close>

lemma block_number_first_answer:
  assumes "horizon s = None"
  shows "get_block_number_with_retry W s =
    (if \<exists>k. \<not> is_err (eth_block_number W (clock s + k)) then
       let k = LEAST k. \<not> is_err (eth_block_number W (clock s + k)) in
       Some (Ret (projr (eth_block_number W (clock s + k))), s\<lparr>clock := clock s + k + 1\<rparr>)
     else None)"
proof (cases "\<exists>k. \<not> is_err (eth_block_number W (clock s + k))")
  case True
  let ?k = "LEAST k. \<not> is_err (eth_block_number W (clock s + k))"
  from LeastI_ex [OF True] have "eth_block_number W (clock s + ?k) = Inr (projr (eth_block_number W (clock s + ?k)))"
    by (cases "eth_block_number W (clock s + ?k)") auto
  moreover have "\<forall>j < ?k. is_err (eth_block_number W (clock s + j))"
    using not_less_Least by blast
  ultimately show ?thesis using True assms block_number_retry.returns_first_answer by (simp add: Let_def)
next
  case False
  with assms show ?thesis by (simp add: block_number_retry.waits_forever)
qed

end
