(* ===== verification/Ethereum.thy ===== *)
theory Ethereum
  imports Env
begin

text \<open>
  The crate \<open>ethereum_gravity\<close>: number conversions and contract queries (\<open>utils.rs\<close>), the
  messages validators sign (\<open>message_signatures.rs\<close>), the payloads of the three contract calls
  and the functions that estimate and submit them (\<open>valset_update.rs\<close>, \<open>submit_batch.rs\<close>,
  \<open>logic_call.rs\<close>), and the two calls of a user (\<open>send_to_cosmos.rs\<close>,
  \<open>deploy_erc20.rs\<close>).
\<close>

section \<open>Number conversions\<close>

text \<open>\<open>lower_bytes[start_index..].copy_from_slice(val)\<close> on an array of \<open>k\<close> zero bytes.\<close>

definition copy_to_end :: "nat \<Rightarrow> bytes \<Rightarrow> bytes outcome" where
  "copy_to_end k val =
     (let start_index = (of_nat k - of_nat (length val) :: usize) in
      if unat start_index > k then Panic ''range start index out of range''
      else if k - unat start_index \<noteq> length val then Panic ''source slice length does not match''
      else Ret (replicate (unat start_index) 0 @ val))"

definition downcast_uint256 :: "num256 \<Rightarrow> uint256 \<Rightarrow> u64 option outcome" where
  "downcast_uint256 N input =
     (if input \<ge> u64_MAX then Ret None
      else bind_out (copy_to_end 8 (u256_to_bytes_be N input)) (\<lambda>lower_bytes.
        Ret (Some (of_nat (be_value lower_bytes)))))"

definition downcast_to_u128 :: "num256 \<Rightarrow> uint256 \<Rightarrow> u128 option outcome" where
  "downcast_to_u128 N input =
     (if input \<ge> u128_MAX then Ret None
      else bind_out (copy_to_end 16 (u256_to_bytes_be N input)) (\<lambda>lower_bytes.
        Ret (Some (of_nat (be_value lower_bytes)))))"

definition one_eth :: uint256 where
  "one_eth = 1000000000000000000"


section \<open>Contract queries\<close>

definition expect_opt :: "string \<Rightarrow> 'a option \<Rightarrow> 'a outcome" where
  "expect_opt msg r = (case r of Some x \<Rightarrow> Ret x | None \<Rightarrow> Panic msg)"

text \<open>The four nonce queries call a view function of the contract and read a number from the
  answer; a nonce that does not fit halts the program.\<close>

definition nonce_query :: "libs \<Rightarrow> web3 \<Rightarrow> string \<Rightarrow> token list \<Rightarrow> string \<Rightarrow> eth_address \<Rightarrow> eth_address \<Rightarrow> (web3_error + u64) act" where
  "nonce_query L W fn args overflow_message contract_address caller_address =
     bind_io (lift_io (unwrap_sum (encode_call (cl L) fn args))) (\<lambda>payload.
     try_io (query_io (simulate_transaction W contract_address 0 payload caller_address)) (\<lambda>val.
     bind_io (lift_io (bind_out (downcast_uint256 (nm L) (u256_from_bytes_be (nm L) val)) (expect_opt overflow_message))) (\<lambda>n.
     return_io (Inr n))))"

definition get_valset_nonce :: "libs \<Rightarrow> web3 \<Rightarrow> eth_address \<Rightarrow> eth_address \<Rightarrow> (web3_error + u64) act" where
  "get_valset_nonce L W contract_address caller_address =
     nonce_query L W ''state_lastValsetNonce()'' [] ''Valset nonce overflow! Bridge Halt!'' contract_address caller_address"

definition get_tx_batch_nonce :: "libs \<Rightarrow> web3 \<Rightarrow> eth_address \<Rightarrow> eth_address \<Rightarrow> eth_address \<Rightarrow> (web3_error + u64) act" where
  "get_tx_batch_nonce L W gravity_contract_address erc20_contract_address caller_address =
     nonce_query L W ''lastBatchNonce(address)'' [TAddress erc20_contract_address]
       ''TxBatch nonce overflow! Bridge Halt!'' gravity_contract_address caller_address"

definition get_logic_call_nonce :: "libs \<Rightarrow> web3 \<Rightarrow> eth_address \<Rightarrow> bytes \<Rightarrow> eth_address \<Rightarrow> (web3_error + u64) act" where
  "get_logic_call_nonce L W gravity_contract_address invalidation_id caller_address =
     nonce_query L W ''lastLogicCallNonce(bytes32)'' [TBytes invalidation_id]
       ''LogicCall nonce overflow! Bridge Halt!'' gravity_contract_address caller_address"

definition get_event_nonce :: "libs \<Rightarrow> web3 \<Rightarrow> eth_address \<Rightarrow> eth_address \<Rightarrow> (web3_error + u64) act" where
  "get_event_nonce L W gravity_contract_address caller_address =
     nonce_query L W ''state_lastEventNonce()'' [] ''EventNonce nonce overflow! Bridge Halt!''
       gravity_contract_address caller_address"

definition get_gravity_id :: "libs \<Rightarrow> web3 \<Rightarrow> eth_address \<Rightarrow> eth_address \<Rightarrow> (web3_error + string) act" where
  "get_gravity_id L W contract_address caller_address =
     bind_io (lift_io (unwrap_sum (encode_call (cl L) ''state_gravityId()'' []))) (\<lambda>payload.
     try_io (query_io (simulate_transaction W contract_address 0 payload caller_address)) (\<lambda>val.
     return_io (case from_utf8 val of
       Some s \<Rightarrow> Inr s
     | None \<Rightarrow> Inl (BadResponse ''invalid utf-8 sequence''))))"

text \<open>The query loop under \<open>tokio::time::timeout\<close>: the deadline is looked at before each
  attempt.\<close>

partial_function (option) query_until :: "(nat \<Rightarrow> bool) \<Rightarrow> ('err + 'a) act \<Rightarrow> effect io_state \<Rightarrow>
    ((unit + 'a) outcome \<times> effect io_state) option" where
  "query_until elapsed m s =
     (if elapsed (clock s) then Some (Ret (Inl ()), s)
      else Option.bind (m s) (\<lambda>(r, s').
        case r of
          Ret (Inr x) \<Rightarrow> Some (Ret (Inr x), s')
        | Ret (Inl e) \<Rightarrow> query_until elapsed m s'
        | Panic p \<Rightarrow> Some (Panic p, s')))"

definition get_gravity_id_with_retry :: "libs \<Rightarrow> web3 \<Rightarrow> timer \<Rightarrow> eth_address \<Rightarrow> eth_address \<Rightarrow> duration option \<Rightarrow> (unit + string) act" where
  "get_gravity_id_with_retry L W T contract_address caller_address wait_time =
     query_until (case wait_time of Some d \<Rightarrow> T d | None \<Rightarrow> (\<lambda>_. False))
       (get_gravity_id L W contract_address caller_address)"

record gas_cost =
  gas :: uint256
  gas_price :: uint256

definition get_total :: "num256 \<Rightarrow> gas_cost \<Rightarrow> uint256 outcome" where
  "get_total N self = u256_mul N (gas self) (gas_price self)"


section \<open>Encoding\<close>

definition reward_token_or_zero :: "valset \<Rightarrow> eth_address" where
  "reward_token_or_zero v = (case vs_reward_token v of Some t \<Rightarrow> t | None \<Rightarrow> ZERO_ADDRESS)"

definition encode_valset_struct :: "valset \<Rightarrow> token" where
  "encode_valset_struct valset =
     (case filter_empty_addresses valset of (addresses, powers) \<Rightarrow>
        TStruct [token_addresses addresses, token_u64s powers, token_u64 (vs_nonce valset),
                 TUint (vs_reward_amount valset), TAddress (reward_token_or_zero valset)])"

definition encode_valset_confirm :: "clarity \<Rightarrow> string \<Rightarrow> valset \<Rightarrow> bytes" where
  "encode_valset_confirm C gravity_id valset =
     (case filter_empty_addresses valset of (eth_addresses, powers) \<Rightarrow>
        encode_tokens C
          [TFixedString gravity_id, TFixedString ''checkpoint'', token_u64 (vs_nonce valset),
           token_addresses eth_addresses, token_u64s powers, TUint (vs_reward_amount valset),
           TAddress (reward_token_or_zero valset)])"

definition encode_valset_confirm_hashed :: "clarity \<Rightarrow> string \<Rightarrow> valset \<Rightarrow> bytes" where
  "encode_valset_confirm_hashed C gravity_id valset =
     get_ethereum_msg_hash C (encode_valset_confirm C gravity_id valset)"

definition encode_tx_batch_confirm :: "clarity \<Rightarrow> string \<Rightarrow> transaction_batch \<Rightarrow> bytes outcome" where
  "encode_tx_batch_confirm C gravity_id batch =
     bind_out (get_checkpoint_values batch) (\<lambda>(amounts, destinations, fees).
     Ret (encode_tokens C
       [TFixedString gravity_id, TFixedString ''transactionBatch'', amounts, destinations, fees,
        token_u64 (batch_nonce batch), TAddress (batch_token_contract batch), token_u64 (batch_timeout batch)]))"

definition encode_tx_batch_confirm_hashed :: "clarity \<Rightarrow> string \<Rightarrow> transaction_batch \<Rightarrow> bytes outcome" where
  "encode_tx_batch_confirm_hashed C gravity_id batch =
     bind_out (encode_tx_batch_confirm C gravity_id batch) (\<lambda>digest. Ret (get_ethereum_msg_hash C digest))"

text \<open>The amounts and the contracts of a list of tokens, filled by the same loop.\<close>

definition token_amounts :: "erc20_token list \<Rightarrow> token" where
  "token_amounts ts = TDynamic (map (\<lambda>item. TUint (amount item)) ts)"

definition token_contracts :: "erc20_token list \<Rightarrow> token" where
  "token_contracts ts = token_addresses (map token_contract_address ts)"

definition encode_logic_call_confirm :: "clarity \<Rightarrow> string \<Rightarrow> logic_call \<Rightarrow> bytes" where
  "encode_logic_call_confirm C gravity_id call =
     encode_tokens C
       [TFixedString gravity_id, TFixedString ''logicCall'',
        token_amounts (lc_transfers call), token_contracts (lc_transfers call),
        token_amounts (lc_fees call), token_contracts (lc_fees call),
        TAddress (lc_logic_contract_address call), TUnboundedBytes (lc_payload call),
        token_u64 (lc_timeout call), TBytes (lc_invalidation_id call), token_u64 (lc_invalidation_nonce call)]"

definition encode_logic_call_confirm_hashed :: "clarity \<Rightarrow> string \<Rightarrow> logic_call \<Rightarrow> bytes" where
  "encode_logic_call_confirm_hashed C gravity_id call =
     get_ethereum_msg_hash C (encode_logic_call_confirm C gravity_id call)"

definition encode_valset_update_payload :: "clarity \<Rightarrow> valset \<Rightarrow> valset \<Rightarrow> valset_confirm_response list \<Rightarrow> string \<Rightarrow> bytes gresult outcome" where
  "encode_valset_update_payload C new_valset old_valset confirms gravity_id =
     (let new_valset_token = encode_valset_struct new_valset;
          old_valset_token = encode_valset_struct old_valset;
          hash = encode_valset_confirm_hashed C gravity_id new_valset in
      try_out (order_sigs C valset_confirm old_valset hash confirms) (\<lambda>sig_data.
      let sig_arrays = to_arrays sig_data in
      bind_out (unwrap_sum (encode_call C
        ''updateValset((address[],uint256[],uint256,uint256,address),(address[],uint256[],uint256,uint256,address),uint8[],bytes32[],bytes32[])''
        [new_valset_token, old_valset_token, ga_v sig_arrays, ga_r sig_arrays, ga_s sig_arrays])) (\<lambda>payload.
      Ret (Inr payload))))"

definition encode_batch_payload :: "clarity \<Rightarrow> valset \<Rightarrow> transaction_batch \<Rightarrow> batch_confirm_response list \<Rightarrow> string \<Rightarrow> bytes gresult outcome" where
  "encode_batch_payload C current_valset batch confirms gravity_id =
     (let current_valset_token = encode_valset_struct current_valset in
      bind_out (encode_tx_batch_confirm_hashed C gravity_id batch) (\<lambda>hash.
      try_out (order_sigs C batch_confirm current_valset hash confirms) (\<lambda>sig_data.
      let sig_arrays = to_arrays sig_data in
      bind_out (get_checkpoint_values batch) (\<lambda>(amounts, destinations, fees).
      bind_out (unwrap_sum (encode_call C
        ''submitBatch((address[],uint256[],uint256,uint256,address),uint8[],bytes32[],bytes32[],uint256[],address[],uint256[],uint256,address,uint256)''
        [current_valset_token, ga_v sig_arrays, ga_r sig_arrays, ga_s sig_arrays,
         amounts, destinations, fees, token_u64 (batch_nonce batch), TAddress (batch_token_contract batch),
         token_u64 (batch_timeout batch)])) (\<lambda>payload.
      Ret (Inr payload))))))"

definition encode_logic_call_payload :: "clarity \<Rightarrow> valset \<Rightarrow> logic_call \<Rightarrow> logic_call_confirm_response list \<Rightarrow> string \<Rightarrow> bytes gresult outcome" where
  "encode_logic_call_payload C current_valset call confirms gravity_id =
     (let current_valset_token = encode_valset_struct current_valset;
          hash = encode_logic_call_confirm_hashed C gravity_id call in
      try_out (order_sigs C logic_call_confirm current_valset hash confirms) (\<lambda>sig_data.
      let sig_arrays = to_arrays sig_data;
          struct_tokens =
            [token_amounts (lc_transfers call), token_contracts (lc_transfers call),
             token_amounts (lc_fees call), token_contracts (lc_fees call),
             TAddress (lc_logic_contract_address call), TUnboundedBytes (lc_payload call),
             token_u64 (lc_timeout call), TBytes (lc_invalidation_id call), token_u64 (lc_invalidation_nonce call)] in
      bind_out (unwrap_sum (encode_call C
        ''submitLogicCall((address[],uint256[],uint256,uint256,address),uint8[],bytes32[],bytes32[],(uint256[],address[],uint256[],address[],address,bytes,uint256,bytes32,uint256))''
        [current_valset_token, ga_v sig_arrays, ga_r sig_arrays, ga_s sig_arrays, TStruct struct_tokens])) (\<lambda>payload.
      Ret (Inr payload))))"


section \<open>Submitting\<close>

definition gas_price_multiplier :: send_tx_option where
  "gas_price_multiplier = GasPriceMultiplier (fl32 (11 / 10))"

abbreviation web3_ask :: "(nat \<Rightarrow> web3_error + 'a) \<Rightarrow> 'a gresult act" where
  "web3_ask \<equiv> ask from_web3_error"

text \<open>An awaited \<open>Result\<close> of the node's error type under \<open>?\<close>.\<close>

definition convert_io :: "('e \<Rightarrow> 'f) \<Rightarrow> ('e + 'a) act \<Rightarrow> ('f + 'a) act" where
  "convert_io conv m = bind_io m (\<lambda>r. return_io (map_err conv r))"

definition send_eth_valset_update :: "libs \<Rightarrow> web3 \<Rightarrow> valset \<Rightarrow> valset \<Rightarrow> valset_confirm_response list \<Rightarrow> duration \<Rightarrow>
    eth_address \<Rightarrow> string \<Rightarrow> eth_private_key \<Rightarrow> unit gresult act" where
  "send_eth_valset_update L W new_valset old_valset confirms timeout gravity_contract_address gravity_id our_eth_key =
     (let old_nonce = vs_nonce old_valset; new_nonce = vs_nonce new_valset in
      if \<not> new_nonce > old_nonce then panic_io ''assertion failed''
      else
        let eth_address = eth_key_to_address (cl L) our_eth_key in
        try_io (convert_io from_web3_error (get_valset_nonce L W gravity_contract_address eth_address)) (\<lambda>before_nonce.
        if before_nonce \<noteq> old_nonce then return_io (Inr ())
        else
          try_io (lift_io (encode_valset_update_payload (cl L) new_valset old_valset confirms gravity_id)) (\<lambda>payload.
          try_io (convert_io from_web3_error (eth_send W gravity_contract_address payload 0 eth_address our_eth_key [gas_price_multiplier])) (\<lambda>tx.
          try_io (web3_ask (wait_for_transaction W tx timeout)) (\<lambda>_.
          try_io (convert_io from_web3_error (get_valset_nonce L W gravity_contract_address eth_address)) (\<lambda>last_nonce.
          return_io (Inr ())))))))"

definition send_eth_transaction_batch :: "libs \<Rightarrow> web3 \<Rightarrow> valset \<Rightarrow> transaction_batch \<Rightarrow> batch_confirm_response list \<Rightarrow> duration \<Rightarrow>
    eth_address \<Rightarrow> string \<Rightarrow> eth_private_key \<Rightarrow> unit gresult act" where
  "send_eth_transaction_batch L W current_valset batch confirms timeout gravity_contract_address gravity_id our_eth_key =
     (let new_batch_nonce = batch_nonce batch; eth_address = eth_key_to_address (cl L) our_eth_key in
      try_io (convert_io from_web3_error (get_tx_batch_nonce L W gravity_contract_address (batch_token_contract batch) eth_address)) (\<lambda>before_nonce.
      try_io (web3_ask (eth_block_number W)) (\<lambda>current_block_height.
      if before_nonce \<ge> new_batch_nonce then return_io (Inr ())
      else if current_block_height > unat (batch_timeout batch) then return_io (Inr ())
      else
        try_io (lift_io (encode_batch_payload (cl L) current_valset batch confirms gravity_id)) (\<lambda>payload.
        try_io (convert_io from_web3_error (eth_send W gravity_contract_address payload 0 eth_address our_eth_key [gas_price_multiplier])) (\<lambda>tx.
        try_io (web3_ask (wait_for_transaction W tx timeout)) (\<lambda>_.
        try_io (convert_io from_web3_error (get_tx_batch_nonce L W gravity_contract_address (batch_token_contract batch) eth_address)) (\<lambda>last_nonce.
        return_io (Inr ()))))))))"

definition send_eth_logic_call :: "libs \<Rightarrow> web3 \<Rightarrow> valset \<Rightarrow> logic_call \<Rightarrow> logic_call_confirm_response list \<Rightarrow> duration \<Rightarrow>
    eth_address \<Rightarrow> string \<Rightarrow> eth_private_key \<Rightarrow> unit gresult act" where
  "send_eth_logic_call L W current_valset call confirms timeout gravity_contract_address gravity_id our_eth_key =
     (let new_call_nonce = lc_invalidation_nonce call; eth_address = eth_key_to_address (cl L) our_eth_key in
      try_io (convert_io from_web3_error (get_logic_call_nonce L W gravity_contract_address (lc_invalidation_id call) eth_address)) (\<lambda>before_nonce.
      try_io (web3_ask (eth_block_number W)) (\<lambda>current_block_height.
      if before_nonce \<ge> new_call_nonce then return_io (Inr ())
      else if current_block_height > unat (lc_timeout call) then return_io (Inr ())
      else
        try_io (lift_io (encode_logic_call_payload (cl L) current_valset call confirms gravity_id)) (\<lambda>payload.
        try_io (convert_io from_web3_error (eth_send W gravity_contract_address payload 0 eth_address our_eth_key [])) (\<lambda>tx.
        try_io (web3_ask (wait_for_transaction W tx timeout)) (\<lambda>_.
        try_io (convert_io from_web3_error (get_logic_call_nonce L W gravity_contract_address (lc_invalidation_id call) eth_address)) (\<lambda>last_nonce.
        return_io (Inr ()))))))))"

text \<open>The three cost estimates ask for the same data and differ in the payload.\<close>

definition estimate_cost :: "libs \<Rightarrow> web3 \<Rightarrow> bytes gresult outcome \<Rightarrow> eth_address \<Rightarrow> eth_private_key \<Rightarrow> gas_cost gresult act" where
  "estimate_cost L W payload gravity_contract_address our_eth_key =
     (let our_eth_address = eth_key_to_address (cl L) our_eth_key in
      try_io (web3_ask (eth_get_balance W our_eth_address)) (\<lambda>our_balance.
      try_io (web3_ask (eth_get_transaction_count W our_eth_address)) (\<lambda>our_nonce.
      let gas_limit = min (u64_MAX - 1) our_balance in
      try_io (web3_ask (eth_gas_price W)) (\<lambda>gas_price.
      try_io (lift_io payload) (\<lambda>data.
      try_io (web3_ask (eth_estimate_gas W
          \<lparr>tr_from = Some our_eth_address, tr_to = gravity_contract_address, tr_nonce = Some our_nonce,
           tr_gas_price = Some gas_price, tr_gas = Some gas_limit, tr_value = Some 0, tr_data = Some data\<rparr>)) (\<lambda>val.
      return_io (Inr \<lparr>gas = val, gas_price = gas_price\<rparr>)))))))"

definition estimate_valset_cost :: "libs \<Rightarrow> web3 \<Rightarrow> valset \<Rightarrow> valset \<Rightarrow> valset_confirm_response list \<Rightarrow> eth_address \<Rightarrow> string \<Rightarrow> eth_private_key \<Rightarrow> gas_cost gresult act" where
  "estimate_valset_cost L W new_valset old_valset confirms gravity_contract_address gravity_id our_eth_key =
     estimate_cost L W (encode_valset_update_payload (cl L) new_valset old_valset confirms gravity_id)
       gravity_contract_address our_eth_key"

definition estimate_tx_batch_cost :: "libs \<Rightarrow> web3 \<Rightarrow> valset \<Rightarrow> transaction_batch \<Rightarrow> batch_confirm_response list \<Rightarrow> eth_address \<Rightarrow> string \<Rightarrow> eth_private_key \<Rightarrow> gas_cost gresult act" where
  "estimate_tx_batch_cost L W current_valset batch confirms gravity_contract_address gravity_id our_eth_key =
     estimate_cost L W (encode_batch_payload (cl L) current_valset batch confirms gravity_id)
       gravity_contract_address our_eth_key"

definition estimate_logic_call_cost :: "libs \<Rightarrow> web3 \<Rightarrow> valset \<Rightarrow> logic_call \<Rightarrow> logic_call_confirm_response list \<Rightarrow> eth_address \<Rightarrow> string \<Rightarrow> eth_private_key \<Rightarrow> gas_cost gresult act" where
  "estimate_logic_call_cost L W current_valset call confirms gravity_contract_address gravity_id our_eth_key =
     estimate_cost L W (encode_logic_call_payload (cl L) current_valset call confirms gravity_id)
       gravity_contract_address our_eth_key"


section \<open>Calls of a user\<close>

definition SEND_TO_COSMOS_GAS_LIMIT :: uint256 where
  "SEND_TO_COSMOS_GAS_LIMIT = 100000"

fun is_nonce_option :: "send_tx_option \<Rightarrow> bool" where
  "is_nonce_option (Nonce n) = True"
| "is_nonce_option _ = False"

fun is_gas_limit_option :: "send_tx_option \<Rightarrow> bool" where
  "is_gas_limit_option (GasLimit n) = True"
| "is_gas_limit_option _ = False"

text \<open>The retry loop around the allowance check: while it fails and there is time left.\<close>

partial_function (option) approved_loop :: "(nat \<Rightarrow> bool) \<Rightarrow> (nat \<Rightarrow> web3_error + bool) \<Rightarrow> (web3_error + bool) \<Rightarrow> effect io_state \<Rightarrow>
    ((web3_error + bool) outcome \<times> effect io_state) option" where
  "approved_loop elapsed check approved s =
     (if is_err approved \<and> \<not> elapsed (clock s) then
        if cut_off s then Some (Panic end_of_run, s)
        else approved_loop elapsed check (check (clock s)) (s\<lparr>clock := Suc (clock s)\<rparr>)
      else Some (Ret approved, s))"

text \<open>\<open>while bytes.len() < 32 { bytes.insert(0, 0) }\<close>.\<close>

function pad_front_32 :: "bytes \<Rightarrow> bytes" where
  "pad_front_32 bs = (if length bs < 32 then pad_front_32 (0 # bs) else bs)"
  by auto
termination by (relation "measure (\<lambda>bs. 32 - length bs)") auto

declare pad_front_32.simps [simp del]

definition send_to_cosmos :: "libs \<Rightarrow> web3 \<Rightarrow> timer \<Rightarrow> eth_address \<Rightarrow> eth_address \<Rightarrow> uint256 \<Rightarrow> cosmos_address \<Rightarrow>
    eth_private_key \<Rightarrow> duration option \<Rightarrow> send_tx_option list \<Rightarrow> uint256 gresult act" where
  "send_to_cosmos L W T erc20 gravity_contract amt cosmos_destination sender_secret wait_timeout options =
     (let sender_address = eth_key_to_address (cl L) sender_secret in
      if list_ex is_nonce_option options then
        return_io (Inl (ValidationError ''This call sends more than one tx! Can not specify''))
      else
        bind_io (query_io (check_erc20_approved W erc20 sender_address gravity_contract)) (\<lambda>approved.
        bind_io (case wait_timeout of
            Some w \<Rightarrow> approved_loop (T w) (check_erc20_approved W erc20 sender_address gravity_contract) approved
          | None \<Rightarrow> return_io approved) (\<lambda>approved.
        bind_io (lift_io (unwrap_sum approved)) (\<lambda>approved.
        try_io (if \<not> approved then
            try_io (web3_ask (eth_get_transaction_count W sender_address)) (\<lambda>nonce.
            try_io (convert_io from_web3_error (eth_approve W erc20 sender_secret gravity_contract (options @ [Nonce nonce]))) (\<lambda>txid.
            case wait_timeout of
              Some timeout \<Rightarrow> try_io (web3_ask (wait_for_transaction W txid timeout)) (\<lambda>_. return_io (Inr (Some nonce)))
            | None \<Rightarrow> return_io (Inr (Some nonce))))
          else return_io (Inr None)) (\<lambda>approve_nonce.
        let has_gas_limit = list_ex is_gas_limit_option options;
            options = (if \<not> has_gas_limit then options @ [GasLimit SEND_TO_COSMOS_GAS_LIMIT] else options) in
        bind_io (case approve_nonce of
            Some nonce \<Rightarrow> bind_io (lift_io (u256_add (nm L) nonce 1)) (\<lambda>n. return_io (options @ [Nonce n]))
          | None \<Rightarrow> return_io options) (\<lambda>options.
        let encoded_destination_address = TBytes (pad_front_32 (cosmos_bytes cosmos_destination)) in
        try_io (return_io (map_err from_clarity_error (encode_call (cl L) ''sendToCosmos(address,bytes32,uint256)''
            [TAddress erc20, encoded_destination_address, TUint amt]))) (\<lambda>payload.
        try_io (convert_io from_web3_error (eth_send W gravity_contract payload 0 sender_address sender_secret options)) (\<lambda>tx_hash.
        try_io (case wait_timeout of
            Some timeout \<Rightarrow> web3_ask (wait_for_transaction W tx_hash timeout)
          | None \<Rightarrow> return_io (Inr ())) (\<lambda>_.
        return_io (Inr tx_hash))))))))))"

definition deploy_erc20 :: "libs \<Rightarrow> web3 \<Rightarrow> string \<Rightarrow> string \<Rightarrow> string \<Rightarrow> u8 \<Rightarrow> eth_address \<Rightarrow> duration option \<Rightarrow>
    eth_private_key \<Rightarrow> send_tx_option list \<Rightarrow> uint256 gresult act" where
  "deploy_erc20 L W cosmos_denom erc20_name erc20_symbol decimals gravity_contract wait_timeout sender_secret options =
     (let sender_address = eth_key_to_address (cl L) sender_secret in
      try_io (return_io (map_err from_clarity_error (encode_call (cl L) ''deployERC20(string,string,string,uint8)''
          [TString cosmos_denom, TString erc20_name, TString erc20_symbol, TUint (unat decimals)]))) (\<lambda>payload.
      try_io (convert_io from_web3_error (eth_send W gravity_contract payload 0 sender_address sender_secret options)) (\<lambda>tx_hash.
      try_io (case wait_timeout of
          Some timeout \<Rightarrow> web3_ask (wait_for_transaction W tx_hash timeout)
        | None \<Rightarrow> return_io (Inr ())) (\<lambda>_.
      return_io (Inr tx_hash)))))"

section \<open>Conversions are exact below the maximum\<close>

lemma be_value_replicate_zero: "be_value (replicate k 0 @ bs) = be_value bs"
proof (induction bs rule: rev_induct)
  case Nil
  show ?case by (induction k) (simp_all add: be_value_def)
next
  case (snoc b bs)
  have "be_value (replicate k 0 @ bs @ [b]) = be_value ((replicate k 0 @ bs) @ [b])" by simp
  with snoc show ?case by (simp del: append_assoc)
qed

lemma copy_to_end_Ret:
  assumes "length val \<le> k" "k \<le> 32"
  shows "copy_to_end k val = Ret (replicate (k - length val) 0 @ val)"
proof -
  have "of_nat k - of_nat (length val) = (of_nat (k - length val) :: usize)"
    using assms(1) by (simp add: of_nat_diff)
  moreover have "unat (of_nat (k - length val) :: usize) = k - length val"
    using assms by (intro unat_of_nat_u64) simp
  ultimately show ?thesis using assms(1) by (simp add: copy_to_end_def Let_def)
qed

lemma copy_number:
  assumes "num256_writes_be N" "n < 256 ^ k" "0 < k" "k \<le> 32"
  obtains bs where "copy_to_end k (u256_to_bytes_be N n) = Ret bs" "be_value bs = n"
proof -
  have "length (u256_to_bytes_be N n) \<le> k" "be_value (u256_to_bytes_be N n) = n"
    using assms by (auto simp: num256_writes_be_def)
  then show thesis
    using that copy_to_end_Ret [of "u256_to_bytes_be N n" k] assms(4) by (simp add: be_value_replicate_zero)
qed

lemma downcast_uint256_small:
  assumes "num256_writes_be N" "n < u64_MAX"
  shows "downcast_uint256 N n = Ret (Some (of_nat n))"
proof -
  have "n < 256 ^ 8" using assms(2) by simp
  then obtain bs where "copy_to_end 8 (u256_to_bytes_be N n) = Ret bs" "be_value bs = n"
    by (rule copy_number [OF assms(1)]) simp_all
  moreover have "(n \<ge> u64_MAX) = False" using assms(2) by simp
  ultimately show ?thesis by (simp only: downcast_uint256_def if_False bind_out.simps)
qed

lemma downcast_uint256_large: "u64_MAX \<le> n \<Longrightarrow> downcast_uint256 N n = Ret None"
  by (simp only: downcast_uint256_def if_True)

lemma downcast_uint256_round_trip:
  assumes "num256_writes_be N" "n \<noteq> - 1"
  shows "downcast_uint256 N (unat n) = Ret (Some n)"
proof -
  have "unat n \<noteq> u64_MAX"
  proof
    assume "unat n = u64_MAX"
    then have "of_nat (unat n) = (of_nat u64_MAX :: u64)" by simp
    with assms(2) show False by simp
  qed
  with unat_u64_le [of n] have "unat n < u64_MAX" by linarith
  with downcast_uint256_small [OF assms(1)] show ?thesis by simp
qed

lemma downcast_to_u128_small:
  assumes "num256_writes_be N" "n < u128_MAX"
  shows "downcast_to_u128 N n = Ret (Some (of_nat n))"
proof -
  have "n < 256 ^ 16" using assms(2) by simp
  then obtain bs where "copy_to_end 16 (u256_to_bytes_be N n) = Ret bs" "be_value bs = n"
    by (rule copy_number [OF assms(1)]) simp_all
  moreover have "(n \<ge> u128_MAX) = False" using assms(2) by simp
  ultimately show ?thesis by (simp only: downcast_to_u128_def if_False bind_out.simps)
qed

lemma downcast_to_u128_large: "u128_MAX \<le> n \<Longrightarrow> downcast_to_u128 N n = Ret None"
  by (simp only: downcast_to_u128_def if_True)

lemma length_pad_front_32: "length bs \<le> 32 \<Longrightarrow> pad_front_32 bs = replicate (32 - length bs) 0 @ bs"
proof (induction bs rule: pad_front_32.induct)
  case (1 bs)
  show ?case
  proof (cases "length bs < 32")
    case True
    then have "32 - length bs = Suc (31 - length bs)" by simp
    then have "replicate (32 - length bs) (0 :: u8) = replicate (31 - length bs) 0 @ [0]"
      by (simp only: replicate_Suc replicate_append_same)
    with True "1.IH" show ?thesis by (subst pad_front_32.simps) simp
  next
    case False
    with "1.prems" show ?thesis by (subst pad_front_32.simps) simp
  qed
qed


section \<open>What the contract queries return\<close>

lemma convert_io_Some_iff:
  "convert_io conv m s = Some (r, t) \<longleftrightarrow>
     (\<exists>x. m s = Some (Ret x, t) \<and> r = Ret (map_err conv x)) \<or> (\<exists>p. m s = Some (Panic p, t) \<and> r = Panic p)"
  by (auto simp: convert_io_def bind_io_Some_iff return_io_def)

lemma emits_convert_io [emits_intros]: "emits P m \<Longrightarrow> emits P (convert_io conv m)"
  unfolding convert_io_def by (intro emits_intros)

lemma upto_convert_io: "emits_upto n P m \<Longrightarrow> emits_upto n P (convert_io conv m)"
  unfolding convert_io_def by (erule upto_bind_last) (rule emits_return)

lemma emits_nonce_query [emits_intros]: "emits P (nonce_query L W fn args msg c a)"
  unfolding nonce_query_def by (intro emits_intros)

lemma emits_nonces [emits_intros]:
  "emits P (get_valset_nonce L W c a)" "emits P (get_tx_batch_nonce L W c e a)"
  "emits P (get_logic_call_nonce L W c i a)" "emits P (get_event_nonce L W c a)"
  unfolding get_valset_nonce_def get_tx_batch_nonce_def get_logic_call_nonce_def get_event_nonce_def
  by (rule emits_nonce_query)+

lemma emits_get_gravity_id [emits_intros]: "emits P (get_gravity_id L W c a)"
  unfolding get_gravity_id_def by (intro emits_intros)

text \<open>Asking for the gravity id does nothing, however often it is repeated.\<close>

lemma silent_query_until:
  fixes m :: "('err + 'a) act"
  assumes "silent m" shows "silent (query_until elapsed m)"
proof (rule emitsI)
  fix s r t
  assume "query_until elapsed m s = Some (r, t)"
  then have "silent m \<longrightarrow> trace (snd (r, t)) = trace s"
  proof (rule query_until.raw_induct [where P = "\<lambda>elapsed m s q. silent m \<longrightarrow> trace (snd q) = trace s", rotated])
    fix f :: "(nat \<Rightarrow> bool) \<Rightarrow> ('err + 'a) act \<Rightarrow> effect io_state \<Rightarrow> ((unit + 'a) outcome \<times> effect io_state) option"
      and elapsed and m :: "('err + 'a) act" and s q
    assume IH: "\<And>e m s q. f e m s = Some q \<Longrightarrow> silent m \<longrightarrow> trace (snd q) = trace s"
      and eq: "(if elapsed (clock s) then Some (Ret (Inl ()), s)
        else Option.bind (m s) (\<lambda>(r, s'). case r of Ret (Inr x) \<Rightarrow> Some (Ret (Inr x), s')
          | Ret (Inl e) \<Rightarrow> f elapsed m s' | Panic p \<Rightarrow> Some (Panic p, s'))) = Some q"
    show "silent m \<longrightarrow> trace (snd q) = trace s"
    proof
      assume m: "silent m"
      show "trace (snd q) = trace s"
      proof (cases "elapsed (clock s)")
        case False
        with eq obtain r1 s1 where r1: "m s = Some (r1, s1)" by (cases "m s") auto
        from silentD [OF m r1] eq False r1 IH [of elapsed m s1 q] m show ?thesis
          by (auto split: outcome.splits sum.splits)
      qed (use eq in auto)
    qed
  qed
  with assms show "\<exists>new. trace t = trace s @ new \<and> list_all (\<lambda>_. False) new" by simp
qed

lemma emits_gravity_id_retry [emits_intros]: "emits P (get_gravity_id_with_retry L W T c a d)"
  unfolding get_gravity_id_with_retry_def
  by (rule emits_silent, rule silent_query_until, rule emits_get_gravity_id)

lemma emits_estimate [emits_intros]: "emits P (estimate_cost L W payload c k)"
  unfolding estimate_cost_def Let_def by (intro emits_intros)

text \<open>What a nonce query makes of one answer of the contract: the number the answer denotes, if
  it is below the maximum; otherwise the program halts.\<close>

lemma nonce_query_result:
  assumes L: "num256_reads_be (nm L)" "num256_writes_be (nm L)"
    and call: "encode_call (cl L) fn args = Inr payload"
    and ans: "simulate_transaction W c 0 payload a (clock s) = Inr val" and h: "horizon s = None"
  shows "nonce_query L W fn args msg c a s =
    (if be_value val < u64_MAX then Some (Ret (Inr (of_nat (be_value val))), s\<lparr>clock := Suc (clock s)\<rparr>)
     else Some (Panic msg, s\<lparr>clock := Suc (clock s)\<rparr>))"
proof (cases "be_value val < u64_MAX")
  case True
  with L call ans h downcast_uint256_small [OF L(2) True] show ?thesis
    by (simp add: nonce_query_def io_simps num256_reads_be_def expect_opt_def)
next
  case False
  then have "u64_MAX \<le> be_value val" by linarith
  with False L call ans h downcast_uint256_large [of "be_value val" "nm L"] show ?thesis
    by (simp add: nonce_query_def io_simps num256_reads_be_def expect_opt_def)
qed

lemma nonce_query_error:
  assumes "encode_call (cl L) fn args = Inr payload" "simulate_transaction W c 0 payload a (clock s) = Inl e"
    "horizon s = None"
  shows "nonce_query L W fn args msg c a s = Some (Ret (Inl e), s\<lparr>clock := Suc (clock s)\<rparr>)"
  using assms by (simp add: nonce_query_def io_simps)

section \<open>Submissions\<close>

text \<open>The one transaction a submission may send: to the bridge contract, without value, signed with
  our key, carrying a payload that could be built, that is, whose signatures were accepted.\<close>

definition submits :: "libs \<Rightarrow> bytes gresult outcome \<Rightarrow> eth_address \<Rightarrow> eth_private_key \<Rightarrow> send_tx_option list \<Rightarrow> effect \<Rightarrow> bool" where
  "submits L payload gravity_contract sk opts e \<longleftrightarrow>
     (\<exists>data. payload = Ret (Inr data) \<and>
        e = EthSendTransaction gravity_contract data 0 (eth_key_to_address (cl L) sk) sk opts)"

lemma upto_eth_send:
  "P (EthSendTransaction to payload val from sk opts) \<Longrightarrow> emits_upto 1 P (eth_send W to payload val from sk opts)"
  unfolding eth_send_def by (rule upto_effect) simp_all

lemma upto_submit:
  assumes "\<And>x. silent (rest x)"
  shows "emits_upto 1 (submits L payload c sk opts)
    (try_io (lift_io payload) (\<lambda>data.
       try_io (convert_io conv (eth_send W c data 0 (eth_key_to_address (cl L) sk) sk opts)) rest))"
  by (intro upto_try_lift upto_try_last upto_convert_io upto_eth_send assms) (simp add: submits_def)

lemma send_eth_valset_update_submits:
  "emits_upto 1 (\<lambda>e. vs_nonce old < vs_nonce new \<and>
       submits L (encode_valset_update_payload (cl L) new old confirms gid) c sk [gas_price_multiplier] e)
     (send_eth_valset_update L W new old confirms timeout c gid sk)"
proof (cases "vs_nonce old < vs_nonce new")
  case True
  show ?thesis unfolding send_eth_valset_update_def Let_def using True
    by (simp only: not_True_eq_False if_False simp_thms)
      (intro upto_try_silent upto_if upto_submit emits_intros upto_silent)
next
  case False
  then show ?thesis unfolding send_eth_valset_update_def Let_def by (simp add: upto_silent emits_panic)
qed

lemma send_eth_transaction_batch_submits:
  "emits_upto 1 (submits L (encode_batch_payload (cl L) v batch confirms gid) c sk [gas_price_multiplier])
     (send_eth_transaction_batch L W v batch confirms timeout c gid sk)"
  unfolding send_eth_transaction_batch_def Let_def
  by (intro upto_try_silent upto_if upto_submit emits_intros upto_silent)

lemma send_eth_logic_call_submits:
  "emits_upto 1 (submits L (encode_logic_call_payload (cl L) v call confirms gid) c sk [])
     (send_eth_logic_call L W v call confirms timeout c gid sk)"
  unfolding send_eth_logic_call_def Let_def
  by (intro upto_try_silent upto_if upto_submit emits_intros upto_silent)

text \<open>The early exits: a submission someone else already made, or whose time is over, sends
  nothing.\<close>

lemma send_eth_valset_update_outdated:
  assumes "vs_nonce old < vs_nonce new"
    and "get_valset_nonce L W c (eth_key_to_address (cl L) sk) s = Some (Ret (Inr n), t)" "n \<noteq> vs_nonce old"
  shows "send_eth_valset_update L W new old confirms timeout c gid sk s = Some (Ret (Inr ()), t)"
  using assms
  by (simp add: send_eth_valset_update_def Let_def try_io_def convert_io_def bind_io_def return_io_def)

lemma send_eth_transaction_batch_outdated:
  assumes "get_tx_batch_nonce L W c (batch_token_contract b) (eth_key_to_address (cl L) sk) s = Some (Ret (Inr n), t)"
    and "eth_block_number W (clock t) = Inr h" "horizon t = None" "batch_nonce b \<le> n \<or> unat (batch_timeout b) < h"
  shows "send_eth_transaction_batch L W v b confirms timeout c gid sk s = Some (Ret (Inr ()), t\<lparr>clock := Suc (clock t)\<rparr>)"
  using assms
  by (auto simp: send_eth_transaction_batch_def Let_def try_io_def convert_io_def bind_io_def return_io_def
      ask_def query_io_def)

lemma send_eth_logic_call_outdated:
  assumes "get_logic_call_nonce L W c (lc_invalidation_id b) (eth_key_to_address (cl L) sk) s = Some (Ret (Inr n), t)"
    and "eth_block_number W (clock t) = Inr h" "horizon t = None" "lc_invalidation_nonce b \<le> n \<or> unat (lc_timeout b) < h"
  shows "send_eth_logic_call L W v b confirms timeout c gid sk s = Some (Ret (Inr ()), t\<lparr>clock := Suc (clock t)\<rparr>)"
  using assms
  by (auto simp: send_eth_logic_call_def Let_def try_io_def convert_io_def bind_io_def return_io_def
      ask_def query_io_def)

text \<open>A payload exists only if the signatures were accepted.\<close>

lemma encode_valset_update_payload_Ok:
  "encode_valset_update_payload C new old confirms gid = Ret (Inr p) \<Longrightarrow>
     \<exists>gs. order_sigs C valset_confirm old (encode_valset_confirm_hashed C gid new) confirms = Ret (Inr gs)"
  by (auto simp: encode_valset_update_payload_def Let_def outcome_simps)

lemma encode_tx_batch_confirm_Ret: "\<exists>m. encode_tx_batch_confirm C gid b = Ret m"
  by (simp add: encode_tx_batch_confirm_def)

lemma encode_batch_payload_Ok:
  "encode_batch_payload C v b confirms gid = Ret (Inr p) \<Longrightarrow>
     \<exists>h gs. encode_tx_batch_confirm_hashed C gid b = Ret h \<and> order_sigs C batch_confirm v h confirms = Ret (Inr gs)"
  by (auto simp: encode_batch_payload_def Let_def outcome_simps)

lemma encode_logic_call_payload_Ok:
  "encode_logic_call_payload C v call confirms gid = Ret (Inr p) \<Longrightarrow>
     \<exists>gs. order_sigs C logic_call_confirm v (encode_logic_call_confirm_hashed C gid call) confirms = Ret (Inr gs)"
  by (auto simp: encode_logic_call_payload_def Let_def outcome_simps)


section \<open>A deposit\<close>

lemma approved_loop_step:
  "horizon s = None \<Longrightarrow> approved_loop el check ap s =
     (if is_err ap \<and> \<not> el (clock s) then approved_loop el check (check (clock s)) (s\<lparr>clock := Suc (clock s)\<rparr>)
      else Some (Ret ap, s))"
  by (subst approved_loop.simps) simp

lemma approved_loop_trace:
  assumes "approved_loop el check ap s = Some (r, t)"
  shows "trace t = trace s"
proof -
  let ?P = "\<lambda>el check ap s q. trace (snd q) = trace s"
  have "?P el check ap s (r, t)"
    by (rule approved_loop.raw_induct [where P = ?P, OF _ assms]) (force split: if_splits)
  then show ?thesis by simp
qed

lemma silent_approved_loop: "emits P (approved_loop el check ap)"
  by (rule emitsI) (auto dest: approved_loop_trace)

text \<open>The loop ends as soon as the node answers or the time is over.\<close>

lemma approved_loop_returns:
  "horizon s = None \<Longrightarrow> is_ok (check (clock s + k)) \<or> el (clock s + k) \<Longrightarrow> \<exists>q. approved_loop el check ap s = Some q"
proof (induction k arbitrary: s ap)
  case 0
  show ?case
  proof (cases "is_ok ap \<or> el (clock s)")
    case True
    with 0 show ?thesis by (subst approved_loop_step) auto
  next
    case False
    with 0 have "is_ok (check (clock s))" by simp
    with False 0 show ?thesis by (simp add: approved_loop_step [of s el check ap] approved_loop_step [of _ el check "check (clock s)"])
  qed
next
  case (Suc k)
  then show ?case
    using Suc.IH [of "s\<lparr>clock := Suc (clock s)\<rparr>" "check (clock s)"] by (subst approved_loop_step) auto
qed

text \<open>The transactions of a deposit: an approval of the bridge contract, if one is missing, and the
  call of the contract with the amount and the padded destination.\<close>

definition deposit_effect :: "libs \<Rightarrow> eth_address \<Rightarrow> eth_address \<Rightarrow> uint256 \<Rightarrow> cosmos_address \<Rightarrow> eth_private_key \<Rightarrow> effect \<Rightarrow> bool" where
  "deposit_effect L erc20 c amt dest sk e \<longleftrightarrow>
     (\<exists>opts. e = EthApprove erc20 sk c opts) \<or>
     (\<exists>payload opts. encode_call (cl L) ''sendToCosmos(address,bytes32,uint256)''
          [TAddress erc20, TBytes (pad_front_32 (cosmos_bytes dest)), TUint amt] = Inr payload \<and>
        e = EthSendTransaction c payload 0 (eth_key_to_address (cl L) sk) sk opts \<and> list_ex is_gas_limit_option opts)"

lemma emits_try_return [emits_intros]:
  "(\<And>x. r = Inr x \<Longrightarrow> emits P (f x)) \<Longrightarrow> emits P (try_io (return_io r) f)"
  by (cases r) (auto intro: emits_return)

text \<open>A deposit sends nothing but approvals of the bridge contract and calls of
  \<open>sendToCosmos\<close> with the token, the amount and the destination asked for, without value and with a
  gas limit.\<close>

lemma send_to_cosmos_emits:
  "emits (deposit_effect L erc20 c amt dest sk) (send_to_cosmos L W T erc20 c amt dest sk wait opts)"
proof (cases "list_ex is_nonce_option opts")
  case True
  then show ?thesis by (simp add: send_to_cosmos_def Let_def emits_return)
next
  case False
  let ?D = "deposit_effect L erc20 c amt dest sk"
  let ?call = "encode_call (cl L) ''sendToCosmos(address,bytes32,uint256)''
    [TAddress erc20, TBytes (pad_front_32 (cosmos_bytes dest)), TUint amt]"
  let ?from = "eth_key_to_address (cl L) sk"
  let ?rest = "\<lambda>tx_hash. try_io (case wait of Some timeout \<Rightarrow> web3_ask (wait_for_transaction W tx_hash timeout)
      | None \<Rightarrow> return_io (Inr ())) (\<lambda>_. return_io (Inr tx_hash))"
  have call: "emits ?D (try_io (return_io (map_err from_clarity_error ?call)) (\<lambda>payload.
      try_io (convert_io from_web3_error (eth_send W c payload 0 ?from sk os)) ?rest))"
    if "list_ex is_gas_limit_option os" for os
  proof (rule emits_try_return)
    fix payload
    assume "map_err from_clarity_error ?call = Inr payload"
    with that have "?D (EthSendTransaction c payload 0 ?from sk os)"
      by (auto simp: deposit_effect_def map_err_Ok_iff)
    then show "emits ?D (try_io (convert_io from_web3_error (eth_send W c payload 0 ?from sk os)) ?rest)"
      by (intro emits_intros)
  qed
  let ?os = "if \<not> list_ex is_gas_limit_option opts then opts @ [GasLimit SEND_TO_COSMOS_GAS_LIMIT] else opts"
  have "list_ex is_gas_limit_option ?os" by simp
  then have tail: "emits ?D (bind_io (case an of
          Some nonce \<Rightarrow> bind_io (lift_io (u256_add (nm L) nonce 1)) (\<lambda>n. return_io (?os @ [Nonce n]))
        | None \<Rightarrow> return_io ?os) (\<lambda>os. try_io (return_io (map_err from_clarity_error ?call)) (\<lambda>payload.
      try_io (convert_io from_web3_error (eth_send W c payload 0 ?from sk os)) ?rest)))" for an
    by (intro emits_bind_yields [where Q = "list_ex is_gas_limit_option"] call)
      (auto simp: yields_def return_io_def panic_io_def intro: emits_intros split: option.splits outcome.splits)
  have wait: "emits ?D (case wait of Some w \<Rightarrow> approved_loop (T w) check ap | None \<Rightarrow> return_io ap)" for check ap
    by (cases wait) (simp_all add: emits_return silent_approved_loop)
  have approve: "emits ?D (if \<not> approved then
        try_io (web3_ask (eth_get_transaction_count W ?from)) (\<lambda>nonce.
        try_io (convert_io from_web3_error (eth_approve W erc20 sk c (opts @ [Nonce nonce]))) (\<lambda>txid.
        case wait of
          Some timeout \<Rightarrow> try_io (web3_ask (wait_for_transaction W txid timeout)) (\<lambda>_. return_io (Inr (Some nonce)))
        | None \<Rightarrow> return_io (Inr (Some nonce))))
      else return_io (Inr None))" for approved
    by (intro emits_intros) (simp_all add: deposit_effect_def)
  show ?thesis
    unfolding send_to_cosmos_def Let_def if_not_P [OF False]
    by (rule emits_bind, rule emits_query, rule emits_bind, rule wait, rule emits_bind, rule emits_lift,
        rule emits_try, rule approve, rule tail)
qed

text \<open>A destination survives the padding: what the contract puts into the topic of the deposit
  event parses back to it.\<close>

lemma padded_destination:
  assumes "length (cosmos_bytes dest) = 20"
  shows "pad_front_32 (cosmos_bytes dest) = replicate 12 0 @ cosmos_bytes dest"
  using length_pad_front_32 [of "cosmos_bytes dest"] assms by simp

section \<open>What the component promises\<close>

text \<open>C16: an update of the validator set sends at most one transaction, only to a newer nonce and
  only when the members of the old set that confirmed hold the accepted power and all their
  confirmations are sound.\<close>

theorem valset_update_backed:
  "emits_upto 1 (\<lambda>e. vs_nonce old < vs_nonce new \<and>
       ACCEPTED_POWER \<le> unat (voted_power valset_confirm old confirms) \<and>
       list_all (sound_vote (cl L) valset_confirm (encode_valset_confirm_hashed (cl L) gid new) (get_hashmap valset_confirm confirms))
         (vs_members old) \<and>
       submits L (encode_valset_update_payload (cl L) new old confirms gid) c sk [gas_price_multiplier] e)
     (send_eth_valset_update L W new old confirms timeout c gid sk)"
  by (rule emits_upto_weaken [OF send_eth_valset_update_submits])
    (auto simp: submits_def order_sigs_Ok_iff dest: encode_valset_update_payload_Ok)


text \<open>C17: a batch is sent at most once, only when the confirmations of the current members for
  it are sound and hold the accepted power.\<close>

theorem batch_backed:
  "emits_upto 1 (\<lambda>e. ACCEPTED_POWER \<le> unat (voted_power batch_confirm current confirms) \<and>
       (\<exists>h. encode_tx_batch_confirm_hashed (cl L) gid batch = Ret h \<and>
         list_all (sound_vote (cl L) batch_confirm h (get_hashmap batch_confirm confirms)) (vs_members current)) \<and>
       submits L (encode_batch_payload (cl L) current batch confirms gid) c sk [gas_price_multiplier] e)
     (send_eth_transaction_batch L W current batch confirms timeout c gid sk)"
  by (rule emits_upto_weaken [OF send_eth_transaction_batch_submits])
    (auto simp: submits_def order_sigs_Ok_iff dest!: encode_batch_payload_Ok)


text \<open>The same for a logic call.\<close>

lemma logic_call_backed:
  "emits_upto 1 (\<lambda>e. ACCEPTED_POWER \<le> unat (voted_power logic_call_confirm current confirms) \<and>
       list_all (sound_vote (cl L) logic_call_confirm (encode_logic_call_confirm_hashed (cl L) gid call)
         (get_hashmap logic_call_confirm confirms)) (vs_members current) \<and>
       submits L (encode_logic_call_payload (cl L) current call confirms gid) c sk [] e)
     (send_eth_logic_call L W current call confirms timeout c gid sk)"
  by (rule emits_upto_weaken [OF send_eth_logic_call_submits])
    (auto simp: submits_def order_sigs_Ok_iff dest!: encode_logic_call_payload_Ok)


lemma back_convert_io [back_intros]: "comes_back m \<Longrightarrow> comes_back (convert_io conv m)"
  unfolding convert_io_def by (intro back_intros)

lemma back_nonce_query [back_intros]: "comes_back (nonce_query L W fn args msg c a)"
  unfolding nonce_query_def by (intro back_intros)

lemma back_valset_nonce [back_intros]: "comes_back (get_valset_nonce L W c a)"
  unfolding get_valset_nonce_def by (rule back_nonce_query)

text \<open>When the contract still has the nonce of the old set and the signatures are accepted,
  the update is sent, once, with that payload.\<close>

lemma valset_update_sends:
  assumes newer: "vs_nonce old < vs_nonce new"
    and nonce: "get_valset_nonce L W c (eth_key_to_address (cl L) sk) s = Some (Ret (Inr (vs_nonce old)), s1)" "trace s1 = trace s" "horizon s1 = None"
    and payload: "encode_valset_update_payload (cl L) new old confirms gid = Ret (Inr data)"
  shows "\<exists>r t. send_eth_valset_update L W new old confirms timeout c gid sk s = Some (r, t) \<and>
    trace t = trace s @ [EthSendTransaction c data 0 (eth_key_to_address (cl L) sk) sk [gas_price_multiplier]]"
proof -
  let ?e = "EthSendTransaction c data 0 (eth_key_to_address (cl L) sk) sk [gas_price_multiplier]"
  let ?rest = "\<lambda>tx. try_io (web3_ask (wait_for_transaction W tx timeout)) (\<lambda>_.
      try_io (convert_io from_web3_error (get_valset_nonce L W c (eth_key_to_address (cl L) sk))) (\<lambda>last_nonce. return_io (Inr ())))"
  let ?ans = "send_transaction W c data 0 (eth_key_to_address (cl L) sk) sk [gas_price_multiplier] (clock s1)"
  let ?s2 = "s1\<lparr>clock := Suc (clock s1), trace := trace s1 @ [?e]\<rparr>"
  have run: "send_eth_valset_update L W new old confirms timeout c gid sk s =
      (case map_err from_web3_error ?ans of Inl e \<Rightarrow> Some (Ret (Inl e), ?s2) | Inr tx \<Rightarrow> ?rest tx ?s2)"
    using newer nonce(1,3) payload
    by (simp add: send_eth_valset_update_def Let_def try_io_def convert_io_def bind_io_def return_io_def lift_io_def
        eth_send_def effect_io_def split: sum.splits)
  have quiet: "silent (?rest tx)" and returns: "comes_back (?rest tx)" for tx
    by (intro emits_intros, intro back_intros)
  show ?thesis
  proof (cases ?ans)
    case (Inl e)
    with run nonce(2) show ?thesis by simp
  next
    case (Inr tx)
    from comes_backD [OF returns] obtain r t where t: "?rest tx ?s2 = Some (r, t)" by blast
    with silentD [OF quiet t] run Inr nonce(2) show ?thesis by simp
  qed
qed


text \<open>The nonce of the last validator set is the answer of the contract as a 64-bit number, an
  answer of \<open>u64::MAX\<close> or more halts the program, and an error of the node is passed on.\<close>

lemma get_valset_nonce_result:
  assumes "num256_reads_be (nm L)" "num256_writes_be (nm L)"
    and "encode_call (cl L) ''state_lastValsetNonce()'' [] = Inr payload" and "horizon s = None"
  shows "get_valset_nonce L W c a s =
    (case simulate_transaction W c 0 payload a (clock s) of
       Inr val \<Rightarrow> Some (if be_value val < u64_MAX then Ret (Inr (of_nat (be_value val))) else Panic ''Valset nonce overflow! Bridge Halt!'',
          s\<lparr>clock := Suc (clock s)\<rparr>)
     | Inl e \<Rightarrow> Some (Ret (Inl e), s\<lparr>clock := Suc (clock s)\<rparr>))"
proof (cases "simulate_transaction W c 0 payload a (clock s)")
  case (Inl e)
  then show ?thesis unfolding get_valset_nonce_def by (simp only: nonce_query_error [OF assms(3) Inl assms(4)] sum.case)
next
  case (Inr val)
  show ?thesis unfolding get_valset_nonce_def nonce_query_result [OF assms(1-3) Inr assms(4)] Inr sum.case
    by (simp only: if_distrib split: if_splits) blast
qed

end
