(* ===== verification/Cosmos.thy ===== *)
theory Cosmos
  imports Ethereum
begin

text \<open>
  The crate \<open>cosmos_gravity\<close>: the queries of the bridge module (\<open>query.rs\<close>), the transactions
  sent to it (\<open>send.rs\<close>) and the helpers in \<open>utils.rs\<close>.  The centre is
  \<open>send_ethereum_claims\<close>, which turns the observed Ethereum events into claim messages in the
  order of their event nonces; the ordered map it uses is an interface of its own here (the locale
  \<open>ordered_map\<close>).
\<close>

section \<open>Queries\<close>

abbreviation grpc_ask :: "(nat \<Rightarrow> string + 'a) \<Rightarrow> 'a gresult act" where
  "grpc_ask \<equiv> ask from_status"

definition get_gravity_params :: "grpc \<Rightarrow> params gresult act" where
  "get_gravity_params G =
     try_io (grpc_ask (grpc_params G)) (\<lambda>response.
     bind_io (lift_io (unwrap_opt response)) (\<lambda>p. return_io (Inr p)))"

definition get_valset :: "libs \<Rightarrow> grpc \<Rightarrow> u64 \<Rightarrow> valset option gresult act" where
  "get_valset L G nonce =
     try_io (grpc_ask (valset_request G nonce)) (\<lambda>response.
     case response of
       None \<Rightarrow> return_io (Inr None)
     | Some v \<Rightarrow> bind_io (lift_io (valset_from_proto L v)) (\<lambda>v. return_io (Inr (Some v))))"

definition get_current_valset :: "libs \<Rightarrow> grpc \<Rightarrow> valset gresult act" where
  "get_current_valset L G =
     try_io (grpc_ask (current_valset_request G)) (\<lambda>response.
     case response of
       Some v \<Rightarrow> bind_io (lift_io (valset_from_proto L v)) (\<lambda>v. return_io (Inr v))
     | None \<Rightarrow> return_io (Inl (ValidationError ''Must have a current valset!'')))"

text \<open>\<open>address.to_bech32(prefix).unwrap()\<close>, the argument of the queries by address.\<close>

definition bech32_of :: "libs \<Rightarrow> cosmos_address \<Rightarrow> string \<Rightarrow> string outcome" where
  "bech32_of L address prefix = unwrap_sum (cosmos_to_bech32 (ds L) address prefix)"

definition get_oldest_unsigned_valsets :: "libs \<Rightarrow> grpc \<Rightarrow> cosmos_address \<Rightarrow> string \<Rightarrow> valset list gresult act" where
  "get_oldest_unsigned_valsets L G address prefix =
     bind_io (lift_io (bech32_of L address prefix)) (\<lambda>a.
     try_io (grpc_ask (last_pending_valset_request_by_addr G a)) (\<lambda>valsets.
     bind_io (lift_io (map_out_list (valset_from_proto L) valsets)) (\<lambda>vs. return_io (Inr vs))))"

definition get_latest_valsets :: "libs \<Rightarrow> grpc \<Rightarrow> valset list gresult act" where
  "get_latest_valsets L G =
     try_io (grpc_ask (last_valset_requests G)) (\<lambda>valsets.
     bind_io (lift_io (map_out_list (valset_from_proto L) valsets)) (\<lambda>vs. return_io (Inr vs)))"

definition get_all_valset_confirms :: "libs \<Rightarrow> grpc \<Rightarrow> u64 \<Rightarrow> valset_confirm_response list gresult act" where
  "get_all_valset_confirms L G nonce =
     try_io (grpc_ask (valset_confirms_by_nonce G nonce)) (\<lambda>confirms.
     return_io (map_sum_list (valset_confirm_response_try_from L) confirms))"

definition get_oldest_unsigned_transaction_batch :: "libs \<Rightarrow> grpc \<Rightarrow> cosmos_address \<Rightarrow> string \<Rightarrow> transaction_batch option gresult act" where
  "get_oldest_unsigned_transaction_batch L G address prefix =
     bind_io (lift_io (bech32_of L address prefix)) (\<lambda>a.
     try_io (grpc_ask (last_pending_batch_request_by_addr G a)) (\<lambda>batch.
     case batch of
       Some batch \<Rightarrow> try_io (lift_io (transaction_batch_try_from L batch)) (\<lambda>b. return_io (Inr (Some b)))
     | None \<Rightarrow> return_io (Inr None)))"

definition get_latest_transaction_batches :: "libs \<Rightarrow> grpc \<Rightarrow> transaction_batch list gresult act" where
  "get_latest_transaction_batches L G =
     try_io (grpc_ask (outgoing_tx_batches G)) (\<lambda>batches.
     lift_io (map_try_list (transaction_batch_try_from L) batches))"

definition get_transaction_batch_signatures :: "libs \<Rightarrow> grpc \<Rightarrow> u64 \<Rightarrow> eth_address \<Rightarrow> batch_confirm_response list gresult act" where
  "get_transaction_batch_signatures L G nonce contract_address =
     try_io (grpc_ask (batch_confirms G nonce (address_to_string (cl L) contract_address))) (\<lambda>confirms.
     return_io (map_sum_list (batch_confirm_response_try_from L) confirms))"

definition get_last_event_nonce_for_validator :: "libs \<Rightarrow> grpc \<Rightarrow> cosmos_address \<Rightarrow> string \<Rightarrow> u64 gresult act" where
  "get_last_event_nonce_for_validator L G address prefix =
     bind_io (lift_io (bech32_of L address prefix)) (\<lambda>a. grpc_ask (last_event_nonce_by_addr G a))"

definition get_latest_logic_calls :: "libs \<Rightarrow> grpc \<Rightarrow> logic_call list gresult act" where
  "get_latest_logic_calls L G =
     try_io (grpc_ask (outgoing_logic_calls G)) (\<lambda>calls.
     return_io (map_sum_list (logic_call_try_from L) calls))"

definition get_logic_call_signatures :: "libs \<Rightarrow> grpc \<Rightarrow> bytes \<Rightarrow> u64 \<Rightarrow> logic_call_confirm_response list gresult act" where
  "get_logic_call_signatures L G invalidation_id invalidation_nonce =
     try_io (grpc_ask (logic_confirms G invalidation_id invalidation_nonce)) (\<lambda>confirms.
     lift_io (map_try_list (logic_call_confirm_response_try_from L) confirms))"

definition get_oldest_unsigned_logic_call :: "libs \<Rightarrow> grpc \<Rightarrow> cosmos_address \<Rightarrow> string \<Rightarrow> logic_call option gresult act" where
  "get_oldest_unsigned_logic_call L G address prefix =
     bind_io (lift_io (bech32_of L address prefix)) (\<lambda>a.
     try_io (grpc_ask (last_pending_logic_call_by_addr G a)) (\<lambda>call.
     case call of
       Some call \<Rightarrow> try_io (return_io (logic_call_try_from L call)) (\<lambda>c. return_io (Inr (Some c)))
     | None \<Rightarrow> return_io (Inr None)))"

definition get_last_event_nonce_with_retry :: "libs \<Rightarrow> grpc \<Rightarrow> cosmos_address \<Rightarrow> string \<Rightarrow> u64 act" where
  "get_last_event_nonce_with_retry L G our_cosmos_address prefix =
     retry_io (get_last_event_nonce_for_validator L G our_cosmos_address prefix)"

definition get_attestations :: "grpc \<Rightarrow> u64 option \<Rightarrow> attestation list gresult act" where
  "get_attestations G limit =
     grpc_ask (grpc_attestations G (case limit of Some l \<Rightarrow> l | None \<Rightarrow> 1000))"

definition get_pending_send_to_eth :: "libs \<Rightarrow> grpc \<Rightarrow> cosmos_address \<Rightarrow> pending_send_to_eth_response gresult act" where
  "get_pending_send_to_eth L G sender_address =
     grpc_ask (pending_send_to_eth G (cosmos_to_string (ds L) sender_address))"

text \<open>The wait for the next block may itself time out; a node that is not synced or not running
  ends the program.\<close>

definition wait_for_cosmos_online :: "contact \<Rightarrow> timer \<Rightarrow> duration \<Rightarrow> unit act" where
  "wait_for_cosmos_online K T timeout =
     bind_io (query_io (\<lambda>n. if T timeout n then None else Some (wait_for_next_block K timeout n))) (\<lambda>r.
     bind_io (if r = Some (Inl NodeNotSynced) \<or> r = Some (Inl ChainNotRunning)
              then panic_io ''Cosmos node has not come online during timeout!'' else return_io ()) (\<lambda>_.
     for_io [0 :: nat, 1, 2] (\<lambda>_.
       bind_io (query_io (wait_for_next_block K timeout)) (\<lambda>_. return_io ()))))"

lemma emits_queries [emits_intros]:
  "emits P (get_gravity_params G)" "emits P (get_valset L G n)" "emits P (get_current_valset L G)"
  "emits P (get_oldest_unsigned_valsets L G a p)" "emits P (get_latest_valsets L G)"
  "emits P (get_all_valset_confirms L G n)" "emits P (get_oldest_unsigned_transaction_batch L G a p)"
  "emits P (get_latest_transaction_batches L G)" "emits P (get_transaction_batch_signatures L G n c)"
  "emits P (get_last_event_nonce_for_validator L G a p)" "emits P (get_latest_logic_calls L G)"
  "emits P (get_logic_call_signatures L G i n)" "emits P (get_oldest_unsigned_logic_call L G a p)"
  unfolding get_gravity_params_def get_valset_def get_current_valset_def get_oldest_unsigned_valsets_def
    get_latest_valsets_def get_all_valset_confirms_def get_oldest_unsigned_transaction_batch_def
    get_latest_transaction_batches_def get_transaction_batch_signatures_def
    get_last_event_nonce_for_validator_def get_latest_logic_calls_def get_logic_call_signatures_def
    get_oldest_unsigned_logic_call_def
  by (intro emits_intros)+

lemma emits_last_event_nonce_retry [emits_intros]: "emits P (get_last_event_nonce_with_retry L G a p)"
  unfolding get_last_event_nonce_with_retry_def by (intro emits_retry_any emits_intros)


section \<open>An ordered map\<close>

text \<open>The standard library's \<open>BTreeMap\<close>: insertion replaces the value of a key, iteration is in
  ascending order of the keys.  The model keeps the entries in that order.\<close>

type_synonym 'v btree_map = "(u64 \<times> 'v) list"

fun btree_insert :: "u64 \<Rightarrow> 'v \<Rightarrow> 'v btree_map \<Rightarrow> 'v btree_map" where
  "btree_insert k v [] = [(k, v)]"
| "btree_insert k v ((k', v') # m) =
     (if k < k' then (k, v) # (k', v') # m
      else if k = k' then (k, v) # m
      else (k', v') # btree_insert k v m)"

definition btree_values :: "'v btree_map \<Rightarrow> 'v list" where
  "btree_values m = map snd m"

definition btree_ok :: "'v btree_map \<Rightarrow> bool" where
  "btree_ok m \<longleftrightarrow> List.linorder_class.sorted (map fst m) \<and> distinct (map fst m)"

locale ordered_map =
  fixes ok :: "'m \<Rightarrow> bool"
    and empty :: 'm
    and insert :: "u64 \<Rightarrow> 'v \<Rightarrow> 'm \<Rightarrow> 'm"
    and entries :: "'m \<Rightarrow> (u64 \<times> 'v) list"
  assumes ok_empty: "ok empty"
    and entries_empty: "entries empty = []"
    and ok_insert: "ok m \<Longrightarrow> ok (insert k v m)"
    and lookup_insert: "ok m \<Longrightarrow> map_of (entries (insert k v m)) = (map_of (entries m))(k \<mapsto> v)"
    and entries_sorted: "ok m \<Longrightarrow> List.linorder_class.sorted (map fst (entries m)) \<and> distinct (map fst (entries m))"
begin

text \<open>A run of insertions, one pair after the other.\<close>

fun insert_all :: "(u64 \<times> 'v) list \<Rightarrow> 'm \<Rightarrow> 'm" where
  "insert_all [] m = m"
| "insert_all ((k, v) # kvs) m = insert_all kvs (insert k v m)"

lemma ok_insert_all: "ok m \<Longrightarrow> ok (insert_all kvs m)"
  by (induction kvs arbitrary: m) (auto simp: ok_insert)

lemma lookup_insert_all: "ok m \<Longrightarrow> map_of (entries (insert_all kvs m)) = map_of (entries m) ++ map_of (rev kvs)"
  by (induction kvs arbitrary: m) (auto simp: ok_insert lookup_insert map_add_upd_left)

lemma keys_insert_all:
  assumes "ok m"
  shows "map fst (entries (insert_all kvs m)) = sorted_list_of_set (set (map fst (entries m)) \<union> set (map fst kvs))"
proof -
  let ?es = "entries (insert_all kvs m)"
  have "set (map fst ?es) = dom (map_of ?es)" by (simp add: dom_map_of_conv_image_fst)
  also have "\<dots> = set (map fst (entries m)) \<union> set (map fst kvs)"
    by (auto simp: lookup_insert_all [OF assms] dom_map_of_conv_image_fst)
  finally have "set (map fst ?es) = \<dots>" .
  with entries_sorted [OF ok_insert_all [OF assms], of kvs] show ?thesis
    by (metis sorted_list_of_set.idem_if_sorted_distinct)
qed

text \<open>Distinct keys: every pair that went in comes out, once.\<close>

lemma entries_insert_all:
  assumes "distinct (map fst kvs)"
  shows "set (entries (insert_all kvs empty)) = set kvs"
proof -
  let ?es = "entries (insert_all kvs empty)"
  have d: "distinct (map fst ?es)" using entries_sorted [OF ok_insert_all [OF ok_empty]] by blast
  have "(k, v) \<in> set ?es \<longleftrightarrow> (k, v) \<in> set kvs" for k v
  proof -
    have "(k, v) \<in> set ?es \<longleftrightarrow> map_of ?es k = Some v" using d by simp
    also have "\<dots> \<longleftrightarrow> map_of (rev kvs) k = Some v"
      by (simp add: lookup_insert_all [OF ok_empty] entries_empty)
    also have "\<dots> \<longleftrightarrow> (k, v) \<in> set (rev kvs)"
      using assms by (subst map_of_eq_Some_iff) (simp_all add: rev_map [symmetric])
    finally show ?thesis by simp
  qed
  then show ?thesis by auto
qed

end

lemma set_btree_insert: "set (map fst (btree_insert k v m)) = insert k (set (map fst m))"
  by (induction k v m rule: btree_insert.induct) auto

lemma btree_insert_sorted: "btree_ok m \<Longrightarrow> btree_ok (btree_insert k v m)"
proof (induction k v m rule: btree_insert.induct)
  case (2 k v k' v' m)
  then show ?case using set_btree_insert [of k v m] by (auto simp: btree_ok_def)
qed (simp add: btree_ok_def)

lemma btree_insert_lookup: "btree_ok m \<Longrightarrow> map_of (btree_insert k v m) = (map_of m)(k \<mapsto> v)"
  by (induction k v m rule: btree_insert.induct) (auto simp: btree_ok_def fun_upd_twist)

interpretation btree: ordered_map btree_ok "[]" btree_insert "\<lambda>m. m"
proof
  show "btree_ok []" by (simp add: btree_ok_def)
  show "btree_ok m \<Longrightarrow> btree_ok (btree_insert k v m)" for m k and v :: 'a by (rule btree_insert_sorted)
  show "btree_ok m \<Longrightarrow> map_of (btree_insert k v m) = (map_of m)(k \<mapsto> v)" for m k and v :: 'a
    by (rule btree_insert_lookup)
  show "btree_ok m \<Longrightarrow> List.linorder_class.sorted (map fst m) \<and> distinct (map fst m)" for m :: "(u64 \<times> 'a) list"
    by (simp add: btree_ok_def)
qed simp

section \<open>Transactions\<close>

definition MEMO :: string where
  "MEMO = ''Sent using Althea Orchestrator''"

definition TIMEOUT :: duration where
  "TIMEOUT = 60"

definition our_cosmos_address :: "libs \<Rightarrow> contact \<Rightarrow> cosmos_private_key \<Rightarrow> cosmos_address outcome" where
  "our_cosmos_address L K private_key = unwrap_sum (cosmos_key_to_address (ds L) private_key (get_prefix K))"

definition fee_of :: "coin \<Rightarrow> u64 \<Rightarrow> fee" where
  "fee_of c limit = \<lparr>fee_amount = [c], gas_limit = limit\<rparr>"

text \<open>The tail every function of \<open>send.rs\<close> shares: fetch the account data, sign, broadcast.\<close>

definition broadcast :: "contact \<Rightarrow> cosmos_private_key \<Rightarrow> cosmos_address \<Rightarrow> fee \<Rightarrow> cosmos_msg list \<Rightarrow> (cosmos_grpc_error + tx_response) act" where
  "broadcast K private_key our_address fee msgs =
     try_io (query_io (get_message_args K our_address fee)) (\<lambda>args.
     try_io (return_io (sign_std_msg K private_key msgs args MEMO)) (\<lambda>msg_bytes.
     cosmos_send K msg_bytes))"

definition broadcast_and_wait :: "contact \<Rightarrow> cosmos_private_key \<Rightarrow> cosmos_address \<Rightarrow> fee \<Rightarrow> cosmos_msg list \<Rightarrow> (cosmos_grpc_error + tx_response) act" where
  "broadcast_and_wait K private_key our_address fee msgs =
     try_io (broadcast K private_key our_address fee msgs) (\<lambda>response. query_io (wait_for_tx K response TIMEOUT))"

definition set_gravity_delegate_addresses :: "libs \<Rightarrow> contact \<Rightarrow> eth_address \<Rightarrow> cosmos_address \<Rightarrow> cosmos_private_key \<Rightarrow> coin \<Rightarrow> (cosmos_grpc_error + tx_response) act" where
  "set_gravity_delegate_addresses L K delegate_eth_address delegate_cosmos_address private_key fee =
     bind_io (lift_io (our_cosmos_address L K private_key)) (\<lambda>our_address.
     bind_io (lift_io (bech32_of L our_address (get_prefix K @ ''valoper''))) (\<lambda>our_valoper_address.
     broadcast_and_wait K private_key our_address (fee_of fee 500000)
       [Msg ''/nab.v1.MsgSetOrchestratorAddress'' (MsgSetOrchestratorAddress
         \<lparr>mso_validator = our_valoper_address,
          mso_orchestrator = cosmos_to_string (ds L) delegate_cosmos_address,
          mso_eth_address = address_to_string (cl L) delegate_eth_address\<rparr>)]))"

text \<open>The confirmation messages: our signature, made with the Ethereum key, over the message that
  represents the object.\<close>

definition hex_signature :: "libs \<Rightarrow> eth_private_key \<Rightarrow> bytes \<Rightarrow> string" where
  "hex_signature L eth_private_key message =
     bytes_to_hex_str (ds L) (signature_to_bytes (cl L) (sign_ethereum_msg (cl L) eth_private_key message))"

definition valset_confirm_msg :: "libs \<Rightarrow> eth_private_key \<Rightarrow> cosmos_address \<Rightarrow> string \<Rightarrow> valset \<Rightarrow> cosmos_msg" where
  "valset_confirm_msg L eth_private_key our_address gravity_id valset =
     Msg ''/nab.v1.MsgValsetConfirm'' (MsgValsetConfirm
       \<lparr>mvc_nonce = vs_nonce valset,
        mvc_orchestrator = cosmos_to_string (ds L) our_address,
        mvc_eth_address = address_to_string (cl L) (eth_key_to_address (cl L) eth_private_key),
        mvc_signature = hex_signature L eth_private_key (encode_valset_confirm (cl L) gravity_id valset)\<rparr>)"

definition send_valset_confirms :: "libs \<Rightarrow> contact \<Rightarrow> eth_private_key \<Rightarrow> coin \<Rightarrow> valset list \<Rightarrow> cosmos_private_key \<Rightarrow> string \<Rightarrow> (cosmos_grpc_error + tx_response) act" where
  "send_valset_confirms L K eth_private_key fee valsets private_key gravity_id =
     bind_io (lift_io (our_cosmos_address L K private_key)) (\<lambda>our_address.
     broadcast_and_wait K private_key our_address (fee_of fee 500000000)
       (map (valset_confirm_msg L eth_private_key our_address gravity_id) valsets))"

definition batch_confirm_msg :: "libs \<Rightarrow> eth_private_key \<Rightarrow> cosmos_address \<Rightarrow> string \<Rightarrow> transaction_batch \<Rightarrow> cosmos_msg outcome" where
  "batch_confirm_msg L eth_private_key our_address gravity_id batch =
     bind_out (encode_tx_batch_confirm (cl L) gravity_id batch) (\<lambda>message.
     Ret (Msg ''/nab.v1.MsgConfirmBatch'' (MsgConfirmBatch
       \<lparr>mcb_nonce = batch_nonce batch,
        mcb_token_contract = address_to_string (cl L) (batch_token_contract batch),
        mcb_eth_signer = address_to_string (cl L) (eth_key_to_address (cl L) eth_private_key),
        mcb_orchestrator = cosmos_to_string (ds L) our_address,
        mcb_signature = hex_signature L eth_private_key message\<rparr>)))"

definition send_batch_confirm :: "libs \<Rightarrow> contact \<Rightarrow> eth_private_key \<Rightarrow> coin \<Rightarrow> transaction_batch list \<Rightarrow> cosmos_private_key \<Rightarrow> string \<Rightarrow> (cosmos_grpc_error + tx_response) act" where
  "send_batch_confirm L K eth_private_key fee transaction_batches private_key gravity_id =
     bind_io (lift_io (our_cosmos_address L K private_key)) (\<lambda>our_address.
     bind_io (lift_io (map_out_list (batch_confirm_msg L eth_private_key our_address gravity_id) transaction_batches)) (\<lambda>messages.
     broadcast_and_wait K private_key our_address (fee_of fee 500000000) messages))"

definition logic_call_confirm_msg :: "libs \<Rightarrow> eth_private_key \<Rightarrow> cosmos_address \<Rightarrow> string \<Rightarrow> logic_call \<Rightarrow> cosmos_msg" where
  "logic_call_confirm_msg L eth_private_key our_address gravity_id call =
     Msg ''/nab.v1.MsgConfirmLogicCall'' (MsgConfirmLogicCall
       \<lparr>mcl_invalidation_id = bytes_to_hex_str (ds L) (lc_invalidation_id call),
        mcl_invalidation_nonce = lc_invalidation_nonce call,
        mcl_eth_signer = address_to_string (cl L) (eth_key_to_address (cl L) eth_private_key),
        mcl_orchestrator = cosmos_to_string (ds L) our_address,
        mcl_signature = hex_signature L eth_private_key (encode_logic_call_confirm (cl L) gravity_id call)\<rparr>)"

definition send_logic_call_confirm :: "libs \<Rightarrow> contact \<Rightarrow> eth_private_key \<Rightarrow> coin \<Rightarrow> logic_call list \<Rightarrow> cosmos_private_key \<Rightarrow> string \<Rightarrow> (cosmos_grpc_error + tx_response) act" where
  "send_logic_call_confirm L K eth_private_key fee logic_calls private_key gravity_id =
     bind_io (lift_io (our_cosmos_address L K private_key)) (\<lambda>our_address.
     broadcast_and_wait K private_key our_address (fee_of fee 500000000)
       (map (logic_call_confirm_msg L eth_private_key our_address gravity_id) logic_calls))"


section \<open>Claims\<close>

definition claim_height :: "libs \<Rightarrow> uint256 \<Rightarrow> u64 outcome" where
  "claim_height L block_height = bind_out (downcast_uint256 (nm L) block_height) unwrap_opt"

definition send_to_cosmos_claim :: "libs \<Rightarrow> contact \<Rightarrow> cosmos_address \<Rightarrow> send_to_cosmos_event \<Rightarrow> cosmos_msg outcome" where
  "send_to_cosmos_claim L K our_address deposit =
     bind_out (claim_height L (sc_block_height deposit)) (\<lambda>height.
     bind_out (bech32_of L (sc_destination deposit) (get_prefix K)) (\<lambda>receiver.
     Ret (Msg ''/nab.v1.MsgSendToCosmosClaim'' (MsgSendToCosmosClaim
       \<lparr>msc_event_nonce = sc_event_nonce deposit, msc_block_height = height,
        msc_token_contract = address_to_string (cl L) (sc_erc20 deposit),
        msc_amount = u256_to_string (nm L) (sc_amount deposit),
        msc_ethereum_sender = address_to_string (cl L) (sc_sender deposit),
        msc_cosmos_receiver = receiver,
        msc_orchestrator = cosmos_to_string (ds L) our_address\<rparr>))))"

definition batch_send_to_eth_claim :: "libs \<Rightarrow> cosmos_address \<Rightarrow> transaction_batch_executed_event \<Rightarrow> cosmos_msg outcome" where
  "batch_send_to_eth_claim L our_address withdraw =
     bind_out (claim_height L (be_block_height withdraw)) (\<lambda>height.
     Ret (Msg ''/nab.v1.MsgBatchSendToEthClaim'' (MsgBatchSendToEthClaim
       \<lparr>mbe_event_nonce = be_event_nonce withdraw, mbe_block_height = height,
        mbe_batch_nonce = be_batch_nonce withdraw,
        mbe_token_contract = address_to_string (cl L) (be_erc20 withdraw),
        mbe_orchestrator = cosmos_to_string (ds L) our_address\<rparr>)))"

definition erc20_deployed_claim :: "libs \<Rightarrow> cosmos_address \<Rightarrow> erc20_deployed_event \<Rightarrow> cosmos_msg outcome" where
  "erc20_deployed_claim L our_address deploy =
     bind_out (claim_height L (ed_block_height deploy)) (\<lambda>height.
     Ret (Msg ''/nab.v1.MsgERC20DeployedClaim'' (MsgErc20DeployedClaim
       \<lparr>med_event_nonce = ed_event_nonce deploy, med_block_height = height,
        med_cosmos_denom = ed_cosmos_denom deploy,
        med_token_contract = address_to_string (cl L) (ed_erc20_address deploy),
        med_name = ed_name deploy, med_symbol = ed_symbol deploy, med_decimals = ucast (ed_decimals deploy),
        med_orchestrator = cosmos_to_string (ds L) our_address\<rparr>)))"

definition logic_call_executed_claim :: "libs \<Rightarrow> cosmos_address \<Rightarrow> logic_call_executed_event \<Rightarrow> cosmos_msg outcome" where
  "logic_call_executed_claim L our_address call =
     bind_out (claim_height L (le_block_height call)) (\<lambda>height.
     Ret (Msg ''/nab.v1.MsgLogicCallExecutedClaim'' (MsgLogicCallExecutedClaim
       \<lparr>mle_event_nonce = le_event_nonce call, mle_block_height = height,
        mle_invalidation_id = le_invalidation_id call,
        mle_invalidation_nonce = le_invalidation_nonce call,
        mle_orchestrator = cosmos_to_string (ds L) our_address\<rparr>)))"

definition valset_updated_claim :: "libs \<Rightarrow> cosmos_address \<Rightarrow> valset_updated_event \<Rightarrow> cosmos_msg outcome" where
  "valset_updated_claim L our_address valset =
     bind_out (claim_height L (vu_block_height valset)) (\<lambda>height.
     Ret (Msg ''/nab.v1.MsgValsetUpdatedClaim'' (MsgValsetUpdatedClaim
       \<lparr>mvu_event_nonce = vu_event_nonce valset, mvu_valset_nonce = vu_valset_nonce valset,
        mvu_block_height = height,
        mvu_members = map (valset_member_to_proto L) (vu_members valset),
        mvu_reward_amount = u256_to_string (nm L) (vu_reward_amount valset),
        mvu_reward_token = address_to_string (cl L)
          (case vu_reward_token valset of Some t \<Rightarrow> t | None \<Rightarrow> ZERO_ADDRESS),
        mvu_orchestrator = cosmos_to_string (ds L) our_address\<rparr>)))"

text \<open>One of the five loops: a claim per event, put into the map under its event nonce.\<close>

fun insert_claims :: "('ev \<Rightarrow> u64) \<Rightarrow> ('ev \<Rightarrow> cosmos_msg outcome) \<Rightarrow> 'ev list \<Rightarrow> cosmos_msg btree_map \<Rightarrow> cosmos_msg btree_map outcome" where
  "insert_claims nonce claim [] ordered_msgs = Ret ordered_msgs"
| "insert_claims nonce claim (ev # evs) ordered_msgs =
     bind_out (claim ev) (\<lambda>msg. insert_claims nonce claim evs (btree_insert (nonce ev) msg ordered_msgs))"

definition ethereum_claims :: "libs \<Rightarrow> contact \<Rightarrow> cosmos_address \<Rightarrow> send_to_cosmos_event list \<Rightarrow> transaction_batch_executed_event list \<Rightarrow>
    erc20_deployed_event list \<Rightarrow> logic_call_executed_event list \<Rightarrow> valset_updated_event list \<Rightarrow> cosmos_msg list outcome" where
  "ethereum_claims L K our_address deposits withdraws erc20_deploys logic_calls valsets =
     bind_out (insert_claims sc_event_nonce (send_to_cosmos_claim L K our_address) deposits []) (\<lambda>m.
     bind_out (insert_claims be_event_nonce (batch_send_to_eth_claim L our_address) withdraws m) (\<lambda>m.
     bind_out (insert_claims ed_event_nonce (erc20_deployed_claim L our_address) erc20_deploys m) (\<lambda>m.
     bind_out (insert_claims le_event_nonce (logic_call_executed_claim L our_address) logic_calls m) (\<lambda>m.
     bind_out (insert_claims vu_event_nonce (valset_updated_claim L our_address) valsets m) (\<lambda>m.
     Ret (btree_values m))))))"

definition send_ethereum_claims :: "libs \<Rightarrow> contact \<Rightarrow> cosmos_private_key \<Rightarrow> send_to_cosmos_event list \<Rightarrow> transaction_batch_executed_event list \<Rightarrow>
    erc20_deployed_event list \<Rightarrow> logic_call_executed_event list \<Rightarrow> valset_updated_event list \<Rightarrow> coin \<Rightarrow> (cosmos_grpc_error + tx_response) act" where
  "send_ethereum_claims L K private_key deposits withdraws erc20_deploys logic_calls valsets fee =
     bind_io (lift_io (our_cosmos_address L K private_key)) (\<lambda>our_address.
     bind_io (lift_io (ethereum_claims L K our_address deposits withdraws erc20_deploys logic_calls valsets)) (\<lambda>msgs.
     broadcast_and_wait K private_key our_address (fee_of fee 500000000) msgs))"


section \<open>Messages of a user\<close>

text \<open>The check of the sender's balance: every entry of the amount's denomination must cover the
  amount and twice the chain fee, and there must be one.\<close>

fun check_balances :: "libs \<Rightarrow> coin \<Rightarrow> coin \<Rightarrow> coin list \<Rightarrow> bool \<Rightarrow> (cosmos_grpc_error + bool) outcome" where
  "check_balances L amt fee [] found = Ret (Inr found)"
| "check_balances L amt fee (balance # balances) found =
     (if denom balance = denom amt then
        bind_out (u256_mul (nm L) (coin_amount fee) 2) (\<lambda>double_fee.
        bind_out (u256_add (nm L) (coin_amount amt) double_fee) (\<lambda>total_amount.
        if coin_amount balance < total_amount then Ret (Inl (BadInput ''Insufficient balance''))
        else check_balances L amt fee balances True))
      else check_balances L amt fee balances found)"

definition send_to_eth :: "libs \<Rightarrow> contact \<Rightarrow> cosmos_private_key \<Rightarrow> eth_address \<Rightarrow> coin \<Rightarrow> coin \<Rightarrow> coin \<Rightarrow> (cosmos_grpc_error + tx_response) act" where
  "send_to_eth L K private_key destination amt bridge_fee fee =
     bind_io (lift_io (our_cosmos_address L K private_key)) (\<lambda>our_address.
     if denom amt \<noteq> denom bridge_fee then
       return_io (Inl (BadInput '' is an invalid denom set for SendToEth you must pay fees in the same token your sending''))
     else
       bind_io (query_io (get_balances K our_address)) (\<lambda>balances.
       bind_io (lift_io (unwrap_sum balances)) (\<lambda>balances.
       try_io (lift_io (check_balances L amt fee balances False)) (\<lambda>found.
       if \<not> found then return_io (Inl (BadInput ''No balance to send''))
       else broadcast_and_wait K private_key our_address (fee_of fee 500000)
         [Msg ''/nab.v1.MsgSendToEth'' (MsgSendToEth
           \<lparr>mse_sender = cosmos_to_string (ds L) our_address,
            mse_eth_dest = address_to_string (cl L) destination,
            mse_amount = Some amt, mse_bridge_fee = Some bridge_fee\<rparr>)]))))"

definition send_request_batch :: "libs \<Rightarrow> contact \<Rightarrow> cosmos_private_key \<Rightarrow> string \<Rightarrow> coin \<Rightarrow> duration option \<Rightarrow> (cosmos_grpc_error + tx_response) act" where
  "send_request_batch L K private_key dnm fee timeout =
     bind_io (lift_io (our_cosmos_address L K private_key)) (\<lambda>our_address.
     try_io (broadcast K private_key our_address (fee_of fee 500000000)
       [Msg ''/nab.v1.MsgRequestBatch'' (MsgRequestBatch
         \<lparr>mrb_sender = cosmos_to_string (ds L) our_address, mrb_denom = dnm\<rparr>)]) (\<lambda>response.
     case timeout of
       Some d \<Rightarrow> query_io (wait_for_tx K response d)
     | None \<Rightarrow> return_io (Inr response)))"

datatype bad_signature_evidence =
    EvidenceValset valset
  | EvidenceBatch transaction_batch
  | EvidenceLogicCall logic_call

fun to_any :: "libs \<Rightarrow> bad_signature_evidence \<Rightarrow> any" where
  "to_any L (EvidenceValset v) =
     \<lparr>any_type_url = ''/nab.v1.Valset'', any_content = AnyValset (valset_to_proto L v)\<rparr>"
| "to_any L (EvidenceBatch b) =
     \<lparr>any_type_url = ''/nab.v1.OutgoingTxBatch'', any_content = AnyBatch (transaction_batch_to_proto L b)\<rparr>"
| "to_any L (EvidenceLogicCall c) =
     \<lparr>any_type_url = ''/nab.v1.OutgoingLogicCall'', any_content = AnyLogicCall (logic_call_to_proto L c)\<rparr>"

definition submit_bad_signature_evidence :: "libs \<Rightarrow> contact \<Rightarrow> cosmos_private_key \<Rightarrow> coin \<Rightarrow> bad_signature_evidence \<Rightarrow> eth_signature \<Rightarrow> (cosmos_grpc_error + tx_response) act" where
  "submit_bad_signature_evidence L K private_key fee signed_object signature =
     bind_io (lift_io (our_cosmos_address L K private_key)) (\<lambda>our_address.
     broadcast_and_wait K private_key our_address (fee_of fee 500000000)
       [Msg ''/nab.v1.MsgSubmitBadSignatureEvidence'' (MsgSubmitBadSignatureEvidence
         \<lparr>mbs_subject = Some (to_any L signed_object),
          mbs_signature = bytes_to_hex_str (ds L) (signature_to_bytes (cl L) signature),
          mbs_sender = cosmos_to_string (ds L) our_address\<rparr>)])"

definition cancel_send_to_eth :: "libs \<Rightarrow> contact \<Rightarrow> cosmos_private_key \<Rightarrow> coin \<Rightarrow> u64 \<Rightarrow> (cosmos_grpc_error + tx_response) act" where
  "cancel_send_to_eth L K private_key fee transaction_id =
     bind_io (lift_io (our_cosmos_address L K private_key)) (\<lambda>our_address.
     broadcast_and_wait K private_key our_address (fee_of fee 600000)
       [Msg ''/nab.v1.MsgCancelSendToEth'' (MsgCancelSendToEth
         \<lparr>mce_transaction_id = transaction_id, mce_sender = cosmos_to_string (ds L) our_address\<rparr>)])"

section \<open>Claims go out in the order of their event nonces\<close>

text \<open>All events of one call with their claims, in the order in which they are put into the
  map.\<close>

definition event_claims :: "libs \<Rightarrow> contact \<Rightarrow> cosmos_address \<Rightarrow> send_to_cosmos_event list \<Rightarrow> transaction_batch_executed_event list \<Rightarrow>
    erc20_deployed_event list \<Rightarrow> logic_call_executed_event list \<Rightarrow> valset_updated_event list \<Rightarrow> (u64 \<times> cosmos_msg outcome) list" where
  "event_claims L K a deposits withdraws deploys calls valsets =
     map (\<lambda>e. (sc_event_nonce e, send_to_cosmos_claim L K a e)) deposits @
     map (\<lambda>e. (be_event_nonce e, batch_send_to_eth_claim L a e)) withdraws @
     map (\<lambda>e. (ed_event_nonce e, erc20_deployed_claim L a e)) deploys @
     map (\<lambda>e. (le_event_nonce e, logic_call_executed_claim L a e)) calls @
     map (\<lambda>e. (vu_event_nonce e, valset_updated_claim L a e)) valsets"

fun insert_pairs :: "(u64 \<times> cosmos_msg outcome) list \<Rightarrow> cosmos_msg btree_map \<Rightarrow> cosmos_msg btree_map outcome" where
  "insert_pairs [] m = Ret m"
| "insert_pairs ((k, c) # ps) m = bind_out c (\<lambda>msg. insert_pairs ps (btree_insert k msg m))"

lemma insert_claims_pairs:
  "insert_claims nonce claim evs m = insert_pairs (map (\<lambda>e. (nonce e, claim e)) evs) m"
  by (induction evs arbitrary: m) auto

lemma insert_pairs_append:
  "insert_pairs (ps @ qs) m = bind_out (insert_pairs ps m) (insert_pairs qs)"
  by (induction ps m rule: insert_pairs.induct) (auto simp: bind_out_assoc)

lemma ethereum_claims_pairs:
  "ethereum_claims L K a deposits withdraws deploys calls valsets =
     bind_out (insert_pairs (event_claims L K a deposits withdraws deploys calls valsets) []) (\<lambda>m. Ret (btree_values m))"
  by (simp add: ethereum_claims_def event_claims_def insert_claims_pairs insert_pairs_append bind_out_assoc)

lemma insert_pairs_Ret_iff:
  "insert_pairs ps m = Ret m' \<longleftrightarrow>
     (\<exists>msgs. map snd ps = map Ret msgs \<and> m' = btree.insert_all (zip (map fst ps) msgs) m)"
proof (induction ps m rule: insert_pairs.induct)
  case (2 k c ps m)
  show ?case
  proof (cases c)
    case (Ret msg)
    have "(\<exists>msgs. map snd ((k, c) # ps) = map Ret msgs \<and> m' = btree.insert_all (zip (map fst ((k, c) # ps)) msgs) m) \<longleftrightarrow>
        (\<exists>msgs. map snd ps = map Ret msgs \<and> m' = btree.insert_all (zip (map fst ps) msgs) (btree_insert k msg m))"
      by (auto simp: Ret Cons_eq_map_conv intro: exI [of _ "msg # _"])
    with Ret 2 show ?thesis by simp
  qed (auto simp: Cons_eq_map_conv)
qed auto

text \<open>A claim carries the nonce of its event.\<close>

lemma claim_nonces:
  "send_to_cosmos_claim L K a d = Ret m \<Longrightarrow> claim_event_nonce (msg_value m) = Some (sc_event_nonce d)"
  "batch_send_to_eth_claim L a w = Ret m \<Longrightarrow> claim_event_nonce (msg_value m) = Some (be_event_nonce w)"
  "erc20_deployed_claim L a e = Ret m \<Longrightarrow> claim_event_nonce (msg_value m) = Some (ed_event_nonce e)"
  "logic_call_executed_claim L a c = Ret m \<Longrightarrow> claim_event_nonce (msg_value m) = Some (le_event_nonce c)"
  "valset_updated_claim L a v = Ret m \<Longrightarrow> claim_event_nonce (msg_value m) = Some (vu_event_nonce v)"
  by (auto simp: send_to_cosmos_claim_def batch_send_to_eth_claim_def erc20_deployed_claim_def
      logic_call_executed_claim_def valset_updated_claim_def outcome_simps)

lemma event_claims_nonce:
  "(k, Ret m) \<in> set (event_claims L K a deposits withdraws deploys calls valsets) \<Longrightarrow>
     claim_event_nonce (msg_value m) = Some k"
  by (auto simp: event_claims_def dest!: sym [of "Ret m"] intro: claim_nonces)

lemma insert_all_values:
  "\<forall>(k, v) \<in> set m. P k v \<Longrightarrow> \<forall>(k, v) \<in> set kvs. P k v \<Longrightarrow> \<forall>(k, v) \<in> set (btree.insert_all kvs m). P k v"
proof (induction kvs m rule: btree.insert_all.induct)
  case (2 k v kvs m)
  have "set (btree_insert k v m) \<subseteq> insert (k, v) (set m)"
    by (induction k v m rule: btree_insert.induct) auto
  with 2 show ?case by (auto split: prod.splits) blast
qed simp

lemma ethereum_claims_Ret:
  assumes "ethereum_claims L K a deposits withdraws deploys calls valsets = Ret out"
  obtains msgs where
    "map snd (event_claims L K a deposits withdraws deploys calls valsets) = map Ret msgs"
    "out = map snd (btree.insert_all (zip (map fst (event_claims L K a deposits withdraws deploys calls valsets)) msgs) [])"
  using assms by (auto simp: ethereum_claims_pairs outcome_simps insert_pairs_Ret_iff btree_values_def)

lemma ethereum_claims_sorted:
  assumes "ethereum_claims L K a deposits withdraws deploys calls valsets = Ret out"
  shows "map (\<lambda>m. claim_event_nonce (msg_value m)) out =
    map Some (sorted_list_of_set (set (map fst (event_claims L K a deposits withdraws deploys calls valsets))))"
proof -
  let ?ps = "event_claims L K a deposits withdraws deploys calls valsets"
  from assms obtain msgs where msgs: "map snd ?ps = map Ret msgs"
    and out: "out = map snd (btree.insert_all (zip (map fst ?ps) msgs) [])"
    by (rule ethereum_claims_Ret)
  let ?es = "btree.insert_all (zip (map fst ?ps) msgs) []"
  have len: "length ?ps = length msgs" using msgs by (metis length_map)
  have "\<forall>(k, m) \<in> set (zip (map fst ?ps) msgs). claim_event_nonce (msg_value m) = Some k"
  proof (intro ballI, clarify)
    fix k m
    assume "(k, m) \<in> set (zip (map fst ?ps) msgs)"
    then obtain i where i: "i < length ?ps" "k = fst (?ps ! i)" "m = msgs ! i"
      using len by (auto simp: set_zip)
    from i len msgs have "snd (?ps ! i) = Ret m" by (metis nth_map)
    with i have "(k, Ret m) \<in> set ?ps" by (metis nth_mem prod.collapse)
    then show "claim_event_nonce (msg_value m) = Some k" by (rule event_claims_nonce)
  qed
  then have "\<forall>(k, m) \<in> set ?es. claim_event_nonce (msg_value m) = Some k"
    by (intro insert_all_values) auto
  then have "map (\<lambda>m. claim_event_nonce (msg_value m)) out = map Some (map fst ?es)"
    by (auto simp: out)
  moreover have "map fst ?es = sorted_list_of_set (set (map fst ?ps))"
    using btree.keys_insert_all [OF btree.ok_empty, of "zip (map fst ?ps) msgs"] len by simp
  ultimately show ?thesis by simp
qed

text \<open>Events with distinct nonces: the claims are exactly those of the events.\<close>

lemma ethereum_claims_complete:
  assumes "ethereum_claims L K a deposits withdraws deploys calls valsets = Ret out"
    and "distinct (map fst (event_claims L K a deposits withdraws deploys calls valsets))"
  shows "Ret ` set out = set (map snd (event_claims L K a deposits withdraws deploys calls valsets))"
proof -
  let ?ps = "event_claims L K a deposits withdraws deploys calls valsets"
  from assms(1) obtain msgs where msgs: "map snd ?ps = map Ret msgs"
    and out: "out = map snd (btree.insert_all (zip (map fst ?ps) msgs) [])"
    by (rule ethereum_claims_Ret)
  have len: "length ?ps = length msgs" using msgs by (metis length_map)
  have "set (btree.insert_all (zip (map fst ?ps) msgs) []) = set (zip (map fst ?ps) msgs)"
    using assms(2) len by (intro btree.entries_insert_all) simp
  then have "set out = set msgs"
    by (metis out set_map len length_map map_snd_zip)
  then show ?thesis by (metis msgs set_map)
qed

text \<open>When the claims can be built at all.\<close>

lemma insert_pairs_total: "\<forall>p \<in> set ps. \<not> is_panic (snd p) \<Longrightarrow> \<exists>m'. insert_pairs ps m = Ret m'"
proof (induction ps m rule: insert_pairs.induct)
  case (2 k c ps m)
  then show ?case by (cases c) auto
qed auto

lemma claim_height_small: "num256_writes_be (nm L) \<Longrightarrow> h < u64_MAX \<Longrightarrow> claim_height L h = Ret (of_nat h)"
  by (simp only: claim_height_def downcast_uint256_small bind_out.simps unwrap_opt.simps)

lemma claim_height_max: "is_panic (claim_height L u64_MAX)"
  by (simp only: claim_height_def downcast_uint256_large order_refl bind_out.simps unwrap_opt.simps is_panic.simps)


section \<open>What the functions broadcast\<close>

definition broadcasts :: "contact \<Rightarrow> cosmos_private_key \<Rightarrow> (cosmos_msg list \<Rightarrow> bool) \<Rightarrow> effect \<Rightarrow> bool" where
  "broadcasts K sk P e \<longleftrightarrow>
     (\<exists>msgs args b. P msgs \<and> sign_std_msg K sk msgs args MEMO = Inr b \<and> e = CosmosSendTransaction b)"

lemma broadcasts_mono: "broadcasts K sk P e \<Longrightarrow> (\<And>msgs. P msgs \<Longrightarrow> Q msgs) \<Longrightarrow> broadcasts K sk Q e"
  by (auto simp: broadcasts_def)

lemma upto_try_return: "(\<And>x. r = Inr x \<Longrightarrow> emits_upto n P (f x)) \<Longrightarrow> emits_upto n P (try_io (return_io r) f)"
  by (cases r) (auto intro: upto_silent emits_return)

lemma broadcast_emits: "P msgs \<Longrightarrow> emits_upto 1 (broadcasts K sk P) (broadcast K sk a fee msgs)"
  unfolding broadcast_def cosmos_send_def
  by (intro upto_try_silent upto_try_return upto_effect emits_query) (auto simp: broadcasts_def)

lemma broadcast_and_wait_emits: "P msgs \<Longrightarrow> emits_upto 1 (broadcasts K sk P) (broadcast_and_wait K sk a fee msgs)"
  unfolding broadcast_and_wait_def by (intro upto_try_last broadcast_emits emits_query)

lemma upto_bind_lift: "(\<And>x. r = Ret x \<Longrightarrow> emits_upto n P (f x)) \<Longrightarrow> emits_upto n P (bind_io (lift_io r) f)"
  by (cases r) (auto intro: upto_silent emits_panic)

lemma send_valset_confirms_emits:
  "emits_upto 1 (broadcasts K sk (\<lambda>msgs. \<exists>a. our_cosmos_address L K sk = Ret a \<and>
       msgs = map (valset_confirm_msg L ek a gid) valsets))
     (send_valset_confirms L K ek fee valsets sk gid)"
  unfolding send_valset_confirms_def by (intro upto_bind_lift broadcast_and_wait_emits) blast

lemma send_batch_confirm_emits:
  "emits_upto 1 (broadcasts K sk (\<lambda>msgs. \<exists>a. our_cosmos_address L K sk = Ret a \<and>
       map_out_list (batch_confirm_msg L ek a gid) batches = Ret msgs))
     (send_batch_confirm L K ek fee batches sk gid)"
  unfolding send_batch_confirm_def by (intro upto_bind_lift broadcast_and_wait_emits) blast

lemma send_logic_call_confirm_emits:
  "emits_upto 1 (broadcasts K sk (\<lambda>msgs. \<exists>a. our_cosmos_address L K sk = Ret a \<and>
       msgs = map (logic_call_confirm_msg L ek a gid) calls))
     (send_logic_call_confirm L K ek fee calls sk gid)"
  unfolding send_logic_call_confirm_def by (intro upto_bind_lift broadcast_and_wait_emits) blast

lemma send_ethereum_claims_emits:
  "emits_upto 1 (broadcasts K sk (\<lambda>msgs. \<exists>a. our_cosmos_address L K sk = Ret a \<and>
       ethereum_claims L K a deposits withdraws deploys calls valsets = Ret msgs))
     (send_ethereum_claims L K sk deposits withdraws deploys calls valsets fee)"
  unfolding send_ethereum_claims_def by (intro upto_bind_lift broadcast_and_wait_emits) blast

lemma broadcast_and_wait_sends:
  assumes "get_message_args K a fee (clock s) = Inr args" "sign_std_msg K sk msgs args MEMO = Inr b" "horizon s = None"
  shows "\<exists>r t. broadcast_and_wait K sk a fee msgs s = Some (Ret r, t) \<and> trace t = trace s @ [CosmosSendTransaction b]"
proof (cases "cosmos_send_transaction K b (Suc (clock s))")
  case (Inl e)
  with assms show ?thesis
    by (simp add: broadcast_and_wait_def broadcast_def cosmos_send_def try_io_def bind_io_def query_io_def
        return_io_def effect_io_def)
next
  case (Inr r)
  with assms show ?thesis
    by (simp add: broadcast_and_wait_def broadcast_def cosmos_send_def try_io_def bind_io_def query_io_def
        return_io_def effect_io_def)
qed

section \<open>What the component promises\<close>

text \<open>C15: events with distinct nonces give exactly one claim each, and the claims go out in the
  order of the event nonces.\<close>

theorem ethereum_claims_in_order:
  assumes "ethereum_claims L K a deposits withdraws deploys calls valsets = Ret out"
    and "distinct (map fst (event_claims L K a deposits withdraws deploys calls valsets))"
  shows "map (\<lambda>m. claim_event_nonce (msg_value m)) out =
      map Some (sorted_list_of_set (set (map fst (event_claims L K a deposits withdraws deploys calls valsets)))) \<and>
    Ret ` set out = set (map snd (event_claims L K a deposits withdraws deploys calls valsets))"
  using ethereum_claims_sorted [OF assms(1)] ethereum_claims_complete [OF assms] by blast


text \<open>A deposit logged at block \<open>u64::MAX\<close> is accepted by the parser, but no claim can be made
  of it: the conversion of its height panics.\<close>

lemma deposit_at_last_height:
  assumes L: "libs_decode L" "deep_space_bytes (ds L)" and e: "wf_send_to_cosmos L e" "sc_block_height e = u64_MAX"
  shows "send_to_cosmos_from_log L (send_to_cosmos_log sig e) = Ret (Inr e) \<and> is_panic (send_to_cosmos_claim L K a e)"
proof -
  have "is_panic (send_to_cosmos_claim L K a e)"
    using claim_height_max [of L] unfolding send_to_cosmos_claim_def e(2)
    by (cases "claim_height L u64_MAX") simp_all
  with send_to_cosmos_parses [OF L e(1)] show ?thesis by simp
qed

section \<open>Type URLs\<close>

lemma well_typed_confirms:
  "well_typed_msg (valset_confirm_msg L ek a gid v)" "batch_confirm_msg L ek a gid b = Ret m \<Longrightarrow> well_typed_msg m"
  "well_typed_msg (logic_call_confirm_msg L ek a gid c)"
  by (auto simp: well_typed_msg_def valset_confirm_msg_def batch_confirm_msg_def logic_call_confirm_msg_def outcome_simps)

lemma well_typed_claims:
  "(k, Ret m) \<in> set (event_claims L K a deposits withdraws deploys calls valsets) \<Longrightarrow> well_typed_msg m"
  by (auto simp: event_claims_def well_typed_msg_def send_to_cosmos_claim_def batch_send_to_eth_claim_def erc20_deployed_claim_def
      logic_call_executed_claim_def valset_updated_claim_def outcome_simps dest!: sym [of "Ret m"])

lemma insert_all_range: "set (map snd (btree.insert_all kvs m)) \<subseteq> set (map snd kvs) \<union> set (map snd m)"
  using insert_all_values [of m "\<lambda>k v. v \<in> set (map snd kvs) \<union> set (map snd m)" kvs] by force

lemma ethereum_claims_typed:
  assumes "ethereum_claims L K a deposits withdraws deploys calls valsets = Ret out"
  shows "list_all well_typed_msg out"
proof -
  from assms obtain msgs where msgs: "map snd (event_claims L K a deposits withdraws deploys calls valsets) = map Ret msgs"
    and out: "out = map snd (btree.insert_all (zip (map fst (event_claims L K a deposits withdraws deploys calls valsets)) msgs) [])"
    by (rule ethereum_claims_Ret)
  have "well_typed_msg m" if "m \<in> set out" for m
  proof -
    have "set out \<subseteq> set msgs" unfolding out using insert_all_range by (force dest: set_zip_rightD)
    with that msgs have "Ret m \<in> set (map snd (event_claims L K a deposits withdraws deploys calls valsets))" by auto
    then obtain k where "(k, Ret m) \<in> set (event_claims L K a deposits withdraws deploys calls valsets)" by auto
    then show ?thesis by (rule well_typed_claims)
  qed
  then show ?thesis by (simp add: list_all_iff)
qed

definition broadcasts_typed :: "contact \<Rightarrow> cosmos_private_key \<Rightarrow> 'a act \<Rightarrow> bool" where
  "broadcasts_typed K sk m \<longleftrightarrow> emits (broadcasts K sk (list_all well_typed_msg)) m"

text \<open>C18: whatever the nine functions of \<open>send.rs\<close> broadcast consists of messages whose type URL names
  the message the value is, evidence of bad signatures with the URL of the signed object included:
  the Cosmos module decodes every message as what it was built as.\<close>

theorem sent_messages_typed:
  "broadcasts_typed K sk (set_gravity_delegate_addresses L K eth_address cosmos_address sk fee) \<and>
    broadcasts_typed K sk (send_valset_confirms L K ek fee valsets sk gid) \<and> broadcasts_typed K sk (send_batch_confirm L K ek fee batches sk gid) \<and>
    broadcasts_typed K sk (send_logic_call_confirm L K ek fee logic_calls sk gid) \<and>
    broadcasts_typed K sk (send_ethereum_claims L K sk deposits withdraws deploys calls updates fee) \<and>
    broadcasts_typed K sk (send_to_eth L K sk destination amt bridge_fee fee) \<and> broadcasts_typed K sk (send_request_batch L K sk dnm fee timeout) \<and>
    broadcasts_typed K sk (submit_bad_signature_evidence L K sk fee evidence signature) \<and> broadcasts_typed K sk (cancel_send_to_eth L K sk fee tx)"
proof -
  have send: "broadcasts_typed K sk (broadcast_and_wait K sk a f msgs)" "broadcasts_typed K sk (broadcast K sk a f msgs)" if "list_all well_typed_msg msgs" for a f msgs
    unfolding broadcasts_typed_def using that by (blast intro: emits_upto_emits [OF broadcast_and_wait_emits] emits_upto_emits [OF broadcast_emits])+
  show ?thesis
  proof (intro conjI)
    show "broadcasts_typed K sk (set_gravity_delegate_addresses L K eth_address cosmos_address sk fee)"
      unfolding set_gravity_delegate_addresses_def broadcasts_typed_def
      by (intro emits_bind_lift send [unfolded broadcasts_typed_def]) (simp add: well_typed_msg_def)
    show "broadcasts_typed K sk (send_valset_confirms L K ek fee valsets sk gid)"
      unfolding send_valset_confirms_def broadcasts_typed_def
      by (intro emits_bind_lift send [unfolded broadcasts_typed_def]) (simp add: list_all_iff well_typed_confirms)
    show "broadcasts_typed K sk (send_batch_confirm L K ek fee batches sk gid)"
      unfolding send_batch_confirm_def broadcasts_typed_def
      by (intro emits_bind_lift send [unfolded broadcasts_typed_def])
        (auto simp: map_out_list_Ret_iff list_all2_conv_all_nth list_all_length intro: well_typed_confirms)
    show "broadcasts_typed K sk (send_logic_call_confirm L K ek fee logic_calls sk gid)"
      unfolding send_logic_call_confirm_def broadcasts_typed_def
      by (intro emits_bind_lift send [unfolded broadcasts_typed_def]) (simp add: list_all_iff well_typed_confirms)
    show "broadcasts_typed K sk (send_ethereum_claims L K sk deposits withdraws deploys calls updates fee)"
      unfolding send_ethereum_claims_def broadcasts_typed_def
      by (intro emits_bind_lift send [unfolded broadcasts_typed_def]) (rule ethereum_claims_typed)
    show "broadcasts_typed K sk (send_to_eth L K sk destination amt bridge_fee fee)"
      unfolding send_to_eth_def broadcasts_typed_def
      by (intro emits_bind_lift emits_intros send [unfolded broadcasts_typed_def]) (simp add: well_typed_msg_def)
    show "broadcasts_typed K sk (send_request_batch L K sk dnm fee timeout)"
      unfolding send_request_batch_def broadcasts_typed_def
      by (intro emits_bind_lift emits_intros send [unfolded broadcasts_typed_def]) (simp add: well_typed_msg_def)
    show "broadcasts_typed K sk (submit_bad_signature_evidence L K sk fee evidence signature)"
      unfolding submit_bad_signature_evidence_def broadcasts_typed_def
      by (intro emits_bind_lift send [unfolded broadcasts_typed_def]) (cases evidence; simp add: well_typed_msg_def)
    show "broadcasts_typed K sk (cancel_send_to_eth L K sk fee tx)"
      unfolding cancel_send_to_eth_def broadcasts_typed_def
      by (intro emits_bind_lift send [unfolded broadcasts_typed_def]) (simp add: well_typed_msg_def)
  qed
qed

end
