(* ===== verification/Relayer.thy ===== *)
theory Relayer
  imports Cosmos
begin

text \<open>
  The crate \<open>relayer\<close>: finding the validator set the contract has (\<open>find_latest_valset.rs\<close>),
  relaying validator sets, batches and logic calls to Ethereum (\<open>valset_relaying.rs\<close>,
  \<open>batch_relaying.rs\<close>, \<open>logic_call_relaying.rs\<close>) and the loop that does it all
  (\<open>main_loop.rs\<close>), with its configuration from \<open>gravity_utils/src/types/config.rs\<close>.
  Hash maps are association lists: their iteration order is that of the list, and the theorems hold
  for every list.
\<close>

section \<open>Configuration\<close>

record relayer_config =
  valset_market_enabled :: bool
  batch_market_enabled :: bool
  logic_call_market_enabled :: bool

record orchestrator_config =
  relayer_enabled :: bool

record gravity_bridge_tools_config =
  cfg_relayer :: relayer_config
  cfg_orchestrator :: orchestrator_config

definition default_relayer_config :: relayer_config where
  "default_relayer_config =
     \<lparr>valset_market_enabled = False, batch_market_enabled = False, logic_call_market_enabled = False\<rparr>"

definition default_orchestrator_config :: orchestrator_config where
  "default_orchestrator_config = \<lparr>relayer_enabled = True\<rparr>"

definition default_gravity_bridge_tools_config :: gravity_bridge_tools_config where
  "default_gravity_bridge_tools_config =
     \<lparr>cfg_relayer = default_relayer_config, cfg_orchestrator = default_orchestrator_config\<rparr>"


section \<open>The validator set in the contract\<close>

text \<open>Which of its messages \<open>check_if_valsets_differ\<close> logs.\<close>

datatype valset_check =
    Bootstrapping
  | MissingOnCosmos
  | SameValset
  | SortingDisagreement
  | ValsetsDiffer

definition check_if_valsets_differ :: "clarity \<Rightarrow> valset option \<Rightarrow> valset \<Rightarrow> valset_check outcome" where
  "check_if_valsets_differ C cosmos_valset ethereum_valset =
     (case cosmos_valset of
        None \<Rightarrow> if vs_nonce ethereum_valset = 0 then Ret Bootstrapping else Ret MissingOnCosmos
      | Some cosmos_valset \<Rightarrow>
          if cosmos_valset \<noteq> ethereum_valset then
            if vs_nonce cosmos_valset \<noteq> vs_nonce ethereum_valset then Panic ''assertion failed''
            else
              let c_valset = Sorting_Algorithms.sort (valset_member_order C) (vs_members cosmos_valset);
                  e_valset = Sorting_Algorithms.sort (valset_member_order C) (vs_members ethereum_valset) in
              if c_valset = e_valset then Ret SortingDisagreement else Ret ValsetsDiffer
          else Ret SameValset)"

definition BLOCKS_TO_SEARCH :: uint256 where
  "BLOCKS_TO_SEARCH = 5000"

definition search_end :: "num256 \<Rightarrow> uint256 \<Rightarrow> uint256 outcome" where
  "search_end N current_block =
     (if current_block < BLOCKS_TO_SEARCH then Ret 0 else u256_sub N current_block BLOCKS_TO_SEARCH)"

definition valset_of_event :: "valset_updated_event \<Rightarrow> valset" where
  "valset_of_event event =
     \<lparr>vs_nonce = vu_valset_nonce event, vs_members = vu_members event,
      vs_reward_amount = vu_reward_amount event, vs_reward_token = vu_reward_token event\<rparr>"

text \<open>One round of the search: the last event of the range, if any.\<close>

definition find_valset_step :: "libs \<Rightarrow> web3 \<Rightarrow> grpc \<Rightarrow> eth_address \<Rightarrow> uint256 \<Rightarrow> (uint256 + valset gresult) act" where
  "find_valset_step L W G gravity_contract_address current_block =
     (if current_block > 0 then
        bind_io (lift_io (search_end (nm L) current_block)) (\<lambda>end_search.
        bind_io (web3_ask (web3_check_for_events W end_search (Some current_block)
            [gravity_contract_address] [VALSET_UPDATED_EVENT_SIG])) (\<lambda>all_valset_events.
        case all_valset_events of
          Inl e \<Rightarrow> return_io (Inr (Inl e))
        | Inr all_valset_events \<Rightarrow>
            (case rev all_valset_events of
               [] \<Rightarrow> return_io (Inl end_search)
             | event # _ \<Rightarrow>
                 bind_io (lift_io (valset_updated_from_log L event)) (\<lambda>parsed.
                 case parsed of
                   Inr event \<Rightarrow>
                     let latest_eth_valset = valset_of_event event in
                     bind_io (try_io (get_valset L G (vs_nonce latest_eth_valset)) (\<lambda>cosmos_chain_valset.
                       bind_io (lift_io (check_if_valsets_differ (cl L) cosmos_chain_valset latest_eth_valset)) (\<lambda>_.
                       return_io (Inr latest_eth_valset)))) (\<lambda>r.
                     return_io (Inr r))
                 | Inl e \<Rightarrow> return_io (Inl end_search)))))
      else panic_io ''Could not find the last validator set for contract, probably not a valid Gravity contract!'')"

definition find_latest_valset :: "libs \<Rightarrow> web3 \<Rightarrow> grpc \<Rightarrow> eth_address \<Rightarrow> valset gresult act" where
  "find_latest_valset L W G gravity_contract_address =
     try_io (web3_ask (eth_block_number W)) (\<lambda>latest_block.
     loop_io (find_valset_step L W G gravity_contract_address) latest_block)"


section \<open>Relaying validator sets\<close>

text \<open>The loop goes down from the latest nonce; its local variables are the nonce and the last
  signature error.\<close>

definition find_valid_step :: "libs \<Rightarrow> grpc \<Rightarrow> valset \<Rightarrow> string \<Rightarrow> u64 \<times> gravity_error option \<Rightarrow>
    (u64 \<times> gravity_error option + valset option \<times> valset_confirm_response list option \<times> gravity_error option) act" where
  "find_valid_step L G current_valset gravity_id st =
     (case st of (latest_nonce, last_error) \<Rightarrow>
        if latest_nonce > 0 then
          bind_io (get_valset L G latest_nonce) (\<lambda>valset.
          case valset of
            Inr (Some valset) \<Rightarrow>
              if vs_nonce valset \<noteq> latest_nonce then panic_io ''assertion failed''
              else
                bind_io (get_all_valset_confirms L G latest_nonce) (\<lambda>confirms.
                case confirms of
                  Inr confirms \<Rightarrow>
                    if list_ex (\<lambda>confirm. vs_nonce valset \<noteq> vcr_nonce confirm) confirms then panic_io ''assertion failed''
                    else
                      bind_io (lift_io (order_sigs (cl L) valset_confirm current_valset
                          (encode_valset_confirm_hashed (cl L) gravity_id valset) confirms)) (\<lambda>res.
                      case res of
                        Inr _ \<Rightarrow> return_io (Inr (Some valset, Some confirms, last_error))
                      | Inl e \<Rightarrow> return_io (Inl (latest_nonce - 1, Some e)))
                | Inl _ \<Rightarrow> return_io (Inl (latest_nonce - 1, last_error)))
          | _ \<Rightarrow> return_io (Inl (latest_nonce - 1, last_error)))
        else return_io (Inr (None, None, last_error)))"

definition find_latest_valid_valset :: "libs \<Rightarrow> grpc \<Rightarrow> u64 \<Rightarrow> valset \<Rightarrow> string \<Rightarrow>
    (valset option \<times> valset_confirm_response list option \<times> gravity_error option) act" where
  "find_latest_valid_valset L G latest_nonce current_valset gravity_id =
     loop_io (find_valid_step L G current_valset gravity_id) (latest_nonce, None)"

definition valset_cost_error :: "libs \<Rightarrow> web3 \<Rightarrow> eth_private_key \<Rightarrow> string \<Rightarrow> eth_address \<Rightarrow> valset \<Rightarrow> valset_confirm_response list \<Rightarrow> valset \<Rightarrow> unit act" where
  "valset_cost_error L W ethereum_key gravity_id gravity_contract_address latest_cosmos_valset latest_cosmos_confirmed current_valset =
     bind_io (get_valset_nonce L W gravity_contract_address (eth_key_to_address (cl L) ethereum_key)) (\<lambda>current_valset_from_eth.
     case current_valset_from_eth of
       Inr n \<Rightarrow>
         bind_io (lift_io (bind_out (encode_valset_update_payload (cl L) latest_cosmos_valset current_valset
             latest_cosmos_confirmed gravity_id) unwrap_sum)) (\<lambda>payload. return_io ())
     | Inl _ \<Rightarrow> return_io ())"

definition should_relay_valset :: "libs \<Rightarrow> web3 \<Rightarrow> valset \<Rightarrow> eth_private_key \<Rightarrow> gas_cost \<Rightarrow> bool act" where
  "should_relay_valset L W valset ethereum_key cost =
     bind_io (lift_io (u256_mul (nm L) (gas cost) (gas_price cost))) (\<lambda>relaying_cost.
     let pub_key = eth_key_to_address (cl L) ethereum_key; reward = vs_reward_amount valset in
     case vs_reward_token valset of
       None \<Rightarrow> return_io False
     | Some token_in \<Rightarrow>
         let token_out = WETH_CONTRACT_ADDRESS W in
         if token_out = token_in then
           let should_relay = reward > relaying_cost in
           if \<not> should_relay then
             bind_io (query_io (get_uniswap_price W pub_key token_in token_out reward (Some 0))) (\<lambda>value.
             case value of
               Inl _ \<Rightarrow> return_io should_relay
             | Inr val \<Rightarrow> return_io (val > relaying_cost))
           else return_io should_relay
         else return_io False)"

text \<open>The cost in Ether that is logged before a submission: both conversions are unwrapped.\<close>

definition log_cost :: "libs \<Rightarrow> gas_cost \<Rightarrow> unit outcome" where
  "log_cost L cost =
     bind_out (get_total (nm L) cost) (\<lambda>total_cost.
     bind_out (bind_out (downcast_to_u128 (nm L) total_cost) unwrap_opt) (\<lambda>_.
     bind_out (bind_out (downcast_to_u128 (nm L) one_eth) unwrap_opt) (\<lambda>_. Ret ())))"

definition relay_valid_valset :: "libs \<Rightarrow> web3 \<Rightarrow> valset \<Rightarrow> valset \<Rightarrow> valset_confirm_response list \<Rightarrow> eth_address \<Rightarrow> string \<Rightarrow> eth_private_key \<Rightarrow> duration \<Rightarrow> bool \<Rightarrow> unit act" where
  "relay_valid_valset L W latest_cosmos_valset current_valset latest_cosmos_confirmed gravity_contract_address gravity_id ethereum_key timeout enable_relay_market =
     bind_io (estimate_valset_cost L W latest_cosmos_valset current_valset latest_cosmos_confirmed gravity_contract_address gravity_id ethereum_key) (\<lambda>cost.
     case cost of
       Inl e \<Rightarrow> valset_cost_error L W ethereum_key gravity_id gravity_contract_address latest_cosmos_valset latest_cosmos_confirmed current_valset
     | Inr cost \<Rightarrow>
         bind_io (lift_io (log_cost L cost)) (\<lambda>_.
         bind_io (if enable_relay_market then should_relay_valset L W latest_cosmos_valset ethereum_key cost else return_io True) (\<lambda>should_relay.
         if should_relay then
           bind_io (send_eth_valset_update L W latest_cosmos_valset current_valset latest_cosmos_confirmed timeout
             gravity_contract_address gravity_id ethereum_key) (\<lambda>res. return_io ())
         else return_io ())))"

definition relay_valsets :: "libs \<Rightarrow> web3 \<Rightarrow> grpc \<Rightarrow> valset \<Rightarrow> eth_private_key \<Rightarrow> eth_address \<Rightarrow> string \<Rightarrow> duration \<Rightarrow> relayer_config \<Rightarrow> unit act" where
  "relay_valsets L W G current_valset ethereum_key gravity_contract_address gravity_id timeout config =
     bind_io (get_latest_valsets L G) (\<lambda>latest_valsets.
     case latest_valsets of
       Inl _ \<Rightarrow> return_io ()
     | Inr [] \<Rightarrow> return_io ()
     | Inr (v # _) \<Rightarrow>
         bind_io (find_latest_valid_valset L G (vs_nonce v) current_valset gravity_id) (\<lambda>(latest_valset, latest_confirmed, last_error).
         case latest_valset of
           None \<Rightarrow> return_io ()
         | Some latest_cosmos_valset \<Rightarrow>
             (case latest_confirmed of
                None \<Rightarrow> return_io ()
              | Some latest_cosmos_confirmed \<Rightarrow>
                  if vs_nonce latest_cosmos_valset > vs_nonce current_valset then
                    relay_valid_valset L W latest_cosmos_valset current_valset latest_cosmos_confirmed
                      gravity_contract_address gravity_id ethereum_key timeout (valset_market_enabled config)
                  else return_io ())))"


section \<open>Relaying batches\<close>

record submittable_batch =
  sb_batch :: transaction_batch
  sb_sigs :: "batch_confirm_response list"

type_synonym possible_batches = "(eth_address \<times> submittable_batch list) list"

text \<open>\<open>entry(token).or_insert_with(Vec::new)\<close> followed by a push.\<close>

fun push_batch :: "eth_address \<Rightarrow> submittable_batch \<Rightarrow> possible_batches \<Rightarrow> possible_batches" where
  "push_batch token b [] = [(token, [b])]"
| "push_batch token b ((token', bs) # m) =
     (if token = token' then (token', bs @ [b]) # m else (token', bs) # push_batch token b m)"

definition collect_batch :: "libs \<Rightarrow> grpc \<Rightarrow> valset \<Rightarrow> string \<Rightarrow> transaction_batch \<Rightarrow> possible_batches \<Rightarrow> possible_batches act" where
  "collect_batch L G current_valset gravity_id batch possible =
     bind_io (get_transaction_batch_signatures L G (batch_nonce batch) (batch_token_contract batch)) (\<lambda>signatures.
     case signatures of
       Inr sigs \<Rightarrow>
         bind_io (lift_io (encode_tx_batch_confirm_hashed (cl L) gravity_id batch)) (\<lambda>hash.
         bind_io (lift_io (order_sigs (cl L) batch_confirm current_valset hash sigs)) (\<lambda>res.
         if is_ok res then return_io (push_batch (batch_token_contract batch) \<lparr>sb_batch = batch, sb_sigs = sigs\<rparr> possible)
         else return_io possible))
     | Inl _ \<Rightarrow> return_io possible)"

definition get_batches_and_signatures :: "libs \<Rightarrow> grpc \<Rightarrow> valset \<Rightarrow> string \<Rightarrow> possible_batches act" where
  "get_batches_and_signatures L G current_valset gravity_id =
     bind_io (get_latest_transaction_batches L G) (\<lambda>latest_batches.
     case latest_batches of
       Inl _ \<Rightarrow> return_io []
     | Inr latest_batches \<Rightarrow>
         bind_io (fold_io (collect_batch L G current_valset gravity_id) latest_batches []) (\<lambda>possible.
         return_io (map (\<lambda>(token, value). (token, rev value)) possible)))"

definition should_relay_batch :: "web3 \<Rightarrow> transaction_batch \<Rightarrow> uint256 \<Rightarrow> eth_address \<Rightarrow> bool act" where
  "should_relay_batch W batch cost pubkey =
     (let batch_reward_amount = amount (batch_total_fee batch);
          batch_reward_token = token_contract_address (batch_total_fee batch) in
      if batch_reward_token = WETH_CONTRACT_ADDRESS W then return_io (batch_reward_amount > cost)
      else
        bind_io (query_io (get_uniswap_price W pubkey batch_reward_token (WETH_CONTRACT_ADDRESS W) batch_reward_amount None)) (\<lambda>price.
        case price of Inl _ \<Rightarrow> return_io False | Inr price \<Rightarrow> return_io (price > cost)))"

text \<open>The body of the loop over the batches of one token.\<close>

definition submit_batch :: "libs \<Rightarrow> web3 \<Rightarrow> valset \<Rightarrow> eth_private_key \<Rightarrow> eth_address \<Rightarrow> string \<Rightarrow> duration \<Rightarrow> relayer_config \<Rightarrow>
    uint256 \<Rightarrow> u64 \<Rightarrow> submittable_batch \<Rightarrow> unit act" where
  "submit_batch L W current_valset ethereum_key gravity_contract_address gravity_id timeout config
       ethereum_block_height latest_ethereum_batch batch =
     (let oldest_signed_batch = sb_batch batch; oldest_signatures = sb_sigs batch;
          our_ethereum_address = eth_key_to_address (cl L) ethereum_key in
      if unat (batch_timeout oldest_signed_batch) < ethereum_block_height then return_io ()
      else if batch_nonce oldest_signed_batch > latest_ethereum_batch then
        bind_io (estimate_tx_batch_cost L W current_valset oldest_signed_batch oldest_signatures
            gravity_contract_address gravity_id ethereum_key) (\<lambda>cost.
        case cost of
          Inl _ \<Rightarrow> return_io ()
        | Inr cost \<Rightarrow>
            bind_io (lift_io (log_cost L cost)) (\<lambda>_.
            bind_io (if batch_market_enabled config then
                bind_io (lift_io (get_total (nm L) cost)) (\<lambda>total_cost.
                should_relay_batch W oldest_signed_batch total_cost our_ethereum_address)
              else return_io True) (\<lambda>should_relay.
            if should_relay then
              bind_io (send_eth_transaction_batch L W current_valset oldest_signed_batch oldest_signatures timeout
                gravity_contract_address gravity_id ethereum_key) (\<lambda>res. return_io ())
            else return_io ())))
      else return_io ())"

definition submit_token_batches :: "libs \<Rightarrow> web3 \<Rightarrow> valset \<Rightarrow> eth_private_key \<Rightarrow> eth_address \<Rightarrow> string \<Rightarrow> duration \<Rightarrow> relayer_config \<Rightarrow>
    uint256 \<Rightarrow> eth_address \<times> submittable_batch list \<Rightarrow> unit act" where
  "submit_token_batches L W current_valset ethereum_key gravity_contract_address gravity_id timeout config
       ethereum_block_height entry =
     (case entry of (erc20_contract, batches) \<Rightarrow>
        bind_io (get_tx_batch_nonce L W gravity_contract_address erc20_contract (eth_key_to_address (cl L) ethereum_key)) (\<lambda>latest_ethereum_batch.
        case latest_ethereum_batch of
          Inl _ \<Rightarrow> return_io ()
        | Inr latest_ethereum_batch \<Rightarrow>
            for_io batches (submit_batch L W current_valset ethereum_key gravity_contract_address gravity_id timeout
              config ethereum_block_height latest_ethereum_batch)))"

definition submit_batches :: "libs \<Rightarrow> web3 \<Rightarrow> valset \<Rightarrow> eth_private_key \<Rightarrow> eth_address \<Rightarrow> string \<Rightarrow> duration \<Rightarrow> possible_batches \<Rightarrow> relayer_config \<Rightarrow> unit act" where
  "submit_batches L W current_valset ethereum_key gravity_contract_address gravity_id timeout possible config =
     bind_io (query_io (eth_block_number W)) (\<lambda>ethereum_block_height.
     case ethereum_block_height of
       Inl _ \<Rightarrow> return_io ()
     | Inr ethereum_block_height \<Rightarrow>
         for_io possible (submit_token_batches L W current_valset ethereum_key gravity_contract_address gravity_id
           timeout config ethereum_block_height))"

definition relay_batches :: "libs \<Rightarrow> web3 \<Rightarrow> grpc \<Rightarrow> valset \<Rightarrow> eth_private_key \<Rightarrow> eth_address \<Rightarrow> string \<Rightarrow> duration \<Rightarrow> relayer_config \<Rightarrow> unit act" where
  "relay_batches L W G current_valset ethereum_key gravity_contract_address gravity_id timeout config =
     bind_io (get_batches_and_signatures L G current_valset gravity_id) (\<lambda>possible.
     submit_batches L W current_valset ethereum_key gravity_contract_address gravity_id timeout possible config)"


section \<open>Relaying logic calls\<close>

text \<open>\<open>*rewards.entry(token).or_insert(zero) += amount\<close>.\<close>

fun add_reward :: "num256 \<Rightarrow> eth_address \<Rightarrow> uint256 \<Rightarrow> (eth_address \<times> uint256) list \<Rightarrow> (eth_address \<times> uint256) list outcome" where
  "add_reward N token a [] = bind_out (u256_add N 0 a) (\<lambda>t. Ret [(token, t)])"
| "add_reward N token a ((token', t) # m) =
     (if token = token' then bind_out (u256_add N t a) (\<lambda>t'. Ret ((token', t') # m))
      else bind_out (add_reward N token a m) (\<lambda>m'. Ret ((token', t) # m')))"

fun collect_rewards :: "num256 \<Rightarrow> erc20_token list \<Rightarrow> (eth_address \<times> uint256) list \<Rightarrow> (eth_address \<times> uint256) list outcome" where
  "collect_rewards N [] rewards = Ret rewards"
| "collect_rewards N (fee # fees) rewards =
     bind_out (add_reward N (token_contract_address fee) (amount fee) rewards) (\<lambda>rewards'. collect_rewards N fees rewards')"

fun weigh_rewards :: "libs \<Rightarrow> web3 \<Rightarrow> eth_address \<Rightarrow> uint256 \<Rightarrow> (eth_address \<times> uint256) list \<Rightarrow> uint256 \<Rightarrow> bool act" where
  "weigh_rewards L W our_address cost [] total_weth_reward = return_io False"
| "weigh_rewards L W our_address cost ((token, tot) # rewards) total_weth_reward =
     bind_io (if token = WETH_CONTRACT_ADDRESS W then return_io (Inr tot)
              else query_io (get_uniswap_price W our_address token (WETH_CONTRACT_ADDRESS W) tot None)) (\<lambda>weth_equiv.
     case weth_equiv of
       Inl _ \<Rightarrow> weigh_rewards L W our_address cost rewards total_weth_reward
     | Inr weth_equiv \<Rightarrow>
         bind_io (lift_io (u256_add (nm L) total_weth_reward weth_equiv)) (\<lambda>total_weth_reward.
         if total_weth_reward > cost then return_io True
         else weigh_rewards L W our_address cost rewards total_weth_reward))"

definition should_relay_logic_call :: "libs \<Rightarrow> web3 \<Rightarrow> eth_address \<Rightarrow> logic_call \<Rightarrow> uint256 \<Rightarrow> bool act" where
  "should_relay_logic_call L W our_address call cost =
     bind_io (lift_io (collect_rewards (nm L) (lc_fees call) [])) (\<lambda>rewards.
     weigh_rewards L W our_address cost rewards 0)"

definition collect_call :: "libs \<Rightarrow> grpc \<Rightarrow> valset \<Rightarrow> string \<Rightarrow> logic_call \<Rightarrow> (logic_call \<times> logic_call_confirm_response list) option \<Rightarrow>
    (logic_call \<times> logic_call_confirm_response list) option act" where
  "collect_call L G current_valset gravity_id call found =
     bind_io (get_logic_call_signatures L G (lc_invalidation_id call) (lc_invalidation_nonce call)) (\<lambda>sigs.
     case sigs of
       Inr sigs \<Rightarrow>
         bind_io (lift_io (order_sigs (cl L) logic_call_confirm current_valset
             (encode_logic_call_confirm_hashed (cl L) gravity_id call) sigs)) (\<lambda>res.
         if is_ok res then return_io (Some (call, sigs)) else return_io found)
     | Inl _ \<Rightarrow> return_io found)"

definition relay_logic_calls :: "libs \<Rightarrow> web3 \<Rightarrow> grpc \<Rightarrow> valset \<Rightarrow> eth_private_key \<Rightarrow> eth_address \<Rightarrow> string \<Rightarrow> duration \<Rightarrow> relayer_config \<Rightarrow> unit act" where
  "relay_logic_calls L W G current_valset ethereum_key gravity_contract_address gravity_id timeout config =
     (let our_ethereum_address = eth_key_to_address (cl L) ethereum_key in
      bind_io (get_latest_logic_calls L G) (\<lambda>latest_calls.
      case latest_calls of
        Inl _ \<Rightarrow> return_io ()
      | Inr latest_calls \<Rightarrow>
          bind_io (fold_io (collect_call L G current_valset gravity_id) latest_calls None) (\<lambda>found.
          case found of
            None \<Rightarrow> return_io ()
          | Some (oldest_signed_call, oldest_signatures) \<Rightarrow>
              bind_io (get_logic_call_nonce L W gravity_contract_address (lc_invalidation_id oldest_signed_call) our_ethereum_address) (\<lambda>latest_ethereum_call.
              case latest_ethereum_call of
                Inl _ \<Rightarrow> return_io ()
              | Inr latest_ethereum_call \<Rightarrow>
                  if lc_invalidation_nonce oldest_signed_call > latest_ethereum_call then
                    bind_io (estimate_logic_call_cost L W current_valset oldest_signed_call oldest_signatures
                        gravity_contract_address gravity_id ethereum_key) (\<lambda>cost.
                    case cost of
                      Inl _ \<Rightarrow> return_io ()
                    | Inr cost \<Rightarrow>
                        bind_io (lift_io (log_cost L cost)) (\<lambda>_.
                        bind_io (if logic_call_market_enabled config then
                            bind_io (lift_io (get_total (nm L) cost)) (\<lambda>total_cost.
                            should_relay_logic_call L W our_ethereum_address oldest_signed_call total_cost)
                          else return_io True) (\<lambda>should_relay.
                        if should_relay then
                          bind_io (send_eth_logic_call L W current_valset oldest_signed_call oldest_signatures timeout
                            gravity_contract_address gravity_id ethereum_key) (\<lambda>res. return_io ())
                        else return_io ())))
                  else return_io ()))))"


section \<open>The main loop\<close>

definition LOOP_SPEED :: duration where
  "LOOP_SPEED = 17"

definition relayer_iteration :: "libs \<Rightarrow> web3 \<Rightarrow> grpc \<Rightarrow> eth_private_key \<Rightarrow> eth_address \<Rightarrow> string \<Rightarrow> relayer_config \<Rightarrow> unit gresult act" where
  "relayer_iteration L W G ethereum_key gravity_contract_address gravity_id config =
     bind_io (find_latest_valset L W G gravity_contract_address) (\<lambda>current_valset.
     case current_valset of
       Inl _ \<Rightarrow> return_io (Inr ())
     | Inr current_valset \<Rightarrow>
         bind_io (relay_valsets L W G current_valset ethereum_key gravity_contract_address gravity_id LOOP_SPEED config) (\<lambda>_.
         bind_io (relay_batches L W G current_valset ethereum_key gravity_contract_address gravity_id LOOP_SPEED config) (\<lambda>_.
         bind_io (relay_logic_calls L W G current_valset ethereum_key gravity_contract_address gravity_id LOOP_SPEED config) (\<lambda>_.
         return_io (Inr ())))))"

definition relayer_main_loop :: "libs \<Rightarrow> web3 \<Rightarrow> grpc \<Rightarrow> timer \<Rightarrow> eth_private_key \<Rightarrow> eth_address \<Rightarrow> relayer_config \<Rightarrow> duration option \<Rightarrow> unit gresult act" where
  "relayer_main_loop L W G T ethereum_key gravity_contract_address relayer_config wait_time =
     bind_io (get_gravity_id_with_retry L W T gravity_contract_address (eth_key_to_address (cl L) ethereum_key) wait_time) (\<lambda>gravity_id.
     case gravity_id of
       Inl _ \<Rightarrow> return_io (Inl (UnrecoverableError ''Failed to get GravityID, check your ethereum node''))
     | Inr gravity_id \<Rightarrow>
         loop_io (\<lambda>_ :: unit.
           bind_io (relayer_iteration L W G ethereum_key gravity_contract_address gravity_id relayer_config) (\<lambda>async_result.
           case async_result of
             Inl e \<Rightarrow> return_io (Inr (Inl e))
           | Inr _ \<Rightarrow> return_io (Inl ()))) ())"

section \<open>The search for the validator set in the contract\<close>

lemma search_end_less:
  assumes "num256_arith N" "search_end N b = Ret e" "0 < b"
  shows "e < b"
  using assms u256_sub_exact [of N BLOCKS_TO_SEARCH b]
  by (auto simp: search_end_def BLOCKS_TO_SEARCH_def split: if_splits)

lemma back_get_valset [back_intros]: "comes_back (get_valset L G n)"
  unfolding get_valset_def by (intro back_intros)

lemma back_get_all_valset_confirms [back_intros]: "comes_back (get_all_valset_confirms L G n)"
  unfolding get_all_valset_confirms_def by (intro back_intros)

lemma find_valset_step_back: "comes_back (find_valset_step L W G c b)"
  unfolding find_valset_step_def Let_def by (intro back_intros)

text \<open>A round goes on below the block it looked at, and what it leaves with is the last event of
  the range.\<close>

definition last_update_event :: "libs \<Rightarrow> web3 \<Rightarrow> eth_address \<Rightarrow> valset \<Rightarrow> bool" where
  "last_update_event L W c v \<longleftrightarrow>
     (\<exists>lo hi n logs ev. web3_check_for_events W lo (Some hi) [c] [VALSET_UPDATED_EVENT_SIG] n = Inr logs \<and>
        logs \<noteq> [] \<and> valset_updated_from_log L (last logs) = Ret (Inr ev) \<and> v = valset_of_event ev)"

lemma find_valset_step_yields:
  "yields (\<lambda>r. case r of Inl b' \<Rightarrow> 0 < b \<and> search_end (nm L) b = Ret b'
     | Inr res \<Rightarrow> \<forall>v. res = Inr v \<longrightarrow> last_update_event L W c v) (find_valset_step L W G c b)"
proof -
  have found: "last_update_event L W c (valset_of_event ev)"
    if "map_err from_web3_error (web3_check_for_events W e (Some b) [c] [VALSET_UPDATED_EVENT_SIG] n) = Inr logs"
      "rev logs = l # ls" "valset_updated_from_log L l = Ret (Inr ev)" for e n logs l ls ev
  proof -
    from that(2) have "logs \<noteq> []" "last logs = l" by (auto simp: rev_eq_Cons_iff)
    with that(1,3) show ?thesis unfolding last_update_event_def map_err_Ok_iff by blast
  qed
  have Ok: "yields (\<lambda>r. \<forall>v. r = Inr v \<longrightarrow> v = w) (try_io m (\<lambda>x. bind_io (k x) (\<lambda>_. return_io (Inr w))))"
    for m :: "'x gresult act" and k :: "'x \<Rightarrow> 'y act" and w :: valset
    by (rule yields_try_any) (simp, intro yields_bind_any yields_return, simp)
  show ?thesis
    unfolding find_valset_step_def Let_def ask_def
    by ((rule yields_if yields_return yields_panic yields_bind_lift yields_bind_query yields_case_sum
          yields_case_list yields_bind [OF Ok] | (simp; fail) | (use found in auto)[1])+)
qed

lemma find_valset_step_go:
  assumes "find_valset_step L W G c b s = Some (Ret (Inl b'), t)"
  shows "0 < b \<and> search_end (nm L) b = Ret b'"
  using find_valset_step_yields [of b L W c G] assms by (force simp: yields_def)


text \<open>What it finds is the last update event of a range of blocks the node was asked for.\<close>

lemma find_latest_valset_yields:
  "yields (\<lambda>r. \<forall>v. r = Inr v \<longrightarrow> last_update_event L W c v) (find_latest_valset L W G c)"
  unfolding find_latest_valset_def
proof (rule yields_try_any)
  show "yields (\<lambda>r. \<forall>v. r = Inr v \<longrightarrow> last_update_event L W c v) (loop_io (find_valset_step L W G c) b)" for b
    by (rule yields_loop [where I = "\<lambda>_. True"])
      (auto intro: yields_weaken [OF find_valset_step_yields] split: sum.splits)
qed simp

text \<open>The comparison with the set the Cosmos chain has for the same nonce.\<close>

lemma valset_member_order_equiv:
  assumes "clarity_order C"
  shows "compare (valset_member_order C) x y = Equiv \<longleftrightarrow> x = y"
proof -
  have "option_cmp (address_cmp C) a b = Equiv \<longleftrightarrow> a = b" for a b
    using assms by (cases a; cases b) (auto simp: clarity_order_def)
  then show ?thesis
    by (auto simp: valset_member_order.rep_eq member_order.cmp_equiv_iff intro: valset_member.equality)
qed

lemma sort_eq_iff_mset:
  assumes "\<And>x y. compare c x y = Equiv \<longleftrightarrow> x = y"
  shows "Sorting_Algorithms.sort c xs = Sorting_Algorithms.sort c ys \<longleftrightarrow> mset xs = mset ys"
proof
  assume eq: "mset xs = mset ys"
  have seg: "filter (\<lambda>x. compare c y x = Equiv) zs = replicate (count (mset zs) y) y" for y zs
    by (induction zs) (auto simp: assms)
  have "Sorting_Algorithms.sort c xs = Sorting_Algorithms.sort c ys"
    by (rule sort_eqI) (simp_all add: eq seg)
  then show "Sorting_Algorithms.sort c xs = Sorting_Algorithms.sort c ys" .
qed (metis mset_sort)

text \<open>Two different sets with the same nonce are reported as a disagreement of the sorting
  exactly when they have the same members with the same powers.\<close>

lemma check_if_valsets_differ_cases:
  assumes "clarity_order C" "cv \<noteq> ev" "vs_nonce cv = vs_nonce ev"
  shows "check_if_valsets_differ C (Some cv) ev =
    Ret (if mset (vs_members cv) = mset (vs_members ev) then SortingDisagreement else ValsetsDiffer)"
  using assms sort_eq_iff_mset [OF valset_member_order_equiv [OF assms(1)]]
  by (simp add: check_if_valsets_differ_def Let_def)


section \<open>The newest validator set that can be submitted\<close>

text \<open>A validator set the contract would take from the current one.\<close>

definition submittable_valset :: "clarity \<Rightarrow> valset \<Rightarrow> string \<Rightarrow> valset \<Rightarrow> valset_confirm_response list \<Rightarrow> bool" where
  "submittable_valset C current gid v confirms \<longleftrightarrow>
     (\<exists>gs. order_sigs C valset_confirm current (encode_valset_confirm_hashed C gid v) confirms = Ret (Inr gs)) \<and>
     list_all (\<lambda>confirm. vcr_nonce confirm = vs_nonce v) confirms"

text \<open>The local variables go down by one nonce, and a result is submittable and not above where the
  search began.\<close>

definition valid_result :: "clarity \<Rightarrow> valset \<Rightarrow> string \<Rightarrow> u64 \<Rightarrow> valset option \<times> valset_confirm_response list option \<times> gravity_error option \<Rightarrow> bool" where
  "valid_result C current gid n res \<longleftrightarrow>
     (case res of
        (Some v, Some confirms, _) \<Rightarrow> submittable_valset C current gid v confirms \<and> 0 < vs_nonce v \<and> vs_nonce v \<le> n
      | (None, None, _) \<Rightarrow> True
      | _ \<Rightarrow> False)"

lemma find_valid_step_yields:
  "yields (\<lambda>r. case r of Inl (n', _) \<Rightarrow> 0 < fst st \<and> n' = fst st - 1
     | Inr res \<Rightarrow> valid_result (cl L) current gid (fst st) res) (find_valid_step L G current gid st)"
proof -
  have ok: "valid_result (cl L) current gid n (Some v, Some confirms, e)"
    if "vs_nonce v = n" "0 < n" "\<not> list_ex (\<lambda>confirm. n \<noteq> vcr_nonce confirm) confirms"
      "order_sigs (cl L) valset_confirm current (encode_valset_confirm_hashed (cl L) gid v) confirms = Ret (Inr gs)"
    for n v confirms gs e
    using that by (auto simp: valid_result_def submittable_valset_def list_all_iff list_ex_iff)
  show ?thesis
    unfolding find_valid_step_def
    by ((rule yields_rules | (simp add: valid_result_def; fail) | (use ok in force)[1])+)
qed

lemma find_valid_step_back: "comes_back (find_valid_step L G current gid st)"
  unfolding find_valid_step_def by (intro back_intros)

lemma u64_pred: "0 < n \<Longrightarrow> unat (n - 1 :: u64) = unat n - 1 \<and> 0 < unat n"
  by (metis One_nat_def unat_1 unat_gt_0 unat_minus_one word_neq_0_conv)

lemma find_latest_valid_valset_back: "comes_back (find_latest_valid_valset L G n current gid)"
  unfolding find_latest_valid_valset_def
proof (rule back_loop [where I = "\<lambda>_. True" and \<mu> = "\<lambda>st. unat (fst st)"])
  show "True \<and> unat (fst st') < unat (fst st)"
    if "find_valid_step L G current gid st s = Some (Ret (Inl st'), t)" for st s st' t
    using find_valid_step_yields [of st L current gid G] that u64_pred [of "fst st"]
    by (cases st') (force simp: yields_def)
qed (simp_all add: find_valid_step_back)

text \<open>What the search for a validator set to submit finds has confirmations for its nonce that
  \<open>order_sigs\<close> accepts against the current set, and a nonce not above where the search began.\<close>

lemma find_latest_valid_valset_yields:
  "yields (valid_result (cl L) current gid n) (find_latest_valid_valset L G n current gid)"
  unfolding find_latest_valid_valset_def
proof (rule yields_loop [where I = "\<lambda>st. fst st \<le> n"])
  show "yields (\<lambda>r. case r of Inl st' \<Rightarrow> fst st' \<le> n | Inr res \<Rightarrow> valid_result (cl L) current gid n res)
      (find_valid_step L G current gid st)" if le: "fst st \<le> n" for st
  proof (rule yields_weaken [OF find_valid_step_yields], goal_cases)
    case (1 r)
    have "fst st - 1 \<le> n" if "0 < fst st"
      using that le u64_pred [of "fst st"] by (simp add: word_le_nat_alt)
    with 1 le show ?case
      by (auto simp: valid_result_def split: sum.splits option.splits prod.splits)
  qed
qed simp

text \<open>A node whose answers do not change while the search runs.\<close>

definition steady :: "grpc \<Rightarrow> bool" where
  "steady G \<longleftrightarrow> (\<forall>n t. valset_request G n t = valset_request G n 0) \<and>
     (\<forall>n t. valset_confirms_by_nonce G n t = valset_confirms_by_nonce G n 0)"

definition accepts_nonce :: "libs \<Rightarrow> grpc \<Rightarrow> valset \<Rightarrow> string \<Rightarrow> u64 \<Rightarrow> bool" where
  "accepts_nonce L G current gid n \<longleftrightarrow>
     (\<exists>p v ms confirms gs. valset_request G n 0 = Inr (Some p) \<and> valset_from_proto L p = Ret v \<and>
        valset_confirms_by_nonce G n 0 = Inr ms \<and>
        map_sum_list (valset_confirm_response_try_from L) ms = Inr confirms \<and>
        order_sigs (cl L) valset_confirm current (encode_valset_confirm_hashed (cl L) gid v) confirms = Ret (Inr gs))"

lemma find_valid_step_stops:
  assumes "steady G" "accepts_nonce L G current gid n" "0 < n"
  shows "find_valid_step L G current gid (n, e) s \<noteq> Some (Ret (Inl st'), t)"
proof -
  from assms(2) obtain p v ms confirms gs where
    p: "valset_request G n 0 = Inr (Some p)" "valset_from_proto L p = Ret v"
    and ms: "valset_confirms_by_nonce G n 0 = Inr ms" "map_sum_list (valset_confirm_response_try_from L) ms = Inr confirms"
    and gs: "order_sigs (cl L) valset_confirm current (encode_valset_confirm_hashed (cl L) gid v) confirms = Ret (Inr gs)"
    unfolding accepts_nonce_def by blast
  from assms(1) p ms have ans: "valset_request G n t = Inr (Some p)" "valset_confirms_by_nonce G n t = Inr ms" for t
    unfolding steady_def by metis+
  have 1: "get_valset L G n s = Some (Ret x, s') \<Longrightarrow> x = Inr (Some v)" for s x s'
    by (simp add: get_valset_def ask_def try_io_Some_iff query_io_def lift_io_def return_io_def ans p split: if_splits)
  have 2: "get_all_valset_confirms L G k s = Some (Ret x, s') \<Longrightarrow> n = k \<Longrightarrow> x = Inr confirms" for k s x s'
    using ans(2) by (auto simp: get_all_valset_confirms_def ask_def try_io_Some_iff query_io_def return_io_def lift_io_def ms split: if_splits)
  from assms(3) show ?thesis
    by (auto simp: find_valid_step_def bind_io_Some_iff gs return_io_def panic_io_def dest!: 1 2 split: if_splits)
qed

lemma find_valid_step_result:
  "yields (\<lambda>r. \<forall>res. r = Inr res \<longrightarrow> (\<exists>v cs. res = (Some v, Some cs, snd st) \<and> vs_nonce v = fst st) \<or>
     res = (None, None, snd st) \<and> fst st = 0) (find_valid_step L G current gid st)"
  unfolding find_valid_step_def
  by ((rule yields_rules | (simp add: word_neq_0_conv [symmetric]; fail) | (auto)[1])+)

text \<open>C23: with a node whose answers do not change meanwhile, no newer nonce could have been
  submitted.\<close>

theorem find_latest_valid_valset_newest:
  assumes st: "steady G" and run: "find_latest_valid_valset L G n current gid s = Some (Ret (v, confirms, e), t)"
    and m: "m \<le> n" "case v of Some v \<Rightarrow> vs_nonce v < m | None \<Rightarrow> 0 < m"
  shows "\<not> accepts_nonce L G current gid m"
proof -
  let ?acc = "accepts_nonce L G current gid"
  let ?I = "\<lambda>st (s :: effect io_state). \<forall>m. fst st < m \<longrightarrow> m \<le> n \<longrightarrow> \<not> ?acc m"
  let ?Q = "\<lambda>r (s :: effect io_state). \<forall>v confirms e. r = Ret (v, confirms, e) \<longrightarrow>
    (\<forall>m. m \<le> n \<longrightarrow> (case v of Some v \<Rightarrow> vs_nonce v < m | None \<Rightarrow> 0 < m) \<longrightarrow> \<not> ?acc m)"
  have "?Q (Ret (v, confirms, e)) t"
  proof (rule loop_io_induct [where I = ?I and Q = ?Q])
    show "loop_io (find_valid_step L G current gid) (n, None) s = Some (Ret (v, confirms, e), t)"
      using run by (simp add: find_latest_valid_valset_def)
    show "?I (n, None) s" by auto
    show "?I st' s'" if I: "?I st s" and go: "find_valid_step L G current gid st s = Some (Ret (Inl st'), s')" for st s st' s'
    proof (intro allI impI)
      fix m
      assume m: "fst st' < m" "m \<le> n"
      from find_valid_step_yields [of st L current gid G] go have pos: "0 < fst st" and st': "fst st' = fst st - 1"
        by (cases st', force simp: yields_def)+
      from find_valid_step_stops [OF st _ pos] go have "\<not> ?acc (fst st)" by (metis prod.collapse)
      moreover from m(1) st' pos u64_pred [OF pos] have "fst st \<le> m" by (simp add: word_le_nat_alt word_less_nat_alt)
      ultimately show "\<not> ?acc m" using I m(2) by (metis order_le_less)
    qed
    show "?Q (Ret res) s'" if I: "?I st s" and "find_valid_step L G current gid st s = Some (Ret (Inr res), s')" for st s res s'
    proof -
      from find_valid_step_result [of st L G current gid] that(2)
      have "(\<exists>v cs. res = (Some v, Some cs, snd st) \<and> vs_nonce v = fst st) \<or> res = (None, None, snd st) \<and> fst st = 0"
        unfolding yields_def by blast
      with I show ?thesis by auto
    qed
  qed simp
  with m show ?thesis by blast
qed

section \<open>The batches that can be submitted\<close>

definition submittable_tx_batch :: "clarity \<Rightarrow> valset \<Rightarrow> string \<Rightarrow> submittable_batch \<Rightarrow> bool" where
  "submittable_tx_batch C current gid b \<longleftrightarrow>
     (\<exists>h gs. encode_tx_batch_confirm_hashed C gid (sb_batch b) = Ret h \<and>
        order_sigs C batch_confirm current h (sb_sigs b) = Ret (Inr gs))"

text \<open>Every list is filed under the token of its batches, no token twice, and every batch in it can
  be submitted.\<close>

definition wf_possible :: "clarity \<Rightarrow> valset \<Rightarrow> string \<Rightarrow> possible_batches \<Rightarrow> bool" where
  "wf_possible C current gid m \<longleftrightarrow> distinct (map fst m) \<and>
     (\<forall>(token, bs) \<in> set m. \<forall>b \<in> set bs. batch_token_contract (sb_batch b) = token \<and> submittable_tx_batch C current gid b)"

lemma fst_push_batch: "set (map fst (push_batch token b m)) = insert token (set (map fst m))"
  by (induction token b m rule: push_batch.induct) auto

lemma push_batch_wf:
  "wf_possible C current gid m \<Longrightarrow> submittable_tx_batch C current gid b \<Longrightarrow>
     wf_possible C current gid (push_batch (batch_token_contract (sb_batch b)) b m)"
proof (induction m)
  case (Cons x m)
  obtain token' bs where x: "x = (token', bs)" by (cases x)
  let ?token = "batch_token_contract (sb_batch b)"
  from Cons.prems(1) have wf: "wf_possible C current gid m" "token' \<notin> set (map fst m)"
    "\<forall>b \<in> set bs. batch_token_contract (sb_batch b) = token' \<and> submittable_tx_batch C current gid b"
    by (auto simp: wf_possible_def x)
  show ?case
  proof (cases "?token = token'")
    case True
    with wf Cons.prems(2) show ?thesis by (auto simp: wf_possible_def x)
  next
    case False
    with Cons.IH [OF wf(1) Cons.prems(2)] wf(2,3) fst_push_batch [of ?token b m] show ?thesis
      by (auto simp: wf_possible_def x)
  qed
qed (simp add: wf_possible_def)

lemma collect_batch_yields:
  assumes "wf_possible (cl L) current gid m"
  shows "yields (wf_possible (cl L) current gid) (collect_batch L G current gid batch m)"
proof -
  have push: "wf_possible (cl L) current gid (push_batch (batch_token_contract batch) \<lparr>sb_batch = batch, sb_sigs = sigs\<rparr> m)"
    if "encode_tx_batch_confirm_hashed (cl L) gid batch = Ret h"
      "order_sigs (cl L) batch_confirm current h sigs = Ret res" "is_ok res" for h sigs res
    using push_batch_wf [OF assms, of "\<lparr>sb_batch = batch, sb_sigs = sigs\<rparr>"] that
    by (auto simp: submittable_tx_batch_def is_ok_iff)
  show ?thesis unfolding collect_batch_def
    by ((rule yields_rules | (simp add: assms; fail) | (use push in force)[1])+)
qed

text \<open>The batches collected for submission are filed under their own token, no token appears
  twice, and the confirmations of each batch are accepted against the current set.\<close>

lemma get_batches_and_signatures_yields:
  "yields (wf_possible (cl L) current gid) (get_batches_and_signatures L G current gid)"
proof -
  have nil: "wf_possible (cl L) current gid []" by (simp add: wf_possible_def)
  have rev: "wf_possible (cl L) current gid (map (\<lambda>(token, value). (token, rev value)) m)"
    if "wf_possible (cl L) current gid m" for m
    using that by (fastforce simp: wf_possible_def comp_def case_prod_unfold)
  have "yields (wf_possible (cl L) current gid) (fold_io (collect_batch L G current gid) bs [])" for bs
    by (rule yields_fold) (auto intro: nil collect_batch_yields)
  then have collect: "yields (wf_possible (cl L) current gid) (bind_io (fold_io (collect_batch L G current gid) bs [])
      (\<lambda>possible. return_io (map (\<lambda>(token, value). (token, rev value)) possible)))" for bs
    by (rule yields_bind) (intro yields_return rev)
  show ?thesis unfolding get_batches_and_signatures_def
    by (rule yields_bind_any, rule yields_case_sum, rule yields_return, rule nil, rule collect)
qed


section \<open>What the relayer sends\<close>

text \<open>A transaction of the relayer: one of the three contract calls, with a payload whose signatures
  \<open>order_sigs\<close> accepted against the validator set given.\<close>

definition relays :: "libs \<Rightarrow> valset \<Rightarrow> string \<Rightarrow> eth_address \<Rightarrow> eth_private_key \<Rightarrow> effect \<Rightarrow> bool" where
  "relays L current gid c sk e \<longleftrightarrow>
     (\<exists>new confirms. vs_nonce current < vs_nonce new \<and>
        submits L (encode_valset_update_payload (cl L) new current confirms gid) c sk [gas_price_multiplier] e) \<or>
     (\<exists>batch confirms.
        submits L (encode_batch_payload (cl L) current batch confirms gid) c sk [gas_price_multiplier] e) \<or>
     (\<exists>call confirms. submits L (encode_logic_call_payload (cl L) current call confirms gid) c sk [] e)"

lemma emits_send_valset: "emits (relays L current gid c sk) (send_eth_valset_update L W new current confirms tm c gid sk)"
  by (rule emits_weaken [OF emits_upto_emits [OF send_eth_valset_update_submits]]) (auto simp: relays_def)

lemma emits_send_batch: "emits (relays L current gid c sk) (send_eth_transaction_batch L W current batch confirms tm c gid sk)"
  by (rule emits_weaken [OF emits_upto_emits [OF send_eth_transaction_batch_submits]]) (auto simp: relays_def)

lemma emits_send_call: "emits (relays L current gid c sk) (send_eth_logic_call L W current call confirms tm c gid sk)"
  by (rule emits_weaken [OF emits_upto_emits [OF send_eth_logic_call_submits]]) (auto simp: relays_def)

lemma emits_should_relay [emits_intros]:
  "emits P (should_relay_valset L W v sk cost)" "emits P (should_relay_batch W b n a)"
  "emits P (estimate_valset_cost L W new old vc c gid sk)" "emits P (estimate_tx_batch_cost L W v b bc c gid sk)"
  "emits P (estimate_logic_call_cost L W v call lc c gid sk)"
  "emits P (valset_cost_error L W sk gid c v vc w)"
  unfolding should_relay_valset_def should_relay_batch_def estimate_valset_cost_def estimate_tx_batch_cost_def
    estimate_logic_call_cost_def valset_cost_error_def Let_def
  by (intro emits_intros)+

lemma emits_weigh_rewards [emits_intros]: "emits P (weigh_rewards L W a cost rewards tot)"
  by (induction rewards arbitrary: tot) (auto intro!: emits_intros)

lemma emits_should_relay_call [emits_intros]: "emits P (should_relay_logic_call L W a call cost)"
  unfolding should_relay_logic_call_def by (intro emits_intros)

lemma emits_find_valset [emits_intros]:
  "emits P (find_latest_valset L W G c)" "emits P (find_latest_valid_valset L G n v gid)"
  unfolding find_latest_valset_def find_latest_valid_valset_def find_valset_step_def find_valid_step_def Let_def
  by (intro emits_intros)+

lemma emits_collect [emits_intros]:
  "emits P (get_batches_and_signatures L G v gid)" "emits P (collect_call L G v gid call found)"
  unfolding get_batches_and_signatures_def collect_batch_def collect_call_def by (intro emits_intros)+

lemma emits_relay_valsets: "emits (relays L current gid c sk) (relay_valsets L W G current sk c gid tm cfg)"
  unfolding relay_valsets_def relay_valid_valset_def by (intro emits_intros emits_send_valset)

text \<open>A batch goes out only if it has not timed out at the block height seen and its nonce is above
  the one in the contract.\<close>

lemma submit_batch_emits:
  "emits_upto 1 (\<lambda>e. height \<le> unat (batch_timeout (sb_batch b)) \<and> latest < batch_nonce (sb_batch b) \<and>
       submits L (encode_batch_payload (cl L) current (sb_batch b) (sb_sigs b) gid) c sk [gas_price_multiplier] e)
     (submit_batch L W current sk c gid tm cfg height latest b)"
proof (cases "height \<le> unat (batch_timeout (sb_batch b)) \<and> latest < batch_nonce (sb_batch b)")
  case True
  then have P: "(\<lambda>e. height \<le> unat (batch_timeout (sb_batch b)) \<and> latest < batch_nonce (sb_batch b) \<and> Q e) = Q" for Q
    by simp
  have case_sum: "(\<And>e. emits_upto n R (f e)) \<Longrightarrow> (\<And>x. emits_upto n R (g x)) \<Longrightarrow>
      emits_upto n R (case r of Inl e \<Rightarrow> f e | Inr x \<Rightarrow> g x)" for n R f g r
    by (cases r) auto
  show ?thesis
    unfolding P submit_batch_def Let_def using True
    by (simp only: not_le [symmetric] not_True_eq_False simp_thms if_True if_False)
      (intro upto_bind_silent case_sum upto_if upto_bind_last send_eth_transaction_batch_submits upto_silent emits_intros)
next
  case False
  then show ?thesis unfolding submit_batch_def Let_def by (auto intro: upto_silent emits_return)
qed

lemma emits_submit_batch: "emits (relays L current gid c sk) (submit_batch L W current sk c gid tm cfg h n b)"
  by (rule emits_weaken [OF emits_upto_emits [OF submit_batch_emits]]) (auto simp: relays_def)

lemma emits_relay_batches: "emits (relays L current gid c sk) (relay_batches L W G current sk c gid tm cfg)"
  unfolding relay_batches_def submit_batches_def submit_token_batches_def by (intro emits_intros emits_submit_batch)

lemma emits_relay_logic_calls: "emits (relays L current gid c sk) (relay_logic_calls L W G current sk c gid tm cfg)"
  unfolding relay_logic_calls_def Let_def by (intro emits_intros emits_send_call)

text \<open>One round of the loop: every transaction is backed by accepted signatures of the members of a
  validator set that the contract announced.\<close>

lemma relayer_iteration_emits:
  "emits (\<lambda>e. \<exists>current. last_update_event L W c current \<and> relays L current gid c sk e)
     (relayer_iteration L W G sk c gid cfg)"
  unfolding relayer_iteration_def
proof (rule emits_bind_yields [OF _ find_latest_valset_yields])
  show "emits P (find_latest_valset L W G c)" for P by (intro emits_intros)
  fix r
  assume r: "\<forall>v. r = Inr v \<longrightarrow> last_update_event L W c v"
  show "emits (\<lambda>e. \<exists>current. last_update_event L W c current \<and> relays L current gid c sk e)
    (case r of Inl _ \<Rightarrow> return_io (Inr ()) | Inr current \<Rightarrow>
      bind_io (relay_valsets L W G current sk c gid LOOP_SPEED cfg) (\<lambda>_.
      bind_io (relay_batches L W G current sk c gid LOOP_SPEED cfg) (\<lambda>_.
      bind_io (relay_logic_calls L W G current sk c gid LOOP_SPEED cfg) (\<lambda>_. return_io (Inr ())))))"
  proof (cases r)
    case (Inr current)
    with r have ok: "last_update_event L W c current" by simp
    have "emits (relays L current gid c sk)
      (bind_io (relay_valsets L W G current sk c gid LOOP_SPEED cfg) (\<lambda>_.
       bind_io (relay_batches L W G current sk c gid LOOP_SPEED cfg) (\<lambda>_.
       bind_io (relay_logic_calls L W G current sk c gid LOOP_SPEED cfg) (\<lambda>_. return_io (Inr ())))))"
      by (intro emits_bind emits_return emits_relay_valsets emits_relay_batches emits_relay_logic_calls)
    then show ?thesis unfolding Inr sum.case by (rule emits_weaken) (use ok in blast)
  qed (simp add: emits_return)
qed

text \<open>The loop itself only ends with an error before the first round, or by a panic.\<close>

lemma relayer_iteration_Ok: "yields (\<lambda>r. r = Inr ()) (relayer_iteration L W G sk c gid cfg)"
  unfolding relayer_iteration_def by ((rule yields_rules | (simp; fail))+)

lemma relayer_main_loop_yields:
  "yields (\<lambda>r. \<exists>e. r = Inl e) (relayer_main_loop L W G T sk c cfg wait)"
proof -
  let ?body = "\<lambda>gid. bind_io (relayer_iteration L W G sk c gid cfg) (\<lambda>async_result.
      case async_result of Inl e \<Rightarrow> return_io (Inr (Inl e)) | Inr _ \<Rightarrow> return_io (Inl ()))"
  have never: "?body gid s \<noteq> Some (Ret (Inr x), t)" for gid s t and x :: "unit gresult"
  proof -
    have "yields (\<lambda>r. r = Inl ()) (?body gid)"
      by (rule yields_bind [OF relayer_iteration_Ok]) (simp add: yields_return)
    then show ?thesis by (auto simp: yields_def)
  qed
  have "loop_io (\<lambda>_ :: unit. ?body gid) () s \<noteq> Some (Ret x, t)" for gid s t and x :: "unit gresult"
    by (rule loop_io_forever) (rule never)
  then have loop: "yields (\<lambda>r. \<exists>e. r = Inl e) (loop_io (\<lambda>_ :: unit. ?body gid) () :: unit gresult act)" for gid
    by (simp add: yields_def)
  show ?thesis unfolding relayer_main_loop_def
    by (rule yields_bind_any, rule yields_case_sum, rule yields_return, blast, rule loop)
qed

text \<open>The validator set the relayer takes for the one in the contract is the last update event
  of a range of blocks the node was asked for.\<close>

lemma find_latest_valset_found:
  "yields (\<lambda>r. case r of Inr v \<Rightarrow> last_update_event L W c v | Inl e \<Rightarrow> True) (find_latest_valset L W G c)"
  by (rule yields_weaken [OF find_latest_valset_yields]) (simp split: sum.splits)


text \<open>Over all its rounds the relayer sends nothing but the three contract calls, each with a
  payload whose signatures were accepted against a validator set that the contract announced.\<close>

lemma relayer_main_loop_emits:
  "emits (\<lambda>e. \<exists>current gid. last_update_event L W c current \<and> relays L current gid c sk e)
     (relayer_main_loop L W G T sk c cfg wait)"
proof -
  have "emits (\<lambda>e. \<exists>current gid. last_update_event L W c current \<and> relays L current gid c sk e)
      (relayer_iteration L W G sk c gid cfg)" for gid
    by (rule emits_weaken [OF relayer_iteration_emits]) blast
  then show ?thesis unfolding relayer_main_loop_def by (intro emits_intros)
qed

end
