(* ===== verification/Orchestrator.thy ===== *)
theory Orchestrator
  imports Relayer
begin

text \<open>
  The crate \<open>orchestrator\<close>: the oracle that carries Ethereum events to Cosmos
  (\<open>ethereum_event_watcher.rs\<close>), the search for the block where it left off
  (\<open>oracle_resync.rs\<close>), and the loops of the oracle and of the signer (\<open>main_loop.rs\<close>).
\<close>

section \<open>The event watcher\<close>

definition block_delay :: "u64 \<Rightarrow> uint256" where
  "block_delay version =
     (if version \<in> {1, 3, 6, 7} then 6
      else if version \<in> {2018, 15, 31337} then 0
      else if version \<in> {4, 5} then 10
      else 6)"

definition get_block_delay :: "web3 \<Rightarrow> uint256 act" where
  "get_block_delay W =
     bind_io (get_net_version_with_retry W) (\<lambda>net_version. return_io (block_delay net_version))"

text \<open>The logs of one event in a range of blocks.\<close>

definition logs_of :: "web3 \<Rightarrow> eth_address \<Rightarrow> uint256 \<Rightarrow> uint256 \<Rightarrow> string \<Rightarrow> (web3_error + log list) act" where
  "logs_of W gravity_contract_address lo hi event_sig =
     query_io (web3_check_for_events W lo (Some hi) [gravity_contract_address] [event_sig])"

text \<open>The part after the logs have arrived: parse, drop what was claimed before, claim the rest, and
  see whether the claims took effect.\<close>

definition claim_events :: "libs \<Rightarrow> contact \<Rightarrow> grpc \<Rightarrow> cosmos_private_key \<Rightarrow> cosmos_address \<Rightarrow> coin \<Rightarrow> uint256 \<Rightarrow>
    log list \<Rightarrow> log list \<Rightarrow> log list \<Rightarrow> log list \<Rightarrow> log list \<Rightarrow> uint256 gresult act" where
  "claim_events L K G our_private_key our_address fee latest_block valset_logs batch_logs deposit_logs deploy_logs call_logs =
     try_io (lift_io (valset_updated_from_logs L valset_logs)) (\<lambda>valsets.
     try_io (lift_io (transaction_batch_executed_from_logs L batch_logs)) (\<lambda>withdraws.
     try_io (lift_io (send_to_cosmos_from_logs L deposit_logs)) (\<lambda>deposits.
     try_io (lift_io (erc20_deployed_from_logs L deploy_logs)) (\<lambda>erc20_deploys.
     try_io (lift_io (logic_call_executed_from_logs call_logs)) (\<lambda>logic_calls.
     try_io (get_last_event_nonce_for_validator L G our_address (get_prefix K)) (\<lambda>last_event_nonce.
     let valsets = valset_updated_filter_by_event_nonce last_event_nonce valsets;
         deposits = send_to_cosmos_filter_by_event_nonce last_event_nonce deposits;
         withdraws = transaction_batch_executed_filter_by_event_nonce last_event_nonce withdraws;
         erc20_deploys = erc20_deployed_filter_by_event_nonce last_event_nonce erc20_deploys;
         logic_calls = logic_call_executed_filter_by_event_nonce last_event_nonce logic_calls in
     bind_io (lift_io (case deposits of
         [] \<Rightarrow> Ret ()
       | d # _ \<Rightarrow> bind_out (bech32_of L (sc_destination d) (get_prefix K)) (\<lambda>_. Ret ()))) (\<lambda>_.
     if deposits \<noteq> [] \<or> withdraws \<noteq> [] \<or> erc20_deploys \<noteq> [] \<or> logic_calls \<noteq> [] \<or> valsets \<noteq> [] then
       try_io (convert_io from_cosmos_grpc_error
           (send_ethereum_claims L K our_private_key deposits withdraws erc20_deploys logic_calls valsets fee)) (\<lambda>res.
       try_io (get_last_event_nonce_for_validator L G our_address (get_prefix K)) (\<lambda>new_event_nonce.
       if new_event_nonce = last_event_nonce then
         return_io (Inl (ValidationError ''Claims did not process, trying again in a moment''))
       else return_io (Inr latest_block)))
     else return_io (Inr latest_block))))))))"

definition check_for_events :: "libs \<Rightarrow> web3 \<Rightarrow> contact \<Rightarrow> grpc \<Rightarrow> eth_address \<Rightarrow> cosmos_private_key \<Rightarrow> coin \<Rightarrow> uint256 \<Rightarrow> uint256 gresult act" where
  "check_for_events L W K G gravity_contract_address our_private_key fee starting_block =
     bind_io (lift_io (our_cosmos_address L K our_private_key)) (\<lambda>our_address.
     bind_io (get_block_number_with_retry W) (\<lambda>latest_block.
     bind_io (get_block_delay W) (\<lambda>delay.
     bind_io (lift_io (u256_sub (nm L) latest_block delay)) (\<lambda>latest_block.
     bind_io (logs_of W gravity_contract_address starting_block latest_block SENT_TO_COSMOS_EVENT_SIG) (\<lambda>deposits.
     bind_io (logs_of W gravity_contract_address starting_block latest_block TRANSACTION_BATCH_EXECUTED_EVENT_SIG) (\<lambda>batches.
     bind_io (logs_of W gravity_contract_address starting_block latest_block VALSET_UPDATED_EVENT_SIG) (\<lambda>valsets.
     bind_io (logs_of W gravity_contract_address starting_block latest_block ERC20_DEPLOYED_EVENT_SIG) (\<lambda>erc20_deployed.
     bind_io (logs_of W gravity_contract_address starting_block latest_block LOGIC_CALL_EVENT_SIG) (\<lambda>logic_call_executed.
     case (valsets, batches, deposits, erc20_deployed, logic_call_executed) of
       (Inr valsets, Inr batches, Inr deposits, Inr deploys, Inr logic_calls) \<Rightarrow>
         claim_events L K G our_private_key our_address fee latest_block valsets batches deposits deploys logic_calls
     | _ \<Rightarrow> return_io (Inl (RpcError (RpcWeb3 (BadResponse ''Failed to get logs!'')))))))))))))"


section \<open>Resynchronisation\<close>

text \<open>The loops over the logs of one event: the block of the first event with the nonce looked
  for.\<close>

fun scan_events :: "(log \<Rightarrow> 'ev gresult outcome) \<Rightarrow> ('ev \<Rightarrow> u64) \<Rightarrow> uint256 \<Rightarrow> log list \<Rightarrow> uint256 option outcome" where
  "scan_events from_log event_nonce last_event_nonce [] = Ret None"
| "scan_events from_log event_nonce last_event_nonce (event # events) =
     bind_out (from_log event) (\<lambda>r.
     case r of
       Inr ev \<Rightarrow>
         if unat (event_nonce ev) = last_event_nonce \<and> block_number event \<noteq> None then Ret (block_number event)
         else scan_events from_log event_nonce last_event_nonce events
     | Inl _ \<Rightarrow> scan_events from_log event_nonce last_event_nonce events)"

fun scan_valset_events :: "libs \<Rightarrow> uint256 \<Rightarrow> log list \<Rightarrow> uint256 option outcome" where
  "scan_valset_events L last_event_nonce [] = Ret None"
| "scan_valset_events L last_event_nonce (event # events) =
     bind_out (valset_updated_from_log L event) (\<lambda>r.
     case r of
       Inr valset \<Rightarrow>
         let bootstrapping = (vu_valset_nonce valset = 0 \<and> last_event_nonce = 1);
             common_case = (unat (vu_event_nonce valset) = last_event_nonce \<and> block_number event \<noteq> None) in
         if common_case \<or> bootstrapping then bind_out (unwrap_opt (block_number event)) (\<lambda>b. Ret (Some b))
         else if vu_valset_nonce valset = 0 \<and> last_event_nonce > 1 then
           Panic ''Could not find the last event relayed, no event matching that could be found!''
         else scan_valset_events L last_event_nonce events
     | Inl _ \<Rightarrow> scan_valset_events L last_event_nonce events)"

text \<open>The five scans of one round, each of which may return from the function.\<close>

definition scan_round :: "libs \<Rightarrow> uint256 \<Rightarrow> log list \<Rightarrow> log list \<Rightarrow> log list \<Rightarrow> log list \<Rightarrow> log list \<Rightarrow> uint256 option outcome" where
  "scan_round L last_event_nonce batch_events send_to_cosmos_events erc20_deployed_events logic_call_executed_events valset_events =
     bind_out (scan_events (transaction_batch_executed_from_log L) be_event_nonce last_event_nonce batch_events) (\<lambda>r.
     case r of Some b \<Rightarrow> Ret (Some b) | None \<Rightarrow>
     bind_out (scan_events (send_to_cosmos_from_log L) sc_event_nonce last_event_nonce send_to_cosmos_events) (\<lambda>r.
     case r of Some b \<Rightarrow> Ret (Some b) | None \<Rightarrow>
     bind_out (scan_events (erc20_deployed_from_log L) ed_event_nonce last_event_nonce erc20_deployed_events) (\<lambda>r.
     case r of Some b \<Rightarrow> Ret (Some b) | None \<Rightarrow>
     bind_out (scan_events logic_call_executed_from_log le_event_nonce last_event_nonce logic_call_executed_events) (\<lambda>r.
     case r of Some b \<Rightarrow> Ret (Some b) | None \<Rightarrow>
     scan_valset_events L last_event_nonce (rev valset_events)))))"

definition last_checked_step :: "libs \<Rightarrow> web3 \<Rightarrow> eth_address \<Rightarrow> uint256 \<Rightarrow> uint256 \<Rightarrow> (uint256 + uint256) act" where
  "last_checked_step L W gravity_contract_address last_event_nonce current_block =
     (if current_block > 0 then
        bind_io (lift_io (search_end (nm L) current_block)) (\<lambda>end_search.
        bind_io (logs_of W gravity_contract_address end_search current_block TRANSACTION_BATCH_EXECUTED_EVENT_SIG) (\<lambda>batch_events.
        bind_io (logs_of W gravity_contract_address end_search current_block SENT_TO_COSMOS_EVENT_SIG) (\<lambda>send_to_cosmos_events.
        bind_io (logs_of W gravity_contract_address end_search current_block ERC20_DEPLOYED_EVENT_SIG) (\<lambda>erc20_deployed_events.
        bind_io (logs_of W gravity_contract_address end_search current_block LOGIC_CALL_EVENT_SIG) (\<lambda>logic_call_executed_events.
        bind_io (logs_of W gravity_contract_address end_search current_block VALSET_UPDATED_EVENT_SIG) (\<lambda>valset_events.
        case (batch_events, send_to_cosmos_events, erc20_deployed_events, logic_call_executed_events, valset_events) of
          (Inr batch_events, Inr send_to_cosmos_events, Inr erc20_deployed_events, Inr logic_call_executed_events, Inr valset_events) \<Rightarrow>
            bind_io (lift_io (scan_round L last_event_nonce batch_events send_to_cosmos_events erc20_deployed_events
                logic_call_executed_events valset_events)) (\<lambda>found.
            case found of
              Some b \<Rightarrow> return_io (Inr b)
            | None \<Rightarrow> return_io (Inl end_search))
        | _ \<Rightarrow> return_io (Inl current_block)))))))
      else panic_io ''You have reached the end of block history without finding the Gravity contract deploy event!'')"

definition get_last_checked_block :: "libs \<Rightarrow> web3 \<Rightarrow> grpc \<Rightarrow> cosmos_address \<Rightarrow> string \<Rightarrow> eth_address \<Rightarrow> uint256 act" where
  "get_last_checked_block L W G our_address prefix gravity_contract_address =
     bind_io (get_block_number_with_retry W) (\<lambda>latest_block.
     bind_io (get_last_event_nonce_with_retry L G our_address prefix) (\<lambda>n.
     let last_event_nonce = (if unat n = 0 then 1 else unat n) in
     loop_io (last_checked_step L W gravity_contract_address last_event_nonce) latest_block))"


section \<open>The loops\<close>

definition ETH_SIGNER_LOOP_SPEED :: duration where
  "ETH_SIGNER_LOOP_SPEED = 11"

definition ETH_ORACLE_LOOP_SPEED :: duration where
  "ETH_ORACLE_LOOP_SPEED = 13"

text \<open>Both loops work only when both nodes answer and the Cosmos chain is moving.\<close>

fun nodes_ready :: "(web3_error + uint256) \<Rightarrow> (cosmos_grpc_error + chain_status) \<Rightarrow> bool" where
  "nodes_ready (Inr latest_eth_block) (Inr (Moving block_height)) = True"
| "nodes_ready (Inr latest_eth_block) (Inr Syncing) = False"
| "nodes_ready (Inr latest_eth_block) (Inr WaitingToStart) = False"
| "nodes_ready (Inr latest_eth_block) (Inl e) = False"
| "nodes_ready (Inl e) (Inr status) = False"
| "nodes_ready (Inl e) (Inl e') = False"

definition oracle_iteration :: "libs \<Rightarrow> web3 \<Rightarrow> contact \<Rightarrow> grpc \<Rightarrow> cosmos_private_key \<Rightarrow> eth_address \<Rightarrow> coin \<Rightarrow> uint256 \<Rightarrow> uint256 act" where
  "oracle_iteration L W K G cosmos_key gravity_contract_address fee last_checked_block =
     bind_io (query_io (eth_block_number W)) (\<lambda>latest_eth_block.
     bind_io (query_io (get_chain_status K)) (\<lambda>latest_cosmos_block.
     if nodes_ready latest_eth_block latest_cosmos_block then
       bind_io (check_for_events L W K G gravity_contract_address cosmos_key fee last_checked_block) (\<lambda>r.
       case r of
         Inr new_block \<Rightarrow> return_io new_block
       | Inl e \<Rightarrow> return_io last_checked_block)
     else return_io last_checked_block))"

definition eth_oracle_main_loop :: "libs \<Rightarrow> web3 \<Rightarrow> contact \<Rightarrow> grpc \<Rightarrow> cosmos_private_key \<Rightarrow> eth_address \<Rightarrow> coin \<Rightarrow> unit gresult act" where
  "eth_oracle_main_loop L W K G cosmos_key gravity_contract_address fee =
     bind_io (lift_io (our_cosmos_address L K cosmos_key)) (\<lambda>our_address.
     bind_io (get_last_checked_block L W G our_address (get_prefix K) gravity_contract_address) (\<lambda>last_checked_block.
     loop_io (\<lambda>b. bind_io (oracle_iteration L W K G cosmos_key gravity_contract_address fee b) (\<lambda>b'. return_io (Inl b')))
       last_checked_block))"

definition check_for_fee_error :: "(cosmos_grpc_error + tx_response) \<Rightarrow> unit gresult" where
  "check_for_fee_error res =
     (case res of
        Inl (InsufficientFees (FeeInsufficientFees min_fees)) \<Rightarrow> Inl (UnrecoverableError ''Specified fee value too small'')
      | Inl (InsufficientFees FeeInsufficientGas) \<Rightarrow> Inl (UnrecoverableError ''Hardcoded gas amounts insufficient!'')
      | _ \<Rightarrow> Inr ())"

definition sign_valsets :: "libs \<Rightarrow> contact \<Rightarrow> grpc \<Rightarrow> cosmos_private_key \<Rightarrow> cosmos_address \<Rightarrow> eth_private_key \<Rightarrow> coin \<Rightarrow> string \<Rightarrow> unit gresult act" where
  "sign_valsets L K G cosmos_key our_address ethereum_key fee gravity_id =
     bind_io (get_oldest_unsigned_valsets L G our_address (get_prefix K)) (\<lambda>r.
     case r of
       Inr valsets \<Rightarrow>
         if valsets = [] then return_io (Inr ())
         else bind_io (send_valset_confirms L K ethereum_key fee valsets cosmos_key gravity_id) (\<lambda>res.
           return_io (check_for_fee_error res))
     | Inl e \<Rightarrow> return_io (Inr ()))"

definition sign_batch :: "libs \<Rightarrow> contact \<Rightarrow> grpc \<Rightarrow> cosmos_private_key \<Rightarrow> cosmos_address \<Rightarrow> eth_private_key \<Rightarrow> coin \<Rightarrow> string \<Rightarrow> unit gresult act" where
  "sign_batch L K G cosmos_key our_address ethereum_key fee gravity_id =
     bind_io (get_oldest_unsigned_transaction_batch L G our_address (get_prefix K)) (\<lambda>r.
     case r of
       Inr (Some last_unsigned_batch) \<Rightarrow>
         bind_io (send_batch_confirm L K ethereum_key fee [last_unsigned_batch] cosmos_key gravity_id) (\<lambda>res.
         return_io (check_for_fee_error res))
     | Inr None \<Rightarrow> return_io (Inr ())
     | Inl e \<Rightarrow> return_io (Inr ()))"

definition sign_logic_call :: "libs \<Rightarrow> contact \<Rightarrow> grpc \<Rightarrow> cosmos_private_key \<Rightarrow> cosmos_address \<Rightarrow> eth_private_key \<Rightarrow> coin \<Rightarrow> string \<Rightarrow> unit gresult act" where
  "sign_logic_call L K G cosmos_key our_address ethereum_key fee gravity_id =
     bind_io (get_oldest_unsigned_logic_call L G our_address (get_prefix K)) (\<lambda>r.
     case r of
       Inr (Some last_unsigned_call) \<Rightarrow>
         bind_io (send_logic_call_confirm L K ethereum_key fee [last_unsigned_call] cosmos_key gravity_id) (\<lambda>res.
         return_io (check_for_fee_error res))
     | Inr None \<Rightarrow> return_io (Inr ())
     | Inl e \<Rightarrow> return_io (Inr ()))"

definition signer_iteration :: "libs \<Rightarrow> web3 \<Rightarrow> contact \<Rightarrow> grpc \<Rightarrow> cosmos_private_key \<Rightarrow> cosmos_address \<Rightarrow> eth_private_key \<Rightarrow> coin \<Rightarrow> string \<Rightarrow> unit gresult act" where
  "signer_iteration L W K G cosmos_key our_address ethereum_key fee gravity_id =
     bind_io (query_io (eth_block_number W)) (\<lambda>latest_eth_block.
     bind_io (query_io (get_chain_status K)) (\<lambda>latest_cosmos_block.
     if nodes_ready latest_eth_block latest_cosmos_block then
       try_io (sign_valsets L K G cosmos_key our_address ethereum_key fee gravity_id) (\<lambda>_.
       try_io (sign_batch L K G cosmos_key our_address ethereum_key fee gravity_id) (\<lambda>_.
       try_io (sign_logic_call L K G cosmos_key our_address ethereum_key fee gravity_id) (\<lambda>_.
       return_io (Inr ()))))
     else return_io (Inr ())))"

definition eth_signer_main_loop :: "libs \<Rightarrow> web3 \<Rightarrow> contact \<Rightarrow> grpc \<Rightarrow> timer \<Rightarrow> cosmos_private_key \<Rightarrow> eth_private_key \<Rightarrow> eth_address \<Rightarrow> coin \<Rightarrow> duration option \<Rightarrow> unit gresult act" where
  "eth_signer_main_loop L W K G T cosmos_key ethereum_key gravity_contract_address fee wait_time =
     bind_io (lift_io (our_cosmos_address L K cosmos_key)) (\<lambda>our_address.
     bind_io (get_gravity_id_with_retry L W T gravity_contract_address (eth_key_to_address (cl L) ethereum_key) wait_time) (\<lambda>gravity_id.
     case gravity_id of
       Inl _ \<Rightarrow> return_io (Inl (UnrecoverableError ''Failed to get GravityID, check your ethereum node''))
     | Inr gravity_id \<Rightarrow>
         loop_io (\<lambda>_ :: unit.
           bind_io (signer_iteration L W K G cosmos_key our_address ethereum_key fee gravity_id) (\<lambda>async_result.
           case async_result of
             Inl e \<Rightarrow> return_io (Inr (Inl e))
           | Inr _ \<Rightarrow> return_io (Inl ()))) ()))"

section \<open>What the oracle claims\<close>

lemma last_event_nonce_yields:
  "yields (\<lambda>r. \<forall>n. r = Inr n \<longrightarrow> (\<exists>b t. bech32_of L a p = Ret b \<and> last_event_nonce_by_addr G b t = Inr n))
     (get_last_event_nonce_for_validator L G a p)"
  unfolding get_last_event_nonce_for_validator_def ask_def
  by (rule yields_bind_lift, rule yields_query) (auto simp: map_err_Ok_iff)

text \<open>A list of claims whose event nonces go up and all lie above the last one the chain has from
  us.\<close>

definition new_claims :: "libs \<Rightarrow> contact \<Rightarrow> grpc \<Rightarrow> cosmos_private_key \<Rightarrow> cosmos_msg list \<Rightarrow> bool" where
  "new_claims L K G sk msgs \<longleftrightarrow>
     (\<exists>a b n t ns. our_cosmos_address L K sk = Ret a \<and> bech32_of L a (get_prefix K) = Ret b \<and>
        last_event_nonce_by_addr G b t = Inr n \<and> msgs \<noteq> [] \<and>
        map (\<lambda>m. claim_event_nonce (msg_value m)) msgs = map Some ns \<and> sorted_wrt (<) ns \<and> (\<forall>k \<in> set ns. n < k))"

lemma event_claims_nonces:
  "set (map fst (event_claims L K a deposits withdraws deploys calls valsets)) =
     sc_event_nonce ` set deposits \<union> be_event_nonce ` set withdraws \<union> ed_event_nonce ` set deploys \<union>
     le_event_nonce ` set calls \<union> vu_event_nonce ` set valsets"
  by (auto simp: event_claims_def image_image)

lemma claims_are_new:
  assumes a: "our_cosmos_address L K sk = Ret a" "bech32_of L a (get_prefix K) = Ret b" "last_event_nonce_by_addr G b t = Inr n"
    and ne: "deposits \<noteq> [] \<or> withdraws \<noteq> [] \<or> deploys \<noteq> [] \<or> calls \<noteq> [] \<or> valsets \<noteq> []"
    and new: "\<forall>k \<in> set (map fst (event_claims L K a deposits withdraws deploys calls valsets)). n < k"
    and msgs: "ethereum_claims L K a deposits withdraws deploys calls valsets = Ret msgs"
  shows "new_claims L K G sk msgs"
proof -
  let ?ns = "sorted_list_of_set (set (map fst (event_claims L K a deposits withdraws deploys calls valsets)))"
  have eq: "map (\<lambda>m. claim_event_nonce (msg_value m)) msgs = map Some ?ns"
    using msgs by (rule ethereum_claims_sorted)
  have "?ns \<noteq> []" using ne by (auto simp: sorted_list_of_set_eq_Nil_iff event_claims_nonces simp del: set_map)
  with eq have "msgs \<noteq> []" by (metis map_is_Nil_conv)
  moreover have "\<forall>k \<in> set ?ns. n < k" using new by (simp del: set_map)
  ultimately show ?thesis
    unfolding new_claims_def using a eq sorted_list_of_set.strict_sorted_key_list_of_set by blast
qed

lemmas filter_nonce_defs = valset_updated_filter_by_event_nonce_def send_to_cosmos_filter_by_event_nonce_def
  transaction_batch_executed_filter_by_event_nonce_def erc20_deployed_filter_by_event_nonce_def
  logic_call_executed_filter_by_event_nonce_def

lemma claim_events_emits:
  assumes a: "our_cosmos_address L K sk = Ret a"
  shows "emits_upto 1 (broadcasts K sk (new_claims L K G sk))
    (claim_events L K G sk a fee latest valset_logs batch_logs deposit_logs deploy_logs call_logs)"
proof -
  have send: "emits_upto 1 (broadcasts K sk (new_claims L K G sk))
      (send_ethereum_claims L K sk
        (send_to_cosmos_filter_by_event_nonce n deposits) (transaction_batch_executed_filter_by_event_nonce n withdraws)
        (erc20_deployed_filter_by_event_nonce n deploys) (logic_call_executed_filter_by_event_nonce n calls)
        (valset_updated_filter_by_event_nonce n valsets) fee)"
    if n: "\<exists>b t. bech32_of L a (get_prefix K) = Ret b \<and> last_event_nonce_by_addr G b t = Inr n"
      and ne: "send_to_cosmos_filter_by_event_nonce n deposits \<noteq> [] \<or> transaction_batch_executed_filter_by_event_nonce n withdraws \<noteq> [] \<or>
        erc20_deployed_filter_by_event_nonce n deploys \<noteq> [] \<or> logic_call_executed_filter_by_event_nonce n calls \<noteq> [] \<or>
        valset_updated_filter_by_event_nonce n valsets \<noteq> []" for n deposits withdraws deploys calls valsets
  proof (rule emits_upto_weaken [OF send_ethereum_claims_emits], erule broadcasts_mono, elim exE conjE)
    fix msgs a'
    assume a': "our_cosmos_address L K sk = Ret a'" and msgs: "ethereum_claims L K a'
        (send_to_cosmos_filter_by_event_nonce n deposits) (transaction_batch_executed_filter_by_event_nonce n withdraws)
        (erc20_deployed_filter_by_event_nonce n deploys) (logic_call_executed_filter_by_event_nonce n calls)
        (valset_updated_filter_by_event_nonce n valsets) = Ret msgs"
    from a a' have [simp]: "a' = a" by simp
    from n obtain b t where "bech32_of L a (get_prefix K) = Ret b" "last_event_nonce_by_addr G b t = Inr n" by blast
    from claims_are_new [OF a this ne _ msgs [simplified]] show "new_claims L K G sk msgs"
      by (auto simp: event_claims_nonces filter_nonce_defs simp del: set_map)
  qed
  show ?thesis
    unfolding claim_events_def Let_def
    by (intro upto_try_lift upto_try_yields [OF _ last_event_nonce_yields] upto_bind_lift upto_if upto_try_last
        upto_convert_io upto_silent send emits_intros) assumption+
qed

lemma emits_get_block_delay [emits_intros]: "emits P (get_block_delay W)"
  unfolding get_block_delay_def by (intro emits_intros)

lemma emits_logs_of [emits_intros]: "emits P (logs_of W c lo hi sig)"
  unfolding logs_of_def by (intro emits_intros)

text \<open>Five answers: all of them are good, or one is an error.\<close>

lemma all_answers_split:
  assumes "\<And>a1 a2 a3 a4 a5. r1 = Inr a1 \<Longrightarrow> r2 = Inr a2 \<Longrightarrow> r3 = Inr a3 \<Longrightarrow> r4 = Inr a4 \<Longrightarrow> r5 = Inr a5 \<Longrightarrow> P (f a1 a2 a3 a4 a5)"
    and "is_err r1 \<or> is_err r2 \<or> is_err r3 \<or> is_err r4 \<or> is_err r5 \<Longrightarrow> P g"
  shows "P (case (r1, r2, r3, r4, r5) of (Inr a1, Inr a2, Inr a3, Inr a4, Inr a5) \<Rightarrow> f a1 a2 a3 a4 a5 | _ \<Rightarrow> g)"
  using assms by (cases r1; cases r2; cases r3; cases r4; cases r5) simp_all

lemma check_for_events_emits:
  "emits_upto 1 (broadcasts K sk (new_claims L K G sk)) (check_for_events L W K G c sk fee start)"
  unfolding check_for_events_def
  by (rule upto_bind_lift, intro upto_bind_silent emits_intros,
      rule all_answers_split [where P = "emits_upto 1 (broadcasts K sk (new_claims L K G sk))"])
    (erule claim_events_emits, rule upto_silent, rule emits_return)

text \<open>How far the oracle reads: never past the latest block less the delay of the network.  A chain
  shorter than the delay stops the oracle with a panic.\<close>

lemma claim_events_yields: "yields (\<lambda>r. \<forall>b. r = Inr b \<longrightarrow> b = latest)
    (claim_events L K G sk a fee latest valset_logs batch_logs deposit_logs deploy_logs call_logs)"
  unfolding claim_events_def Let_def
  by ((rule yields_try_any yields_bind_any yields_if yields_return | (simp; fail))+)

lemma yields_retry: "yields (\<lambda>x. \<exists>t. ans t = Inr x) (retry_io (query_io ans))"
  by (auto simp: yields_def first_answer_def dest!: retry_io_answer)

lemma check_for_events_range:
  "yields (\<lambda>r. \<forall>b. r = Inr b \<longrightarrow> (\<exists>h v t t'. eth_block_number W t = Inr h \<and> net_version W t' = Inr v \<and>
       u256_sub (nm L) h (block_delay v) = Ret b)) (check_for_events L W K G c sk fee start)"
proof -
  let ?Q = "\<lambda>r. \<forall>b. r = Inr b \<longrightarrow> (\<exists>h v t t'. eth_block_number W t = Inr h \<and> net_version W t' = Inr v \<and>
    u256_sub (nm L) h (block_delay v) = Ret b)"
  have delay: "yields (\<lambda>d. \<exists>v t. net_version W t = Inr v \<and> d = block_delay v) (get_block_delay W)"
    unfolding get_block_delay_def get_net_version_with_retry_def
    by (rule yields_bind [OF yields_retry]) (auto intro: yields_return)
  have claim: "yields ?Q (case (v, b, d, e, l) of
      (Inr v, Inr b, Inr d, Inr e, Inr l) \<Rightarrow> claim_events L K G sk a fee latest v b d e l | _ \<Rightarrow> return_io (Inl err))"
    if "\<exists>h v t t'. eth_block_number W t = Inr h \<and> net_version W t' = Inr v \<and> u256_sub (nm L) h (block_delay v) = Ret latest"
    for v b d e l a latest err
  proof (rule all_answers_split [where P = "yields ?Q"])
    fix v b d e l
    show "yields ?Q (claim_events L K G sk a fee latest v b d e l)"
      by (rule yields_weaken [OF claim_events_yields]) (use that in blast)
  qed (simp add: yields_return)
  have block: "yields (\<lambda>h. \<exists>t. eth_block_number W t = Inr h) (get_block_number_with_retry W)"
    unfolding get_block_number_with_retry_def by (rule yields_retry)
  show ?thesis
    unfolding check_for_events_def
    apply (rule yields_bind_lift, rule yields_bind [OF block], rule yields_bind [OF delay], rule yields_bind_lift)
    apply ((rule yields_bind_any)+, rule claim)
    by blast
qed

text \<open>C40: on a chain shorter than the block delay of its network the oracle panics.\<close>

theorem check_for_events_short_chain:
  assumes N: "num256_arith (nm L)" and a: "our_cosmos_address L K sk = Ret a"
    and h: "eth_block_number W (clock s) = Inr h" and v: "net_version W (Suc (clock s)) = Inr v"
    and short: "h < block_delay v" and hz: "horizon s = None"
  shows "\<exists>p t. check_for_events L W K G c sk fee start s = Some (Panic p, t) \<and> trace t = trace s"
proof -
  have 1: "get_block_number_with_retry W s = Some (Ret h, s\<lparr>clock := Suc (clock s)\<rparr>)"
    using h hz by (simp add: get_block_number_with_retry_def retry_io_step)
  have 2: "get_block_delay W (s\<lparr>clock := Suc (clock s)\<rparr>) = Some (Ret (block_delay v), s\<lparr>clock := Suc (Suc (clock s))\<rparr>)"
    using v hz by (simp add: get_block_delay_def get_net_version_with_retry_def bind_io_def retry_io_step return_io_def)
  obtain p where 3: "u256_sub (nm L) h (block_delay v) = Panic p"
    using u256_sub_underflow [OF N short] by (cases "u256_sub (nm L) h (block_delay v)") auto
  have "check_for_events L W K G c sk fee start s = Some (Panic p, s\<lparr>clock := Suc (Suc (clock s))\<rparr>)"
    unfolding check_for_events_def a bind_io_lift outcome.case
    by (simp add: bind_io_def [of "get_block_number_with_retry W"] 1 bind_io_def [of "get_block_delay W"] 2 3 panic_io_def)
  then show ?thesis by simp
qed

text \<open>A single log of a logic call stops the oracle with a panic before anything is claimed.\<close>

text \<open>One log of an executed logic call and the oracle panics, before anything is claimed.\<close>

lemma claim_events_logic_call:
  assumes "call_logs \<noteq> []" "valset_updated_from_logs L valset_logs = Ret (Inr valsets)"
    "transaction_batch_executed_from_logs L batch_logs = Ret (Inr withdraws)"
    "send_to_cosmos_from_logs L deposit_logs = Ret (Inr deposits)"
    "erc20_deployed_from_logs L deploy_logs = Ret (Inr deploys)"
  shows "\<exists>p. claim_events L K G sk a fee latest valset_logs batch_logs deposit_logs deploy_logs call_logs s = Some (Panic p, s)"
proof -
  obtain p where "logic_call_executed_from_logs call_logs = Panic p"
    using logic_call_logs_panic [OF assms(1)] by (cases "logic_call_executed_from_logs call_logs") auto
  with assms show ?thesis by (auto simp: claim_events_def try_io_def panic_io_def)
qed


section \<open>Where the oracle resumes\<close>

lemma scan_events_found:
  "scan_events from_log event_nonce n logs = Ret (Some b) \<Longrightarrow>
     \<exists>l ev. l \<in> set logs \<and> from_log l = Ret (Inr ev) \<and> unat (event_nonce ev) = n \<and> block_number l = Some b"
proof (induction logs)
  case (Cons l logs)
  then obtain r where r: "from_log l = Ret r" by (cases "from_log l") auto
  show ?case
  proof (cases r)
    case (Inl e)
    with Cons r show ?thesis by auto
  next
    case (Inr ev)
    show ?thesis
    proof (cases "unat (event_nonce ev) = n \<and> block_number l \<noteq> None")
      case True
      with Cons.prems r Inr show ?thesis by auto
    next
      case False
      with Cons.prems r Inr have "scan_events from_log event_nonce n logs = Ret (Some b)" by auto
      from Cons.IH [OF this] show ?thesis by auto
    qed
  qed
qed simp

lemma scan_valset_events_found:
  "scan_valset_events L n logs = Ret (Some b) \<Longrightarrow>
     \<exists>l ev. l \<in> set logs \<and> valset_updated_from_log L l = Ret (Inr ev) \<and> block_number l = Some b \<and>
       (unat (vu_event_nonce ev) = n \<or> vu_valset_nonce ev = 0 \<and> n = 1)"
proof (induction logs)
  case (Cons l logs)
  then obtain r where r: "valset_updated_from_log L l = Ret r" by (cases "valset_updated_from_log L l") auto
  show ?case
  proof (cases r)
    case (Inl e)
    with Cons r show ?thesis by auto
  next
    case (Inr ev)
    show ?thesis
    proof (cases "unat (vu_event_nonce ev) = n \<and> block_number l \<noteq> None \<or> vu_valset_nonce ev = 0 \<and> n = 1")
      case True
      with Cons.prems r Inr show ?thesis by (auto simp: Let_def outcome_simps)
    next
      case False
      with Cons.prems r Inr have "scan_valset_events L n logs = Ret (Some b)"
        by (auto simp: Let_def split: if_splits)
      from Cons.IH [OF this] show ?thesis by auto
    qed
  qed
qed simp

text \<open>The block number of an event of the contract with the nonce looked for, or of the deployment
  when nothing was claimed yet.\<close>

definition resume_block :: "libs \<Rightarrow> web3 \<Rightarrow> eth_address \<Rightarrow> nat \<Rightarrow> uint256 \<Rightarrow> bool" where
  "resume_block L W c n b \<longleftrightarrow>
     (\<exists>lo hi sig t logs l. web3_check_for_events W lo (Some hi) [c] [sig] t = Inr logs \<and> l \<in> set logs \<and> block_number l = Some b \<and>
        ((\<exists>ev. transaction_batch_executed_from_log L l = Ret (Inr ev) \<and> unat (be_event_nonce ev) = n) \<or>
         (\<exists>ev. send_to_cosmos_from_log L l = Ret (Inr ev) \<and> unat (sc_event_nonce ev) = n) \<or>
         (\<exists>ev. erc20_deployed_from_log L l = Ret (Inr ev) \<and> unat (ed_event_nonce ev) = n) \<or>
         (\<exists>ev. valset_updated_from_log L l = Ret (Inr ev) \<and>
            (unat (vu_event_nonce ev) = n \<or> vu_valset_nonce ev = 0 \<and> n = 1))))"

lemma scan_logic_calls: "scan_events logic_call_executed_from_log le_event_nonce n logs \<noteq> Ret (Some b)"
  by (cases logs) (simp_all add: logic_call_executed_from_log_def)

lemma scan_next:
  "bind_out m (\<lambda>r. case r of Some b \<Rightarrow> Ret (Some b) | None \<Rightarrow> k) = Ret (Some b) \<longleftrightarrow>
     m = Ret (Some b) \<or> m = Ret None \<and> k = Ret (Some b)"
  by (cases m) (auto split: option.splits)

lemma scan_round_found:
  assumes "scan_round L n batches deposits deploys calls valsets = Ret (Some b)"
    and W: "web3_check_for_events W lo (Some hi) [c] [s1] t1 = Inr batches" "web3_check_for_events W lo (Some hi) [c] [s2] t2 = Inr deposits"
      "web3_check_for_events W lo (Some hi) [c] [s3] t3 = Inr deploys" "web3_check_for_events W lo (Some hi) [c] [s5] t5 = Inr valsets"
  shows "resume_block L W c n b"
proof -
  from assms(1) consider
      "scan_events (transaction_batch_executed_from_log L) be_event_nonce n batches = Ret (Some b)"
    | "scan_events (send_to_cosmos_from_log L) sc_event_nonce n deposits = Ret (Some b)"
    | "scan_events (erc20_deployed_from_log L) ed_event_nonce n deploys = Ret (Some b)"
    | "scan_valset_events L n (rev valsets) = Ret (Some b)"
    unfolding scan_round_def scan_next using scan_logic_calls [of n calls b] by blast
  then show ?thesis
  proof cases
    case 1
    from scan_events_found [OF this] W(1) show ?thesis unfolding resume_block_def by blast
  next
    case 2
    from scan_events_found [OF this] W(2) show ?thesis unfolding resume_block_def by blast
  next
    case 3
    from scan_events_found [OF this] W(3) show ?thesis unfolding resume_block_def by blast
  next
    case 4
    from scan_valset_events_found [OF this] W(4) show ?thesis unfolding resume_block_def by fastforce
  qed
qed

lemma last_checked_step_yields:
  "yields (\<lambda>r. case r of Inl b' \<Rightarrow> 0 < b \<and> (search_end (nm L) b = Ret b' \<or> b' = b \<and>
       (\<exists>lo sig t. is_err (web3_check_for_events W lo (Some b) [c] [sig] t)))
     | Inr res \<Rightarrow> resume_block L W c n res) (last_checked_step L W c n b)"
proof (cases "b > 0")
  case False
  then show ?thesis by (simp add: last_checked_step_def yields_panic)
next
  case True
  let ?Q = "\<lambda>r. case r of Inl b' \<Rightarrow> 0 < b \<and> (search_end (nm L) b = Ret b' \<or> b' = b \<and>
       (\<exists>lo sig t. is_err (web3_check_for_events W lo (Some b) [c] [sig] t)))
     | Inr res \<Rightarrow> resume_block L W c n res"
  have round: "yields ?Q (case (r1, r2, r3, r4, r5) of
      (Inr batches, Inr deposits, Inr deploys, Inr calls, Inr valsets) \<Rightarrow>
        bind_io (lift_io (scan_round L n batches deposits deploys calls valsets)) (\<lambda>found.
        case found of Some b \<Rightarrow> return_io (Inr b) | None \<Rightarrow> return_io (Inl e))
    | _ \<Rightarrow> return_io (Inl b))"
    if e: "search_end (nm L) b = Ret e"
      and r: "r1 = web3_check_for_events W e (Some b) [c] [s1] t1" "r2 = web3_check_for_events W e (Some b) [c] [s2] t2"
        "r3 = web3_check_for_events W e (Some b) [c] [s3] t3" "r4 = web3_check_for_events W e (Some b) [c] [s4] t4"
        "r5 = web3_check_for_events W e (Some b) [c] [s5] t5"
    for e r1 r2 r3 r4 r5 s1 s2 s3 s4 s5 t1 t2 t3 t4 t5
  proof (rule all_answers_split [where P = "yields ?Q"])
    fix x1 x2 x3 x4 x5
    assume x: "r1 = Inr x1" "r2 = Inr x2" "r3 = Inr x3" "r4 = Inr x4" "r5 = Inr x5"
    show "yields ?Q (bind_io (lift_io (scan_round L n x1 x2 x3 x4 x5)) (\<lambda>found.
        case found of Some b \<Rightarrow> return_io (Inr b) | None \<Rightarrow> return_io (Inl e)))"
      using e \<open>b > 0\<close> r x
      by (intro yields_bind_lift yields_case_option yields_return) (auto intro: scan_round_found)
  next
    assume "is_err r1 \<or> is_err r2 \<or> is_err r3 \<or> is_err r4 \<or> is_err r5"
    then have "\<exists>lo sig t. is_err (web3_check_for_events W lo (Some b) [c] [sig] t)" using r by blast
    with \<open>b > 0\<close> show "yields ?Q (return_io (Inl b))" by (intro yields_return) simp
  qed
  show ?thesis
    unfolding last_checked_step_def logs_of_def if_P [OF True]
    by (rule yields_bind_lift, (rule yields_bind_query)+, rule round) (assumption | rule refl)+
qed

lemma back_logs_of [back_intros]: "comes_back (logs_of W c lo hi sig)"
  unfolding logs_of_def by (intro back_intros)

lemma last_checked_step_back: "comes_back (last_checked_step L W c n b)"
  unfolding last_checked_step_def
  by (intro back_if back_bind back_lift back_logs_of back_panic
      all_answers_split [where P = comes_back] back_case_option back_return)

text \<open>The search goes down by five thousand blocks a round and so it ends, at the latest with the
  panic at the start of the chain, as long as the node answers.\<close>

definition answers_logs :: "web3 \<Rightarrow> eth_address \<Rightarrow> bool" where
  "answers_logs W c \<longleftrightarrow> (\<forall>lo hi sig t. \<not> is_err (web3_check_for_events W lo (Some hi) [c] [sig] t))"

lemma last_checked_step_go:
  assumes "num256_arith (nm L)" "answers_logs W c" "last_checked_step L W c n b s = Some (Ret (Inl b'), t)"
  shows "b' < b"
  using last_checked_step_yields [of b L W c n] assms search_end_less [OF assms(1)]
  by (auto simp: yields_def answers_logs_def dest!: spec [of _ s])

text \<open>C22: the search for the block to resume at comes back as long as the node answers.\<close>

theorem last_checked_loop_back:
  assumes "num256_arith (nm L)" "answers_logs W c"
  shows "comes_back (loop_io (last_checked_step L W c n) b)"
  by (rule back_loop [where I = "\<lambda>_. True" and \<mu> = "\<lambda>b. b"])
    (use assms last_checked_step_go in \<open>auto intro: last_checked_step_back\<close>)

lemma last_checked_loop_yields: "yields (resume_block L W c n) (loop_io (last_checked_step L W c n) b)"
proof (rule yields_loop [where I = "\<lambda>_. True"])
  show "yields (\<lambda>r. case r of Inl c' \<Rightarrow> True | Inr x \<Rightarrow> resume_block L W c n x) (last_checked_step L W c n b)" for b
    by (rule yields_weaken [OF last_checked_step_yields]) (auto split: sum.splits)
qed simp

text \<open>The nonce looked for is the last one the chain has from us, or one when it has none.\<close>

definition nonce_to_find :: "u64 \<Rightarrow> nat" where
  "nonce_to_find n = (if unat n = 0 then 1 else unat n)"

text \<open>The oracle resumes at the block of an event of the contract whose nonce is the last
  one the chain has from us, or of the deployment when it has none.\<close>

lemma get_last_checked_block_yields:
  "yields (\<lambda>b. \<exists>a n t. bech32_of L addr p = Ret a \<and> last_event_nonce_by_addr G a t = Inr n \<and>
       resume_block L W c (nonce_to_find n) b) (get_last_checked_block L W G addr p c)"
proof -
  have nonce: "yields (\<lambda>n. \<exists>a t. bech32_of L addr p = Ret a \<and> last_event_nonce_by_addr G a t = Inr n)
      (get_last_event_nonce_with_retry L G addr p)"
    unfolding get_last_event_nonce_with_retry_def by (rule yields_retry_io [OF last_event_nonce_yields])
  show ?thesis
    unfolding get_last_checked_block_def Let_def nonce_to_find_def [symmetric]
    by (rule yields_bind_any, rule yields_bind [OF nonce], rule yields_weaken [OF last_checked_loop_yields]) blast
qed

section \<open>The oracle loop\<close>

text \<open>Whatever the oracle does, over all its rounds, is to broadcast new claims; it never comes
  back with a value; and a round moves the checkpoint only to a block the delay of the network
  allows.\<close>

lemma oracle_iteration_emits:
  "emits_upto 1 (broadcasts K sk (new_claims L K G sk)) (oracle_iteration L W K G sk c fee b)"
  unfolding oracle_iteration_def
  by (intro upto_bind_silent emits_query upto_if upto_bind_last check_for_events_emits upto_silent
      emits_case_sum emits_return)

lemma oracle_iteration_checkpoint:
  "yields (\<lambda>b'. b' = b \<or> (\<exists>h v t t'. eth_block_number W t = Inr h \<and> net_version W t' = Inr v \<and>
       u256_sub (nm L) h (block_delay v) = Ret b')) (oracle_iteration L W K G sk c fee b)"
  unfolding oracle_iteration_def
  by (rule yields_bind_any, rule yields_bind_any, rule yields_if, rule yields_bind [OF check_for_events_range])
    (auto intro!: yields_case_sum yields_return)

lemma emits_get_last_checked_block [emits_intros]: "emits P (get_last_checked_block L W G a p c)"
proof -
  have "emits P (last_checked_step L W c n b)" for n b
    unfolding last_checked_step_def
    by (intro emits_if emits_bind emits_lift emits_logs_of emits_panic
        all_answers_split [where P = "emits P"] emits_case_option emits_return)
  then show ?thesis
    unfolding get_last_checked_block_def Let_def by (intro emits_intros)
qed

text \<open>Over all its rounds the oracle broadcasts nothing but lists of new claims.\<close>

lemma eth_oracle_main_loop_emits:
  "emits (broadcasts K sk (new_claims L K G sk)) (eth_oracle_main_loop L W K G sk c fee)"
  unfolding eth_oracle_main_loop_def
  by (intro emits_intros emits_upto_emits [OF oracle_iteration_emits])

text \<open>The oracle loop never returns.\<close>

lemma eth_oracle_main_loop_forever: "eth_oracle_main_loop L W K G sk c fee s \<noteq> Some (Ret x, t)"
proof -
  have "loop_io (\<lambda>b. bind_io (oracle_iteration L W K G sk c fee b) (\<lambda>b'. return_io (Inl b'))) b s \<noteq> Some (Ret x, t)" for b s
    by (rule loop_io_forever) (auto simp: bind_io_Some_iff return_io_def)
  then show ?thesis
    by (cases "our_cosmos_address L K sk") (auto simp: eth_oracle_main_loop_def bind_io_Some_iff panic_io_def)
qed


section \<open>The signer loop\<close>

text \<open>What the signer may send: confirmations of validator sets, of one batch or of one logic call
  that the chain asked our address to sign.\<close>

definition asked_confirms :: "libs \<Rightarrow> contact \<Rightarrow> grpc \<Rightarrow> cosmos_address \<Rightarrow> eth_private_key \<Rightarrow> string \<Rightarrow> cosmos_msg list \<Rightarrow> bool" where
  "asked_confirms L K G a ek gid msgs \<longleftrightarrow>
     (\<exists>b t. bech32_of L a (get_prefix K) = Ret b \<and>
       ((\<exists>ps vs. last_pending_valset_request_by_addr G b t = Inr ps \<and> map_out_list (valset_from_proto L) ps = Ret vs \<and>
           vs \<noteq> [] \<and> msgs = map (valset_confirm_msg L ek a gid) vs) \<or>
        (\<exists>p x m. last_pending_batch_request_by_addr G b t = Inr (Some p) \<and> transaction_batch_try_from L p = Ret (Inr x) \<and>
           batch_confirm_msg L ek a gid x = Ret m \<and> msgs = [m]) \<or>
        (\<exists>p x. last_pending_logic_call_by_addr G b t = Inr (Some p) \<and> logic_call_try_from L p = Inr x \<and>
           msgs = [logic_call_confirm_msg L ek a gid x])))"

lemma asked_valsets:
  "\<lbrakk>bech32_of L a (get_prefix K) = Ret b; last_pending_valset_request_by_addr G b t = Inr ps;
    map_out_list (valset_from_proto L) ps = Ret vs; vs \<noteq> []\<rbrakk> \<Longrightarrow> asked_confirms L K G a ek gid (map (valset_confirm_msg L ek a gid) vs)"
  unfolding asked_confirms_def by blast

lemma asked_batch:
  "\<lbrakk>bech32_of L a (get_prefix K) = Ret b; last_pending_batch_request_by_addr G b t = Inr (Some p);
    transaction_batch_try_from L p = Ret (Inr x); batch_confirm_msg L ek a gid x = Ret m\<rbrakk> \<Longrightarrow> asked_confirms L K G a ek gid [m]"
  unfolding asked_confirms_def by blast

lemma asked_logic_call:
  "\<lbrakk>bech32_of L a (get_prefix K) = Ret b; last_pending_logic_call_by_addr G b t = Inr (Some p);
    logic_call_try_from L p = Inr x\<rbrakk> \<Longrightarrow> asked_confirms L K G a ek gid [logic_call_confirm_msg L ek a gid x]"
  unfolding asked_confirms_def by blast

lemma unsigned_valsets_yields:
  "yields (\<lambda>r. \<forall>vs. r = Inr vs \<longrightarrow> (\<exists>b t ps. bech32_of L a p = Ret b \<and> last_pending_valset_request_by_addr G b t = Inr ps \<and>
       map_out_list (valset_from_proto L) ps = Ret vs)) (get_oldest_unsigned_valsets L G a p)"
  unfolding get_oldest_unsigned_valsets_def ask_def try_io_def
  by ((rule yields_bind_lift yields_bind_query yields_case_sum yields_return)+, simp,
      (rule yields_bind_lift yields_return)+) (auto simp: map_err_Ok_iff)

lemma unsigned_batch_yields:
  "yields (\<lambda>r. \<forall>x. r = Inr (Some x) \<longrightarrow> (\<exists>b t pb. bech32_of L a p = Ret b \<and> last_pending_batch_request_by_addr G b t = Inr (Some pb) \<and>
       transaction_batch_try_from L pb = Ret (Inr x))) (get_oldest_unsigned_transaction_batch L G a p)"
  unfolding get_oldest_unsigned_transaction_batch_def ask_def try_io_def
  by (rule yields_bind_lift yields_bind_query yields_case_sum yields_case_option yields_return | (simp; fail))+
    (auto simp: map_err_Ok_iff)

lemma unsigned_logic_call_yields:
  "yields (\<lambda>r. \<forall>x. r = Inr (Some x) \<longrightarrow> (\<exists>b t pc. bech32_of L a p = Ret b \<and> last_pending_logic_call_by_addr G b t = Inr (Some pc) \<and>
       logic_call_try_from L pc = Inr x)) (get_oldest_unsigned_logic_call L G a p)"
  unfolding get_oldest_unsigned_logic_call_def ask_def try_io_def
  by (rule yields_bind_lift yields_bind_query yields_case_sum yields_case_option yields_return | (simp; fail))+
    (auto simp: map_err_Ok_iff intro!: yields_case_sum yields_return)

lemma sign_emits:
  fixes G :: grpc and ek :: eth_private_key and gid :: string
  assumes a: "our_cosmos_address L K sk = Ret a"
  defines "P \<equiv> broadcasts K sk (asked_confirms L K G a ek gid)"
  shows "emits_upto 1 P (sign_valsets L K G sk a ek fee gid)"
    and "emits_upto 1 P (sign_batch L K G sk a ek fee gid)"
    and "emits_upto 1 P (sign_logic_call L K G sk a ek fee gid)"
proof -
  note weaken = emits_upto_weaken [OF _ broadcasts_mono]
  have valsets: "emits_upto 1 P (send_valset_confirms L K ek fee vs sk gid)"
    if "\<exists>b t ps. bech32_of L a (get_prefix K) = Ret b \<and> last_pending_valset_request_by_addr G b t = Inr ps \<and>
       map_out_list (valset_from_proto L) ps = Ret vs" "vs \<noteq> []" for vs
    unfolding P_def using that a
    by (intro weaken [OF send_valset_confirms_emits]) (assumption, auto intro: asked_valsets)
  have batch: "emits_upto 1 P (send_batch_confirm L K ek fee [x] sk gid)"
    if "\<exists>b t pb. bech32_of L a (get_prefix K) = Ret b \<and> last_pending_batch_request_by_addr G b t = Inr (Some pb) \<and>
       transaction_batch_try_from L pb = Ret (Inr x)" for x
    unfolding P_def using that a
    by (intro weaken [OF send_batch_confirm_emits]) (assumption, auto simp: outcome_simps intro: asked_batch)
  have call: "emits_upto 1 P (send_logic_call_confirm L K ek fee [x] sk gid)"
    if "\<exists>b t pc. bech32_of L a (get_prefix K) = Ret b \<and> last_pending_logic_call_by_addr G b t = Inr (Some pc) \<and>
       logic_call_try_from L pc = Inr x" for x
    unfolding P_def using that a
    by (intro weaken [OF send_logic_call_confirm_emits]) (assumption, auto intro: asked_logic_call)
  show "emits_upto 1 P (sign_valsets L K G sk a ek fee gid)"
    unfolding sign_valsets_def
    by (rule upto_bind_yields [OF _ unsigned_valsets_yields])
      (auto intro: emits_queries emits_return upto_silent intro!: upto_bind_last valsets [unfolded One_nat_def] split: sum.splits)
  show "emits_upto 1 P (sign_batch L K G sk a ek fee gid)"
    unfolding sign_batch_def
    by (rule upto_bind_yields [OF _ unsigned_batch_yields])
      (auto intro: emits_queries emits_return upto_silent intro!: upto_bind_last batch [unfolded One_nat_def] split: sum.splits option.splits)
  show "emits_upto 1 P (sign_logic_call L K G sk a ek fee gid)"
    unfolding sign_logic_call_def
    by (rule upto_bind_yields [OF _ unsigned_logic_call_yields])
      (auto intro: emits_queries emits_return upto_silent intro!: upto_bind_last call [unfolded One_nat_def] split: sum.splits option.splits)
qed

text \<open>At most three broadcasts a round, one of each kind.\<close>

lemma signer_iteration_emits:
  assumes "our_cosmos_address L K sk = Ret a"
  shows "emits_upto 3 (broadcasts K sk (asked_confirms L K G a ek gid)) (signer_iteration L W K G sk a ek fee gid)"
proof -
  note sign = sign_emits [OF assms]
  have "emits_upto (1 + (1 + (1 + 0))) (broadcasts K sk (asked_confirms L K G a ek gid))
      (try_io (sign_valsets L K G sk a ek fee gid) (\<lambda>_. try_io (sign_batch L K G sk a ek fee gid) (\<lambda>_.
       try_io (sign_logic_call L K G sk a ek fee gid) (\<lambda>_. return_io (Inr ())))))"
    by (intro upto_try sign upto_silent emits_return)
  then show ?thesis
    unfolding signer_iteration_def
    by (intro upto_bind_silent emits_query upto_if) (simp_all add: upto_silent emits_return numeral_3_eq_3)
qed

text \<open>The signer comes back only with a fee error, which is fatal.\<close>

lemma check_for_fee_error_iff:
  "check_for_fee_error res = Inl e \<longleftrightarrow>
     (\<exists>min_fees. res = Inl (InsufficientFees (FeeInsufficientFees min_fees)) \<and> e = UnrecoverableError ''Specified fee value too small'') \<or>
     res = Inl (InsufficientFees FeeInsufficientGas) \<and> e = UnrecoverableError ''Hardcoded gas amounts insufficient!''"
  by (auto simp: check_for_fee_error_def split: sum.splits cosmos_grpc_error.splits fee_info.splits)

definition fee_failure :: "gravity_error \<Rightarrow> bool" where
  "fee_failure e \<longleftrightarrow> e = UnrecoverableError ''Specified fee value too small'' \<or>
     e = UnrecoverableError ''Hardcoded gas amounts insufficient!''"

lemma sign_yields:
  "yields (\<lambda>r. \<forall>e. r = Inl e \<longrightarrow> fee_failure e) (sign_valsets L K G sk a ek fee gid)"
  "yields (\<lambda>r. \<forall>e. r = Inl e \<longrightarrow> fee_failure e) (sign_batch L K G sk a ek fee gid)"
  "yields (\<lambda>r. \<forall>e. r = Inl e \<longrightarrow> fee_failure e) (sign_logic_call L K G sk a ek fee gid)"
  unfolding sign_valsets_def sign_batch_def sign_logic_call_def
  by (rule yields_bind_any yields_case_sum yields_case_option yields_if yields_return |
      (auto simp: check_for_fee_error_iff fee_failure_def; fail))+

lemma signer_iteration_yields:
  "yields (\<lambda>r. \<forall>e. r = Inl e \<longrightarrow> fee_failure e) (signer_iteration L W K G sk a ek fee gid)"
  unfolding signer_iteration_def
  by (rule yields_bind_any, rule yields_bind_any, rule yields_if)
    (auto intro!: yields_try yields_return sign_yields)

text \<open>The signer returns only with a fee error or when the gravity id cannot be had.\<close>

lemma eth_signer_main_loop_yields:
  "yields (\<lambda>r. \<exists>e. r = Inl e \<and> (fee_failure e \<or> e = UnrecoverableError ''Failed to get GravityID, check your ethereum node''))
     (eth_signer_main_loop L W K G T sk ek c fee wait)"
proof -
  have round: "yields (\<lambda>r. case r of Inl c' \<Rightarrow> True | Inr x \<Rightarrow> \<exists>e. x = Inl e \<and> fee_failure e)
      (bind_io (signer_iteration L W K G sk a ek fee gid) (\<lambda>r. case r of Inl e \<Rightarrow> return_io (Inr (Inl e)) | Inr _ \<Rightarrow> return_io (Inl ())))"
    for a gid
    by (rule yields_bind [OF signer_iteration_yields]) (auto intro!: yields_case_sum yields_return)
  show ?thesis
    unfolding eth_signer_main_loop_def
    by (rule yields_bind_lift, rule yields_bind_any, rule yields_case_sum, rule yields_return, simp,
        rule yields_weaken [OF yields_loop [where I = "\<lambda>_. True", OF _ round]]) auto
qed

text \<open>Over all its rounds the signer broadcasts nothing but confirmations of what the chain asked
  our address to sign.\<close>

lemma eth_signer_main_loop_emits:
  "emits (broadcasts K sk (\<lambda>msgs. \<exists>a gid. our_cosmos_address L K sk = Ret a \<and> asked_confirms L K G a ek gid msgs))
     (eth_signer_main_loop L W K G T sk ek c fee wait)"
proof -
  have "emits (broadcasts K sk (\<lambda>msgs. \<exists>a gid. our_cosmos_address L K sk = Ret a \<and> asked_confirms L K G a ek gid msgs))
      (signer_iteration L W K G sk a ek fee gid)" if "our_cosmos_address L K sk = Ret a" for a gid
    using that
    by (intro emits_upto_emits [OF emits_upto_weaken [OF signer_iteration_emits]]) (auto elim: broadcasts_mono)
  then show ?thesis
    unfolding eth_signer_main_loop_def
    by (intro emits_bind_lift emits_intros)
qed

section \<open>What the component promises\<close>

text \<open>C21: a round of the oracle broadcasts at most once and moves its checkpoint, if at all, to the
  latest block less the delay of the network.\<close>

theorem oracle_round:
  "emits_upto 1 (broadcasts K sk (new_claims L K G sk)) (oracle_iteration L W K G sk c fee b) \<and>
   yields (\<lambda>b'. b' = b \<or> (\<exists>h v t t'. eth_block_number W t = Inr h \<and> net_version W t' = Inr v \<and>
       u256_sub (nm L) h (block_delay v) = Ret b')) (oracle_iteration L W K G sk c fee b)"
  by (rule conjI [OF oracle_iteration_emits oracle_iteration_checkpoint])


lemma back_get_last_event_nonce [back_intros]: "comes_back (get_last_event_nonce_for_validator L G a p)"
  unfolding get_last_event_nonce_for_validator_def by (intro back_intros)

text \<open>When the logs parse, the chain has seen the events up to a nonce, and there are newer ones
  whose claims can be built and signed, the oracle broadcasts exactly these claims.\<close>

lemma claim_events_sends:
  assumes parsed: "valset_updated_from_logs L valset_logs = Ret (Inr valsets)"
      "transaction_batch_executed_from_logs L batch_logs = Ret (Inr withdraws)"
      "send_to_cosmos_from_logs L deposit_logs = Ret (Inr deposits)"
      "erc20_deployed_from_logs L deploy_logs = Ret (Inr deploys)"
    and nonce: "bech32_of L a (get_prefix K) = Ret addr" "last_event_nonce_by_addr G addr (clock s) = Inr n"
    and msgs: "our_cosmos_address L K sk = Ret a"
      "ethereum_claims L K a (send_to_cosmos_filter_by_event_nonce n deposits)
         (transaction_batch_executed_filter_by_event_nonce n withdraws) (erc20_deployed_filter_by_event_nonce n deploys) []
         (valset_updated_filter_by_event_nonce n valsets) = Ret msgs" "msgs \<noteq> []"
    and signed: "get_message_args K a (fee_of fee 500000000) (Suc (clock s)) = Inr args"
      "sign_std_msg K sk msgs args MEMO = Inr b"
    and hz: "horizon s = None"
  shows "\<exists>r t. claim_events L K G sk a fee latest valset_logs batch_logs deposit_logs deploy_logs [] s = Some (r, t) \<and>
    trace t = trace s @ [CosmosSendTransaction b]"
proof -
  let ?d = "send_to_cosmos_filter_by_event_nonce n deposits" and ?w = "transaction_batch_executed_filter_by_event_nonce n withdraws"
    and ?e = "erc20_deployed_filter_by_event_nonce n deploys" and ?v = "valset_updated_filter_by_event_nonce n valsets"
  let ?s1 = "s\<lparr>clock := Suc (clock s)\<rparr>"
  have new: "?d \<noteq> [] \<or> ?w \<noteq> [] \<or> ?e \<noteq> [] \<or> ?v \<noteq> []"
    using msgs(2,3) by (auto simp: ethereum_claims_pairs event_claims_def btree_values_def)
  have dest: "(case ?d of [] \<Rightarrow> Ret () | d # _ \<Rightarrow> bind_out (bech32_of L (sc_destination d) (get_prefix K)) (\<lambda>_. Ret ())) = Ret ()"
  proof (cases ?d)
    case (Cons d ds)
    from msgs(2) obtain ms where "map snd (event_claims L K a ?d ?w ?e [] ?v) = map Ret ms" by (rule ethereum_claims_Ret)
    with Cons obtain m where "send_to_cosmos_claim L K a d = Ret m" by (auto simp: event_claims_def Cons_eq_map_conv)
    with Cons show ?thesis by (auto simp: send_to_cosmos_claim_def outcome_simps)
  qed simp
  have ask: "get_last_event_nonce_for_validator L G a (get_prefix K) s = Some (Ret (Inr n), ?s1)"
    using nonce hz by (simp add: get_last_event_nonce_for_validator_def ask_def query_io_def)
  from broadcast_and_wait_sends [of K a "fee_of fee 500000000" ?s1 args sk msgs b] signed hz obtain r t where
    sent: "broadcast_and_wait K sk a (fee_of fee 500000000) msgs ?s1 = Some (Ret r, t)"
    and tr: "trace t = trace s @ [CosmosSendTransaction b]" by auto
  have send: "send_ethereum_claims L K sk ?d ?w ?e [] ?v fee ?s1 = Some (Ret r, t)"
    using msgs sent by (simp add: send_ethereum_claims_def)
  let ?rest = "try_io (get_last_event_nonce_for_validator L G a (get_prefix K)) (\<lambda>new_event_nonce.
       if new_event_nonce = n then return_io (Inl (ValidationError ''Claims did not process, trying again in a moment''))
       else return_io (Inr latest))"
  have calls: "logic_call_executed_from_logs [] = Ret (Inr [])" "logic_call_executed_filter_by_event_nonce n [] = []"
    by (simp_all add: logic_call_executed_from_logs_def logic_call_executed_filter_by_event_nonce_def)
  have run: "claim_events L K G sk a fee latest valset_logs batch_logs deposit_logs deploy_logs [] s =
      (case r of Inl e \<Rightarrow> Some (Ret (Inl (from_cosmos_grpc_error e)), t) | Inr x \<Rightarrow> ?rest t)"
    using parsed new
    by (simp add: claim_events_def Let_def calls try_io_def [of "lift_io _"] try_io_def [of "get_last_event_nonce_for_validator _ _ _ _"]
        bind_io_def [of "get_last_event_nonce_for_validator _ _ _ _"] ask dest convert_io_def try_io_def [of "bind_io _ _"]
        bind_io_def send return_io_def split: sum.splits)
  have quiet: "silent ?rest" and returns: "comes_back ?rest"
    by (intro emits_intros, intro back_intros)
  show ?thesis
  proof (cases r)
    case (Inl e)
    with run tr show ?thesis by simp
  next
    case (Inr x)
    from comes_backD [OF returns] obtain r' t' where t': "?rest t = Some (r', t')" by blast
    with silentD [OF quiet t'] run Inr tr show ?thesis by simp
  qed
qed


lemma sign_valsets_sends:
  assumes asked: "bech32_of L a (get_prefix K) = Ret addr" "last_pending_valset_request_by_addr G addr (clock s) = Inr ps"
      "map_out_list (valset_from_proto L) ps = Ret vs" "vs \<noteq> []"
    and us: "our_cosmos_address L K sk = Ret a"
    and signed: "get_message_args K a (fee_of fee 500000000) (Suc (clock s)) = Inr args"
      "sign_std_msg K sk (map (valset_confirm_msg L ek a gid) vs) args MEMO = Inr b"
    and hz: "horizon s = None"
  shows "\<exists>r t. sign_valsets L K G sk a ek fee gid s = Some (Ret r, t) \<and> trace t = trace s @ [CosmosSendTransaction b]"
proof -
  let ?s1 = "s\<lparr>clock := Suc (clock s)\<rparr>"
  have ask: "get_oldest_unsigned_valsets L G a (get_prefix K) s = Some (Ret (Inr vs), ?s1)"
    using asked hz by (simp add: get_oldest_unsigned_valsets_def ask_def try_io_def bind_io_def query_io_def return_io_def lift_io_def)
  from broadcast_and_wait_sends [of K a "fee_of fee 500000000" ?s1 args sk "map (valset_confirm_msg L ek a gid) vs" b] signed hz obtain r t where
    "broadcast_and_wait K sk a (fee_of fee 500000000) (map (valset_confirm_msg L ek a gid) vs) ?s1 = Some (Ret r, t)"
    and tr: "trace t = trace s @ [CosmosSendTransaction b]" by auto
  then have "send_valset_confirms L K ek fee vs sk gid ?s1 = Some (Ret r, t)" by (simp add: send_valset_confirms_def us)
  with ask asked(4) tr show ?thesis by (simp add: sign_valsets_def bind_io_def return_io_def)
qed

end
