(* ===== verification/Contract.thy ===== *)
theory Contract
  imports Valsets
begin

text \<open>
  The end of the bridge the relayer talks to: how \<open>solidity/contracts/Gravity.sol\<close> checks the
  signatures it is sent.  The precompiled contracts of the EVM are parameters.  The theorems compare
  the power \<open>order_sigs\<close> accepts with the power the contract accepts.
\<close>

record evm =
  keccak256 :: "bytes \<Rightarrow> bytes"
  ecrecover :: "bytes \<Rightarrow> uint256 \<Rightarrow> uint256 \<Rightarrow> uint256 \<Rightarrow> eth_address"

definition ETHEREUM_SALT :: bytes where
  "ETHEREUM_SALT = 25 # map (\<lambda>c. of_nat (of_char c)) ''Ethereum Signed Message:'' @ [10, 51, 50]"

definition verifySig :: "evm \<Rightarrow> eth_address \<Rightarrow> bytes \<Rightarrow> uint256 \<Rightarrow> uint256 \<Rightarrow> uint256 \<Rightarrow> bool" where
  "verifySig E signer theHash v r s =
     (let messageDigest = keccak256 E (ETHEREUM_SALT @ theHash) in signer = ecrecover E messageDigest v r s)"

text \<open>The loop of \<open>checkValidatorSignatures\<close>; an access past the end of an array reverts, and
  Solidity 0.6 addition wraps.\<close>

fun check_loop :: "evm \<Rightarrow> bytes \<Rightarrow> uint256 \<Rightarrow> eth_address list \<Rightarrow> uint256 list \<Rightarrow> uint256 list \<Rightarrow> uint256 list \<Rightarrow> uint256 list \<Rightarrow>
    uint256 \<Rightarrow> string + uint256" where
  "check_loop E theHash powerThreshold [] ps vs rs ss cumulativePower = Inr cumulativePower"
| "check_loop E theHash powerThreshold (a # as) (p # ps) (v # vs) (r # rs) (s # ss) cumulativePower =
     (if v \<noteq> 0 then
        if \<not> verifySig E a theHash v r s then Inl ''Validator signature does not match.''
        else
          let cumulativePower = (cumulativePower + p) mod 2 ^ 256 in
          if cumulativePower > powerThreshold then Inr cumulativePower
          else check_loop E theHash powerThreshold as ps vs rs ss cumulativePower
      else check_loop E theHash powerThreshold as ps vs rs ss cumulativePower)"
| "check_loop E theHash powerThreshold (a # as) ps vs rs ss cumulativePower = Inl ''invalid opcode''"

definition checkValidatorSignatures :: "evm \<Rightarrow> eth_address list \<Rightarrow> uint256 list \<Rightarrow> uint256 list \<Rightarrow> uint256 list \<Rightarrow> uint256 list \<Rightarrow>
    bytes \<Rightarrow> uint256 \<Rightarrow> string + unit" where
  "checkValidatorSignatures E currentValidators currentPowers v r s theHash powerThreshold =
     try_sum (check_loop E theHash powerThreshold currentValidators currentPowers v r s 0) (\<lambda>cumulativePower.
     if cumulativePower > powerThreshold then Inr ()
     else Inl ''Submitted validator set signatures do not have enough power.'')"

text \<open>The threshold the deployment script passes to the constructor.\<close>

definition vote_power :: uint256 where
  "vote_power = 2834678415"


section \<open>The signatures the relayer sends\<close>

text \<open>What ties the library of the relayer to the EVM: a signature the library takes for valid has
  a non-zero \<open>v\<close>, and recovery agrees with the precompiled contract.\<close>

definition evm_recovers :: "clarity \<Rightarrow> evm \<Rightarrow> bool" where
  "evm_recovers C E \<longleftrightarrow>
     (\<forall>sig. signature_is_valid C sig \<longrightarrow> sig_v sig \<noteq> 0) \<and>
     (\<forall>sig digest a. signature_is_valid C sig \<longrightarrow> signature_recover C sig digest = Inr a \<longrightarrow>
        ecrecover E digest (sig_v sig) (sig_r sig) (sig_s sig) = a)"

definition sent_to_contract :: "evm \<Rightarrow> bytes \<Rightarrow> uint256 \<Rightarrow> gravity_signature list \<Rightarrow> string + unit" where
  "sent_to_contract E theHash powerThreshold gs =
     checkValidatorSignatures E (map gs_eth_address gs) (map (\<lambda>g. unat (gs_power g)) gs)
       (map gs_v gs) (map gs_r gs) (map gs_s gs) theHash powerThreshold"

lemma voted_signature:
  assumes E: "evm_recovers C E" and sound: "sound_vote C K (keccak256 E (ETHEREUM_SALT @ h)) sigs m"
  shows "gs_v (ordered_signature K sigs m) \<noteq> 0 \<longleftrightarrow> has_voted sigs m"
    and "has_voted sigs m \<Longrightarrow> verifySig E (gs_eth_address (ordered_signature K sigs m)) h
      (gs_v (ordered_signature K sigs m)) (gs_r (ordered_signature K sigs m)) (gs_s (ordered_signature K sigs m))"
  using assms
  by (auto simp: has_voted_def ordered_signature_def no_signature_def sound_vote_def verifySig_def evm_recovers_def
      split: option.splits)

text \<open>The loop stops early once the threshold is passed, so what it returns is compared with the
  threshold only.\<close>

lemma check_loop_power:
  assumes E: "evm_recovers C E" and sound: "list_all (sound_vote C K (keccak256 E (ETHEREUM_SALT @ h)) sigs) ms"
    and bound: "cum + member_power (has_voted sigs) ms < 2 ^ 256"
  shows "\<exists>p. check_loop E h thr (map gs_eth_address (map (ordered_signature K sigs) ms))
      (map (\<lambda>g. unat (gs_power g)) (map (ordered_signature K sigs) ms)) (map gs_v (map (ordered_signature K sigs) ms))
      (map gs_r (map (ordered_signature K sigs) ms)) (map gs_s (map (ordered_signature K sigs) ms)) cum = Inr p \<and>
    (cum \<le> thr \<longrightarrow> (thr < p \<longleftrightarrow> thr < cum + member_power (has_voted sigs) ms))"
  using sound bound
proof (induction ms arbitrary: cum)
  case (Cons m ms)
  note vote = voted_signature [OF E, of K h sigs m]
  show ?case
  proof (cases "has_voted sigs m")
    case True
    let ?c = "cum + unat (vm_power m)"
    from True Cons.prems(2) have b: "?c + member_power (has_voted sigs) ms < 2 ^ 256"
      by (simp add: member_power_def del: power_numeral)
    then have m: "?c mod 2 ^ 256 = ?c" by (intro mod_less) linarith
    from Cons.prems(1) vote True have v: "gs_v (ordered_signature K sigs m) \<noteq> 0"
      "verifySig E (gs_eth_address (ordered_signature K sigs m)) h (gs_v (ordered_signature K sigs m))
         (gs_r (ordered_signature K sigs m)) (gs_s (ordered_signature K sigs m))"
      by simp_all
    have pow: "member_power (has_voted sigs) (m # ms) = unat (vm_power m) + member_power (has_voted sigs) ms"
      using True by (simp add: member_power_def)
    show ?thesis
    proof (cases "thr < ?c")
      case True
      with v pow show ?thesis by (simp add: m Let_def del: power_numeral ordered_signature_address)
    next
      case False
      from Cons.IH [OF _ b] Cons.prems(1) False v pow show ?thesis
        by (simp add: m Let_def add.assoc del: power_numeral ordered_signature_address)
    qed
  next
    case False
    with Cons.prems vote have v: "gs_v (ordered_signature K sigs m) = 0" by simp
    have pow: "member_power (has_voted sigs) (m # ms) = member_power (has_voted sigs) ms"
      using False by (simp add: member_power_def)
    from Cons.IH [of cum] Cons.prems v pow show ?thesis by (simp del: power_numeral)
  qed
qed (simp add: member_power_def)

lemma contract_verdict:
  assumes E: "evm_recovers C E" and v: "normalized v"
    and ok: "order_sigs C K v (keccak256 E (ETHEREUM_SALT @ h)) signatures = Ret (Inr gs)"
  shows "sent_to_contract E h thr gs =
    (if thr < unat (voted_power K v signatures) then Inr ()
     else Inl ''Submitted validator set signatures do not have enough power.'')"
proof -
  let ?sigs = "get_hashmap K signatures"
  from ok have sound: "list_all (sound_vote C K (keccak256 E (ETHEREUM_SALT @ h)) ?sigs) (vs_members v)"
    and gs: "gs = map (ordered_signature K ?sigs) (vs_members v)"
    by (simp_all add: order_sigs_Ok_iff)
  have p: "unat (voted_power K v signatures) = member_power (has_voted ?sigs) (vs_members v)"
    unfolding voted_power_def by (rule unat_power_where [OF v])
  have "0 + member_power (has_voted ?sigs) (vs_members v) \<le> u32_MAX"
    using member_power_le v unfolding normalized_def add_0 by (rule le_trans)
  also have "u32_MAX < 2 ^ 256" by simp
  finally have "0 + member_power (has_voted ?sigs) (vs_members v) < 2 ^ 256" .
  from check_loop_power [OF E sound this, of thr] show ?thesis
    unfolding sent_to_contract_def checkValidatorSignatures_def gs p by auto
qed

text \<open>C2: for a normalised validator set, the signature list \<open>order_sigs\<close> lets pass is accepted by the
  contract that was deployed with \<open>vote_power\<close> exactly when the power behind it is not in the gap
  between the two thresholds; inside the gap the relayer sends a transaction that reverts.\<close>

theorem relayed_signatures_accepted:
  assumes "evm_recovers C E" "normalized v"
    and "order_sigs C K v (keccak256 E (ETHEREUM_SALT @ h)) signatures = Ret (Inr gs)"
  shows "sent_to_contract E h vote_power gs = Inr () \<longleftrightarrow> unat (voted_power K v signatures) \<notin> {ACCEPTED_POWER..vote_power}"
  using contract_verdict [OF assms, of vote_power] assms(3) by (auto simp: order_sigs_Ok_iff)

end
