(* ===== verification/Quorum.thy ===== *)
theory Quorum
  imports Cosmos Contract
begin

text \<open>
  From the signer to the contract.  A confirmation that \<open>send_valset_confirms\<close>,
  \<open>send_batch_confirm\<close> or \<open>send_logic_call_confirm\<close> puts on the Cosmos chain is parsed by the
  relayer to a confirmation under the address of the signing key whose signature recovers to it; so
  \<open>order_sigs\<close> never panics on such confirmations, and accepts them exactly when the keys that
  signed hold enough power.
\<close>

text \<open>What one crate writes in hex the other reads back: the bytes of a signature, and any bytes.\<close>

definition signing_laws :: "libs \<Rightarrow> bool" where
  "signing_laws L \<longleftrightarrow> libs_parse L \<and> clarity_signatures (cl L) \<and>
     (\<forall>k m. signature_parse (cl L) (bytes_to_hex_str (ds L) (signature_to_bytes (cl L) (sign_ethereum_msg (cl L) k m))) =
        Inr (sign_ethereum_msg (cl L) k m)) \<and>
     (\<forall>bs. hex_str_to_bytes (cl L) (bytes_to_hex_str (ds L) bs) = Inr bs)"

text \<open>Reading a message of the chain back, with the conversions of the queries.\<close>

definition read_valset_confirm :: "libs \<Rightarrow> cosmos_msg \<Rightarrow> valset_confirm_response gresult outcome" where
  "read_valset_confirm L m =
     (case msg_value m of MsgValsetConfirm c \<Rightarrow> Ret (valset_confirm_response_try_from L c)
      | _ \<Rightarrow> Ret (Inl (ValidationError ''another message'')))"

definition read_batch_confirm :: "libs \<Rightarrow> cosmos_msg \<Rightarrow> batch_confirm_response gresult outcome" where
  "read_batch_confirm L m =
     (case msg_value m of MsgConfirmBatch c \<Rightarrow> Ret (batch_confirm_response_try_from L c)
      | _ \<Rightarrow> Ret (Inl (ValidationError ''another message'')))"

definition read_logic_call_confirm :: "libs \<Rightarrow> cosmos_msg \<Rightarrow> logic_call_confirm_response gresult outcome" where
  "read_logic_call_confirm L m =
     (case msg_value m of MsgConfirmLogicCall c \<Rightarrow> logic_call_confirm_response_try_from L c
      | _ \<Rightarrow> Ret (Inl (ValidationError ''another message'')))"

text \<open>The members one of the given keys belongs to.\<close>

definition signed_by :: "clarity \<Rightarrow> (eth_private_key \<times> cosmos_address) list \<Rightarrow> valset_member \<Rightarrow> bool" where
  "signed_by C signers m \<longleftrightarrow> (\<exists>(k, a) \<in> set signers. vm_eth_address m = Some (eth_key_to_address C k))"

text \<open>The contract between a signer and the relayer, for one message to sign.\<close>

locale confirmation =
  fixes L :: libs
    and dict :: "'t confirm"
    and confirm_msg :: "eth_private_key \<Rightarrow> cosmos_address \<Rightarrow> cosmos_msg outcome"
    and read :: "cosmos_msg \<Rightarrow> 't gresult outcome"
    and digest :: bytes
  assumes confirmed: "signing_laws L \<Longrightarrow>
    \<exists>m x. confirm_msg k a = Ret m \<and> read m = Ret (Inr x) \<and>
      get_eth_address dict x = eth_key_to_address (cl L) k \<and>
      signature_is_valid (cl L) (get_signature dict x) \<and>
      signature_recover (cl L) (get_signature dict x) digest = Inr (eth_key_to_address (cl L) k)"
begin

text \<open>A confirmation as the relayer reads it.\<close>

definition sound :: "'t \<Rightarrow> bool" where
  "sound x \<longleftrightarrow> signature_is_valid (cl L) (get_signature dict x) \<and>
     signature_recover (cl L) (get_signature dict x) digest = Inr (get_eth_address dict x)"

lemma read_all:
  assumes "signing_laws L"
  shows "\<exists>ms xs. map_out_list (\<lambda>(k, a). confirm_msg k a) signers = Ret ms \<and> map_try_list read ms = Ret (Inr xs) \<and>
    map (get_eth_address dict) xs = map (\<lambda>(k, a). eth_key_to_address (cl L) k) signers \<and> list_all sound xs"
proof (induction signers)
  case (Cons s signers)
  obtain k a where s: "s = (k, a)" by (cases s)
  from confirmed [OF assms] obtain m x where "confirm_msg k a = Ret m" "read m = Ret (Inr x)"
    "get_eth_address dict x = eth_key_to_address (cl L) k" "sound x"
    unfolding sound_def by metis
  moreover from Cons obtain ms xs where "map_out_list (\<lambda>(k, a). confirm_msg k a) signers = Ret ms"
    "map_try_list read ms = Ret (Inr xs)" "list_all sound xs"
    "map (get_eth_address dict) xs = map (\<lambda>(k, a). eth_key_to_address (cl L) k) signers" by blast
  ultimately show ?case by (auto simp: s)
qed simp

lemma sound_votes: "list_all sound xs \<Longrightarrow> list_all (sound_vote (cl L) dict digest (get_hashmap dict xs)) ms"
proof -
  assume "list_all sound xs"
  then have "sound_vote (cl L) dict digest (get_hashmap dict xs) m" for m
    by (auto simp: sound_vote_def sound_def list_all_iff dest!: get_hashmap_Some split: option.splits)
  then show ?thesis by (simp add: list_all_iff)
qed

lemma has_voted_iff:
  assumes "map (get_eth_address dict) xs = map (\<lambda>(k, a). eth_key_to_address (cl L) k) signers"
  shows "has_voted (get_hashmap dict xs) m \<longleftrightarrow> signed_by (cl L) signers m"
proof (cases "vm_eth_address m")
  case (Some b)
  have "get_hashmap dict xs b \<noteq> None \<longleftrightarrow> b \<in> set (map (get_eth_address dict) xs)"
    by (auto simp: get_hashmap_find find_None_iff)
  also have "\<dots> \<longleftrightarrow> b \<in> set (map (\<lambda>(k, a). eth_key_to_address (cl L) k) signers)" by (simp only: assms)
  finally show ?thesis by (auto simp: has_voted_def signed_by_def Some split: prod.splits)
qed (auto simp: has_voted_def signed_by_def)

text \<open>The outcome of \<open>order_sigs\<close> on the confirmations of a list of signers.\<close>

lemma quorum:
  assumes "signing_laws L" "signers \<noteq> []"
  shows "\<exists>ms xs. map_out_list (\<lambda>(k, a). confirm_msg k a) signers = Ret ms \<and> map_try_list read ms = Ret (Inr xs) \<and>
    order_sigs (cl L) dict v digest xs =
      (if unat (power_where (signed_by (cl L) signers) (vs_members v)) < ACCEPTED_POWER
       then Ret (Inl (ValidationError ''power voting! Can not execute on Ethereum!''))
       else Ret (Inr (map (ordered_signature dict (get_hashmap dict xs)) (vs_members v))))"
proof -
  from read_all [OF assms(1), of signers] obtain ms xs where x: "map_out_list (\<lambda>(k, a). confirm_msg k a) signers = Ret ms"
    "map_try_list read ms = Ret (Inr xs)" and eq: "map (get_eth_address dict) xs = map (\<lambda>(k, a). eth_key_to_address (cl L) k) signers"
    and sound: "list_all sound xs" by blast
  from eq assms(2) have ne: "xs \<noteq> []" by auto
  have "has_voted (get_hashmap dict xs) = signed_by (cl L) signers"
    by (rule ext) (rule has_voted_iff [OF eq])
  then have "voted_power dict v xs = power_where (signed_by (cl L) signers) (vs_members v)"
    by (simp add: voted_power_def)
  with x order_sigs_sound [OF ne sound_votes [OF sound]] show ?thesis by fastforce
qed

end

lemma parse_hex_signature:
  "signing_laws L \<Longrightarrow> parse_sig L (hex_signature L k m) = Inr (sign_ethereum_msg (cl L) k m)"
  by (simp add: parse_sig_def hex_signature_def signing_laws_def)

interpretation valset_confirmation: confirmation L valset_confirm "\<lambda>k a. Ret (valset_confirm_msg L k a gid v)"
  "read_valset_confirm L" "encode_valset_confirm_hashed (cl L) gid v" for L gid v
  by unfold_locales (simp add: read_valset_confirm_def valset_confirm_msg_def valset_confirm_response_try_from_def
      valset_confirm_def encode_valset_confirm_hashed_def parse_hex_signature signing_laws_def,
      simp add: clarity_signatures_def)

interpretation logic_call_confirmation: confirmation L logic_call_confirm "\<lambda>k a. Ret (logic_call_confirm_msg L k a gid c)"
  "read_logic_call_confirm L" "encode_logic_call_confirm_hashed (cl L) gid c" for L gid c
  by unfold_locales (simp add: read_logic_call_confirm_def logic_call_confirm_msg_def logic_call_confirm_response_try_from_def
      logic_call_confirm_def encode_logic_call_confirm_hashed_def parse_hex_signature signing_laws_def,
      simp add: clarity_signatures_def)

text \<open>A batch is signed when its checkpoint can be built, which is always.\<close>

definition batch_digest :: "libs \<Rightarrow> string \<Rightarrow> transaction_batch \<Rightarrow> bytes" where
  "batch_digest L gid b = (case encode_tx_batch_confirm_hashed (cl L) gid b of Ret h \<Rightarrow> h | Panic _ \<Rightarrow> [])"

lemma batch_digest: "encode_tx_batch_confirm_hashed (cl L) gid b = Ret (batch_digest L gid b)"
  using encode_tx_batch_confirm_Ret [of "cl L" gid b] by (auto simp: batch_digest_def encode_tx_batch_confirm_hashed_def)

interpretation batch_confirmation: confirmation L batch_confirm "\<lambda>k a. batch_confirm_msg L k a gid b"
  "read_batch_confirm L" "batch_digest L gid b" for L gid b
proof
  fix k a
  assume L: "signing_laws L"
  obtain m where m: "encode_tx_batch_confirm (cl L) gid b = Ret m" using encode_tx_batch_confirm_Ret by blast
  then have "batch_digest L gid b = get_ethereum_msg_hash (cl L) m"
    by (simp add: batch_digest_def encode_tx_batch_confirm_hashed_def)
  with L m show "\<exists>m x. batch_confirm_msg L k a gid b = Ret m \<and> read_batch_confirm L m = Ret (Inr x) \<and>
      get_eth_address batch_confirm x = eth_key_to_address (cl L) k \<and>
      signature_is_valid (cl L) (get_signature batch_confirm x) \<and>
      signature_recover (cl L) (get_signature batch_confirm x) (batch_digest L gid b) = Inr (eth_key_to_address (cl L) k)"
    by (simp add: read_batch_confirm_def batch_confirm_msg_def batch_confirm_response_try_from_def batch_confirm_def
        parse_hex_signature signing_laws_def) (simp add: clarity_signatures_def)
qed

section \<open>What the components promise together\<close>

text \<open>C1: confirmations of a validator set that signers put on the chain are parsed by the relayer,
  never make it panic, and are accepted exactly when the members the signing keys belong to hold the
  accepted power.\<close>

theorem valset_quorum:
  assumes "signing_laws L" "signers \<noteq> []"
  shows "\<exists>ms xs. map_out_list (\<lambda>(k, a). Ret (valset_confirm_msg L k a gid v)) signers = Ret ms \<and> map_try_list (read_valset_confirm L) ms = Ret (Inr xs) \<and>
    order_sigs (cl L) valset_confirm current (encode_valset_confirm_hashed (cl L) gid v) xs =
      (if unat (power_where (signed_by (cl L) signers) (vs_members current)) < ACCEPTED_POWER
       then Ret (Inl (ValidationError ''power voting! Can not execute on Ethereum!''))
       else Ret (Inr (map (ordered_signature valset_confirm (get_hashmap valset_confirm xs)) (vs_members current))))"
  using assms by (rule valset_confirmation.quorum)

text \<open>The same for confirmations of a batch.\<close>

lemma batch_quorum:
  assumes "signing_laws L" "signers \<noteq> []"
  shows "\<exists>ms xs. map_out_list (\<lambda>(k, a). batch_confirm_msg L k a gid b) signers = Ret ms \<and> map_try_list (read_batch_confirm L) ms = Ret (Inr xs) \<and>
    order_sigs (cl L) batch_confirm current (batch_digest L gid b) xs =
      (if unat (power_where (signed_by (cl L) signers) (vs_members current)) < ACCEPTED_POWER
       then Ret (Inl (ValidationError ''power voting! Can not execute on Ethereum!''))
       else Ret (Inr (map (ordered_signature batch_confirm (get_hashmap batch_confirm xs)) (vs_members current))))"
  using assms by (rule batch_confirmation.quorum)

end
