(* ===== verification/Reference.thy ===== *)
theory Reference
  imports Contract Env
begin

text \<open>
  A reference instance of the third party libraries.  It is not an implementation of them: it shows
  that the laws the theorems assume can hold together, and gives the concrete values on which the
  theorems are exercised.  Keys are their own addresses, a signature carries the key and the digest,
  and text forms are plain byte strings.
\<close>

definition string_bytes :: "string \<Rightarrow> bytes" where
  "string_bytes s = map (\<lambda>c. of_nat (of_char c)) s"

definition bytes_string :: "bytes \<Rightarrow> string" where
  "bytes_string bs = map (\<lambda>b. char_of (unat b)) bs"

lemma string_bytes_string [simp]: "string_bytes (bytes_string bs) = bs"
proof -
  have "of_nat (of_char (char_of (unat b))) = b" for b :: u8
    using unsigned_less [of b, where 'a = nat] by (simp add: take_bit_nat_eq_self)
  then show ?thesis by (simp add: string_bytes_def bytes_string_def o_def)
qed

lemma length_string_bytes [simp]: "length (string_bytes s) = length s"
  by (simp add: string_bytes_def)

lemma length_bytes_string [simp]: "length (bytes_string bs) = length bs"
  by (simp add: bytes_string_def)

definition key_number :: "bytes \<Rightarrow> nat" where
  "key_number k = be_value (take 32 k)"

definition clarity_ref :: clarity where
  "clarity_ref = \<lparr>
     address_from_slice = (\<lambda>bs. if length bs = 20 then Inr (of_nat (be_value bs)) else Inl ''bad length''),
     address_parse = (\<lambda>s. case parse_uint (2 ^ 160 - 1) s of None \<Rightarrow> Inl ''bad address'' | Some n \<Rightarrow> Inr (of_nat n)),
     address_to_string = (\<lambda>a. dec_string (unat a)),
     address_cmp = default,
     signature_parse = (\<lambda>s. let bs = string_bytes s in
       if length bs = 65 then Inr \<lparr>sig_v = unat (bs ! 64), sig_r = be_value (take 32 bs), sig_s = be_value (take 32 (drop 32 bs))\<rparr>
       else Inl ''bad signature''),
     signature_to_bytes = (\<lambda>sig. be_bytes 32 (sig_r sig) @ be_bytes 32 (sig_s sig) @ [of_nat (sig_v sig)]),
     signature_is_valid = (\<lambda>sig. sig_v sig = 27 \<or> sig_v sig = 28),
     signature_recover = (\<lambda>sig digest. Inr (of_nat (if sig_s sig = key_number digest then sig_r sig else sig_r sig + 1))),
     encode_tokens = (\<lambda>ts. [of_nat (length ts)]),
     encode_call = (\<lambda>f ts. Inr (string_bytes f)),
     get_ethereum_msg_hash = (\<lambda>m. m),
     eth_key_to_address = (\<lambda>k. of_nat (key_number k)),
     sign_ethereum_msg = (\<lambda>k m. \<lparr>sig_v = 27, sig_r = key_number k, sig_s = key_number m\<rparr>),
     hex_str_to_bytes = (\<lambda>s. Inr (string_bytes s))\<rparr>"

definition cosmos_string :: "cosmos_address \<Rightarrow> string" where
  "cosmos_string a = replicate (length (cosmos_bytes a)) CHR ''1'' @ ''0'' @ bytes_string (cosmos_bytes a) @ cosmos_prefix a"

definition deep_space_ref :: deep_space where
  "deep_space_ref = \<lparr>
     cosmos_parse = (\<lambda>s. let n = length (takeWhile (\<lambda>c. c = CHR ''1'') s) in
       Inr (CosmosAddress (string_bytes (take n (drop (Suc n) s))) (drop (Suc (n + n)) s))),
     cosmos_to_string = cosmos_string,
     cosmos_to_bech32 = (\<lambda>a p. Inr (cosmos_string (CosmosAddress (cosmos_bytes a) p))),
     cosmos_from_bytes = (\<lambda>bs p. if length bs = 20 then Inr (CosmosAddress bs p) else Inl ''bad length''),
     cosmos_key_to_address = (\<lambda>k p. Inr (CosmosAddress k p)),
     cosmos_key_from_phrase = (\<lambda>s p. Inr (string_bytes s)),
     COSMOS_DEFAULT_PREFIX = ''cosmos'',
     bytes_to_hex_str = bytes_string\<rparr>"

definition libs_ref :: libs where
  "libs_ref = \<lparr>nm = num256_ref, cl = clarity_ref, ds = deep_space_ref\<rparr>"

definition evm_ref :: evm where
  "evm_ref = \<lparr>
     keccak256 = drop (length ETHEREUM_SALT),
     ecrecover = (\<lambda>digest v r s. of_nat (if s = key_number digest then r else r + 1))\<rparr>"

lemma key_number_less: "key_number k < 256 ^ 32"
proof -
  have "be_value (take 32 k) < 256 ^ length (take 32 k)" by (rule be_value_bound)
  also have "\<dots> \<le> 256 ^ 32" by (rule power_increasing) simp_all
  finally show ?thesis unfolding key_number_def .
qed

lemma clarity_ref_laws:
  "clarity_slices clarity_ref" "clarity_addresses clarity_ref" "clarity_order clarity_ref"
  "clarity_signatures clarity_ref" "clarity_no_empty clarity_ref"
proof -
  show "clarity_slices clarity_ref" by (simp add: clarity_slices_def clarity_ref_def)
  have "parse_uint (2 ^ 160 - 1) (dec_string (unat a)) = Some (unat a)" for a :: eth_address
    using unsigned_less [of a, where 'a = nat] by (intro parse_uint_dec_string) simp
  then show "clarity_addresses clarity_ref"
    by (simp add: clarity_addresses_def clarity_ref_def del: power_numeral)
  show "clarity_order clarity_ref" by (simp add: clarity_order_def clarity_ref_def)
  show "clarity_signatures clarity_ref"
    by (simp add: clarity_signatures_def clarity_ref_def)
  show "clarity_no_empty clarity_ref" by (simp add: clarity_no_empty_def clarity_ref_def parse_uint_def del: power_numeral)
qed

lemma deep_space_ref_laws: "deep_space_addresses deep_space_ref" "deep_space_bytes deep_space_ref"
proof -
  have "takeWhile (\<lambda>c. c = CHR ''1'') (replicate n CHR ''1'' @ CHR ''0'' # s) = replicate n CHR ''1''" for n s
    by (induction n) auto
  then show "deep_space_addresses deep_space_ref"
    by (simp add: deep_space_addresses_def deep_space_ref_def cosmos_string_def Let_def)
  show "deep_space_bytes deep_space_ref" by (simp add: deep_space_bytes_def deep_space_ref_def)
qed

lemma evm_ref_recovers: "evm_recovers clarity_ref evm_ref"
  by (auto simp: evm_recovers_def clarity_ref_def evm_ref_def)

lemma libs_ref_simps [simp]: "nm libs_ref = num256_ref" "cl libs_ref = clarity_ref" "ds libs_ref = deep_space_ref"
  by (simp_all add: libs_ref_def)

lemma libs_ref_laws: "libs_parse libs_ref" "libs_decode libs_ref"
  by (simp_all add: libs_parse_def libs_decode_def num256_ref_laws clarity_ref_laws deep_space_ref_laws)


section \<open>Nodes\<close>

text \<open>Nodes that answer every request at once, with nothing in particular; the examples replace the
  answers they need.\<close>

definition web3_ref :: web3 where
  "web3_ref = \<lparr>
     WETH_CONTRACT_ADDRESS = 0,
     eth_block_number = (\<lambda>_. Inr 100),
     eth_get_balance = (\<lambda>_ _. Inr 0),
     eth_get_transaction_count = (\<lambda>_ _. Inr 0),
     eth_gas_price = (\<lambda>_. Inr 1),
     eth_estimate_gas = (\<lambda>_ _. Inr 1),
     net_version = (\<lambda>_. Inr 1),
     simulate_transaction = (\<lambda>_ _ _ _ _. Inr [3]),
     send_transaction = (\<lambda>_ _ _ _ _ _ _. Inr 9),
     wait_for_transaction = (\<lambda>_ _ _. Inr ()),
     web3_check_for_events = (\<lambda>_ _ _ _ _. Inr []),
     check_erc20_approved = (\<lambda>_ _ _ _. Inr True),
     approve_erc20_transfers = (\<lambda>_ _ _ _ _. Inr 9),
     get_uniswap_price = (\<lambda>_ _ _ _ _ _. Inr 1),
     get_erc20_balance = (\<lambda>_ _ _. Inr 0),
     get_erc20_decimals = (\<lambda>_ _ _. Inr 18)\<rparr>"

definition contact_ref :: contact where
  "contact_ref = \<lparr>
     get_prefix = ''cosmos'',
     sign_std_msg = (\<lambda>sk msgs args memo. Inr (of_nat (length msgs) # sk)),
     get_balances = (\<lambda>_ _. Inr []),
     get_message_args = (\<lambda>a fee _. Inr \<lparr>ma_sequence = 0, ma_account_number = 0, ma_chain_id = ''chain'', ma_fee = fee\<rparr>),
     cosmos_send_transaction = (\<lambda>_ _. Inr \<lparr>txhash = ''hash'', tx_code = 0\<rparr>),
     wait_for_tx = (\<lambda>r _ _. Inr r),
     get_chain_status = (\<lambda>_. Inr (Moving 1)),
     wait_for_next_block = (\<lambda>_ _. Inr ())\<rparr>"

definition grpc_ref :: grpc where
  "grpc_ref = \<lparr>
     grpc_params = (\<lambda>_. Inr None),
     valset_request = (\<lambda>_ _. Inr None),
     current_valset_request = (\<lambda>_. Inr None),
     last_pending_valset_request_by_addr = (\<lambda>_ _. Inr []),
     last_valset_requests = (\<lambda>_. Inr []),
     valset_confirms_by_nonce = (\<lambda>_ _. Inr []),
     last_pending_batch_request_by_addr = (\<lambda>_ _. Inr None),
     outgoing_tx_batches = (\<lambda>_. Inr []),
     batch_confirms = (\<lambda>_ _ _. Inr []),
     last_event_nonce_by_addr = (\<lambda>_ _. Inr 0),
     outgoing_logic_calls = (\<lambda>_. Inr []),
     logic_confirms = (\<lambda>_ _ _. Inr []),
     last_pending_logic_call_by_addr = (\<lambda>_ _. Inr None),
     grpc_attestations = (\<lambda>_ _. Inr []),
     pending_send_to_eth = (\<lambda>_ _. Inr \<lparr>transfers_in_batches = [], unbatched_transfers = []\<rparr>),
     get_delegate_key_by_eth = (\<lambda>_ _. Inl ''not registered''),
     get_delegate_key_by_orchestrator = (\<lambda>_ _. Inl ''not registered''),
     denom_to_erc20 = (\<lambda>_ _. Inl ''no representation'')\<rparr>"

definition start_state :: "effect io_state" where
  "start_state = \<lparr>clock = 0, trace = [], horizon = None\<rparr>"

end
