(* ===== verification/Witnesses.thy ===== *)
theory Witnesses
  imports Orchestrator Quorum Reference
begin

text \<open>
  The theorems with hypotheses, applied to concrete inputs of the reference instance: each shows
  that the hypotheses can be met and what the theorem then says.
\<close>

section \<open>Validator sets and signatures\<close>

text \<open>A validator set of two members, of which the first, with the key \<open>[1]\<close>, holds the power
  \<open>p\<close>.\<close>

definition two_members :: "u64 \<Rightarrow> valset" where
  "two_members p = \<lparr>vs_nonce = 3, vs_members = [\<lparr>vm_power = p, vm_eth_address = Some 1\<rparr>, \<lparr>vm_power = 5, vm_eth_address = Some 2\<rparr>],
     vs_reward_amount = 0, vs_reward_token = None\<rparr>"

definition first_confirms :: "bytes \<Rightarrow> valset_confirm_response list" where
  "first_confirms m = [\<lparr>vcr_orchestrator = CosmosAddress [1] ''cosmos'', vcr_eth_address = 1, vcr_nonce = 4,
     vcr_eth_signature = sign_ethereum_msg clarity_ref [1] m\<rparr>]"

lemma key_number_single: "key_number [b] = unat b"
  by (simp add: key_number_def be_value_def)

lemma normalized_two_members: "unat p \<le> 4294967290 \<Longrightarrow> normalized (two_members p)"
  by (simp add: normalized_def two_members_def member_power_def)

lemma voted_first: "voted_power valset_confirm (two_members p) (first_confirms m) = p"
  by (simp add: voted_power_def two_members_def first_confirms_def power_where_def get_hashmap_def valset_confirm_def has_voted_def)

lemma sound_first: "list_all (sound_vote clarity_ref valset_confirm m (get_hashmap valset_confirm (first_confirms m))) (vs_members (two_members p))"
  by (simp add: two_members_def first_confirms_def sound_vote_def get_hashmap_def valset_confirm_def clarity_ref_def key_number_single)

lemma order_first:
  assumes "ACCEPTED_POWER \<le> unat p"
  shows "\<exists>gs. order_sigs clarity_ref valset_confirm (two_members p) m (first_confirms m) = Ret (Inr gs)"
proof -
  have "first_confirms m \<noteq> []" by (simp add: first_confirms_def)
  with assms show ?thesis unfolding order_sigs_Ok_iff voted_first by (simp only: sound_first) blast
qed

lemma evm_ref_digest: "keccak256 evm_ref (ETHEREUM_SALT @ h) = h"
  by (simp add: evm_ref_def)

theorem relayed_signatures_accepted_witness:
  "\<exists>gs. order_sigs clarity_ref valset_confirm (two_members 3000000000) (keccak256 evm_ref (ETHEREUM_SALT @ [7])) (first_confirms [7]) = Ret (Inr gs) \<and>
     sent_to_contract evm_ref [7] vote_power gs = Inr ()"
proof -
  obtain gs where gs: "order_sigs clarity_ref valset_confirm (two_members 3000000000) (keccak256 evm_ref (ETHEREUM_SALT @ [7])) (first_confirms [7]) = Ret (Inr gs)"
    using order_first [of 3000000000 "[7]"] by (auto simp: evm_ref_digest ACCEPTED_POWER_def)
  from relayed_signatures_accepted [OF evm_ref_recovers normalized_two_members gs]
  have "sent_to_contract evm_ref [7] vote_power gs = Inr ()"
    unfolding voted_first by (simp add: ACCEPTED_POWER_def vote_power_def)
  with gs show ?thesis by blast
qed

lemma signing_laws_ref: "signing_laws libs_ref"
  by (simp add: signing_laws_def libs_ref_laws clarity_ref_laws)
    (simp add: clarity_ref_def deep_space_ref_def nth_append Let_def be_value_be_bytes_id [OF key_number_less] del: power_numeral)

theorem valset_quorum_witness:
  "\<exists>ms xs. map_out_list (\<lambda>(k, a). Ret (valset_confirm_msg libs_ref k a ''id'' (two_members 7))) [([1], CosmosAddress [1] ''cosmos'')] = Ret ms \<and>
     map_try_list (read_valset_confirm libs_ref) ms = Ret (Inr xs) \<and>
     order_sigs clarity_ref valset_confirm (two_members 7) (encode_valset_confirm_hashed clarity_ref ''id'' (two_members 7)) xs =
       Ret (Inl (ValidationError ''power voting! Can not execute on Ethereum!''))"
proof -
  let ?s = "[([1], CosmosAddress [1] ''cosmos'')] :: (eth_private_key \<times> cosmos_address) list"
  have "signed_by clarity_ref ?s \<lparr>vm_power = 7, vm_eth_address = Some 1\<rparr>"
    "\<not> signed_by clarity_ref ?s \<lparr>vm_power = 5, vm_eth_address = Some 2\<rparr>"
    by (simp_all add: signed_by_def clarity_ref_def key_number_single)
  then have "power_where (signed_by clarity_ref ?s) (vs_members (two_members 7)) = 7" by (simp add: two_members_def)
  with valset_quorum [OF signing_laws_ref, of ?s "''id''" "two_members 7" "two_members 7"] show ?thesis
    by (simp add: ACCEPTED_POWER_def)
qed

lemma batch_quorum_witness:
  "\<exists>ms xs. map_out_list (\<lambda>(k, a). batch_confirm_msg libs_ref k a ''id''
       \<lparr>batch_nonce = 1, batch_timeout = 2, batch_transactions = [], batch_total_fee = \<lparr>amount = 0, token_contract_address = 0\<rparr>, batch_token_contract = 0\<rparr>)
       [([1], CosmosAddress [1] ''cosmos'')] = Ret ms \<and>
     map_try_list (read_batch_confirm libs_ref) ms = Ret (Inr xs)"
  using batch_quorum [OF signing_laws_ref, of "[([1], CosmosAddress [1] ''cosmos'')]" "''id''"
    "\<lparr>batch_nonce = 1, batch_timeout = 2, batch_transactions = [], batch_total_fee = \<lparr>amount = 0, token_contract_address = 0\<rparr>, batch_token_contract = 0\<rparr>"]
  by blast

lemma status_partition_witness:
  "\<exists>st. get_signature_status clarity_ref valset_confirm (two_members 7) [9] (first_confirms [9]) = Ret (Inr st) \<and>
     unat (power_of_good_sigs st) + unat (power_of_nonvoters st) + unat (power_of_unset_keys st) = 12"
proof -
  obtain st where st: "get_signature_status clarity_ref valset_confirm (two_members 7) [9] (first_confirms [9]) = Ret (Inr st)"
    using get_signature_status_sound [OF _ sound_first] by (auto simp: first_confirms_def)
  with status_partition [OF st normalized_two_members] show ?thesis
    by (simp add: two_members_def member_power_def)
qed

theorem power_diff_metric_witness:
  "\<exists>d. power_diff (two_members 7) (two_members 9) = Ret d \<and> power_diff (two_members 9) (two_members 7) = Ret d \<and> 0 \<le> d \<and> d \<le> 2"
  using power_diff_metric [OF normalized_two_members normalized_two_members, of 7 9] by auto

lemma valsets_round_trip_witness:
  "map_out_list (valset_from_proto libs_ref) (map (valset_to_proto libs_ref) [two_members 7, two_members 9]) = Ret [two_members 7, two_members 9]"
  by (rule valsets_round_trip) (simp add: wf_valset_def libs_ref_laws clarity_ref_laws two_members_def)

section \<open>Conversions and events\<close>

definition small_batch :: transaction_batch where
  "small_batch = \<lparr>batch_nonce = 1, batch_timeout = 200,
     batch_transactions = [\<lparr>tx_id = 1, tx_sender = CosmosAddress [1] ''cosmos'', tx_destination = 2,
       tx_erc20_token = \<lparr>amount = 10, token_contract_address = 5\<rparr>, tx_erc20_fee = \<lparr>amount = 3, token_contract_address = 5\<rparr>\<rparr>],
     batch_total_fee = \<lparr>amount = 3, token_contract_address = 5\<rparr>, batch_token_contract = 5\<rparr>"

definition small_call :: logic_call where
  "small_call = \<lparr>lc_transfers = [\<lparr>amount = 10, token_contract_address = 5\<rparr>], lc_fees = [\<lparr>amount = 3, token_contract_address = 5\<rparr>],
     lc_logic_contract_address = 6, lc_payload = [1], lc_timeout = 200, lc_invalidation_id = [2], lc_invalidation_nonce = 1\<rparr>"

theorem batches_round_trip_witness:
  "map_try_list (transaction_batch_try_from libs_ref) (map (transaction_batch_to_proto libs_ref) [small_batch]) = Ret (Inr [small_batch]) \<and>
   map_try_list (\<lambda>p. Ret (logic_call_try_from libs_ref p)) (map (logic_call_to_proto libs_ref) [small_call]) = Ret (Inr [small_call])"
  by (rule batches_round_trip)
    (simp_all add: small_batch_def small_call_def wf_transaction_batch_def wf_logic_call_def wf_batch_transaction_def
      wf_erc20_token_def total_fees_def num256_ref_laws libs_ref_laws)

definition some_update :: valset_updated_event where
  "some_update = \<lparr>vu_valset_nonce = 4, vu_event_nonce = 2, vu_block_height = 90, vu_reward_amount = 0, vu_reward_token = None,
     vu_members = vs_members (two_members 7)\<rparr>"

definition some_deposit :: send_to_cosmos_event where
  "some_deposit = \<lparr>sc_erc20 = 5, sc_sender = 2, sc_destination = CosmosAddress (replicate 20 1) ''cosmos'', sc_amount = 1000,
     sc_event_nonce = 3, sc_block_height = 91\<rparr>"

definition some_withdrawal :: transaction_batch_executed_event where
  "some_withdrawal = \<lparr>be_batch_nonce = 1, be_block_height = 92, be_erc20 = 5, be_event_nonce = 2\<rparr>"

definition some_deployment :: erc20_deployed_event where
  "some_deployment = \<lparr>ed_cosmos_denom = ''unom'', ed_erc20_address = 5, ed_name = ''NOM'', ed_symbol = ''N'', ed_decimals = 18,
     ed_event_nonce = 4, ed_block_height = 93\<rparr>"

theorem valset_updated_round_trip_witness:
  "valset_updated_from_logs libs_ref (map (valset_updated_log [0]) [some_update]) = Ret (Inr [some_update])"
  by (rule valset_updated_round_trip [OF libs_ref_laws(2)])
    (simp add: some_update_def two_members_def wf_valset_updated_def wf_valset_data_def)

lemma send_to_cosmos_round_trip_witness:
  "send_to_cosmos_from_logs libs_ref (map (send_to_cosmos_log [0]) [some_deposit]) = Ret (Inr [some_deposit])"
  by (rule send_to_cosmos_round_trip [OF libs_ref_laws(2)])
    (simp_all add: some_deposit_def wf_send_to_cosmos_def deep_space_ref_laws, simp add: deep_space_ref_def)

lemma transaction_batch_executed_round_trip_witness:
  "transaction_batch_executed_from_logs libs_ref (map (transaction_batch_executed_log [0]) [some_withdrawal]) = Ret (Inr [some_withdrawal])"
  by (rule transaction_batch_executed_round_trip [OF libs_ref_laws(2)])
    (simp add: some_withdrawal_def wf_transaction_batch_executed_def)

lemma erc20_deployed_round_trip_witness:
  "erc20_deployed_from_logs libs_ref (map (erc20_deployed_log [0]) [some_deployment]) = Ret (Inr [some_deployment])"
proof (rule erc20_deployed_round_trip [OF libs_ref_laws(2)])
  show "list_all wf_erc20_deployed [some_deployment]"
    by (simp add: some_deployment_def wf_erc20_deployed_def wf_string_def) code_simp
qed

definition some_data :: valset_data_bytes where
  "some_data = \<lparr>vd_event_nonce = 2, vd_reward_amount = 0, vd_reward_token = None, vd_members = vs_members (two_members 7)\<rparr>"

text \<open>A log that announces 99 powers and carries two.\<close>

theorem powers_length_ignored_witness:
  "decode_data_bytes libs_ref (abi_words (valset_data_words 99 some_data)) = Ret (Inr some_data)"
proof -
  have "wf_valset_data some_data" by (simp add: wf_valset_data_def two_members_def some_data_def)
  then show ?thesis by (rule powers_length_ignored [OF libs_ref_laws(2), of _ _ 2, THEN conjunct2]) simp_all
qed

lemma deposit_at_last_height_witness:
  "send_to_cosmos_from_log libs_ref (send_to_cosmos_log [0] (some_deposit\<lparr>sc_block_height := u64_MAX\<rparr>)) = Ret (Inr (some_deposit\<lparr>sc_block_height := u64_MAX\<rparr>)) \<and>
   is_panic (send_to_cosmos_claim libs_ref contact_ref (CosmosAddress [1] ''cosmos'') (some_deposit\<lparr>sc_block_height := u64_MAX\<rparr>))"
  by (rule deposit_at_last_height [OF libs_ref_laws(2)])
    (simp_all add: some_deposit_def wf_send_to_cosmos_def deep_space_ref_laws, simp add: deep_space_ref_def)


section \<open>Claims\<close>

lemma claim_height_ref: "h < u64_MAX \<Longrightarrow> claim_height libs_ref h = Ret (of_nat h)"
  by (rule claim_height_small) (simp add: num256_ref_laws)

lemma bech32_ref: "\<exists>b. bech32_of libs_ref a p = Ret b"
  by (simp add: bech32_of_def deep_space_ref_def)

lemma claims_ref:
  "\<exists>m. send_to_cosmos_claim libs_ref contact_ref a some_deposit = Ret m"
  "\<exists>m. batch_send_to_eth_claim libs_ref a some_withdrawal = Ret m"
proof -
  show "\<exists>m. send_to_cosmos_claim libs_ref contact_ref a some_deposit = Ret m"
    using bech32_ref [of "sc_destination some_deposit" "get_prefix contact_ref"] claim_height_ref [of 91]
    by (auto simp: send_to_cosmos_claim_def some_deposit_def)
  show "\<exists>m. batch_send_to_eth_claim libs_ref a some_withdrawal = Ret m"
    using claim_height_ref [of 92] by (simp add: batch_send_to_eth_claim_def some_withdrawal_def)
qed

text \<open>The deposit was logged first and has the higher nonce: the withdrawal is claimed before
  it.\<close>

theorem ethereum_claims_in_order_witness:
  "\<exists>out. ethereum_claims libs_ref contact_ref (CosmosAddress [1] ''cosmos'') [some_deposit] [some_withdrawal] [] [] [] = Ret out \<and>
     map (\<lambda>m. claim_event_nonce (msg_value m)) out = [Some 2, Some 3]"
proof -
  let ?a = "CosmosAddress [1] ''cosmos''"
  let ?E = "event_claims libs_ref contact_ref ?a [some_deposit] [some_withdrawal] [] [] []"
  obtain m1 m2 where m: "send_to_cosmos_claim libs_ref contact_ref ?a some_deposit = Ret m1"
    "batch_send_to_eth_claim libs_ref ?a some_withdrawal = Ret m2" using claims_ref by blast
  then obtain out where out: "ethereum_claims libs_ref contact_ref ?a [some_deposit] [some_withdrawal] [] [] [] = Ret out"
    by (simp add: ethereum_claims_pairs event_claims_def)
  have fst: "map fst ?E = [3, 2]" by (simp add: event_claims_def some_deposit_def some_withdrawal_def)
  have "sorted_list_of_set {2, 3 :: u64} = [2, 3]" by simp
  with ethereum_claims_in_order [OF out] out show ?thesis by (simp add: fst insert_commute)
qed

section \<open>Submissions and searches\<close>

lemma web3_ref_nonce: "horizon s = None \<Longrightarrow> get_valset_nonce libs_ref web3_ref c a s = Some (Ret (Inr 3), s\<lparr>clock := Suc (clock s)\<rparr>)"
proof -
  have "encode_call (cl libs_ref) ''state_lastValsetNonce()'' [] = Inr (string_bytes ''state_lastValsetNonce()'')"
    "simulate_transaction web3_ref c 0 (string_bytes ''state_lastValsetNonce()'') a (clock s) = Inr [3]"
    by (simp_all add: clarity_ref_def web3_ref_def)
  from nonce_query_result [OF _ _ this] show "horizon s = None \<Longrightarrow> ?thesis"
    by (simp add: get_valset_nonce_def num256_ref_laws be_value_def)
qed

lemma get_valset_nonce_result_witness:
  "get_valset_nonce libs_ref web3_ref 5 6 start_state = Some (Ret (Inr 3), \<lparr>clock = 1, trace = [], horizon = None\<rparr>)"
  using get_valset_nonce_result [of libs_ref "string_bytes ''state_lastValsetNonce()''" start_state web3_ref 5 6]
  by (simp add: num256_ref_laws clarity_ref_def web3_ref_def be_value_def start_state_def)

definition newer_valset :: valset where
  "newer_valset = (two_members 9)\<lparr>vs_nonce := 4\<rparr>"

lemma valset_update_sends_witness:
  "\<exists>data r t. send_eth_valset_update libs_ref web3_ref newer_valset (two_members 3000000000)
       (first_confirms (encode_valset_confirm_hashed clarity_ref ''id'' newer_valset)) 60 5 ''id'' [1] start_state = Some (r, t) \<and>
     trace t = [EthSendTransaction 5 data 0 1 [1] [gas_price_multiplier]]"
proof -
  let ?cs = "first_confirms (encode_valset_confirm_hashed clarity_ref ''id'' newer_valset)"
  obtain gs where "order_sigs clarity_ref valset_confirm (two_members 3000000000)
      (encode_valset_confirm_hashed clarity_ref ''id'' newer_valset) ?cs = Ret (Inr gs)"
    using order_first [of 3000000000] by (auto simp: ACCEPTED_POWER_def)
  then obtain data where data: "encode_valset_update_payload (cl libs_ref) newer_valset (two_members 3000000000) ?cs ''id'' = Ret (Inr data)"
    by (simp add: encode_valset_update_payload_def Let_def clarity_ref_def)
  have "vs_nonce (two_members 3000000000) < vs_nonce newer_valset" by (simp add: two_members_def newer_valset_def)
  moreover have "get_valset_nonce libs_ref web3_ref 5 (eth_key_to_address (cl libs_ref) [1]) start_state =
      Some (Ret (Inr (vs_nonce (two_members 3000000000))), \<lparr>clock = 1, trace = [], horizon = None\<rparr>)"
    by (simp add: web3_ref_nonce start_state_def two_members_def)
  moreover have "trace \<lparr>clock = 1, trace = [], horizon = None\<rparr> = trace start_state" by (simp add: start_state_def)
  moreover have "horizon \<lparr>clock = 1, trace = [], horizon = None\<rparr> = None" by simp
  ultimately obtain r t where "send_eth_valset_update libs_ref web3_ref newer_valset (two_members 3000000000) ?cs 60 5 ''id'' [1] start_state = Some (r, t)"
    "trace t = trace start_state @ [EthSendTransaction 5 data 0 (eth_key_to_address (cl libs_ref) [1]) [1] [gas_price_multiplier]]"
    using valset_update_sends [OF _ _ _ _ data] by blast
  moreover have "eth_key_to_address (cl libs_ref) [1] = 1" by (simp add: clarity_ref_def key_number_single)
  ultimately show ?thesis by (auto simp: start_state_def)
qed


theorem last_checked_loop_back_witness: "comes_back (loop_io (last_checked_step libs_ref web3_ref 5 1) 100)"
  by (rule last_checked_loop_back) (simp_all add: num256_ref_laws answers_logs_def web3_ref_def)

lemma check_if_valsets_differ_cases_witness:
  "check_if_valsets_differ clarity_ref (Some (two_members 7)) ((two_members 7)\<lparr>vs_members := rev (vs_members (two_members 7))\<rparr>) =
     Ret SortingDisagreement"
  by (subst check_if_valsets_differ_cases [OF clarity_ref_laws(3)]) (simp_all add: two_members_def)

text \<open>The node knows no validator set: the search from nonce one ends at zero with nothing, and
  nonce one was indeed not submittable.\<close>

theorem find_latest_valid_valset_newest_witness:
  "\<exists>s. find_latest_valid_valset libs_ref grpc_ref 1 (two_members 7) ''id'' start_state = Some (Ret (None, None, None), s) \<and>
     \<not> accepts_nonce libs_ref grpc_ref (two_members 7) ''id'' 1"
proof -
  have steady: "steady grpc_ref" by (simp add: steady_def grpc_ref_def)
  have none: "horizon s = None \<Longrightarrow> get_valset libs_ref grpc_ref n s = Some (Ret (Inr None), s\<lparr>clock := Suc (clock s)\<rparr>)" for n s
    by (simp add: get_valset_def ask_def io_simps grpc_ref_def)
  have "\<exists>s. find_latest_valid_valset libs_ref grpc_ref 1 (two_members 7) ''id'' start_state = Some (Ret (None, None, None), s)"
    unfolding find_latest_valid_valset_def
    by (subst loop_io.simps, subst loop_io.simps) (simp add: find_valid_step_def bind_io_def none return_io_def start_state_def)
  then obtain s where s: "find_latest_valid_valset libs_ref grpc_ref 1 (two_members 7) ''id'' start_state = Some (Ret (None, None, None), s)"
    by blast
  with find_latest_valid_valset_newest [OF steady s, of 1] show ?thesis by simp
qed

section \<open>The oracle\<close>

definition ref_address :: cosmos_address where
  "ref_address = CosmosAddress [1] ''cosmos''"

lemma our_address_ref: "our_cosmos_address libs_ref contact_ref [1] = Ret ref_address"
  by (simp add: our_cosmos_address_def deep_space_ref_def contact_ref_def ref_address_def)

theorem check_for_events_short_chain_witness:
  "\<exists>p t. check_for_events libs_ref (web3_ref\<lparr>eth_block_number := \<lambda>_. Inr 5\<rparr>) contact_ref grpc_ref 5 [1]
       \<lparr>denom = ''unom'', coin_amount = 1\<rparr> 0 start_state = Some (Panic p, t) \<and> trace t = trace start_state"
proof (rule check_for_events_short_chain [OF _ our_address_ref, where v = 1 and h = 5])
  show "5 < block_delay 1" by (simp add: block_delay_def)
qed (simp_all add: num256_ref_laws web3_ref_def start_state_def)

lemma claim_events_logic_call_witness:
  "\<exists>p. claim_events libs_ref contact_ref grpc_ref [1] ref_address \<lparr>denom = ''unom'', coin_amount = 1\<rparr> 100 [] [] [] []
     [\<lparr>topics = [], log_data = [], block_number = None\<rparr>] start_state = Some (Panic p, start_state)"
  by (rule claim_events_logic_call)
    (simp_all add: valset_updated_from_logs_def transaction_batch_executed_from_logs_def send_to_cosmos_from_logs_def
      erc20_deployed_from_logs_def)

text \<open>The chain has no event from us; an executed batch was logged: its claim is broadcast.\<close>

lemma claim_events_sends_witness:
  "\<exists>r t. claim_events libs_ref contact_ref grpc_ref [1] ref_address \<lparr>denom = ''unom'', coin_amount = 1\<rparr> 100 []
       [transaction_batch_executed_log [0] some_withdrawal] [] [] [] start_state = Some (r, t) \<and>
     trace t = [CosmosSendTransaction [1, 1]]"
proof -
  let ?fee = "\<lparr>denom = ''unom'', coin_amount = 1\<rparr>"
  obtain m where m: "batch_send_to_eth_claim libs_ref ref_address some_withdrawal = Ret m" using claims_ref by blast
  have "transaction_batch_executed_from_log libs_ref (transaction_batch_executed_log [0] some_withdrawal) = Ret (Inr some_withdrawal)"
    by (rule transaction_batch_executed_parses) (simp_all add: libs_ref_laws wf_transaction_batch_executed_def some_withdrawal_def)
  then have parsed: "transaction_batch_executed_from_logs libs_ref [transaction_batch_executed_log [0] some_withdrawal] = Ret (Inr [some_withdrawal])"
    by (simp add: transaction_batch_executed_from_logs_def)
  have nil: "valset_updated_from_logs libs_ref [] = Ret (Inr [])" "send_to_cosmos_from_logs libs_ref [] = Ret (Inr [])"
    "erc20_deployed_from_logs libs_ref [] = Ret (Inr [])"
    by (simp_all add: valset_updated_from_logs_def send_to_cosmos_from_logs_def erc20_deployed_from_logs_def)
  obtain b where b: "bech32_of libs_ref ref_address (get_prefix contact_ref) = Ret b" using bech32_ref by blast
  have new: "transaction_batch_executed_filter_by_event_nonce 0 [some_withdrawal] = [some_withdrawal]"
    by (simp add: transaction_batch_executed_filter_by_event_nonce_def some_withdrawal_def)
  have claims: "ethereum_claims libs_ref contact_ref ref_address (send_to_cosmos_filter_by_event_nonce 0 [])
      (transaction_batch_executed_filter_by_event_nonce 0 [some_withdrawal]) (erc20_deployed_filter_by_event_nonce 0 []) []
      (valset_updated_filter_by_event_nonce 0 []) = Ret [m]"
    unfolding new using m by (simp add: filter_nonce_defs ethereum_claims_pairs event_claims_def btree_values_def)
  have "\<exists>r t. claim_events libs_ref contact_ref grpc_ref [1] ref_address ?fee 100 []
       [transaction_batch_executed_log [0] some_withdrawal] [] [] [] start_state = Some (r, t) \<and>
     trace t = trace start_state @ [CosmosSendTransaction [1, 1]]"
    by (rule claim_events_sends [OF nil(1) parsed nil(2,3) b _ our_address_ref claims])
      (simp_all add: grpc_ref_def contact_ref_def start_state_def)
  then show ?thesis by (simp add: start_state_def)
qed


text \<open>A node that answers from the third request on.\<close>

lemma block_number_first_answer_witness:
  "get_block_number_with_retry (web3_ref\<lparr>eth_block_number := \<lambda>t. if t < 2 then Inl (BadResponse ''down'') else Inr 7\<rparr>) start_state =
     Some (Ret 7, \<lparr>clock = 3, trace = [], horizon = None\<rparr>)"
proof -
  have least: "(LEAST k. \<not> k < 2) = (2 :: nat)" by (rule Least_equality) auto
  have ex: "\<exists>k. \<not> k < (2 :: nat)" by (rule exI [of _ 2]) simp
  show ?thesis
    by (subst block_number_first_answer) (simp_all add: start_state_def if_distrib [of is_err] least ex cong: if_cong)
qed

section \<open>The gap between the relayer and the contract\<close>

text \<open>There are confirmations that \<open>order_sigs\<close> accepts and the contract, deployed with its
  threshold, refuses: the rounding of single precision lets the relayer pass a share of the power
  just below the 66 percent the contract asks for.\<close>

lemma accepted_but_refused:
  "\<exists>gs. order_sigs clarity_ref valset_confirm (two_members 2834678200) [7] (first_confirms [7]) = Ret (Inr gs) \<and>
     sent_to_contract evm_ref [7] vote_power gs = Inl ''Submitted validator set signatures do not have enough power.''"
proof -
  obtain gs where gs: "order_sigs clarity_ref valset_confirm (two_members 2834678200) [7] (first_confirms [7]) = Ret (Inr gs)"
    using order_first [of 2834678200 "[7]"] by (auto simp: ACCEPTED_POWER_def)
  then have eq: "gs = map (ordered_signature valset_confirm (get_hashmap valset_confirm (first_confirms [7]))) (vs_members (two_members 2834678200))"
    by (simp add: order_sigs_Ok_iff)
  have "sent_to_contract evm_ref [7] vote_power gs = Inl ''Submitted validator set signatures do not have enough power.''"
    unfolding eq
    by (simp add: two_members_def first_confirms_def valset_confirm_def get_hashmap_def ordered_signature_def no_signature_def
        sent_to_contract_def checkValidatorSignatures_def verifySig_def evm_ref_def clarity_ref_def key_number_single vote_power_def)
  with gs show ?thesis by blast
qed

end
