(* ===== verification/Connection.thy ===== *)
theory Connection
  imports Env "HOL-Library.Sublist"
begin

text \<open>
  Connecting to the nodes and the checks before the programs start:
  \<open>gravity_utils/src/connection_prep.rs\<close>.  \<open>create_rpc_connections\<close> tries the url it is given
  and, when that fails, two others: the two forms of the local address, or https instead of http.
  Parsing a url and opening a connection belong to other crates and are parameters (\<open>network\<close>).
\<close>

record url =
  url_scheme :: string
  url_host_str :: "string option"
  url_port :: "nat option"

record network =
  parse_url :: "string \<Rightarrow> url option"
  connect_grpc :: "string \<Rightarrow> nat \<Rightarrow> string + grpc"
  new_contact :: "string \<Rightarrow> duration \<Rightarrow> string \<Rightarrow> cosmos_grpc_error + contact"
  new_web3 :: "string \<Rightarrow> duration \<Rightarrow> web3"

record connections =
  con_web3 :: "web3 option"
  con_grpc :: "grpc option"
  con_contact :: "contact option"


section \<open>Strings of the standard library\<close>

definition trim_end_slashes :: "string \<Rightarrow> string" where
  "trim_end_slashes s = rev (dropWhile (\<lambda>c. c = CHR ''/'') (rev s))"

text \<open>Lower case of the ASCII letters.  No other character has one of the letters of
  \<open>localhost\<close> as its lower case.\<close>

definition lower_char :: "char \<Rightarrow> char" where
  "lower_char c = (let n = of_char c :: nat in if 65 \<le> n \<and> n \<le> 90 then char_of (n + 32) else c)"

definition to_lowercase :: "string \<Rightarrow> string" where
  "to_lowercase s = map lower_char s"

definition str_contains :: "string \<Rightarrow> string \<Rightarrow> bool" where
  "str_contains s part = sublist part s"


section \<open>Connections\<close>

definition check_scheme :: "url \<Rightarrow> unit outcome" where
  "check_scheme input =
     (if \<not> (url_scheme input = ''http'' \<or> url_scheme input = ''https'')
      then Panic ''has an invalid scheme, please chose http or https'' else Ret ())"

definition unwrap_or :: "'a option \<Rightarrow> 'a \<Rightarrow> 'a" where
  "unwrap_or x d = (case x of Some y \<Rightarrow> y | None \<Rightarrow> d)"

definition host_or_panic :: "url \<Rightarrow> string outcome" where
  "host_or_panic u = (case url_host_str u of Some body \<Rightarrow> Ret body | None \<Rightarrow> Panic ''url contains no host?'')"

text \<open>\<open>format!("{}://::1:{}", prefix, port)\<close> and its siblings.\<close>

definition ipv6_url :: "url \<Rightarrow> string" where
  "ipv6_url u = url_scheme u @ ''://::1:'' @ dec_string (unwrap_or (url_port u) 80)"

definition ipv4_url :: "url \<Rightarrow> string" where
  "ipv4_url u = url_scheme u @ ''://127.0.0.1:'' @ dec_string (unwrap_or (url_port u) 80)"

definition https_on_80_url :: "string \<Rightarrow> string" where
  "https_on_80_url body = ''https://'' @ body @ '':80''"

definition https_on_443_url :: "string \<Rightarrow> string" where
  "https_on_443_url body = ''https://'' @ body @ '':443''"

text \<open>The \<open>match\<close> on the two attempts: exactly one must have succeeded.\<close>

fun one_of_two :: "string \<Rightarrow> ('e + 'a) \<Rightarrow> string \<Rightarrow> ('e + 'a) \<Rightarrow> (string \<times> 'a) outcome" where
  "one_of_two u (Inr v) w (Inl _) = Ret (u, v)"
| "one_of_two u (Inl _) w (Inr v) = Ret (w, v)"
| "one_of_two u (Inr _) w (Inr _) = Panic ''This should never happen? Why did not things work the first time?''"
| "one_of_two u (Inl _) w (Inl _) = Panic ''Could not connect, are you sure it is running and on the specified port?''"

text \<open>Both halves of \<open>create_rpc_connections\<close> have the same shape: try an endpoint, then the
  fallbacks.  \<open>attempt\<close> is how a url is tried; the text that is searched for the word
  \<open>localhost\<close> is the given url for gRPC and the trimmed one for Ethereum.\<close>

definition try_fallbacks :: "(string \<Rightarrow> nat \<Rightarrow> 'e + 'a) \<Rightarrow> url \<Rightarrow> string \<Rightarrow> (string \<times> 'a) act" where
  "try_fallbacks attempt url searched =
     (if str_contains (to_lowercase searched) ''localhost'' then
        bind_io (query_io (attempt (ipv6_url url))) (\<lambda>ipv6.
        bind_io (query_io (attempt (ipv4_url url))) (\<lambda>ipv4.
        lift_io (one_of_two (ipv4_url url) ipv4 (ipv6_url url) ipv6)))
      else if url_port url = None \<or> url_scheme url = ''http'' then
        bind_io (lift_io (host_or_panic url)) (\<lambda>body.
        bind_io (query_io (attempt (https_on_80_url body))) (\<lambda>https_on_80.
        bind_io (query_io (attempt (https_on_443_url body))) (\<lambda>https_on_443.
        lift_io (one_of_two (https_on_80_url body) https_on_80 (https_on_443_url body) https_on_443))))
      else panic_io ''Could not connect! please check your url for errors'')"

definition cosmos_connection :: "network \<Rightarrow> string \<Rightarrow> string \<Rightarrow> duration \<Rightarrow> (grpc \<times> contact) act" where
  "cosmos_connection N address_prefix grpc_url timeout =
     bind_io (lift_io (unwrap_opt (parse_url N grpc_url))) (\<lambda>url.
     bind_io (lift_io (check_scheme url)) (\<lambda>_.
     let cosmos_grpc_url = trim_end_slashes grpc_url in
     bind_io (query_io (connect_grpc N cosmos_grpc_url)) (\<lambda>try_base.
     bind_io (case try_base of
         Inr val \<Rightarrow> return_io (cosmos_grpc_url, val)
       | Inl e \<Rightarrow> try_fallbacks (connect_grpc N) url grpc_url) (\<lambda>(u, grpc).
     bind_io (lift_io (unwrap_sum (new_contact N u timeout address_prefix))) (\<lambda>contact.
     return_io (grpc, contact))))))"

text \<open>A \<open>Web3\<close> object is created without a request; it is tested by asking for the block
  number.\<close>

definition web3_attempt :: "network \<Rightarrow> duration \<Rightarrow> string \<Rightarrow> nat \<Rightarrow> web3_error + web3" where
  "web3_attempt N timeout u n =
     (case eth_block_number (new_web3 N u timeout) n of Inr _ \<Rightarrow> Inr (new_web3 N u timeout) | Inl e \<Rightarrow> Inl e)"

definition ethereum_connection :: "network \<Rightarrow> string \<Rightarrow> duration \<Rightarrow> web3 act" where
  "ethereum_connection N eth_rpc_url timeout =
     bind_io (lift_io (unwrap_opt (parse_url N eth_rpc_url))) (\<lambda>url.
     bind_io (lift_io (check_scheme url)) (\<lambda>_.
     let eth_url = trim_end_slashes eth_rpc_url in
     bind_io (query_io (web3_attempt N timeout eth_url)) (\<lambda>try_base.
     case try_base of
       Inr base_web30 \<Rightarrow> return_io base_web30
     | Inl e \<Rightarrow> bind_io (try_fallbacks (web3_attempt N timeout) url eth_url) (\<lambda>(_, web3). return_io web3))))"

definition create_rpc_connections :: "network \<Rightarrow> string \<Rightarrow> string option \<Rightarrow> string option \<Rightarrow> duration \<Rightarrow> connections act" where
  "create_rpc_connections N address_prefix grpc_url eth_rpc_url timeout =
     bind_io (case grpc_url of
         None \<Rightarrow> return_io None
       | Some grpc_url \<Rightarrow> bind_io (cosmos_connection N address_prefix grpc_url timeout) (\<lambda>c. return_io (Some c))) (\<lambda>cosmos.
     bind_io (case eth_rpc_url of
         None \<Rightarrow> return_io None
       | Some eth_rpc_url \<Rightarrow> bind_io (ethereum_connection N eth_rpc_url timeout) (\<lambda>w. return_io (Some w))) (\<lambda>web3.
     return_io \<lparr>con_web3 = web3, con_grpc = map_option fst cosmos, con_contact = map_option snd cosmos\<rparr>))"

section \<open>Checks before the start\<close>

text \<open>The loop looks at the node every ten seconds and leaves when the chain moves.\<close>

definition wait_for_cosmos_node_ready :: "contact \<Rightarrow> unit act" where
  "wait_for_cosmos_node_ready K =
     retry_io (bind_io (query_io (get_chain_status K)) (\<lambda>res.
       case res of
         Inr Syncing \<Rightarrow> return_io (Inl ())
       | Inr WaitingToStart \<Rightarrow> return_io (Inl ())
       | Inr (Moving _) \<Rightarrow> return_io (Inr ())
       | Inl e \<Rightarrow> return_io (Inl ())))"

definition check_delegate_addresses :: "libs \<Rightarrow> grpc \<Rightarrow> eth_address \<Rightarrow> cosmos_address \<Rightarrow> string \<Rightarrow> unit gresult act" where
  "check_delegate_addresses L G delegate_eth_address delegate_orchestrator_address address_prefix =
     bind_io (query_io (get_delegate_key_by_eth G (address_to_string (cl L) delegate_eth_address))) (\<lambda>eth_response.
     bind_io (lift_io (unwrap_sum (cosmos_to_bech32 (ds L) delegate_orchestrator_address address_prefix))) (\<lambda>orchestrator_address.
     bind_io (query_io (get_delegate_key_by_orchestrator G orchestrator_address)) (\<lambda>orchestrator_response.
     case (eth_response, orchestrator_response) of
       (Inr e, Inr k) \<Rightarrow>
         bind_io (lift_io (unwrap_sum (cosmos_parse (ds L) (dke_orchestrator_address e)))) (\<lambda>req_delegate_orchestrator_address.
         bind_io (lift_io (unwrap_sum (address_parse (cl L) (dko_eth_address k)))) (\<lambda>req_delegate_eth_address.
         return_io (
           if req_delegate_eth_address \<noteq> delegate_eth_address \<and> req_delegate_orchestrator_address \<noteq> delegate_orchestrator_address
           then Inl (UnrecoverableError ''Etehreum orchestrator addresses incorrect'')
           else if req_delegate_eth_address \<noteq> delegate_eth_address
           then Inl (UnrecoverableError ''Ethereum address incorrect'')
           else if req_delegate_orchestrator_address \<noteq> delegate_orchestrator_address
           then Inl (UnrecoverableError ''Orchestrator Address Incorrect'')
           else if dke_validator_address e \<noteq> dko_validator_address k
           then Inl (UnrecoverableError ''Different validator addresses'')
           else Inr ())))
     | (Inl e, Inr _) \<Rightarrow> return_io (Inl (UnrecoverableError ''Your delegate Ethereum address is incorrect''))
     | (Inr _, Inl e) \<Rightarrow> return_io (Inl (UnrecoverableError ''Your delegate Cosmos address is incorrect''))
     | (Inl _, Inl _) \<Rightarrow> return_io (Inl (UnrecoverableError ''Delegate keys are not set! Please Register your delegate keys'')))))"

fun fee_in_balances :: "coin \<Rightarrow> coin list \<Rightarrow> unit gresult" where
  "fee_in_balances fee [] =
     Inl (UnrecoverableError ''You have specified that fees should be paid in a token the account has no balance of'')"
| "fee_in_balances fee (balance # balances) =
     (if str_contains (denom balance) (denom fee) then
        if coin_amount balance < coin_amount fee
        then Inl (ValidationError ''You have specified a fee that is greater than your balance of that coin!'')
        else Inr ()
      else fee_in_balances fee balances)"

definition check_for_fee :: "coin \<Rightarrow> cosmos_address \<Rightarrow> contact \<Rightarrow> unit gresult act" where
  "check_for_fee fee address K =
     bind_io (get_balances_with_retry address K) (\<lambda>balances. return_io (fee_in_balances fee balances))"

definition check_for_eth :: "eth_address \<Rightarrow> web3 \<Rightarrow> unit gresult act" where
  "check_for_eth address W =
     bind_io (get_eth_balances_with_retry address W) (\<lambda>balance.
     return_io (if balance = 0 then Inl (ValidationError ''You do not have any Ethereum!'') else Inr ()))"


section \<open>Which endpoint is used\<close>

lemma one_of_two_Ret:
  "one_of_two u a w b = Ret (x, v) \<longleftrightarrow> a = Inr v \<and> x = u \<and> is_err b \<or> is_err a \<and> b = Inr v \<and> x = w"
  by (cases a; cases b) auto

text \<open>A fallback url: a form of the local address with the scheme that was asked for or, for another host
  given without a port or without https, https on one of two ports.\<close>

definition fallback_url :: "url \<Rightarrow> string \<Rightarrow> string \<Rightarrow> bool" where
  "fallback_url url searched u \<longleftrightarrow>
     (if str_contains (to_lowercase searched) ''localhost'' then u \<in> {ipv4_url url, ipv6_url url}
      else (url_port url = None \<or> url_scheme url = ''http'') \<and>
        (\<exists>body. url_host_str url = Some body \<and> u \<in> {https_on_80_url body, https_on_443_url body}))"

lemma try_fallbacks_yields:
  "yields (\<lambda>(u, v). fallback_url url searched u \<and> (\<exists>t. attempt u t = Inr v)) (try_fallbacks attempt url searched)"
  unfolding try_fallbacks_def
  by (intro yields_if yields_bind_query yields_bind_lift yields_lift yields_panic)
    (auto simp: one_of_two_Ret fallback_url_def host_or_panic_def split: option.splits)

text \<open>With an https url no endpoint without https is ever tried.\<close>

lemma fallback_url_https:
  "fallback_url url searched u \<Longrightarrow> url_scheme url = ''https'' \<Longrightarrow> prefix ''https://'' u"
  by (auto simp: fallback_url_def ipv4_url_def ipv6_url_def https_on_80_url_def https_on_443_url_def split: if_splits)

text \<open>A connection the function returns was opened to the url given, less its trailing slashes, or to a
  fallback.\<close>

definition endpoint :: "network \<Rightarrow> string \<Rightarrow> string \<Rightarrow> bool" where
  "endpoint N given u \<longleftrightarrow> (\<exists>url. parse_url N given = Some url \<and> url_scheme url \<in> {''http'', ''https''} \<and>
     (u = trim_end_slashes given \<or>
      (\<exists>searched \<in> {given, trim_end_slashes given}. fallback_url url searched u) \<and> (url_scheme url = ''https'' \<longrightarrow> prefix ''https://'' u)))"

lemma check_scheme_Ret: "check_scheme u = Ret x \<longleftrightarrow> url_scheme u \<in> {''http'', ''https''}"
  by (auto simp: check_scheme_def)

lemma unwrap_Ret: "unwrap_opt x = Ret y \<longleftrightarrow> x = Some y" "unwrap_sum r = Ret y \<longleftrightarrow> r = Inr y"
  by (cases x; simp; fail) (cases r; simp; fail)

definition cosmos_endpoint :: "network \<Rightarrow> string \<Rightarrow> duration \<Rightarrow> string \<Rightarrow> grpc \<Rightarrow> contact \<Rightarrow> bool" where
  "cosmos_endpoint N p timeout given g k \<longleftrightarrow>
     (\<exists>u t. endpoint N given u \<and> connect_grpc N u t = Inr g \<and> new_contact N u timeout p = Inr k)"

definition ethereum_endpoint :: "network \<Rightarrow> duration \<Rightarrow> string \<Rightarrow> web3 \<Rightarrow> bool" where
  "ethereum_endpoint N timeout given w \<longleftrightarrow>
     (\<exists>u t h. endpoint N given u \<and> w = new_web3 N u timeout \<and> eth_block_number w t = Inr h)"

lemma endpoint_base: "parse_url N given = Some url \<Longrightarrow> url_scheme url \<in> {''http'', ''https''} \<Longrightarrow> endpoint N given (trim_end_slashes given)"
  by (auto simp: endpoint_def)

lemma endpoint_fallback:
  "parse_url N given = Some url \<Longrightarrow> url_scheme url \<in> {''http'', ''https''} \<Longrightarrow> fallback_url url searched u \<Longrightarrow>
     searched \<in> {given, trim_end_slashes given} \<Longrightarrow> endpoint N given u"
  using fallback_url_https by (auto simp: endpoint_def)

lemma endpoint_attempt:
  assumes "parse_url N given = Some url" "url_scheme url \<in> {''http'', ''https''}" "searched \<in> {given, trim_end_slashes given}"
  shows "yields (\<lambda>(u, v). endpoint N given u \<and> (\<exists>t. attempt u t = Inr v))
    (case attempt (trim_end_slashes given) n of
       Inr val \<Rightarrow> return_io (trim_end_slashes given, val)
     | Inl e \<Rightarrow> try_fallbacks attempt url searched)"
proof (rule yields_case_sum)
  show "yields (\<lambda>(u, v). endpoint N given u \<and> (\<exists>t. attempt u t = Inr v)) (try_fallbacks attempt url searched)"
    by (rule yields_weaken [OF try_fallbacks_yields]) (use assms endpoint_fallback in auto)
  show "yields (\<lambda>(u, v). endpoint N given u \<and> (\<exists>t. attempt u t = Inr v)) (return_io (trim_end_slashes given, val))"
    if "attempt (trim_end_slashes given) n = Inr val" for val
    by (rule yields_return) (use assms endpoint_base that in auto)
qed

lemma cosmos_connection_yields:
  "yields (\<lambda>(g, k). cosmos_endpoint N p timeout given g k) (cosmos_connection N p given timeout)"
  unfolding cosmos_connection_def Let_def
  by (intro yields_bind_lift yields_bind_query yields_bind [OF endpoint_attempt] yields_case_prod yields_return)
    (auto simp: unwrap_Ret check_scheme_Ret cosmos_endpoint_def)

lemma web3_attempt_endpoint:
  "endpoint N given u \<Longrightarrow> web3_attempt N timeout u t = Inr w \<Longrightarrow> ethereum_endpoint N timeout given w"
  by (auto simp: web3_attempt_def ethereum_endpoint_def split: sum.splits)

lemma ethereum_connection_yields: "yields (ethereum_endpoint N timeout given) (ethereum_connection N given timeout)"
proof -
  have fallback: "yields (ethereum_endpoint N timeout given)
      (bind_io (try_fallbacks (web3_attempt N timeout) url searched) (\<lambda>(_, web3). return_io web3))"
    if "parse_url N given = Some url" "url_scheme url \<in> {''http'', ''https''}" "searched \<in> {given, trim_end_slashes given}" for url searched
    by (rule yields_bind [OF try_fallbacks_yields])
      (use that in \<open>auto intro!: yields_return intro: web3_attempt_endpoint endpoint_fallback\<close>)
  have base: "ethereum_endpoint N timeout given w" if "parse_url N given = Some url" "url_scheme url \<in> {''http'', ''https''}"
    "web3_attempt N timeout (trim_end_slashes given) n = Inr w" for url n w
    using web3_attempt_endpoint [OF endpoint_base [OF that(1,2)] that(3)] .
  have rest: "yields (ethereum_endpoint N timeout given) (case web3_attempt N timeout (trim_end_slashes given) n of
       Inr base_web30 \<Rightarrow> return_io base_web30
     | Inl e \<Rightarrow> bind_io (try_fallbacks (web3_attempt N timeout) url (trim_end_slashes given)) (\<lambda>(_, web3). return_io web3))"
    if "unwrap_opt (parse_url N given) = Ret url" "check_scheme url = Ret x" for url x n
    using that by (intro yields_case_sum yields_return base fallback) (auto simp: unwrap_Ret check_scheme_Ret)
  show ?thesis unfolding ethereum_connection_def Let_def
    by (intro yields_bind_lift yields_bind_query) (rule rest)
qed

lemma create_rpc_connections_yields:
  "yields (\<lambda>c.
     (case (grpc_url, con_grpc c, con_contact c) of
        (None, None, None) \<Rightarrow> True
      | (Some given, Some g, Some k) \<Rightarrow> cosmos_endpoint N p timeout given g k
      | _ \<Rightarrow> False) \<and>
     (case (eth_rpc_url, con_web3 c) of
        (None, None) \<Rightarrow> True
      | (Some given, Some w) \<Rightarrow> ethereum_endpoint N timeout given w
      | _ \<Rightarrow> False))
     (create_rpc_connections N p grpc_url eth_rpc_url timeout)"
proof -
  let ?C = "\<lambda>c. case (grpc_url, c) of (None, None) \<Rightarrow> True
      | (Some given, Some (g, k)) \<Rightarrow> cosmos_endpoint N p timeout given g k | _ \<Rightarrow> False"
  let ?E = "\<lambda>w. case (eth_rpc_url, w) of (None, None) \<Rightarrow> True
      | (Some given, Some w) \<Rightarrow> ethereum_endpoint N timeout given w | _ \<Rightarrow> False"
  have "yields ?C (case grpc_url of None \<Rightarrow> return_io None
      | Some grpc_url \<Rightarrow> bind_io (cosmos_connection N p grpc_url timeout) (\<lambda>c. return_io (Some c)))"
    by (intro yields_case_option yields_return yields_bind [OF cosmos_connection_yields]) auto
  moreover have "yields ?E (case eth_rpc_url of None \<Rightarrow> return_io None
      | Some eth_rpc_url \<Rightarrow> bind_io (ethereum_connection N eth_rpc_url timeout) (\<lambda>w. return_io (Some w)))"
    by (intro yields_case_option yields_return yields_bind [OF ethereum_connection_yields]) auto
  ultimately show ?thesis unfolding create_rpc_connections_def
    by (elim yields_bind) (auto intro!: yields_return split: option.splits)
qed

text \<open>Every connection that is returned was opened to the url asked for, less trailing slashes, or
  to one of its fallbacks, and answered there; the two Cosmos connections share one endpoint; an
  https url is never replaced by one without https.  A connection is there exactly if it was asked
  for.\<close>

lemma create_rpc_connections_endpoints:
  "yields (\<lambda>c.
     (case (grpc_url, con_grpc c, con_contact c) of
        (None, None, None) \<Rightarrow> True
      | (Some given, Some g, Some k) \<Rightarrow> cosmos_endpoint N p timeout given g k
      | _ \<Rightarrow> False) \<and>
     (case (eth_rpc_url, con_web3 c) of
        (None, None) \<Rightarrow> True
      | (Some given, Some w) \<Rightarrow> ethereum_endpoint N timeout given w
      | _ \<Rightarrow> False))
     (create_rpc_connections N p grpc_url eth_rpc_url timeout)"
  by (rule create_rpc_connections_yields)


section \<open>Waiting and checking\<close>

fun moving :: "(cosmos_grpc_error + chain_status) \<Rightarrow> bool" where
  "moving (Inr (Moving _)) = True"
| "moving _ = False"

lemma node_ready_request:
  "wait_for_cosmos_node_ready K = retry_io (query_io (\<lambda>n. if moving (get_chain_status K n) then Inr () else Inl ()))"
proof -
  have "bind_io (query_io (get_chain_status K)) (\<lambda>res. case res of
      Inr Syncing \<Rightarrow> return_io (Inl ()) | Inr WaitingToStart \<Rightarrow> return_io (Inl ())
    | Inr (Moving _) \<Rightarrow> return_io (Inr ()) | Inl e \<Rightarrow> return_io (Inl ())) s =
    query_io (\<lambda>n. if moving (get_chain_status K n) then Inr () else Inl ()) s" for s :: "effect io_state"
    by (cases "get_chain_status K (clock s)" rule: moving.cases)
      (auto simp: bind_io_def query_io_def return_io_def split: chain_status.splits)
  then show ?thesis unfolding wait_for_cosmos_node_ready_def by presburger
qed

interpretation node_ready: stubborn "\<lambda>n. if moving (get_chain_status K n) then Inr () else Inl ()" "wait_for_cosmos_node_ready K" for K
  by unfold_locales (rule node_ready_request)

text \<open>The wait for the Cosmos node ends at the first moment at which the chain is moving, and does
  not end if there is none.\<close>

lemma wait_for_cosmos_node_ready_result:
  assumes "horizon s = None"
  shows "wait_for_cosmos_node_ready K s =
    (if \<exists>k. moving (get_chain_status K (clock s + k))
     then Some (Ret (), s\<lparr>clock := clock s + (LEAST k. moving (get_chain_status K (clock s + k))) + 1\<rparr>)
     else None)"
proof (cases "\<exists>k. moving (get_chain_status K (clock s + k))")
  case True
  let ?k = "LEAST k. moving (get_chain_status K (clock s + k))"
  from LeastI_ex [OF True] have "moving (get_chain_status K (clock s + ?k))" .
  moreover have "\<forall>j < ?k. \<not> moving (get_chain_status K (clock s + j))" using not_less_Least by blast
  ultimately show ?thesis using True node_ready.returns_first_answer [OF assms, of ?k K "()"] by simp
next
  case False
  with node_ready.waits_forever [OF assms, of K] show ?thesis by simp
qed

text \<open>The delegate keys are found in order exactly when the chain knows the Ethereum address and the
  orchestrator address, each is registered with the other, and both belong to the same validator.\<close>

lemma check_delegate_addresses_ok:
  assumes "horizon s = None"
  shows "(\<exists>t. check_delegate_addresses L G a c p s = Some (Ret (Inr ()), t)) \<longleftrightarrow>
    (\<exists>b e k. get_delegate_key_by_eth G (address_to_string (cl L) a) (clock s) = Inr e \<and>
       cosmos_to_bech32 (ds L) c p = Inr b \<and>
       get_delegate_key_by_orchestrator G b (Suc (clock s)) = Inr k \<and>
       cosmos_parse (ds L) (dke_orchestrator_address e) = Inr c \<and>
       address_parse (cl L) (dko_eth_address k) = Inr a \<and>
       dke_validator_address e = dko_validator_address k)"
proof (cases "cosmos_to_bech32 (ds L) c p")
  case (Inr b)
  then show ?thesis using assms
    by (cases "get_delegate_key_by_eth G (address_to_string (cl L) a) (clock s)";
        cases "get_delegate_key_by_orchestrator G b (Suc (clock s))")
      (auto simp: check_delegate_addresses_def bind_io_query return_io_def panic_io_def unwrap_Ret split: outcome.splits)
qed (use assms in \<open>simp add: check_delegate_addresses_def bind_io_query panic_io_def\<close>)

lemma fee_in_balances_find:
  "fee_in_balances fee bs =
     (case find (\<lambda>b. str_contains (denom b) (denom fee)) bs of
        None \<Rightarrow> Inl (UnrecoverableError ''You have specified that fees should be paid in a token the account has no balance of'')
      | Some b \<Rightarrow> if coin_amount b < coin_amount fee
          then Inl (ValidationError ''You have specified a fee that is greater than your balance of that coin!'') else Inr ())"
  by (induction bs) auto

text \<open>C39: the balance that is compared with the fee is the first whose denomination contains the name of
  the fee's denomination; so a fee is accepted for an account that has none of its token, if the name
  of another token the account has contains it.\<close>

theorem check_for_fee_other_token:
  assumes "horizon s = None" "get_balances K a (clock s) = Inr (\<lparr>denom = pre @ d @ post, coin_amount = n\<rparr> # bs)" "m \<le> n"
  shows "check_for_fee \<lparr>denom = d, coin_amount = m\<rparr> a K s = Some (Ret (Inr ()), s\<lparr>clock := Suc (clock s)\<rparr>)"
proof -
  have "get_balances_with_retry a K s = Some (Ret (\<lparr>denom = pre @ d @ post, coin_amount = n\<rparr> # bs), s\<lparr>clock := Suc (clock s)\<rparr>)"
    using balances_retry.returns_first_answer [OF assms(1), of 0] assms(2) by simp
  moreover have "str_contains (pre @ d @ post) d" by (simp add: str_contains_def)
  ultimately show ?thesis using assms(3) by (simp add: check_for_fee_def bind_io_def return_io_def)
qed

end
