(* ===== verification/Key_Store.thy ===== *)
theory Key_Store
  imports Relayer
begin

text \<open>
  The files of the command line tool: \<open>nabt/src/config.rs\<close> and \<open>nabt/src/keys.rs\<close>.  The file
  system is an explicit state that the functions take and return, so that what one command writes is
  what the next one reads; the TOML library is a parameter.  Paths are lists of components, all of
  them valid UTF-8.
\<close>

section \<open>The file system\<close>

datatype node = Directory | File string

type_synonym path = "string list"
type_synonym fs = "path \<rightharpoonup> node"

text \<open>What the operating system refuses, for reasons the program does not see.\<close>

record disk =
  write_denied :: "path \<Rightarrow> bool"
  read_denied :: "path \<Rightarrow> bool"

definition path_join :: "path \<Rightarrow> string \<Rightarrow> path" where
  "path_join p name = p @ [name]"

definition with_file_name :: "path \<Rightarrow> string \<Rightarrow> path" where
  "with_file_name p name = butlast p @ [name]"

definition path_exists :: "fs \<Rightarrow> path \<Rightarrow> bool" where
  "path_exists fs p \<longleftrightarrow> fs p \<noteq> None"

definition create_dir :: "disk \<Rightarrow> path \<Rightarrow> fs \<Rightarrow> string + fs" where
  "create_dir D p fs =
     (if write_denied D p \<or> path_exists fs p \<or> fs (butlast p) \<noteq> Some Directory then Inl ''cannot create directory''
      else Inr (fs(p \<mapsto> Directory)))"

definition fs_write :: "disk \<Rightarrow> path \<Rightarrow> string \<Rightarrow> fs \<Rightarrow> string + fs" where
  "fs_write D p contents fs =
     (if write_denied D p \<or> fs p = Some Directory \<or> fs (butlast p) \<noteq> Some Directory then Inl ''cannot write file''
      else Inr (fs(p \<mapsto> File contents)))"

definition read_to_string :: "disk \<Rightarrow> path \<Rightarrow> fs \<Rightarrow> string + string" where
  "read_to_string D p fs =
     (case fs p of
        Some (File contents) \<Rightarrow> if read_denied D p then Inl ''cannot read file'' else Inr contents
      | _ \<Rightarrow> Inl ''cannot read file'')"

text \<open>An operation of the tool: its result and the file system it leaves, also when it panics.\<close>

type_synonym 'a disk_op = "fs \<Rightarrow> 'a outcome \<times> fs"

definition bind_fs :: "'a disk_op \<Rightarrow> ('a \<Rightarrow> 'b disk_op) \<Rightarrow> 'b disk_op" where
  "bind_fs m f fs = (case m fs of (Ret x, fs') \<Rightarrow> f x fs' | (Panic p, fs') \<Rightarrow> (Panic p, fs'))"

definition return_fs :: "'a \<Rightarrow> 'a disk_op" where
  "return_fs x fs = (Ret x, fs)"

text \<open>\<open>.expect(message)\<close> on an operation that changes the file system.\<close>

definition expect_fs :: "(fs \<Rightarrow> string + fs) \<Rightarrow> string \<Rightarrow> unit disk_op" where
  "expect_fs m message fs = (case m fs of Inr fs' \<Rightarrow> (Ret (), fs') | Inl _ \<Rightarrow> (Panic message, fs))"

definition reading :: "(fs \<Rightarrow> 'a outcome) \<Rightarrow> 'a disk_op" where
  "reading m fs = (m fs, fs)"

lemmas disk_simps = bind_fs_def return_fs_def expect_fs_def reading_def


section \<open>Configuration and keys\<close>

definition CONFIG_NAME :: string where "CONFIG_NAME = ''config.toml''"
definition KEYS_NAME :: string where "KEYS_NAME = ''keys.json''"
definition CONFIG_FOLDER :: string where "CONFIG_FOLDER = ''.nabt''"

record key_storage =
  orchestrator_phrase :: "string option"
  ethereum_key :: "eth_private_key option"

definition default_key_storage :: key_storage where
  "default_key_storage = \<lparr>orchestrator_phrase = None, ethereum_key = None\<rparr>"

record toml =
  keys_to_toml :: "key_storage \<Rightarrow> string + string"
  keys_from_toml :: "string \<Rightarrow> string + key_storage"
  config_from_toml :: "string \<Rightarrow> string + gravity_bridge_tools_config"

definition newline :: string where "newline = [char_of (10 :: nat)]"

text \<open>The text of \<open>nabt/src/default-config.toml\<close>, which is part of the binary.\<close>

definition get_default_config :: string where
  "get_default_config =
     ''# Orchestrator configuration options'' @ newline @
     ''[orchestrator]'' @ newline @
     ''# If the built-in relayer is enabled, this relayer is configured in the [relayer] section'' @ newline @
     ''relayer_enabled = true'' @ newline @ newline @
     ''[relayer]'' @ newline @
     ''valset_market_enabled = false'' @ newline @
     ''batch_market_enabled = false'' @ newline @
     ''logic_call_market_enabled = false''"

definition config_file :: "path \<Rightarrow> path" where
  "config_file home_dir = with_file_name (path_join home_dir CONFIG_FOLDER) CONFIG_NAME"

definition keys_file :: "path \<Rightarrow> path" where
  "keys_file home_dir = with_file_name (path_join home_dir CONFIG_FOLDER) KEYS_NAME"

definition config_exists :: "path \<Rightarrow> fs \<Rightarrow> bool" where
  "config_exists home_dir fs \<longleftrightarrow>
     path_exists fs home_dir \<and> path_exists fs (config_file home_dir) \<and> path_exists fs (keys_file home_dir)"

definition init_config :: "toml \<Rightarrow> disk \<Rightarrow> path \<Rightarrow> unit gresult disk_op" where
  "init_config T D home_dir fs =
     (if path_exists fs home_dir then (Ret (Inl (ValidationError ''Directory already exists'')), fs)
      else
        bind_fs (expect_fs (create_dir D home_dir) ''Failed to create config directory!'') (\<lambda>_.
        bind_fs (expect_fs (fs_write D (path_join home_dir CONFIG_NAME) get_default_config) ''Unable to write config file'') (\<lambda>_.
        bind_fs (reading (\<lambda>_. unwrap_sum (keys_to_toml T default_key_storage))) (\<lambda>text.
        bind_fs (expect_fs (fs_write D (path_join home_dir KEYS_NAME) text) ''Unable to write config file'') (\<lambda>_.
        return_fs (Inr ()))))) fs)"

definition get_home_dir :: "path option \<Rightarrow> path option \<Rightarrow> path gresult" where
  "get_home_dir default_home home_arg =
     (case (default_home, home_arg) of
        (_, Some user_home) \<Rightarrow> Inr user_home
      | (Some default_home_dir, None) \<Rightarrow> Inr (path_join default_home_dir CONFIG_FOLDER)
      | (None, None) \<Rightarrow> Inl (UnrecoverableError ''Failed to automatically determine your home directory''))"

definition load_config :: "toml \<Rightarrow> disk \<Rightarrow> path \<Rightarrow> fs \<Rightarrow> gravity_bridge_tools_config gresult outcome" where
  "load_config T D home_dir fs =
     (if \<not> path_exists fs (config_file home_dir) then Ret (Inr default_gravity_bridge_tools_config)
      else
        bind_out (unwrap_sum (read_to_string D (config_file home_dir) fs)) (\<lambda>config.
        Ret (map_err (\<lambda>e. UnrecoverableError ''Invalid config!'') (config_from_toml T config))))"

definition load_keys :: "toml \<Rightarrow> disk \<Rightarrow> path \<Rightarrow> fs \<Rightarrow> key_storage gresult outcome" where
  "load_keys T D home_dir fs =
     (if \<not> path_exists fs (keys_file home_dir) then
        Ret (Inl (UnrecoverableError ''Keys file not detected, use `nabt init` to generate a config.''))
      else
        bind_out (unwrap_sum (read_to_string D (keys_file home_dir) fs)) (\<lambda>keys.
        Ret (map_err (\<lambda>e. UnrecoverableError ''Invalid keys!'') (keys_from_toml T keys))))"

definition save_keys :: "toml \<Rightarrow> disk \<Rightarrow> path \<Rightarrow> key_storage \<Rightarrow> unit disk_op" where
  "save_keys T D home_dir updated_keys =
     bind_fs (reading (\<lambda>_. unwrap_sum (keys_to_toml T updated_keys))) (\<lambda>text.
     expect_fs (fs_write D (path_join home_dir KEYS_NAME) text) ''Unable to write config file'')"

definition please_init :: gravity_error where
  "please_init = UnrecoverableError ''Please run `nabt init` before running this command!''"

text \<open>What \<open>show_keys\<close> prints: the two addresses.\<close>

definition show_keys :: "libs \<Rightarrow> toml \<Rightarrow> disk \<Rightarrow> path \<Rightarrow> string \<Rightarrow> fs \<Rightarrow> (cosmos_address option \<times> eth_address option) gresult outcome" where
  "show_keys L T D home_dir prefix fs =
     (if \<not> config_exists home_dir fs then Ret (Inl please_init)
      else
        try_out (load_keys T D home_dir fs) (\<lambda>keys.
        bind_out (case orchestrator_phrase keys of
            Some v \<Rightarrow>
              bind_out (unwrap_sum (cosmos_key_from_phrase (ds L) v '''')) (\<lambda>k.
              bind_out (unwrap_sum (cosmos_key_to_address (ds L) k prefix)) (\<lambda>address. Ret (Some address)))
          | None \<Rightarrow> Ret None) (\<lambda>orchestrator.
        Ret (Inr (orchestrator, map_option (eth_key_to_address (cl L)) (ethereum_key keys))))))"

definition set_eth_key :: "toml \<Rightarrow> disk \<Rightarrow> path \<Rightarrow> eth_private_key \<Rightarrow> unit gresult disk_op" where
  "set_eth_key T D home_dir k fs =
     (if \<not> config_exists home_dir fs then (Ret (Inl please_init), fs)
      else
        bind_fs (reading (load_keys T D home_dir)) (\<lambda>keys.
        case keys of
          Inl e \<Rightarrow> return_fs (Inl e)
        | Inr keys \<Rightarrow>
            bind_fs (save_keys T D home_dir (keys\<lparr>ethereum_key := Some k\<rparr>)) (\<lambda>_. return_fs (Inr ()))) fs)"

definition set_orchestrator_key :: "libs \<Rightarrow> toml \<Rightarrow> disk \<Rightarrow> path \<Rightarrow> string \<Rightarrow> unit gresult disk_op" where
  "set_orchestrator_key L T D home_dir phrase fs =
     (if \<not> config_exists home_dir fs then (Ret (Inl please_init), fs)
      else if is_err (cosmos_key_from_phrase (ds L) phrase '''') then
        (Ret (Inl (UnrecoverableError ''Invalid Cosmos mnemonic phrase'')), fs)
      else
        bind_fs (reading (load_keys T D home_dir)) (\<lambda>keys.
        case keys of
          Inl e \<Rightarrow> return_fs (Inl e)
        | Inr keys \<Rightarrow>
            bind_fs (save_keys T D home_dir (keys\<lparr>orchestrator_phrase := Some phrase\<rparr>)) (\<lambda>_. return_fs (Inr ()))) fs)"

section \<open>Reading back what was written\<close>

text \<open>The two ways in which the sources build the paths agree.\<close>

lemma config_paths [simp]:
  "config_file h = path_join h CONFIG_NAME" "keys_file h = path_join h KEYS_NAME"
  by (simp_all add: config_file_def keys_file_def with_file_name_def path_join_def)

lemma path_join_simps [simp]:
  "butlast (path_join h n) = h" "path_join h n = path_join h m \<longleftrightarrow> n = m" "path_join h n \<noteq> h" "h \<noteq> path_join h n"
  by (simp_all add: path_join_def)

lemma config_names [simp]: "CONFIG_NAME \<noteq> KEYS_NAME" "KEYS_NAME \<noteq> CONFIG_NAME"
  by (simp_all add: CONFIG_NAME_def KEYS_NAME_def)

text \<open>What the sources rely on: keys written as TOML are read back, and the default configuration
  file denotes the default configuration, as the test in \<open>config.rs\<close> asks.\<close>

definition toml_keys :: "toml \<Rightarrow> bool" where
  "toml_keys T \<longleftrightarrow> (\<forall>k. \<exists>body. keys_to_toml T k = Inr body \<and> keys_from_toml T body = Inr k)"

definition toml_config :: "toml \<Rightarrow> bool" where
  "toml_config T \<longleftrightarrow> config_from_toml T get_default_config = Inr default_gravity_bridge_tools_config"

text \<open>A home directory in which the key file can be written and read.\<close>

definition usable :: "toml \<Rightarrow> disk \<Rightarrow> path \<Rightarrow> fs \<Rightarrow> bool" where
  "usable T D h fs \<longleftrightarrow> toml_keys T \<and> fs h = Some Directory \<and> fs (path_join h KEYS_NAME) \<noteq> Some Directory \<and>
     \<not> write_denied D (path_join h KEYS_NAME) \<and> \<not> read_denied D (path_join h KEYS_NAME)"

text \<open>The interface of a store with one cell: what was saved last is loaded.\<close>

locale key_cell =
  fixes ready :: "'s \<Rightarrow> bool"
    and load :: "'s \<Rightarrow> 'k option"
    and save :: "'k \<Rightarrow> 's \<Rightarrow> 's"
  assumes load_save: "ready s \<Longrightarrow> load (save k s) = Some k"
    and ready_save: "ready s \<Longrightarrow> ready (save k s)"
begin

lemma ready_saves: "ready s \<Longrightarrow> ready (fold save ks s)"
  by (induction ks arbitrary: s) (auto intro: ready_save)

lemma load_last: "ready s \<Longrightarrow> load (fold save (ks @ [k]) s) = Some k"
  by (simp add: load_save ready_saves)

end

lemma save_keys_usable:
  assumes "usable T D h fs"
  obtains body where "keys_from_toml T body = Inr k" "save_keys T D h k fs = (Ret (), fs(path_join h KEYS_NAME \<mapsto> File body))"
proof -
  from assms obtain body where "keys_to_toml T k = Inr body" "keys_from_toml T body = Inr k"
    unfolding usable_def toml_keys_def by blast
  with assms show thesis
    by (intro that [of body]) (simp_all add: save_keys_def disk_simps fs_write_def usable_def)
qed

lemma load_keys_written:
  "fs (path_join h KEYS_NAME) = Some (File body) \<Longrightarrow> keys_from_toml T body = Inr k \<Longrightarrow> \<not> read_denied D (path_join h KEYS_NAME) \<Longrightarrow>
     load_keys T D h fs = Ret (Inr k)"
  by (simp add: load_keys_def read_to_string_def path_exists_def)

definition stored_keys :: "toml \<Rightarrow> disk \<Rightarrow> path \<Rightarrow> fs \<Rightarrow> key_storage option" where
  "stored_keys T D h fs = (case load_keys T D h fs of Ret (Inr k) \<Rightarrow> Some k | _ \<Rightarrow> None)"

interpretation key_file: key_cell "usable T D h" "stored_keys T D h" "\<lambda>k fs. snd (save_keys T D h k fs)" for T D h
proof
  fix k fs
  assume u: "usable T D h fs"
  obtain body where t: "keys_from_toml T body = Inr k" "save_keys T D h k fs = (Ret (), fs(path_join h KEYS_NAME \<mapsto> File body))"
    by (rule save_keys_usable [OF u])
  from u t show "stored_keys T D h (snd (save_keys T D h k fs)) = Some k"
    by (simp add: stored_keys_def load_keys_written usable_def)
  from u t show "usable T D h (snd (save_keys T D h k fs))" by (simp add: usable_def)
qed

text \<open>The commands against the specification of the store as one value.\<close>

lemma save_keys_frame: "p \<noteq> path_join h KEYS_NAME \<Longrightarrow> snd (save_keys T D h k fs) p = fs p"
  by (auto simp: save_keys_def disk_simps fs_write_def split: outcome.splits sum.splits)

lemma save_keys_Ret: "usable T D h fs \<Longrightarrow> fst (save_keys T D h k fs) = Ret ()"
  by (erule save_keys_usable [where k = k]) simp

lemma config_exists_save: "config_exists h fs \<Longrightarrow> usable T D h fs \<Longrightarrow> config_exists h (snd (save_keys T D h k fs))"
  by (erule save_keys_usable [where k = k]) (auto simp: config_exists_def path_exists_def)

text \<open>C27: setting one of the two keys in an initialised home directory replaces that key and keeps the
  other, the configuration is still there, and no other file changes.\<close>

theorem set_keys_update_store:
  assumes "usable T D h fs" "config_exists h fs" "stored_keys T D h fs = Some keys"
    and "cosmos_key_from_phrase (ds L) phrase '''' = Inr sk"
  shows "(\<exists>fs1. set_eth_key T D h k fs = (Ret (Inr ()), fs1) \<and> stored_keys T D h fs1 = Some (keys\<lparr>ethereum_key := Some k\<rparr>) \<and>
      config_exists h fs1 \<and> (\<forall>p. p = path_join h KEYS_NAME \<or> fs1 p = fs p)) \<and>
    (\<exists>fs2. set_orchestrator_key L T D h phrase fs = (Ret (Inr ()), fs2) \<and>
      stored_keys T D h fs2 = Some (keys\<lparr>orchestrator_phrase := Some phrase\<rparr>) \<and>
      config_exists h fs2 \<and> (\<forall>p. p = path_join h KEYS_NAME \<or> fs2 p = fs p))"
proof -
  have load: "load_keys T D h fs = Ret (Inr keys)"
    using assms(3) by (auto simp: stored_keys_def split: outcome.splits sum.splits)
  have saved: "\<exists>fs'. save_keys T D h k fs = (Ret (), fs') \<and> stored_keys T D h fs' = Some k \<and> config_exists h fs' \<and>
      (\<forall>p. p = path_join h KEYS_NAME \<or> fs' p = fs p)" for k
    using save_keys_Ret [OF assms(1), of k] key_file.load_save [OF assms(1), of k] config_exists_save [OF assms(2,1), of k]
      save_keys_frame [of _ h T D k fs]
    by (metis prod.collapse)
  obtain fs1 where fs1: "save_keys T D h (keys\<lparr>ethereum_key := Some k\<rparr>) fs = (Ret (), fs1)"
    "stored_keys T D h fs1 = Some (keys\<lparr>ethereum_key := Some k\<rparr>)" "config_exists h fs1" "\<forall>p. p = path_join h KEYS_NAME \<or> fs1 p = fs p"
    using saved by blast
  obtain fs2 where fs2: "save_keys T D h (keys\<lparr>orchestrator_phrase := Some phrase\<rparr>) fs = (Ret (), fs2)"
    "stored_keys T D h fs2 = Some (keys\<lparr>orchestrator_phrase := Some phrase\<rparr>)" "config_exists h fs2"
    "\<forall>p. p = path_join h KEYS_NAME \<or> fs2 p = fs p"
    using saved by blast
  have "set_eth_key T D h k fs = (Ret (Inr ()), fs1)"
    using assms(2) load fs1(1) by (simp add: set_eth_key_def bind_fs_def reading_def return_fs_def)
  moreover have "set_orchestrator_key L T D h phrase fs = (Ret (Inr ()), fs2)"
    using assms(2,4) load fs2(1) by (simp add: set_orchestrator_key_def bind_fs_def reading_def return_fs_def)
  ultimately show ?thesis using fs1(2-) fs2(2-) by blast
qed

text \<open>Initialising a home directory that is not there yet, on a disk that lets us, gives one that
  exists for the other commands, with the default configuration and no keys.\<close>

lemma init_config_fresh:
  assumes "toml_keys T" "toml_config T" "fs h = None" "fs (butlast h) = Some Directory"
    and "fs (path_join h CONFIG_NAME) = None" "fs (path_join h KEYS_NAME) = None"
    and "\<not> write_denied D h" "\<not> write_denied D (path_join h CONFIG_NAME)" "\<not> write_denied D (path_join h KEYS_NAME)"
    and "\<not> read_denied D (path_join h CONFIG_NAME)" "\<not> read_denied D (path_join h KEYS_NAME)"
  shows "\<exists>fs'. init_config T D h fs = (Ret (Inr ()), fs') \<and> config_exists h fs' \<and> usable T D h fs' \<and>
    load_config T D h fs' = Ret (Inr default_gravity_bridge_tools_config) \<and>
    load_keys T D h fs' = Ret (Inr default_key_storage)"
proof -
  from assms(1) obtain body where body: "keys_to_toml T default_key_storage = Inr body" "keys_from_toml T body = Inr default_key_storage"
    unfolding toml_keys_def by blast
  let ?fs = "fs(h \<mapsto> Directory, path_join h CONFIG_NAME \<mapsto> File get_default_config, path_join h KEYS_NAME \<mapsto> File body)"
  have "init_config T D h fs = (Ret (Inr ()), ?fs)"
    using assms body(1) by (simp add: init_config_def disk_simps create_dir_def fs_write_def path_exists_def)
  moreover have "config_exists h ?fs" by (simp add: config_exists_def path_exists_def)
  moreover have "usable T D h ?fs" using assms by (simp add: usable_def)
  moreover have "load_config T D h ?fs = Ret (Inr default_gravity_bridge_tools_config)"
    using assms by (simp add: load_config_def path_exists_def read_to_string_def toml_config_def)
  moreover have "load_keys T D h ?fs = Ret (Inr default_key_storage)"
    using assms body(2) by (intro load_keys_written [of _ _ body]) simp_all
  ultimately show ?thesis by blast
qed

end
