(* ===== verification/Watch.thy ===== *)
theory Watch
  imports Orchestrator
begin

text \<open>
  Every finite piece of a run can be watched: a computation that is followed up to a horizon comes
  back there at the latest.  This is what makes the statements about the effects of the main loops
  (\<open>emits\<close>) statements about the loops, which on their own never return: \<open>watchable\<close> is proved
  here for every operation the loops call, and for the loops.
\<close>

named_theorems watch_intros \<open>which computations can be watched up to a horizon\<close>

text \<open>A computation that is watched comes back, keeps the horizon, and does not run past it.\<close>

definition watchable :: "('e, 'a) io \<Rightarrow> bool" where
  "watchable m \<longleftrightarrow> (\<forall>s h. horizon s = Some h \<longrightarrow> clock s \<le> h \<longrightarrow>
     (\<exists>r t. m s = Some (r, t) \<and> horizon t = Some h \<and> clock s \<le> clock t \<and> clock t \<le> h))"

text \<open>A computation that makes a request before it returns a value that satisfies \<open>Q\<close>.\<close>

definition ticks :: "('a \<Rightarrow> bool) \<Rightarrow> ('e, 'a) io \<Rightarrow> bool" where
  "ticks Q m \<longleftrightarrow> (\<forall>s h x t. horizon s = Some h \<longrightarrow> clock s \<le> h \<longrightarrow> m s = Some (Ret x, t) \<longrightarrow> Q x \<longrightarrow> clock s < clock t)"

lemma watchableI:
  "(\<And>s h. horizon s = Some h \<Longrightarrow> clock s \<le> h \<Longrightarrow>
     \<exists>r t. m s = Some (r, t) \<and> horizon t = Some h \<and> clock s \<le> clock t \<and> clock t \<le> h) \<Longrightarrow> watchable m"
  by (simp add: watchable_def)

lemma watchableD:
  assumes "watchable m" "horizon s = Some h" "clock s \<le> h"
  obtains r t where "m s = Some (r, t)" "horizon t = Some h" "clock s \<le> clock t" "clock t \<le> h"
  using assms unfolding watchable_def by blast

lemma watch_return [watch_intros]: "watchable (return_io x)"
  by (simp add: watchable_def return_io_def)

lemma watch_panic [watch_intros]: "watchable (panic_io p)"
  by (simp add: watchable_def panic_io_def)

lemma watch_lift [watch_intros]: "watchable (lift_io r)"
  by (simp add: watchable_def lift_io_def)

lemma watch_query [watch_intros]: "watchable (query_io ans)"
  by (auto simp: watchable_def query_io_def cut_off_def)

lemma watch_effect [watch_intros]: "watchable (effect_io e ans)"
  by (auto simp: watchable_def effect_io_def cut_off_def)

lemma watch_bind [watch_intros]:
  assumes m: "watchable m" and f: "\<And>x. watchable (f x)"
  shows "watchable (bind_io m f)"
proof (rule watchableI)
  fix s :: "'a io_state" and h
  assume s: "horizon s = Some h" "clock s \<le> h"
  obtain r t where t: "m s = Some (r, t)" "horizon t = Some h" "clock s \<le> clock t" "clock t \<le> h"
    by (rule watchableD [OF m s])
  show "\<exists>r t. bind_io m f s = Some (r, t) \<and> horizon t = Some h \<and> clock s \<le> clock t \<and> clock t \<le> h"
  proof (cases r)
    case (Ret x)
    obtain r' t' where "f x t = Some (r', t')" "horizon t' = Some h" "clock t \<le> clock t'" "clock t' \<le> h"
      by (rule watchableD [OF f t(2,4)])
    with t Ret show ?thesis by (auto simp: bind_io_def)
  qed (use t in \<open>auto simp: bind_io_def\<close>)
qed

lemma watch_try [watch_intros]: "watchable m \<Longrightarrow> (\<And>x. watchable (f x)) \<Longrightarrow> watchable (try_io m f)"
  unfolding try_io_def by (erule watch_bind) (auto intro: watch_return split: sum.splits)

lemma watch_if [watch_intros]: "watchable m \<Longrightarrow> watchable k \<Longrightarrow> watchable (if b then m else k)"
  by simp

lemma watch_case_sum [watch_intros]:
  "(\<And>e. watchable (f e)) \<Longrightarrow> (\<And>x. watchable (g x)) \<Longrightarrow> watchable (case r of Inl e \<Rightarrow> f e | Inr x \<Rightarrow> g x)"
  by (cases r) auto

lemma watch_case_outcome [watch_intros]:
  "(\<And>x. watchable (f x)) \<Longrightarrow> (\<And>p. watchable (g p)) \<Longrightarrow> watchable (case r of Ret x \<Rightarrow> f x | Panic p \<Rightarrow> g p)"
  by (cases r) auto

lemma watch_case_option [watch_intros]:
  "watchable f \<Longrightarrow> (\<And>x. watchable (g x)) \<Longrightarrow> watchable (case r of None \<Rightarrow> f | Some x \<Rightarrow> g x)"
  by (cases r) auto

lemma watch_case_list [watch_intros]:
  "watchable f \<Longrightarrow> (\<And>x xs. watchable (g x xs)) \<Longrightarrow> watchable (case r of [] \<Rightarrow> f | x # xs \<Rightarrow> g x xs)"
  by (cases r) auto

lemma watch_case_prod [watch_intros]: "(\<And>a b. watchable (f a b)) \<Longrightarrow> watchable (case q of (a, b) \<Rightarrow> f a b)"
  by (cases q) auto

lemma watch_for [watch_intros]: "(\<And>x. watchable (f x)) \<Longrightarrow> watchable (for_io xs f)"
  by (induction xs) (auto intro: watch_intros)

lemma watch_fold [watch_intros]: "(\<And>x c. watchable (f x c)) \<Longrightarrow> watchable (fold_io f xs c)"
  by (induction xs arbitrary: c) (auto intro: watch_intros)

lemma watch_convert [watch_intros]: "watchable m \<Longrightarrow> watchable (convert_io conv m)"
  unfolding convert_io_def by (intro watch_intros)

lemma watch_ask [watch_intros]: "watchable (ask conv ans)"
  unfolding ask_def by (intro watch_intros)

lemma ticksI:
  "(\<And>s h x t. horizon s = Some h \<Longrightarrow> clock s \<le> h \<Longrightarrow> m s = Some (Ret x, t) \<Longrightarrow> Q x \<Longrightarrow> clock s < clock t) \<Longrightarrow> ticks Q m"
  by (auto simp: ticks_def)

lemma ticks_query: "ticks Q (query_io ans)"
  by (auto simp: ticks_def query_io_def split: if_splits)

lemma ticks_ask: "ticks Q (ask conv ans)"
  unfolding ask_def by (rule ticks_query)

lemma ticks_panic: "ticks Q (panic_io p)"
  by (simp add: ticks_def panic_io_def)

lemma ticks_return: "\<not> Q x \<Longrightarrow> ticks Q (return_io x)"
  by (simp add: ticks_def return_io_def)

lemma ticks_bind:
  assumes m: "watchable m" "ticks (\<lambda>_. True) m" and f: "\<And>x. watchable (f x)"
  shows "ticks Q (bind_io m f)"
proof (rule ticksI)
  fix s :: "'a io_state" and h x t
  assume s: "horizon s = Some h" "clock s \<le> h" and run: "bind_io m f s = Some (Ret x, t)"
  then obtain y s1 where y: "m s = Some (Ret y, s1)" "f y s1 = Some (Ret x, t)" by (auto simp: bind_io_Some_iff)
  from m(2) s y(1) have less: "clock s < clock s1" by (auto simp: ticks_def)
  from watchableD [OF m(1) s] y(1) have s1: "horizon s1 = Some h" "clock s1 \<le> h" by (metis Pair_inject option.inject)+
  from watchableD [OF f s1] y(2) have "clock s1 \<le> clock t" by (metis Pair_inject option.inject)
  with less show "clock s < clock t" by simp
qed

lemma ticks_try: "watchable m \<Longrightarrow> ticks (\<lambda>_. True) m \<Longrightarrow> (\<And>x. watchable (f x)) \<Longrightarrow> ticks Q (try_io m f)"
  unfolding try_io_def by (rule ticks_bind) (auto intro: watch_return split: sum.splits)

lemma ticks_bind_lift: "(\<And>x. r = Ret x \<Longrightarrow> ticks Q (f x)) \<Longrightarrow> ticks Q (bind_io (lift_io r) f)"
  by (cases r) (auto intro: ticks_panic)

lemma ticks_if: "(b \<Longrightarrow> ticks Q m) \<Longrightarrow> (\<not> b \<Longrightarrow> ticks Q k) \<Longrightarrow> ticks Q (if b then m else k)"
  by simp

lemma ticks_case_prod: "(\<And>a b. ticks Q (f a b)) \<Longrightarrow> ticks Q (case q of (a, b) \<Rightarrow> f a b)"
  by (cases q) auto

text \<open>The rules for a computation that begins with a request.\<close>

lemmas ticks_rules = ticks_query ticks_ask ticks_panic ticks_bind_lift ticks_if ticks_case_prod ticks_try ticks_bind ticks_return

text \<open>A loop whose body makes a request in every round runs into the horizon.\<close>

lemma watch_loop:
  fixes body :: "'c \<Rightarrow> ('e, 'c + 'a) io"
  assumes w: "\<And>c. watchable (body c)" and tk: "\<And>c. ticks (\<lambda>r. \<exists>c'. r = Inl c') (body c)"
  shows "watchable (loop_io body c)"
proof (rule watchableI)
  fix s :: "'e io_state" and h
  assume "horizon s = Some h" "clock s \<le> h"
  then show "\<exists>r t. loop_io body c s = Some (r, t) \<and> horizon t = Some h \<and> clock s \<le> clock t \<and> clock t \<le> h"
  proof (induction "h - clock s" arbitrary: c s rule: less_induct)
    case less
    obtain r t where t: "body c s = Some (r, t)" "horizon t = Some h" "clock s \<le> clock t" "clock t \<le> h"
      by (rule watchableD [OF w less.prems])
    show ?case
    proof (cases "\<exists>c'. r = Ret (Inl c')")
      case True
      then obtain c' where c': "r = Ret (Inl c')" by blast
      with tk less.prems t(1) have "clock s < clock t" by (auto simp: ticks_def)
      with t(4) have "h - clock t < h - clock s" by simp
      from less.hyps [OF this t(2,4), of c'] t c' show ?thesis by (subst loop_io.simps) auto
    next
      case False
      with t show ?thesis by (subst loop_io.simps) (auto split: outcome.splits sum.splits)
    qed
  qed
qed

text \<open>The same for a retry loop, and for one with a deadline.\<close>

lemma watch_retry:
  fixes m :: "('e, 'err + 'a) io"
  assumes w: "watchable m" and tk: "ticks (\<lambda>r. \<exists>e. r = Inl e) m"
  shows "watchable (retry_io m)"
proof (rule watchableI)
  fix s :: "'e io_state" and h
  assume "horizon s = Some h" "clock s \<le> h"
  then show "\<exists>r t. retry_io m s = Some (r, t) \<and> horizon t = Some h \<and> clock s \<le> clock t \<and> clock t \<le> h"
  proof (induction "h - clock s" arbitrary: s rule: less_induct)
    case less
    obtain r t where t: "m s = Some (r, t)" "horizon t = Some h" "clock s \<le> clock t" "clock t \<le> h"
      by (rule watchableD [OF w less.prems])
    show ?case
    proof (cases "\<exists>e. r = Ret (Inl e)")
      case True
      with tk less.prems t(1) have "clock s < clock t" by (auto simp: ticks_def)
      with t(4) have "h - clock t < h - clock s" by simp
      from less.hyps [OF this t(2,4)] t True show ?thesis by (subst retry_io.simps) auto
    next
      case False
      with t show ?thesis by (subst retry_io.simps) (auto split: outcome.splits sum.splits)
    qed
  qed
qed

lemma watch_query_until:
  assumes w: "watchable m" and tk: "ticks (\<lambda>r. \<exists>e. r = Inl e) m"
  shows "watchable (query_until elapsed m)"
proof (rule watchableI)
  fix s :: "effect io_state" and h
  assume "horizon s = Some h" "clock s \<le> h"
  then show "\<exists>r t. query_until elapsed m s = Some (r, t) \<and> horizon t = Some h \<and> clock s \<le> clock t \<and> clock t \<le> h"
  proof (induction "h - clock s" arbitrary: s rule: less_induct)
    case less
    obtain r t where t: "m s = Some (r, t)" "horizon t = Some h" "clock s \<le> clock t" "clock t \<le> h"
      by (rule watchableD [OF w less.prems])
    show ?case
    proof (cases "elapsed (clock s) \<or> (\<nexists>e. r = Ret (Inl e))")
      case True
      with t less.prems show ?thesis by (subst query_until.simps) (auto split: outcome.splits sum.splits)
    next
      case False
      with tk less.prems t(1) have "clock s < clock t" by (auto simp: ticks_def)
      with t(4) have "h - clock t < h - clock s" by simp
      from less.hyps [OF this t(2,4)] t False show ?thesis by (subst query_until.simps) auto
    qed
  qed
qed

lemma watch_retry_query [watch_intros]: "watchable (retry_io (query_io ans))"
  by (intro watch_retry watch_intros ticks_query)

lemma ticks_retry: "ticks Q (retry_io (query_io ans))"
  by (rule ticksI) (auto dest!: retry_io_answer simp: first_answer_def)


section \<open>The operations of the loops\<close>

lemma watch_with_retry [watch_intros]:
  "watchable (get_block_number_with_retry W)" "watchable (get_net_version_with_retry W)"
  unfolding get_block_number_with_retry_def get_net_version_with_retry_def by (intro watch_intros)+

lemma watch_get_gravity_id [watch_intros]: "watchable (get_gravity_id L W c a)"
  unfolding get_gravity_id_def by (intro watch_intros)

lemma watch_gravity_id_retry [watch_intros]: "watchable (get_gravity_id_with_retry L W T c a d)"
  unfolding get_gravity_id_with_retry_def
  by (rule watch_query_until [OF watch_get_gravity_id], unfold get_gravity_id_def)
    (intro ticks_bind_lift ticks_try ticks_query watch_intros)

lemma watch_nonces [watch_intros]:
  "watchable (get_valset_nonce L W c a)" "watchable (get_tx_batch_nonce L W c e a)" "watchable (get_logic_call_nonce L W c i a)"
  unfolding get_valset_nonce_def get_tx_batch_nonce_def get_logic_call_nonce_def nonce_query_def by (intro watch_intros)+

lemma watch_estimates [watch_intros]:
  "watchable (estimate_valset_cost L W new old vc c gid sk)" "watchable (estimate_tx_batch_cost L W v b bc c gid sk)"
  "watchable (estimate_logic_call_cost L W v call lc c gid sk)"
  unfolding estimate_valset_cost_def estimate_tx_batch_cost_def estimate_logic_call_cost_def estimate_cost_def Let_def
  by (intro watch_intros)+

lemma watch_submissions [watch_intros]:
  "watchable (send_eth_valset_update L W new old vc d c gid sk)" "watchable (send_eth_transaction_batch L W v b bc d c gid sk)"
  "watchable (send_eth_logic_call L W v call lc d c gid sk)"
  unfolding send_eth_valset_update_def send_eth_transaction_batch_def send_eth_logic_call_def eth_send_def Let_def
  by (intro watch_intros)+

lemma watch_cosmos_queries [watch_intros]:
  "watchable (get_valset L G n)" "watchable (get_oldest_unsigned_valsets L G a p)" "watchable (get_latest_valsets L G)"
  "watchable (get_all_valset_confirms L G n)" "watchable (get_oldest_unsigned_transaction_batch L G a p)"
  "watchable (get_latest_transaction_batches L G)" "watchable (get_transaction_batch_signatures L G n c)"
  "watchable (get_last_event_nonce_for_validator L G a p)" "watchable (get_latest_logic_calls L G)"
  "watchable (get_logic_call_signatures L G i n)" "watchable (get_oldest_unsigned_logic_call L G a p)"
  unfolding get_valset_def get_oldest_unsigned_valsets_def get_latest_valsets_def get_all_valset_confirms_def
    get_oldest_unsigned_transaction_batch_def get_latest_transaction_batches_def get_transaction_batch_signatures_def
    get_last_event_nonce_for_validator_def get_latest_logic_calls_def get_logic_call_signatures_def
    get_oldest_unsigned_logic_call_def
  by (intro watch_intros)+

lemma watch_last_event_nonce_retry [watch_intros]: "watchable (get_last_event_nonce_with_retry L G a p)"
  unfolding get_last_event_nonce_with_retry_def
  by (rule watch_retry [OF watch_cosmos_queries(8)], unfold get_last_event_nonce_for_validator_def)
    (intro ticks_bind_lift ticks_ask)

lemma watch_broadcasts [watch_intros]:
  "watchable (send_valset_confirms L K ek fee vs sk gid)" "watchable (send_batch_confirm L K ek fee bs sk gid)"
  "watchable (send_logic_call_confirm L K ek fee cs sk gid)" "watchable (send_ethereum_claims L K sk deposits withdraws deploys calls valsets fee)"
  unfolding send_valset_confirms_def send_batch_confirm_def send_logic_call_confirm_def send_ethereum_claims_def
    broadcast_and_wait_def broadcast_def cosmos_send_def
  by (intro watch_intros)+


section \<open>The relayer\<close>

lemma watch_find_latest_valset [watch_intros]: "watchable (find_latest_valset L W G c)"
proof -
  have "watchable (find_valset_step L W G c b)" for b
    unfolding find_valset_step_def Let_def by (intro watch_intros)
  moreover have "ticks (\<lambda>r. \<exists>c'. r = Inl c') (find_valset_step L W G c b)" for b
    unfolding find_valset_step_def Let_def by (rule ticks_rules watch_intros)+
  ultimately show ?thesis unfolding find_latest_valset_def by (intro watch_intros watch_loop)
qed

lemma watch_find_latest_valid_valset [watch_intros]: "watchable (find_latest_valid_valset L G n v gid)"
proof -
  have "watchable (find_valid_step L G v gid st)" for st
    unfolding find_valid_step_def by (intro watch_intros)
  moreover have "ticks (\<lambda>r. \<exists>c'. r = Inl c') (find_valid_step L G v gid st)" for st
  proof -
    have "ticks Q (get_valset L G n)" for Q n unfolding get_valset_def by (rule ticks_rules watch_intros)+
    then show ?thesis unfolding find_valid_step_def
      by (intro ticks_case_prod ticks_if ticks_bind watch_intros) (auto intro: ticks_return)
  qed
  ultimately show ?thesis unfolding find_latest_valid_valset_def by (intro watch_loop)
qed

lemma watch_weigh_rewards [watch_intros]: "watchable (weigh_rewards L W a cost rewards tot)"
  by (induction rewards arbitrary: tot) (auto intro!: watch_intros)

lemma watch_market [watch_intros]:
  "watchable (should_relay_valset L W v sk cost)" "watchable (should_relay_batch W b n a)"
  "watchable (should_relay_logic_call L W a call tot)"
  unfolding should_relay_valset_def should_relay_batch_def should_relay_logic_call_def Let_def by (intro watch_intros)+

lemma watch_relay [watch_intros]:
  "watchable (relay_valsets L W G v sk c gid d cfg)" "watchable (relay_batches L W G v sk c gid d cfg)"
  "watchable (relay_logic_calls L W G v sk c gid d cfg)"
  unfolding relay_valsets_def relay_valid_valset_def valset_cost_error_def relay_batches_def get_batches_and_signatures_def
    collect_batch_def submit_batches_def submit_token_batches_def submit_batch_def relay_logic_calls_def collect_call_def Let_def
  by (intro watch_intros)+

lemma watch_relayer_main_loop: "watchable (relayer_main_loop L W G T sk c cfg wait)"
proof -
  have ticks: "ticks Q (find_latest_valset L W G c)" for Q
    unfolding find_latest_valset_def
    by (rule ticks_try ticks_ask watch_intros)+ (unfold find_valset_step_def Let_def, (rule watch_loop watch_intros ticks_rules)+)
  have "watchable (relayer_iteration L W G sk c gid cfg)" "ticks Q (relayer_iteration L W G sk c gid cfg)" for gid Q
    unfolding relayer_iteration_def by (intro watch_intros) (intro ticks_bind ticks watch_intros)
  then show ?thesis unfolding relayer_main_loop_def by (intro watch_intros watch_loop ticks_bind)
qed


section \<open>The oracle and the signer\<close>

lemma watch_logs [watch_intros]: "watchable (get_block_delay W)" "watchable (logs_of W c lo hi sig)"
  unfolding get_block_delay_def logs_of_def by (intro watch_intros)+

lemma watch_get_last_checked_block [watch_intros]: "watchable (get_last_checked_block L W G a p c)"
proof -
  have "watchable (last_checked_step L W c n b)" for n b
    unfolding last_checked_step_def by (intro watch_intros)
  moreover have "ticks Q (last_checked_step L W c n b)" for n b Q
    unfolding last_checked_step_def logs_of_def by (intro ticks_if ticks_bind_lift ticks_bind ticks_query ticks_panic watch_intros)
  ultimately show ?thesis unfolding get_last_checked_block_def Let_def by (intro watch_intros watch_loop)
qed

lemma watch_check_for_events [watch_intros]: "watchable (check_for_events L W K G c sk fee b)"
  unfolding check_for_events_def claim_events_def Let_def by (intro watch_intros)

lemma watch_eth_oracle_main_loop: "watchable (eth_oracle_main_loop L W K G sk c fee)"
proof -
  have "watchable (oracle_iteration L W K G sk c fee b)" "ticks Q (oracle_iteration L W K G sk c fee b)" for b Q
    unfolding oracle_iteration_def by (intro watch_intros) (intro ticks_bind ticks_query watch_intros)
  then show ?thesis unfolding eth_oracle_main_loop_def by (intro watch_intros watch_loop ticks_bind)
qed

lemma watch_eth_signer_main_loop: "watchable (eth_signer_main_loop L W K G T sk ek c fee wait)"
proof -
  have "watchable (signer_iteration L W K G sk a ek fee gid)" "ticks Q (signer_iteration L W K G sk a ek fee gid)" for a gid Q
    unfolding signer_iteration_def sign_valsets_def sign_batch_def sign_logic_call_def
    by (intro watch_intros) (intro ticks_bind ticks_query watch_intros)
  then show ?thesis unfolding eth_signer_main_loop_def by (intro watch_intros watch_loop ticks_bind)
qed


section \<open>What the loops do\<close>

text \<open>C10: every finite piece of a run of the relayer can be watched, and over all its rounds the relayer
  sends nothing but the three contract calls, each with a payload whose signatures were accepted
  against a validator set that the contract announced, a set update only to a newer nonce.\<close>

theorem relayer_main_loop_safe:
  "watchable (relayer_main_loop L W G T sk c cfg wait) \<and>
   emits (\<lambda>e. \<exists>current gid. last_update_event L W c current \<and> relays L current gid c sk e)
     (relayer_main_loop L W G T sk c cfg wait)"
  by (rule conjI [OF watch_relayer_main_loop relayer_main_loop_emits])

text \<open>C11: every finite piece of a run of the oracle can be watched, the oracle never returns, and over
  all its rounds it broadcasts nothing but lists of claims whose event nonces go up and lie above the
  last nonce the chain had from us.\<close>

theorem eth_oracle_main_loop_safe:
  "watchable (eth_oracle_main_loop L W K G sk c fee) \<and>
   yields (\<lambda>_. False) (eth_oracle_main_loop L W K G sk c fee) \<and>
   emits (broadcasts K sk (new_claims L K G sk)) (eth_oracle_main_loop L W K G sk c fee)"
  using watch_eth_oracle_main_loop eth_oracle_main_loop_forever eth_oracle_main_loop_emits
  by (simp add: yields_def)

text \<open>C12: every finite piece of a run of the signer can be watched, over all its rounds it broadcasts
  nothing but confirmations of what the chain asked our address to sign, and it returns only with a
  fee error or when the gravity id cannot be had.\<close>

theorem eth_signer_main_loop_safe:
  "watchable (eth_signer_main_loop L W K G T sk ek c fee wait) \<and>
   emits (broadcasts K sk (\<lambda>msgs. \<exists>a gid. our_cosmos_address L K sk = Ret a \<and> asked_confirms L K G a ek gid msgs))
     (eth_signer_main_loop L W K G T sk ek c fee wait) \<and>
   yields (\<lambda>r. \<exists>e. r = Inl e \<and> (fee_failure e \<or> e = UnrecoverableError ''Failed to get GravityID, check your ethereum node''))
     (eth_signer_main_loop L W K G T sk ek c fee wait)"
  by (intro conjI watch_eth_signer_main_loop eth_signer_main_loop_emits eth_signer_main_loop_yields)

end
