(* ===== verification/Main_Loop.thy ===== *)
theory Main_Loop
  imports Watch
begin

text \<open>
  The entry point of the orchestrator: \<open>orchestrator_main_loop\<close> in
  \<open>orchestrator/src/main_loop.rs\<close> joins the oracle, the signer and, if enabled, the relayer on
  one task.  The three futures advance in turns at their requests, so the effects of a joined run are
  an interleaving of the effects of the three; \<open>try_join\<close> ends with the first future that returns
  an error, and the others are dropped where they are.
\<close>

section \<open>Joining futures\<close>

text \<open>What one future has done so far: the run of its own requests, followed to its end or cut off at
  the moment it is looked at.  Its clock counts its own requests.\<close>

definition fresh :: "nat option \<Rightarrow> effect io_state" where
  "fresh h = \<lparr>clock = 0, trace = [], horizon = h\<rparr>"

definition runs_to :: "'a act \<Rightarrow> 'a outcome \<times> effect list \<Rightarrow> bool" where
  "runs_to m q \<longleftrightarrow> (\<exists>h t. m (fresh h) = Some (fst q, t) \<and> trace t = snd q)"

text \<open>All interleavings of a list of traces.\<close>

fun merges :: "'e list list \<Rightarrow> 'e list set" where
  "merges [] = {[]}"
| "merges (tr # trs) = (\<Union>u \<in> merges trs. shuffles tr u)"

text \<open>A future that was dropped or waits, or that has completed.\<close>

fun pending_or_ok :: "unit gresult outcome \<Rightarrow> bool" where
  "pending_or_ok (Ret r) = is_ok r"
| "pending_or_ok (Panic p) = (p = end_of_run)"

fun completed :: "unit gresult outcome \<Rightarrow> bool" where
  "completed (Ret r) = is_ok r"
| "completed (Panic p) = False"

text \<open>\<open>try_join fs r tr\<close>: the join of the futures \<open>fs\<close> can have done \<open>tr\<close> with the result
  \<open>r\<close>: the first error or panic, or success when all have completed, or it is still running.\<close>

inductive try_join :: "unit gresult act list \<Rightarrow> unit gresult outcome \<Rightarrow> effect list \<Rightarrow> bool" for fs where
  first_failure: "list_all2 runs_to fs (qs @ (r, tr) # qs') \<Longrightarrow> \<not> pending_or_ok r \<Longrightarrow>
     list_all (\<lambda>q. pending_or_ok (fst q)) (qs @ qs') \<Longrightarrow>
     tot \<in> merges (map snd (qs @ (r, tr) # qs')) \<Longrightarrow> try_join fs r tot"
| all_completed: "list_all2 runs_to fs qs \<Longrightarrow> list_all (\<lambda>q. completed (fst q)) qs \<Longrightarrow>
     tot \<in> merges (map snd qs) \<Longrightarrow> try_join fs (Ret (Inr ())) tot"
| still_running: "list_all2 runs_to fs qs \<Longrightarrow> list_all (\<lambda>q. pending_or_ok (fst q)) qs \<Longrightarrow>
     tot \<in> merges (map snd qs) \<Longrightarrow> try_join fs (Panic end_of_run) tot"

text \<open>The three loops ask the same nodes, each at its own moments: \<open>seen m f\<close> is what a loop whose
  \<open>k\<close>-th request falls on the moment \<open>m k\<close> sees of the answers \<open>f\<close>.\<close>

definition seen :: "(nat \<Rightarrow> nat) \<Rightarrow> (nat \<Rightarrow> 'a) \<Rightarrow> nat \<Rightarrow> 'a" where
  "seen m f k = f (m k)"

definition web3_at :: "(nat \<Rightarrow> nat) \<Rightarrow> web3 \<Rightarrow> web3" where
  "web3_at m W = \<lparr>
     WETH_CONTRACT_ADDRESS = WETH_CONTRACT_ADDRESS W,
     eth_block_number = seen m (eth_block_number W),
     eth_get_balance = (\<lambda>a. seen m (eth_get_balance W a)),
     eth_get_transaction_count = (\<lambda>a. seen m (eth_get_transaction_count W a)),
     eth_gas_price = seen m (eth_gas_price W),
     eth_estimate_gas = (\<lambda>r. seen m (eth_estimate_gas W r)),
     net_version = seen m (net_version W),
     simulate_transaction = (\<lambda>c v p a. seen m (simulate_transaction W c v p a)),
     send_transaction = (\<lambda>c p v a sk opts. seen m (send_transaction W c p v a sk opts)),
     wait_for_transaction = (\<lambda>tx d. seen m (wait_for_transaction W tx d)),
     web3_check_for_events = (\<lambda>lo hi cs sigs. seen m (web3_check_for_events W lo hi cs sigs)),
     check_erc20_approved = (\<lambda>e a c. seen m (check_erc20_approved W e a c)),
     approve_erc20_transfers = (\<lambda>e sk c opts. seen m (approve_erc20_transfers W e sk c opts)),
     get_uniswap_price = (\<lambda>a x y n lim. seen m (get_uniswap_price W a x y n lim)),
     get_erc20_balance = (\<lambda>e a. seen m (get_erc20_balance W e a)),
     get_erc20_decimals = (\<lambda>e a. seen m (get_erc20_decimals W e a))\<rparr>"

definition contact_at :: "(nat \<Rightarrow> nat) \<Rightarrow> contact \<Rightarrow> contact" where
  "contact_at m K = \<lparr>
     get_prefix = get_prefix K,
     sign_std_msg = sign_std_msg K,
     get_balances = (\<lambda>a. seen m (get_balances K a)),
     get_message_args = (\<lambda>a fee. seen m (get_message_args K a fee)),
     cosmos_send_transaction = (\<lambda>b. seen m (cosmos_send_transaction K b)),
     wait_for_tx = (\<lambda>r d. seen m (wait_for_tx K r d)),
     get_chain_status = seen m (get_chain_status K),
     wait_for_next_block = (\<lambda>d. seen m (wait_for_next_block K d))\<rparr>"

definition grpc_at :: "(nat \<Rightarrow> nat) \<Rightarrow> grpc \<Rightarrow> grpc" where
  "grpc_at m G = \<lparr>
     grpc_params = seen m (grpc_params G),
     valset_request = (\<lambda>n. seen m (valset_request G n)),
     current_valset_request = seen m (current_valset_request G),
     last_pending_valset_request_by_addr = (\<lambda>a. seen m (last_pending_valset_request_by_addr G a)),
     last_valset_requests = seen m (last_valset_requests G),
     valset_confirms_by_nonce = (\<lambda>n. seen m (valset_confirms_by_nonce G n)),
     last_pending_batch_request_by_addr = (\<lambda>a. seen m (last_pending_batch_request_by_addr G a)),
     outgoing_tx_batches = seen m (outgoing_tx_batches G),
     batch_confirms = (\<lambda>n c. seen m (batch_confirms G n c)),
     last_event_nonce_by_addr = (\<lambda>a. seen m (last_event_nonce_by_addr G a)),
     outgoing_logic_calls = seen m (outgoing_logic_calls G),
     logic_confirms = (\<lambda>i n. seen m (logic_confirms G i n)),
     last_pending_logic_call_by_addr = (\<lambda>a. seen m (last_pending_logic_call_by_addr G a)),
     grpc_attestations = (\<lambda>n. seen m (grpc_attestations G n)),
     pending_send_to_eth = (\<lambda>a. seen m (pending_send_to_eth G a)),
     get_delegate_key_by_eth = (\<lambda>a. seen m (get_delegate_key_by_eth G a)),
     get_delegate_key_by_orchestrator = (\<lambda>a. seen m (get_delegate_key_by_orchestrator G a)),
     denom_to_erc20 = (\<lambda>d. seen m (denom_to_erc20 G d))\<rparr>"

text \<open>\<open>orchestrator_main_loop \<dots> r tot\<close>: with the moments at which the oracle, the signer and the
  relayer make their requests, the call can have the result \<open>r\<close> and the effects \<open>tot\<close>.\<close>

definition orchestrator_main_loop :: "libs \<Rightarrow> (nat \<Rightarrow> nat) \<Rightarrow> (nat \<Rightarrow> nat) \<Rightarrow> (nat \<Rightarrow> nat) \<Rightarrow> timer \<Rightarrow> cosmos_private_key \<Rightarrow> eth_private_key \<Rightarrow>
    web3 \<Rightarrow> contact \<Rightarrow> grpc \<Rightarrow> eth_address \<Rightarrow> coin \<Rightarrow> gravity_bridge_tools_config \<Rightarrow> duration option \<Rightarrow>
    unit gresult outcome \<Rightarrow> effect list \<Rightarrow> bool" where
  "orchestrator_main_loop L ma mb mc T cosmos_key ethereum_key web3 contact grpc_client gravity_contract_address fee config wait_time =
     (let a = eth_oracle_main_loop L (web3_at ma web3) (contact_at ma contact) (grpc_at ma grpc_client) cosmos_key gravity_contract_address fee;
          b = eth_signer_main_loop L (web3_at mb web3) (contact_at mb contact) (grpc_at mb grpc_client) (\<lambda>d. seen mb (T d)) cosmos_key
                ethereum_key gravity_contract_address fee wait_time;
          c = relayer_main_loop L (web3_at mc web3) (grpc_at mc grpc_client) (\<lambda>d. seen mc (T d)) ethereum_key gravity_contract_address
                (cfg_relayer config) wait_time in
      if relayer_enabled (cfg_orchestrator config) then try_join [a, b, c] else try_join [a, b])"


section \<open>What a join does\<close>

lemma merges_member: "tot \<in> merges trs \<Longrightarrow> e \<in> set tot \<Longrightarrow> \<exists>tr \<in> set trs. e \<in> set tr"
proof (induction trs arbitrary: tot)
  case (Cons tr trs)
  then obtain u where u: "u \<in> merges trs" "tot \<in> shuffles tr u" by auto
  from set_shuffles [OF u(2)] Cons.prems(2) have "e \<in> set tr \<or> e \<in> set u" by auto
  with Cons.IH [OF u(1)] show ?case by auto
qed simp

lemma merges_length: "tot \<in> merges trs \<Longrightarrow> length tot = sum_list (map length trs)"
  by (induction trs arbitrary: tot) (auto simp: length_shuffles)

lemma try_join_runs:
  assumes "try_join fs r tot"
  obtains qs where "list_all2 runs_to fs qs" "tot \<in> merges (map snd qs)"
    "pending_or_ok r \<or> r \<in> fst ` set qs" "r = Ret (Inr ()) \<Longrightarrow> list_all (\<lambda>q. completed (fst q)) qs"
  using assms
proof cases
  case (first_failure qs tr qs')
  then have "r \<noteq> Ret (Inr ())" by auto
  with first_failure show thesis by (intro that [of "qs @ (r, tr) # qs'"]) auto
qed (auto simp: end_of_run_def intro: that)

lemma runs_to_emits: "runs_to m q \<Longrightarrow> emits P m \<Longrightarrow> e \<in> set (snd q) \<Longrightarrow> P e"
  by (auto simp: runs_to_def fresh_def dest: emits_trace)

lemma runs_to_yields: "runs_to m (Ret x, tr) \<Longrightarrow> yields Q m \<Longrightarrow> Q x"
  by (auto simp: runs_to_def yields_def)

lemma try_join_emits:
  assumes "try_join fs r tot" "e \<in> set tot" "\<And>m. m \<in> set fs \<Longrightarrow> emits P m"
  shows "P e"
proof -
  obtain qs where qs: "list_all2 runs_to fs qs" "tot \<in> merges (map snd qs)" by (rule try_join_runs [OF assms(1)])
  from merges_member [OF qs(2) assms(2)] obtain q where q: "q \<in> set qs" "e \<in> set (snd q)" by auto
  from qs(1) q(1) obtain m where "m \<in> set fs" "runs_to m q"
    by (metis in_set_conv_nth list_all2_conv_all_nth nth_mem)
  with assms(3) q(2) show ?thesis by (blast intro: runs_to_emits)
qed

lemma try_join_error:
  assumes "try_join fs (Ret (Inl e)) tot" "\<And>m. m \<in> set fs \<Longrightarrow> yields (\<lambda>r. \<forall>e. r = Inl e \<longrightarrow> P e) m"
  shows "P e"
proof -
  obtain qs where qs: "list_all2 runs_to fs qs" and r: "Ret (Inl e) \<in> fst ` set qs"
    by (rule try_join_runs [OF assms(1)]) auto
  from r obtain tr where "(Ret (Inl e), tr) \<in> set qs" by auto
  with qs obtain m where "m \<in> set fs" "runs_to m (Ret (Inl e), tr)"
    by (metis in_set_conv_nth list_all2_conv_all_nth nth_mem)
  with runs_to_yields [OF _ assms(2)] show ?thesis by blast
qed

text \<open>A future that never returns keeps the join from completing.\<close>

lemma try_join_never_ok:
  assumes "m \<in> set fs" "yields (\<lambda>_. False) m"
  shows "\<not> try_join fs (Ret (Inr x)) tot"
proof
  assume "try_join fs (Ret (Inr x)) tot"
  then obtain qs where qs: "list_all2 runs_to fs qs" and ok: "list_all (\<lambda>q. completed (fst q)) qs"
    by (rule try_join_runs) auto
  from qs assms(1) obtain q where q: "q \<in> set qs" "runs_to m q"
    by (metis in_set_conv_nth list_all2_conv_all_nth nth_mem)
  from ok q(1) obtain v where "fst q = Ret v" by (cases "fst q") (auto simp: list_all_iff)
  with q(2) have "runs_to m (Ret v, snd q)" by (metis prod.collapse)
  with runs_to_yields [OF _ assms(2)] show False by blast
qed


section \<open>The orchestrator\<close>

lemma relayer_main_loop_errors:
  "yields (\<lambda>r. \<forall>e. r = Inl e \<longrightarrow> e = UnrecoverableError ''Failed to get GravityID, check your ethereum node'')
     (relayer_main_loop L W G T sk c cfg wait)"
proof -
  have "yields (\<lambda>r. r = Inr ()) (relayer_iteration L W G sk c gid cfg)" for gid
    unfolding relayer_iteration_def by (intro yields_bind_any yields_case_sum yields_return) simp_all
  then have "yields (\<lambda>r. case r of Inl c' \<Rightarrow> True | Inr x \<Rightarrow> False)
      (bind_io (relayer_iteration L W G sk c gid cfg) (\<lambda>r. case r of Inl e \<Rightarrow> return_io (Inr (Inl e)) | Inr _ \<Rightarrow> return_io (Inl ())))" for gid
    by (rule yields_bind) (auto intro: yields_return)
  then show ?thesis unfolding relayer_main_loop_def
    by (intro yields_bind_any yields_case_sum yields_return) (auto intro!: yields_weaken [OF yields_loop [where I = "\<lambda>_. True"]])
qed

lemmas orchestrator_join_defs = orchestrator_main_loop_def Let_def

text \<open>What a loop does with the nodes as it sees them, it does with the nodes.\<close>

lemma our_cosmos_address_at [simp]: "our_cosmos_address L (contact_at m K) sk = our_cosmos_address L K sk"
  by (simp add: our_cosmos_address_def contact_at_def)

lemma broadcasts_at [simp]: "broadcasts (contact_at m K) sk P e = broadcasts K sk P e"
  by (simp add: broadcasts_def contact_at_def)

lemma new_claims_at: "new_claims L (contact_at m K) (grpc_at m G) sk msgs \<Longrightarrow> new_claims L K G sk msgs"
  unfolding new_claims_def by (auto simp: contact_at_def grpc_at_def seen_def our_cosmos_address_def)

lemma asked_confirms_at: "asked_confirms L (contact_at m K) (grpc_at m G) a ek gid msgs \<Longrightarrow> asked_confirms L K G a ek gid msgs"
proof -
  assume "asked_confirms L (contact_at m K) (grpc_at m G) a ek gid msgs"
  then obtain b t where "bech32_of L a (get_prefix K) = Ret b"
    "(\<exists>ps vs. last_pending_valset_request_by_addr G b (m t) = Inr ps \<and> map_out_list (valset_from_proto L) ps = Ret vs \<and>
        vs \<noteq> [] \<and> msgs = map (valset_confirm_msg L ek a gid) vs) \<or>
     (\<exists>p x mg. last_pending_batch_request_by_addr G b (m t) = Inr (Some p) \<and> transaction_batch_try_from L p = Ret (Inr x) \<and>
        batch_confirm_msg L ek a gid x = Ret mg \<and> msgs = [mg]) \<or>
     (\<exists>p x. last_pending_logic_call_by_addr G b (m t) = Inr (Some p) \<and> logic_call_try_from L p = Inr x \<and>
        msgs = [logic_call_confirm_msg L ek a gid x])"
    unfolding asked_confirms_def by (simp add: contact_at_def grpc_at_def seen_def) blast
  then show ?thesis unfolding asked_confirms_def by blast
qed

lemma last_update_event_at: "last_update_event L (web3_at m W) c v \<Longrightarrow> last_update_event L W c v"
  unfolding last_update_event_def by (simp add: web3_at_def seen_def) blast

text \<open>C13: the orchestrator puts nothing on the chains but the claims of its oracle, the confirmations of
  its signer and, if it is enabled, the submissions of its relayer, however the three are
  interleaved.\<close>

theorem orchestrator_effects:
  assumes "orchestrator_main_loop L ma mb mc T sk ek W K G c fee cfg wait r tot" "e \<in> set tot"
  shows "broadcasts K sk (new_claims L K G sk) e \<or>
    broadcasts K sk (\<lambda>msgs. \<exists>a gid. our_cosmos_address L K sk = Ret a \<and> asked_confirms L K G a ek gid msgs) e \<or>
    relayer_enabled (cfg_orchestrator cfg) \<and> (\<exists>current gid. last_update_event L W c current \<and> relays L current gid c ek e)"
    (is "?claims e \<or> ?confirms e \<or> ?on \<and> ?relays e")
proof -
  let ?P = "\<lambda>e. ?claims e \<or> ?confirms e \<or> ?on \<and> ?relays e"
  let ?a = "eth_oracle_main_loop L (web3_at ma W) (contact_at ma K) (grpc_at ma G) sk c fee"
    and ?b = "eth_signer_main_loop L (web3_at mb W) (contact_at mb K) (grpc_at mb G) (\<lambda>d. seen mb (T d)) sk ek c fee wait"
    and ?c = "relayer_main_loop L (web3_at mc W) (grpc_at mc G) (\<lambda>d. seen mc (T d)) ek c (cfg_relayer cfg) wait"
  have a: "emits ?P ?a"
    by (rule emits_weaken [OF eth_oracle_main_loop_emits], rule disjI1, unfold broadcasts_at, erule broadcasts_mono, erule new_claims_at)
  have b: "emits ?P ?b"
    by (rule emits_weaken [OF eth_signer_main_loop_emits], rule disjI2, rule disjI1, unfold broadcasts_at, erule broadcasts_mono)
      (auto intro: asked_confirms_at)
  have c: "emits ?P ?c" if ?on
    by (rule emits_weaken [OF relayer_main_loop_emits]) (use that last_update_event_at in blast)
  show ?thesis
  proof (cases ?on)
    case True
    with assms(1) have "try_join [?a, ?b, ?c] r tot" by (simp add: orchestrator_join_defs)
    from try_join_emits [where P = ?P, OF this assms(2)] a b c [OF True] show ?thesis by auto
  next
    case False
    with assms(1) have "try_join [?a, ?b] r tot" by (simp add: orchestrator_join_defs)
    from try_join_emits [where P = ?P, OF this assms(2)] a b show ?thesis by auto
  qed
qed

text \<open>C14: the orchestrator never returns with success; it may panic, and the errors it returns are those
  of the fees and the failure to get the gravity id.\<close>

theorem orchestrator_result:
  assumes "orchestrator_main_loop L ma mb mc T sk ek W K G c fee cfg wait r tot"
  shows "(\<exists>p. r = Panic p) \<or>
    (\<exists>e. r = Ret (Inl e) \<and> (fee_failure e \<or> e = UnrecoverableError ''Failed to get GravityID, check your ethereum node''))"
proof -
  let ?P = "\<lambda>e. fee_failure e \<or> e = UnrecoverableError ''Failed to get GravityID, check your ethereum node''"
  let ?a = "eth_oracle_main_loop L (web3_at ma W) (contact_at ma K) (grpc_at ma G) sk c fee"
    and ?b = "eth_signer_main_loop L (web3_at mb W) (contact_at mb K) (grpc_at mb G) (\<lambda>d. seen mb (T d)) sk ek c fee wait"
    and ?c = "relayer_main_loop L (web3_at mc W) (grpc_at mc G) (\<lambda>d. seen mc (T d)) ek c (cfg_relayer cfg) wait"
  have never: "yields (\<lambda>_. False) ?a" using eth_oracle_main_loop_forever by (auto simp: yields_def)
  have a: "yields (\<lambda>r. \<forall>e. r = Inl e \<longrightarrow> ?P e) ?a" by (rule yields_weaken [OF never]) simp
  have b: "yields (\<lambda>r. \<forall>e. r = Inl e \<longrightarrow> ?P e) ?b" by (rule yields_weaken [OF eth_signer_main_loop_yields]) auto
  have c: "yields (\<lambda>r. \<forall>e. r = Inl e \<longrightarrow> ?P e) ?c" by (rule yields_weaken [OF relayer_main_loop_errors]) auto
  have result: "?P e" if "try_join fs (Ret (Inl e)) tot" "set fs \<subseteq> {?a, ?b, ?c}" for fs e
    by (rule try_join_error [where P = ?P, OF that(1)]) (use a b c that(2) in auto)
  from assms obtain fs where fs: "try_join fs r tot" "?a \<in> set fs" "set fs \<subseteq> {?a, ?b, ?c}"
    by (auto simp: orchestrator_join_defs split: if_splits intro: that [of "[?a, ?b, ?c]"] that [of "[?a, ?b]"])
  from try_join_never_ok [OF fs(2) never] result [OF _ fs(3)] fs(1) show ?thesis
    by (metis outcome.exhaust sum.exhaust)
qed

end
