(* ===== verification/Nabt.thy ===== *)
theory Nabt
  imports Connection Key_Store Main_Loop
begin

text \<open>
  The command line tool \<open>nabt\<close>: its commands (\<open>args.rs\<close>), what each does before the crates
  below take over (\<open>orchestrator.rs\<close>, \<open>relayer.rs\<close>, \<open>keys/register_orchestrator_address.rs\<close>,
  \<open>client/*.rs\<close>), and the dispatch in \<open>main.rs\<close>.  The arguments are given parsed; the random
  number generator is a parameter.
\<close>

section \<open>Arguments\<close>

record orchestrator_opts =
  oo_cosmos_phrase :: "cosmos_private_key option"
  oo_ethereum_key :: "eth_private_key option"
  oo_cosmos_grpc :: string
  oo_ethereum_rpc :: string
  oo_fees :: coin
  oo_gravity_contract_address :: "eth_address option"
  oo_wait_time :: "u64 option"

record relayer_opts =
  ro_ethereum_key :: "eth_private_key option"
  ro_gravity_contract_address :: "eth_address option"
  ro_ethereum_rpc :: string
  ro_cosmos_grpc :: string
  ro_wait_time :: "u64 option"

record cosmos_to_eth_opts =
  ce_cosmos_phrase :: cosmos_private_key
  ce_cosmos_grpc :: string
  ce_amount :: coin
  ce_fees :: coin
  ce_eth_destination :: eth_address
  ce_no_batch :: bool

text \<open>A parsed \<open>f64\<close>: a finite number, which is the rational it denotes, or one of the others.\<close>

datatype f64 = Finite rat | Infinity | NegInfinity | NaN

record eth_to_cosmos_opts =
  ec_ethereum_key :: eth_private_key
  ec_ethereum_rpc :: string
  ec_gravity_contract_address :: eth_address
  ec_token_contract_address :: eth_address
  ec_amount :: f64
  ec_destination :: cosmos_address

record deploy_erc20_representation_opts =
  de_cosmos_grpc :: string
  de_ethereum_rpc :: string
  de_cosmos_denom :: string
  de_ethereum_key :: eth_private_key
  de_gravity_contract_address :: "eth_address option"
  de_erc20_name :: string
  de_erc20_symbol :: string
  de_erc20_decimals :: u8

record register_orchestrator_address_opts =
  rg_validator_phrase :: cosmos_private_key
  rg_ethereum_key :: "eth_private_key option"
  rg_cosmos_phrase :: "string option"
  rg_cosmos_grpc :: string
  rg_fees :: coin
  rg_no_save :: bool

datatype client_subcommand =
    CosmosToEth cosmos_to_eth_opts
  | EthToCosmos eth_to_cosmos_opts
  | DeployErc20Representation deploy_erc20_representation_opts

datatype keys_subcommand =
    RegisterOrchestratorAddress register_orchestrator_address_opts
  | SetEthereumKey eth_private_key
  | SetOrchestratorKey string
  | ShowKeys

datatype sub_command =
    OrchestratorCmd orchestrator_opts
  | RelayerCmd relayer_opts
  | ClientCmd client_subcommand
  | KeysCmd keys_subcommand
  | InitCmd


section \<open>Amounts\<close>

definition NABT_TIMEOUT :: duration where
  "NABT_TIMEOUT = 60"

text \<open>Multiplication by ten in double precision; the sign does not take part in the rounding.\<close>

definition times_ten :: "rat \<Rightarrow> rat" where
  "times_ten x = (if x < 0 then - fl64 (10 * (- x)) else fl64 (10 * x))"

text \<open>\<open>res as u128\<close>: truncated towards zero and saturated; \<open>NaN\<close> gives zero.\<close>

fun f64_as_u128 :: "f64 \<Rightarrow> uint256" where
  "f64_as_u128 (Finite x) = (if x \<le> 0 then 0 else min (nat \<lfloor>x\<rfloor>) u128_MAX)"
| "f64_as_u128 Infinity = u128_MAX"
| "f64_as_u128 NegInfinity = 0"
| "f64_as_u128 NaN = 0"

fun f64_times_ten :: "f64 \<Rightarrow> f64" where
  "f64_times_ten (Finite x) = Finite (times_ten x)"
| "f64_times_ten Infinity = Infinity"
| "f64_times_ten NegInfinity = NegInfinity"
| "f64_times_ten NaN = NaN"

definition fraction_to_exponent :: "f64 \<Rightarrow> u8 \<Rightarrow> uint256" where
  "fraction_to_exponent num exponent = f64_as_u128 ((f64_times_ten ^^ unat exponent) num)"


section \<open>The keys and the contract\<close>

text \<open>The stored key, if there is a configuration.\<close>

definition stored_key :: "toml \<Rightarrow> disk \<Rightarrow> path \<Rightarrow> fs \<Rightarrow> (key_storage \<Rightarrow> 'a option) \<Rightarrow> 'a option gresult outcome" where
  "stored_key T D home_dir fs field =
     (if config_exists home_dir fs then try_out (load_keys T D home_dir fs) (\<lambda>keys. Ret (Inr (field keys)))
      else Ret (Inr None))"

definition key_from_phrase :: "libs \<Rightarrow> string \<Rightarrow> cosmos_private_key outcome" where
  "key_from_phrase L phrase = unwrap_sum (cosmos_key_from_phrase (ds L) phrase '''')"

definition cosmos_key_or_stored :: "libs \<Rightarrow> toml \<Rightarrow> disk \<Rightarrow> path \<Rightarrow> fs \<Rightarrow> cosmos_private_key option \<Rightarrow> cosmos_private_key gresult outcome" where
  "cosmos_key_or_stored L T D home_dir fs arg =
     (case arg of
        Some k \<Rightarrow> Ret (Inr k)
      | None \<Rightarrow>
          try_out (stored_key T D home_dir fs orchestrator_phrase) (\<lambda>phrase.
          case phrase of
            Some phrase \<Rightarrow> bind_out (key_from_phrase L phrase) (\<lambda>k. Ret (Inr k))
          | None \<Rightarrow> Ret (Inl (UnrecoverableError ''Cosmos key phrase not specified''))))"

definition ethereum_key_or_stored :: "toml \<Rightarrow> disk \<Rightarrow> path \<Rightarrow> fs \<Rightarrow> eth_private_key option \<Rightarrow> eth_private_key gresult outcome" where
  "ethereum_key_or_stored T D home_dir fs arg =
     (case arg of
        Some k \<Rightarrow> Ret (Inr k)
      | None \<Rightarrow>
          try_out (stored_key T D home_dir fs ethereum_key) (\<lambda>stored.
          case stored of
            Some k \<Rightarrow> Ret (Inr k)
          | None \<Rightarrow> Ret (Inl (UnrecoverableError ''Ethereum key not specified''))))"

text \<open>The contract address from the arguments or from the parameters of the chain.\<close>

definition contract_address_or_params :: "libs \<Rightarrow> grpc \<Rightarrow> eth_address option \<Rightarrow> eth_address gresult act" where
  "contract_address_or_params L G arg =
     (case arg of
        Some c \<Rightarrow> return_io (Inr c)
      | None \<Rightarrow>
          bind_io (get_gravity_params G) (\<lambda>params.
          bind_io (lift_io (unwrap_sum params)) (\<lambda>params.
          return_io (case address_parse (cl L) (bridge_ethereum_address params) of
            Inr c \<Rightarrow> Inr c
          | Inl _ \<Rightarrow> Inl (UnrecoverableError ''The Gravity address is not yet set as a chain parameter!'')))))"

text \<open>\<open>Duration::from_secs(minutes * 60)\<close>, with the product in 64 bits.\<close>

definition wait_duration :: "u64 option \<Rightarrow> duration option" where
  "wait_duration = map_option (\<lambda>minutes. unat (minutes * 60))"

section \<open>The orchestrator and the relayer\<close>

text \<open>What \<open>orchestrator\<close> hands to \<open>orchestrator_main_loop\<close>.\<close>

record orchestrator_start =
  st_cosmos_key :: cosmos_private_key
  st_ethereum_key :: eth_private_key
  st_web3 :: web3
  st_contact :: contact
  st_grpc :: grpc
  st_contract_address :: eth_address
  st_fee :: coin
  st_wait_time :: "duration option"

definition orchestrator_setup :: "libs \<Rightarrow> network \<Rightarrow> toml \<Rightarrow> disk \<Rightarrow> fs \<Rightarrow> orchestrator_opts \<Rightarrow> string \<Rightarrow> path \<Rightarrow> orchestrator_start gresult act" where
  "orchestrator_setup L N T D fs args address_prefix home_dir =
     (let fee = oo_fees args in
      try_io (lift_io (cosmos_key_or_stored L T D home_dir fs (oo_cosmos_phrase args))) (\<lambda>cosmos_key.
      try_io (lift_io (ethereum_key_or_stored T D home_dir fs (oo_ethereum_key args))) (\<lambda>ethereum_key.
      let timeout = min (min ETH_SIGNER_LOOP_SPEED ETH_ORACLE_LOOP_SPEED) LOOP_SPEED in
      bind_io (create_rpc_connections N address_prefix (Some (oo_cosmos_grpc args)) (Some (oo_ethereum_rpc args)) timeout) (\<lambda>connections.
      bind_io (lift_io (unwrap_opt (con_grpc connections))) (\<lambda>grpc.
      bind_io (lift_io (unwrap_opt (con_contact connections))) (\<lambda>contact.
      bind_io (lift_io (unwrap_opt (con_web3 connections))) (\<lambda>web3.
      let public_eth_key = eth_key_to_address (cl L) ethereum_key in
      bind_io (lift_io (our_cosmos_address L contact cosmos_key)) (\<lambda>public_cosmos_key.
      bind_io (wait_for_cosmos_node_ready contact) (\<lambda>_.
      try_io (check_delegate_addresses L grpc public_eth_key public_cosmos_key (get_prefix contact)) (\<lambda>_.
      try_io (check_for_fee fee public_cosmos_key contact) (\<lambda>_.
      try_io (check_for_eth public_eth_key web3) (\<lambda>_.
      try_io (contract_address_or_params L grpc (oo_gravity_contract_address args)) (\<lambda>contract_address.
      return_io (Inr \<lparr>st_cosmos_key = cosmos_key, st_ethereum_key = ethereum_key, st_web3 = web3, st_contact = contact,
        st_grpc = grpc, st_contract_address = contract_address, st_fee = fee,
        st_wait_time = wait_duration (oo_wait_time args)\<rparr>))))))))))))))"

definition relayer :: "libs \<Rightarrow> network \<Rightarrow> timer \<Rightarrow> toml \<Rightarrow> disk \<Rightarrow> fs \<Rightarrow> relayer_opts \<Rightarrow> string \<Rightarrow> path \<Rightarrow> relayer_config \<Rightarrow> unit gresult act" where
  "relayer L N Tm T D fs args address_prefix home_dir config =
     bind_io (create_rpc_connections N address_prefix (Some (ro_cosmos_grpc args)) (Some (ro_ethereum_rpc args)) LOOP_SPEED) (\<lambda>connections.
     try_io (lift_io (ethereum_key_or_stored T D home_dir fs (ro_ethereum_key args))) (\<lambda>ethereum_key.
     let public_eth_key = eth_key_to_address (cl L) ethereum_key in
     bind_io (lift_io (unwrap_opt (con_contact connections))) (\<lambda>contact.
     bind_io (lift_io (unwrap_opt (con_web3 connections))) (\<lambda>web3.
     bind_io (lift_io (unwrap_opt (con_grpc connections))) (\<lambda>grpc.
     bind_io (wait_for_cosmos_node_ready contact) (\<lambda>_.
     try_io (check_for_eth public_eth_key web3) (\<lambda>_.
     try_io (contract_address_or_params L grpc (ro_gravity_contract_address args)) (\<lambda>contract_address.
     relayer_main_loop L web3 grpc Tm ethereum_key contract_address config (wait_duration (ro_wait_time args))))))))))"


section \<open>Registration of the delegate keys\<close>

record entropy =
  generate_mnemonic :: "nat \<Rightarrow> string + string"
  generate_bytes :: "nat \<Rightarrow> bytes"
  eth_key_from_slice :: "bytes \<Rightarrow> string + eth_private_key"

text \<open>The Cosmos key and, if it was generated, its phrase.\<close>

definition register_cosmos_key :: "libs \<Rightarrow> entropy \<Rightarrow> toml \<Rightarrow> disk \<Rightarrow> path \<Rightarrow> fs \<Rightarrow> string option \<Rightarrow> (cosmos_private_key \<times> string option) gresult act" where
  "register_cosmos_key L E T D home_dir fs cosmos_phrase =
     (case cosmos_phrase of
        Some phrase \<Rightarrow> bind_io (lift_io (key_from_phrase L phrase)) (\<lambda>k. return_io (Inr (k, None)))
      | None \<Rightarrow>
          try_io (lift_io (stored_key T D home_dir fs orchestrator_phrase)) (\<lambda>stored.
          case stored of
            Some phrase \<Rightarrow> bind_io (lift_io (key_from_phrase L phrase)) (\<lambda>k. return_io (Inr (k, None)))
          | None \<Rightarrow>
              bind_io (query_io (generate_mnemonic E)) (\<lambda>new_phrase.
              bind_io (lift_io (unwrap_sum new_phrase)) (\<lambda>new_phrase.
              bind_io (lift_io (key_from_phrase L new_phrase)) (\<lambda>k. return_io (Inr (k, Some new_phrase)))))))"

definition register_ethereum_key :: "entropy \<Rightarrow> toml \<Rightarrow> disk \<Rightarrow> path \<Rightarrow> fs \<Rightarrow> eth_private_key option \<Rightarrow> eth_private_key gresult act" where
  "register_ethereum_key E T D home_dir fs arg =
     (case arg of
        Some k \<Rightarrow> return_io (Inr k)
      | None \<Rightarrow>
          try_io (lift_io (stored_key T D home_dir fs ethereum_key)) (\<lambda>stored.
          case stored of
            Some k \<Rightarrow> return_io (Inr k)
          | None \<Rightarrow>
              bind_io (query_io (generate_bytes E)) (\<lambda>e.
              bind_io (lift_io (unwrap_sum (eth_key_from_slice E e))) (\<lambda>k. return_io (Inr k)))))"

text \<open>The phrase that is stored after the registration.\<close>

definition phrase_to_store :: "toml \<Rightarrow> disk \<Rightarrow> path \<Rightarrow> fs \<Rightarrow> string option \<Rightarrow> string option \<Rightarrow> string gresult outcome" where
  "phrase_to_store T D home_dir fs generated_cosmos cosmos_phrase =
     (case (generated_cosmos, cosmos_phrase) of
        (Some v, None) \<Rightarrow> Ret (Inr v)
      | (None, Some s) \<Rightarrow> Ret (Inr s)
      | (_, _) \<Rightarrow>
          try_out (load_keys T D home_dir fs) (\<lambda>keys.
          bind_out (unwrap_opt (orchestrator_phrase keys)) (\<lambda>phrase. Ret (Inr phrase))))"

text \<open>The result carries the file system that the command leaves when it succeeds; before that nothing
  is written.\<close>

definition register_orchestrator_address :: "libs \<Rightarrow> network \<Rightarrow> entropy \<Rightarrow> toml \<Rightarrow> disk \<Rightarrow> register_orchestrator_address_opts \<Rightarrow>
    string \<Rightarrow> path \<Rightarrow> fs \<Rightarrow> fs gresult act" where
  "register_orchestrator_address L N E T D args address_prefix home_dir fs =
     (if \<not> rg_no_save args \<and> \<not> config_exists home_dir fs then return_io (Inl please_init)
      else
        bind_io (create_rpc_connections N address_prefix (Some (rg_cosmos_grpc args)) None NABT_TIMEOUT) (\<lambda>connections.
        bind_io (lift_io (unwrap_opt (con_contact connections))) (\<lambda>contact.
        bind_io (wait_for_cosmos_node_ready contact) (\<lambda>_.
        bind_io (lift_io (our_cosmos_address L contact (rg_validator_phrase args))) (\<lambda>validator_addr.
        try_io (check_for_fee (rg_fees args) validator_addr contact) (\<lambda>_.
        try_io (register_cosmos_key L E T D home_dir fs (rg_cosmos_phrase args)) (\<lambda>(cosmos_key, generated_cosmos).
        try_io (register_ethereum_key E T D home_dir fs (rg_ethereum_key args)) (\<lambda>eth_key.
        bind_io (lift_io (our_cosmos_address L contact cosmos_key)) (\<lambda>cosmos_address.
        bind_io (set_gravity_delegate_addresses L contact (eth_key_to_address (cl L) eth_key) cosmos_address
            (rg_validator_phrase args) (rg_fees args)) (\<lambda>res.
        bind_io (lift_io (unwrap_sum res)) (\<lambda>res.
        bind_io (query_io (wait_for_tx contact res NABT_TIMEOUT)) (\<lambda>res.
        if is_err res then return_io (Inl (UnrecoverableError ''Failed trying to register delegate addresses''))
        else if rg_no_save args then return_io (Inr fs)
        else
          try_io (lift_io (phrase_to_store T D home_dir fs generated_cosmos (rg_cosmos_phrase args))) (\<lambda>phrase.
          bind_io (lift_io (case save_keys T D home_dir \<lparr>orchestrator_phrase = Some phrase, ethereum_key = Some eth_key\<rparr> fs of
              (Ret _, fs') \<Rightarrow> Ret fs'
            | (Panic p, _) \<Rightarrow> Panic p)) (\<lambda>fs'.
          return_io (Inr fs')))))))))))))))"


section \<open>Transfers\<close>

text \<open>The last balance of the token, as the loop without \<open>break\<close> finds it.\<close>

fun last_balance :: "string \<Rightarrow> coin list \<Rightarrow> coin option \<Rightarrow> coin option" where
  "last_balance d [] found = found"
| "last_balance d (coin # balances) found = last_balance d balances (if denom coin = d then Some coin else found)"

definition cosmos_to_eth :: "libs \<Rightarrow> network \<Rightarrow> cosmos_to_eth_opts \<Rightarrow> string \<Rightarrow> unit gresult act" where
  "cosmos_to_eth L N args address_prefix =
     (let cosmos_key = ce_cosmos_phrase args; gravity_coin = ce_amount args; fee = ce_fees args in
      bind_io (lift_io (unwrap_sum (cosmos_key_to_address (ds L) cosmos_key address_prefix))) (\<lambda>cosmos_address.
      bind_io (create_rpc_connections N address_prefix (Some (ce_cosmos_grpc args)) None NABT_TIMEOUT) (\<lambda>connections.
      bind_io (lift_io (unwrap_opt (con_contact connections))) (\<lambda>contact.
      bind_io (lift_io (unwrap_opt (con_grpc connections))) (\<lambda>grpc.
      bind_io (query_io (denom_to_erc20 grpc (denom gravity_coin))) (\<lambda>res.
      if is_err res then return_io (Inl (UnrecoverableError ''Asset has no ERC20 representation, you may need to deploy an ERC20 for it!''))
      else
        let bridge_fee = \<lparr>denom = denom gravity_coin, coin_amount = 1\<rparr> in
        try_io (check_for_fee gravity_coin cosmos_address contact) (\<lambda>_.
        try_io (check_for_fee fee cosmos_address contact) (\<lambda>_.
        bind_io (query_io (get_balances contact cosmos_address)) (\<lambda>balances.
        bind_io (lift_io (unwrap_sum balances)) (\<lambda>balances.
        case last_balance (denom gravity_coin) balances None of
          None \<Rightarrow> return_io (Inl (UnrecoverableError ''You do not have any tokens!''))
        | Some found \<Rightarrow>
            if coin_amount gravity_coin \<ge> coin_amount found then
              return_io (Inl (UnrecoverableError ''Your transfer is greater than your balance''))
            else
              bind_io (send_to_eth L contact cosmos_key (ce_eth_destination args) gravity_coin bridge_fee fee) (\<lambda>_.
              if \<not> ce_no_batch args then
                bind_io (send_request_batch L contact cosmos_key (denom gravity_coin) bridge_fee (Some NABT_TIMEOUT)) (\<lambda>res.
                bind_io (lift_io (unwrap_sum res)) (\<lambda>_. return_io (Inr ())))
              else return_io (Inr ()))))))))))))"

definition eth_to_cosmos :: "libs \<Rightarrow> network \<Rightarrow> timer \<Rightarrow> eth_to_cosmos_opts \<Rightarrow> string \<Rightarrow> unit gresult act" where
  "eth_to_cosmos L N Tm args address_prefix =
     (let gravity_address = ec_gravity_contract_address args; erc20_address = ec_token_contract_address args;
          sk = ec_ethereum_key args; ethereum_public_key = eth_key_to_address (cl L) sk in
      bind_io (create_rpc_connections N address_prefix None (Some (ec_ethereum_rpc args)) NABT_TIMEOUT) (\<lambda>connections.
      bind_io (lift_io (unwrap_opt (con_web3 connections))) (\<lambda>web3.
      bind_io (get_valset_nonce L web3 gravity_address ethereum_public_key) (\<lambda>nonce.
      bind_io (lift_io (unwrap_sum nonce)) (\<lambda>_.
      try_io (check_for_eth ethereum_public_key web3) (\<lambda>_.
      bind_io (query_io (get_erc20_decimals web3 erc20_address ethereum_public_key)) (\<lambda>res.
      bind_io (lift_io (unwrap_sum res)) (\<lambda>res.
      bind_io (lift_io (unwrap_opt (parse_uint u8_MAX (dec_string res)))) (\<lambda>decimals.
      let amt = fraction_to_exponent (ec_amount args) (of_nat decimals) in
      bind_io (query_io (get_erc20_balance web3 erc20_address ethereum_public_key)) (\<lambda>erc20_balance.
      bind_io (lift_io (unwrap_sum erc20_balance)) (\<lambda>erc20_balance.
      if erc20_balance = 0 then return_io (Inl (UnrecoverableError ''You have zero tokens, please double check your sender and erc20 addresses!''))
      else if amt > erc20_balance then return_io (Inl (UnrecoverableError ''Insufficient balance''))
      else
        bind_io (send_to_cosmos L web3 Tm erc20_address gravity_address amt (ec_destination args) sk (Some NABT_TIMEOUT) []) (\<lambda>_.
        return_io (Inr ())))))))))))))"

definition deploy_erc20_representation :: "libs \<Rightarrow> network \<Rightarrow> timer \<Rightarrow> deploy_erc20_representation_opts \<Rightarrow> string \<Rightarrow> unit gresult act" where
  "deploy_erc20_representation L N Tm args address_prefix =
     (let sk = de_ethereum_key args; dnm = de_cosmos_denom args in
      bind_io (create_rpc_connections N address_prefix (Some (de_cosmos_grpc args)) (Some (de_ethereum_rpc args)) NABT_TIMEOUT) (\<lambda>connections.
      bind_io (lift_io (unwrap_opt (con_web3 connections))) (\<lambda>web3.
      bind_io (lift_io (unwrap_opt (con_grpc connections))) (\<lambda>grpc.
      try_io (check_for_eth (eth_key_to_address (cl L) sk) web3) (\<lambda>_.
      try_io (contract_address_or_params L grpc (de_gravity_contract_address args)) (\<lambda>contract_address.
      bind_io (query_io (denom_to_erc20 grpc dnm)) (\<lambda>res.
      if is_ok res then return_io (Inl (UnrecoverableError ''Asset already has ERC20 representation''))
      else
        bind_io (deploy_erc20 L web3 dnm (de_erc20_name args) (de_erc20_symbol args) (de_erc20_decimals args) contract_address
            (Some NABT_TIMEOUT) sk [GasPriceMultiplier (3 / 2)]) (\<lambda>res.
        bind_io (lift_io (unwrap_sum res)) (\<lambda>_.
        bind_io (query_until (Tm 100) (query_io (denom_to_erc20 grpc dnm))) (\<lambda>adopted.
        return_io (case adopted of
          Inr _ \<Rightarrow> Inr ()
        | Inl _ \<Rightarrow> Inl (UnrecoverableError ''Your ERC20 contract was not adopted, double check the metadata and try again''))))))))))))"

section \<open>Dispatch\<close>

text \<open>The orchestrator command: the start-up, then the joined loops.\<close>

definition orchestrator :: "libs \<Rightarrow> network \<Rightarrow> timer \<Rightarrow> toml \<Rightarrow> disk \<Rightarrow> fs \<Rightarrow> orchestrator_opts \<Rightarrow> string \<Rightarrow> path \<Rightarrow> gravity_bridge_tools_config \<Rightarrow>
    (nat \<Rightarrow> nat) \<Rightarrow> (nat \<Rightarrow> nat) \<Rightarrow> (nat \<Rightarrow> nat) \<Rightarrow> unit gresult outcome \<Rightarrow> effect list \<Rightarrow> bool" where
  "orchestrator L N Tm T D fs args address_prefix home_dir config ma mb mc r tot \<longleftrightarrow>
     (\<exists>q tr. runs_to (orchestrator_setup L N T D fs args address_prefix home_dir) (q, tr) \<and>
        (case q of
           Panic p \<Rightarrow> r = Panic p \<and> tot = tr
         | Ret (Inl e) \<Rightarrow> r = Ret (Inl e) \<and> tot = tr
         | Ret (Inr st) \<Rightarrow>
             (\<exists>tr'. tot = tr @ tr' \<and>
                orchestrator_main_loop L ma mb mc Tm (st_cosmos_key st) (st_ethereum_key st) (st_web3 st) (st_contact st) (st_grpc st)
                  (st_contract_address st) (st_fee st) config (st_wait_time st) r tr')))"

record opts =
  opt_home :: "path option"
  opt_address_prefix :: string
  opt_subcmd :: sub_command

text \<open>What the tool runs in: the network, the timer, the TOML library, the disk, the random numbers, the
  home directory of the user, and the moments at which the three loops of an orchestrator are
  served.\<close>

record world =
  w_network :: network
  w_timer :: timer
  w_toml :: toml
  w_disk :: disk
  w_entropy :: entropy
  w_home :: "path option"
  w_moments :: "(nat \<Rightarrow> nat) \<times> (nat \<Rightarrow> nat) \<times> (nat \<Rightarrow> nat)"

text \<open>A command can end with a result, a file system and the effects it had.\<close>

fun run_client :: "libs \<Rightarrow> world \<Rightarrow> string \<Rightarrow> client_subcommand \<Rightarrow> unit gresult outcome \<Rightarrow> effect list \<Rightarrow> bool" where
  "run_client L w address_prefix (EthToCosmos args) r tot \<longleftrightarrow>
     runs_to (eth_to_cosmos L (w_network w) (w_timer w) args address_prefix) (r, tot)"
| "run_client L w address_prefix (CosmosToEth args) r tot \<longleftrightarrow>
     runs_to (cosmos_to_eth L (w_network w) args address_prefix) (r, tot)"
| "run_client L w address_prefix (DeployErc20Representation args) r tot \<longleftrightarrow>
     runs_to (deploy_erc20_representation L (w_network w) (w_timer w) args address_prefix) (r, tot)"

fun run_keys :: "libs \<Rightarrow> world \<Rightarrow> string \<Rightarrow> path \<Rightarrow> keys_subcommand \<Rightarrow> fs \<Rightarrow> unit gresult outcome \<Rightarrow> fs \<Rightarrow> effect list \<Rightarrow> bool" where
  "run_keys L w address_prefix home_dir (RegisterOrchestratorAddress args) fs r fs' tot \<longleftrightarrow>
     (\<exists>q. runs_to (register_orchestrator_address L (w_network w) (w_entropy w) (w_toml w) (w_disk w) args address_prefix home_dir fs) (q, tot) \<and>
        (case q of
           Panic p \<Rightarrow> r = Panic p \<and> fs' = fs
         | Ret (Inl e) \<Rightarrow> r = Ret (Inl e) \<and> fs' = fs
         | Ret (Inr new) \<Rightarrow> r = Ret (Inr ()) \<and> fs' = new))"
| "run_keys L w address_prefix home_dir ShowKeys fs r fs' tot \<longleftrightarrow>
     r = try_out (show_keys L (w_toml w) (w_disk w) home_dir address_prefix fs) (\<lambda>_. Ret (Inr ())) \<and> fs' = fs \<and> tot = []"
| "run_keys L w address_prefix home_dir (SetEthereumKey k) fs r fs' tot \<longleftrightarrow>
     (r, fs') = set_eth_key (w_toml w) (w_disk w) home_dir k fs \<and> tot = []"
| "run_keys L w address_prefix home_dir (SetOrchestratorKey phrase) fs r fs' tot \<longleftrightarrow>
     (r, fs') = set_orchestrator_key L (w_toml w) (w_disk w) home_dir phrase fs \<and> tot = []"

fun run_command :: "libs \<Rightarrow> world \<Rightarrow> string \<Rightarrow> path \<Rightarrow> gravity_bridge_tools_config \<Rightarrow> sub_command \<Rightarrow> fs \<Rightarrow> unit gresult outcome \<Rightarrow> fs \<Rightarrow> effect list \<Rightarrow> bool" where
  "run_command L w address_prefix home_dir config (ClientCmd cmd) fs r fs' tot \<longleftrightarrow> run_client L w address_prefix cmd r tot \<and> fs' = fs"
| "run_command L w address_prefix home_dir config (KeysCmd cmd) fs r fs' tot \<longleftrightarrow> run_keys L w address_prefix home_dir cmd fs r fs' tot"
| "run_command L w address_prefix home_dir config (OrchestratorCmd args) fs r fs' tot \<longleftrightarrow>
     (case w_moments w of (ma, mb, mc) \<Rightarrow>
        orchestrator L (w_network w) (w_timer w) (w_toml w) (w_disk w) fs args address_prefix home_dir config ma mb mc r tot) \<and> fs' = fs"
| "run_command L w address_prefix home_dir config (RelayerCmd args) fs r fs' tot \<longleftrightarrow>
     runs_to (relayer L (w_network w) (w_timer w) (w_toml w) (w_disk w) fs args address_prefix home_dir (cfg_relayer config)) (r, tot) \<and> fs' = fs"
| "run_command L w address_prefix home_dir config InitCmd fs r fs' tot \<longleftrightarrow>
     (r, fs') = init_config (w_toml w) (w_disk w) home_dir fs \<and> tot = []"

definition run_nabt :: "libs \<Rightarrow> world \<Rightarrow> opts \<Rightarrow> fs \<Rightarrow> unit gresult outcome \<Rightarrow> fs \<Rightarrow> effect list \<Rightarrow> bool" where
  "run_nabt L w args fs r fs' tot \<longleftrightarrow>
     (case get_home_dir (w_home w) (opt_home args) of
        Inl e \<Rightarrow> r = Ret (Inl e) \<and> fs' = fs \<and> tot = []
      | Inr home_dir \<Rightarrow>
          (case load_config (w_toml w) (w_disk w) home_dir fs of
             Panic p \<Rightarrow> r = Panic p \<and> fs' = fs \<and> tot = []
           | Ret (Inl e) \<Rightarrow> r = Ret (Inl e) \<and> fs' = fs \<and> tot = []
           | Ret (Inr config) \<Rightarrow> run_command L w (opt_address_prefix args) home_dir config (opt_subcmd args) fs r fs' tot))"

text \<open>The status with which the process ends: only an unrecoverable error gives one.\<close>

fun exit_code :: "unit gresult outcome \<Rightarrow> nat" where
  "exit_code (Ret (Inl (UnrecoverableError error))) = 1"
| "exit_code (Ret (Inl (ValidationError error))) = 0"
| "exit_code (Ret (Inl (RpcError error))) = 0"
| "exit_code (Ret (Inr _)) = 0"
| "exit_code (Panic p) = 101"


section \<open>Starting up has no effect\<close>

lemma emits_try_fallbacks [emits_intros]: "emits P (try_fallbacks attempt url searched)"
  unfolding try_fallbacks_def by (intro emits_intros)

lemma emits_create_rpc_connections [emits_intros]: "emits P (create_rpc_connections N p g e t)"
  unfolding create_rpc_connections_def cosmos_connection_def ethereum_connection_def Let_def by (intro emits_intros)

lemma emits_checks [emits_intros]:
  "emits P (wait_for_cosmos_node_ready K)" "emits P (check_for_fee fee a K)" "emits P (check_for_eth b W)"
  unfolding check_for_fee_def check_for_eth_def by (intro node_ready.no_effect emits_intros)+

lemma emits_check_delegate_addresses [emits_intros]: "emits P (check_delegate_addresses L G a c p)"
  unfolding check_delegate_addresses_def by (intro emits_intros)

lemma emits_contract_address [emits_intros]: "emits P (contract_address_or_params L G c)"
  unfolding contract_address_or_params_def by (intro emits_intros)

lemma silent_orchestrator_setup: "silent (orchestrator_setup L N T D fs args p h)"
  unfolding orchestrator_setup_def Let_def by (intro emits_intros)

lemma emits_register_keys [emits_intros]:
  "emits P (register_cosmos_key L E T D h fs arg)" "emits P (register_ethereum_key E T D h fs arg')"
  unfolding register_cosmos_key_def register_ethereum_key_def by (intro emits_intros)+

section \<open>What the commands establish\<close>

lemma yields_try_ok:
  assumes "yields (\<lambda>r. \<forall>x. r = Inr x \<longrightarrow> Q x) m" "\<And>e. R (Inl e)" "\<And>x. Q x \<Longrightarrow> yields R (f x)"
  shows "yields R (try_io m f)"
  unfolding try_io_def by (rule yields_bind [OF assms(1)]) (use assms(2,3) in \<open>auto intro: yields_return split: sum.splits\<close>)

lemma yields_retry_answer: "yields (\<lambda>x. \<exists>t. ans t = Inr x) (retry_io (query_io ans))"
  by (rule yields_retry)

lemma moving_cases: "moving r \<Longrightarrow> \<exists>h. r = Inr (Moving h)"
  by (cases r rule: moving.cases) auto

lemma node_ready_yields: "yields (\<lambda>_. \<exists>t h. get_chain_status K t = Inr (Moving h)) (wait_for_cosmos_node_ready K)"
  unfolding node_ready_request
  by (rule yields_weaken [OF yields_retry_answer]) (metis Inl_Inr_False moving_cases)

text \<open>The two delegate addresses are registered with each other for one validator.\<close>

definition delegates_agree :: "libs \<Rightarrow> grpc \<Rightarrow> string \<Rightarrow> eth_address \<Rightarrow> cosmos_address \<Rightarrow> bool" where
  "delegates_agree L G p a c \<longleftrightarrow>
     (\<exists>b e k t t'. get_delegate_key_by_eth G (address_to_string (cl L) a) t = Inr e \<and> cosmos_to_bech32 (ds L) c p = Inr b \<and>
        get_delegate_key_by_orchestrator G b t' = Inr k \<and> cosmos_parse (ds L) (dke_orchestrator_address e) = Inr c \<and>
        address_parse (cl L) (dko_eth_address k) = Inr a \<and> dke_validator_address e = dko_validator_address k)"

lemma check_delegate_addresses_yields:
  "yields (\<lambda>r. \<forall>x. r = Inr x \<longrightarrow> delegates_agree L G p a c) (check_delegate_addresses L G a c p)"
  unfolding check_delegate_addresses_def
  by (intro yields_bind_query yields_bind_lift, unfold prod.case, intro yields_case_sum yields_bind_lift yields_return)
    (auto simp: unwrap_Ret delegates_agree_def split: if_splits)

text \<open>What \<open>check_for_fee\<close> compares the fee with: the first balance whose denomination contains that of
  the fee, which need not be the token of the fee.\<close>

definition fee_like_balance :: "contact \<Rightarrow> cosmos_address \<Rightarrow> coin \<Rightarrow> bool" where
  "fee_like_balance K a fee \<longleftrightarrow>
     (\<exists>bs t b. get_balances K a t = Inr bs \<and> find (\<lambda>b. str_contains (denom b) (denom fee)) bs = Some b \<and> coin_amount fee \<le> coin_amount b)"

lemma check_for_fee_yields: "yields (\<lambda>r. \<forall>x. r = Inr x \<longrightarrow> fee_like_balance K a fee) (check_for_fee fee a K)"
  unfolding check_for_fee_def get_balances_with_retry_def
  by (rule yields_bind [OF yields_retry_answer])
    (auto intro!: yields_return simp: fee_like_balance_def fee_in_balances_find split: option.splits if_splits)

definition has_ether :: "web3 \<Rightarrow> eth_address \<Rightarrow> bool" where
  "has_ether W a \<longleftrightarrow> (\<exists>n t. eth_get_balance W a t = Inr n \<and> 0 < n)"

lemma check_for_eth_yields: "yields (\<lambda>r. \<forall>x. r = Inr x \<longrightarrow> has_ether W a) (check_for_eth a W)"
  unfolding check_for_eth_def get_eth_balances_with_retry_def
  by (rule yields_bind [OF yields_retry_answer]) (auto intro!: yields_return simp: has_ether_def split: if_splits)

text \<open>The bridge contract: the one asked for or, without one, the one in the parameters of the chain.\<close>

definition contract_known :: "libs \<Rightarrow> grpc \<Rightarrow> eth_address option \<Rightarrow> eth_address \<Rightarrow> bool" where
  "contract_known L G arg c \<longleftrightarrow>
     (case arg of Some a \<Rightarrow> c = a
      | None \<Rightarrow> \<exists>t ps. grpc_params G t = Inr (Some ps) \<and> address_parse (cl L) (bridge_ethereum_address ps) = Inr c)"

lemma gravity_params_yields: "yields (\<lambda>r. \<forall>ps. r = Inr ps \<longrightarrow> (\<exists>t. grpc_params G t = Inr (Some ps))) (get_gravity_params G)"
  unfolding get_gravity_params_def ask_def
  by (rule yields_try_ok [OF yields_query, where Q = "\<lambda>response. \<exists>t. grpc_params G t = Inr response"])
    (auto simp: outcome_simps simp del: bind_io_lift intro!: yields_bind_lift yields_return)

lemma contract_address_yields:
  "yields (\<lambda>r. \<forall>c. r = Inr c \<longrightarrow> contract_known L G arg c) (contract_address_or_params L G arg)"
proof (cases arg)
  case None
  show ?thesis unfolding contract_address_or_params_def None option.case
    by (rule yields_bind [OF gravity_params_yields], intro yields_bind_lift yields_return)
      (auto simp: contract_known_def outcome_simps split: sum.splits)
qed (auto simp: contract_address_or_params_def contract_known_def intro: yields_return)

text \<open>The connections that were asked for.\<close>

lemma connections_both:
  "yields (\<lambda>c. \<exists>g k w. con_grpc c = Some g \<and> con_contact c = Some k \<and> con_web3 c = Some w \<and>
       cosmos_endpoint N p timeout gu g k \<and> ethereum_endpoint N timeout eu w)
     (create_rpc_connections N p (Some gu) (Some eu) timeout)"
  by (rule yields_weaken [OF create_rpc_connections_yields]) (auto split: option.splits)

lemma connections_cosmos:
  "yields (\<lambda>c. \<exists>g k. con_grpc c = Some g \<and> con_contact c = Some k \<and> cosmos_endpoint N p timeout gu g k)
     (create_rpc_connections N p (Some gu) None timeout)"
  by (rule yields_weaken [OF create_rpc_connections_yields]) (auto split: option.splits)

lemma connections_ethereum:
  "yields (\<lambda>c. \<exists>w. con_web3 c = Some w \<and> ethereum_endpoint N timeout eu w)
     (create_rpc_connections N p None (Some eu) timeout)"
  by (rule yields_weaken [OF create_rpc_connections_yields]) (auto split: option.splits)

text \<open>Everything the start-up has checked when it hands over to the loops.\<close>

definition start_checked :: "libs \<Rightarrow> network \<Rightarrow> toml \<Rightarrow> disk \<Rightarrow> fs \<Rightarrow> orchestrator_opts \<Rightarrow> string \<Rightarrow> path \<Rightarrow> orchestrator_start \<Rightarrow> bool" where
  "start_checked L N T D fs args p h st \<longleftrightarrow>
     cosmos_key_or_stored L T D h fs (oo_cosmos_phrase args) = Ret (Inr (st_cosmos_key st)) \<and>
     ethereum_key_or_stored T D h fs (oo_ethereum_key args) = Ret (Inr (st_ethereum_key st)) \<and>
     cosmos_endpoint N p 11 (oo_cosmos_grpc args) (st_grpc st) (st_contact st) \<and>
     ethereum_endpoint N 11 (oo_ethereum_rpc args) (st_web3 st) \<and>
     (\<exists>t n. get_chain_status (st_contact st) t = Inr (Moving n)) \<and>
     (\<exists>a. our_cosmos_address L (st_contact st) (st_cosmos_key st) = Ret a \<and>
        delegates_agree L (st_grpc st) (get_prefix (st_contact st)) (eth_key_to_address (cl L) (st_ethereum_key st)) a \<and>
        fee_like_balance (st_contact st) a (oo_fees args)) \<and>
     has_ether (st_web3 st) (eth_key_to_address (cl L) (st_ethereum_key st)) \<and>
     contract_known L (st_grpc st) (oo_gravity_contract_address args) (st_contract_address st) \<and>
     st_fee st = oo_fees args \<and> st_wait_time st = wait_duration (oo_wait_time args)"

text \<open>C19: the orchestrator starts its loops only with keys from the arguments or from the key file, with
  nodes that answered, a Cosmos chain that moves, delegate addresses registered with each other for
  one validator, some Ether, and the contract asked for or named by the chain; the account has a token
  whose denomination contains that of the fee, and the first such balance covers the fee; and the
  start-up itself sends nothing.\<close>

theorem orchestrator_setup_checked:
  "silent (orchestrator_setup L N T D fs args p h) \<and>
   yields (\<lambda>r. case r of Inl e \<Rightarrow> True | Inr st \<Rightarrow> start_checked L N T D fs args p h st) (orchestrator_setup L N T D fs args p h)"
proof (rule conjI [OF silent_orchestrator_setup])
  have speed: "min (min ETH_SIGNER_LOOP_SPEED ETH_ORACLE_LOOP_SPEED) LOOP_SPEED = 11"
    by (simp add: ETH_SIGNER_LOOP_SPEED_def ETH_ORACLE_LOOP_SPEED_def LOOP_SPEED_def)
  show "yields (\<lambda>r. case r of Inl e \<Rightarrow> True | Inr st \<Rightarrow> start_checked L N T D fs args p h st) (orchestrator_setup L N T D fs args p h)"
    unfolding orchestrator_setup_def Let_def speed
    apply (rule yields_try_ok [where Q = "\<lambda>k. cosmos_key_or_stored L T D h fs (oo_cosmos_phrase args) = Ret (Inr k)"])
      apply (rule yields_lift, simp, simp)
    apply (rule yields_try_ok [where Q = "\<lambda>k. ethereum_key_or_stored T D h fs (oo_ethereum_key args) = Ret (Inr k)"])
      apply (rule yields_lift, simp, simp)
    apply (rule yields_bind [OF connections_both])
    apply (intro yields_bind_lift)
    apply (rule yields_bind [OF node_ready_yields])
    apply (rule yields_try_ok [OF check_delegate_addresses_yields], simp)
    apply (rule yields_try_ok [OF check_for_fee_yields], simp)
    apply (rule yields_try_ok [OF check_for_eth_yields], simp)
    apply (rule yields_try_ok [OF contract_address_yields], simp)
    apply (rule yields_return)
    apply (auto simp: start_checked_def outcome_simps)
    done
qed

end
