(* ===== verification/Commands.thy ===== *)
theory Commands
  imports Nabt
begin

text \<open>
  What the commands of \<open>nabt\<close> do, over the model of \<open>Nabt\<close>: the registration of the delegate keys
  (result and effects together), the relayer command, and the two transfers with the conversion of
  amounts.
\<close>

section \<open>Results together with effects\<close>

text \<open>When the computation returns, the result and the effects it had are related.\<close>

definition leads :: "('a \<Rightarrow> 'e list \<Rightarrow> bool) \<Rightarrow> ('e, 'a) io \<Rightarrow> bool" where
  "leads R m \<longleftrightarrow> (\<forall>s r t. m s = Some (Ret r, t) \<longrightarrow> (\<exists>new. trace t = trace s @ new \<and> R r new))"

lemma leads_bind:
  assumes "leads Q m" "\<And>x new. Q x new \<Longrightarrow> leads (\<lambda>r later. R r (new @ later)) (f x)"
  shows "leads R (bind_io m f)"
  unfolding leads_def
proof (intro allI impI)
  fix s r t assume "bind_io m f s = Some (Ret r, t)"
  then obtain x s1 where x: "m s = Some (Ret x, s1)" "f x s1 = Some (Ret r, t)" by (auto simp: bind_io_Some_iff)
  from assms(1) x(1) obtain new where new: "trace s1 = trace s @ new" "Q x new" unfolding leads_def by blast
  from assms(2) [OF new(2)] x(2) obtain later where "trace t = trace s1 @ later" "R r (new @ later)" unfolding leads_def by blast
  with new(1) show "\<exists>new. trace t = trace s @ new \<and> R r new" by auto
qed

lemma leads_silent: "silent m \<Longrightarrow> yields Q m \<Longrightarrow> leads (\<lambda>r new. new = [] \<and> Q r) m"
  unfolding leads_def using silentD by (fastforce simp: yields_def)

lemma leads_return: "R x [] \<Longrightarrow> leads R (return_io x)"
  by (auto simp: leads_def io_simps)

lemma leads_weaken: "leads Q m \<Longrightarrow> (\<And>r new. Q r new \<Longrightarrow> R r new) \<Longrightarrow> leads R m"
  unfolding leads_def by blast

lemma leads_effect: "(\<And>n. R (ans n) [e]) \<Longrightarrow> leads R (effect_io e ans)"
  by (auto simp: leads_def effect_io_def split: if_splits)

lemma leads_query: "leads (\<lambda>r new. new = [] \<and> (\<exists>n. r = ans n)) (query_io ans)"
  by (auto simp: leads_def query_io_def split: if_splits)

lemma leads_try:
  assumes "leads Q m" "\<And>e new. Q (Inl e) new \<Longrightarrow> R (Inl e) new" "\<And>x new. Q (Inr x) new \<Longrightarrow> leads (\<lambda>r later. R r (new @ later)) (f x)"
  shows "leads R (try_io m f)"
  unfolding try_io_def by (rule leads_bind [OF assms(1)]) (use assms(2,3) in \<open>auto intro: leads_return split: sum.splits\<close>)

text \<open>A silent step of which a fact is known, and what follows it.\<close>

lemma leads_after:
  assumes "silent m" "yields Q m" "\<And>x. Q x \<Longrightarrow> leads R (f x)"
  shows "leads R (bind_io m f)"
  by (rule leads_bind [OF leads_silent [OF assms(1,2)]]) (use assms(3) in auto)

lemma leads_after_try:
  assumes "silent m" "yields (\<lambda>r. \<forall>x. r = Inr x \<longrightarrow> Q x) m" "\<And>e. R (Inl e) []" "\<And>x. Q x \<Longrightarrow> leads R (f x)"
  shows "leads R (try_io m f)"
  unfolding try_io_def by (rule leads_after [OF assms(1,2)]) (use assms(3,4) in \<open>auto intro: leads_return split: sum.splits\<close>)

lemma yields_any: "yields (\<lambda>r. \<forall>x. r = Inr x \<longrightarrow> True) m"
  by (simp add: yields_def)

lemma leads_bind_lift: "(\<And>x. r = Ret x \<Longrightarrow> leads R (f x)) \<Longrightarrow> leads R (bind_io (lift_io r) f)"
  by (rule leads_after [OF emits_lift yields_lift [where Q = "\<lambda>x. r = Ret x"]])

lemma leads_bind_query: "(\<And>n. leads R (f (ans n))) \<Longrightarrow> leads R (bind_io (query_io ans) f)"
  by (rule leads_after [OF emits_query yields_query [where Q = "\<lambda>x. \<exists>n. x = ans n"]]) auto

lemma leads_if: "(b \<Longrightarrow> leads R m) \<Longrightarrow> (\<not> b \<Longrightarrow> leads R n) \<Longrightarrow> leads R (if b then m else n)"
  by simp

section \<open>Registration\<close>

text \<open>A broadcast that succeeds has sent the transaction.\<close>

lemma broadcast_leads:
  "leads (\<lambda>r new. \<forall>x. r = Inr x \<longrightarrow> (\<exists>e. new = [e] \<and> broadcasts K sk (\<lambda>ms. ms = msgs) e)) (broadcast_and_wait K sk a fee msgs)"
  (is "leads ?R _")
proof -
  have "leads ?R (broadcast K sk a fee msgs)"
    unfolding broadcast_def cosmos_send_def
    by (intro leads_after_try [where Q = "\<lambda>_. True"] leads_after_try [where Q = "\<lambda>b. \<exists>args. sign_std_msg K sk msgs args MEMO = Inr b"]
        leads_effect emits_query emits_return yields_return yields_any) (auto simp: broadcasts_def)
  then show ?thesis unfolding broadcast_and_wait_def
    by (rule leads_try) (auto intro: leads_weaken [OF leads_query])
qed

text \<open>The key that is registered is the key of the phrase that is stored afterwards, wherever the phrase
  came from.\<close>

lemma register_cosmos_key_phrase:
  "yields (\<lambda>r. \<forall>x. r = Inr x \<longrightarrow>
      (case x of (k, g) \<Rightarrow> \<forall>ph. phrase_to_store T D h fs g arg = Ret (Inr ph) \<longrightarrow> key_from_phrase L ph = Ret k))
     (register_cosmos_key L E T D h fs arg)"
proof (cases arg)
  case None
  show ?thesis unfolding register_cosmos_key_def None option.case
    apply (rule yields_try_ok [where Q = "\<lambda>stored. stored_key T D h fs orchestrator_phrase = Ret (Inr stored)"])
      apply (rule yields_lift, simp, simp)
    apply (intro yields_case_option yields_bind_query yields_bind_lift yields_return)
     apply (auto simp: phrase_to_store_def stored_key_def outcome_simps split: if_splits)
    done
next
  case (Some phrase)
  show ?thesis unfolding register_cosmos_key_def Some option.case
    by (intro yields_bind_lift yields_return) (auto simp: phrase_to_store_def)
qed

definition delegation :: "libs \<Rightarrow> contact \<Rightarrow> cosmos_private_key \<Rightarrow> cosmos_private_key \<Rightarrow> eth_private_key \<Rightarrow> effect \<Rightarrow> bool" where
  "delegation L K validator_key cosmos_key ek e \<longleftrightarrow>
     (\<exists>validator valoper delegate.
        our_cosmos_address L K validator_key = Ret validator \<and> bech32_of L validator (get_prefix K @ ''valoper'') = Ret valoper \<and>
        our_cosmos_address L K cosmos_key = Ret delegate \<and>
        broadcasts K validator_key (\<lambda>msgs. msgs =
          [Msg ''/nab.v1.MsgSetOrchestratorAddress'' (MsgSetOrchestratorAddress
            \<lparr>mso_validator = valoper, mso_orchestrator = cosmos_to_string (ds L) delegate,
             mso_eth_address = address_to_string (cl L) (eth_key_to_address (cl L) ek)\<rparr>)]) e)"

lemma delegate_leads:
  assumes "our_cosmos_address L K cosmos_key = Ret delegate"
  shows "leads (\<lambda>r new. \<forall>x. r = Inr x \<longrightarrow> (\<exists>e. new = [e] \<and> delegation L K validator_key cosmos_key ek e))
    (set_gravity_delegate_addresses L K (eth_key_to_address (cl L) ek) delegate validator_key fee)"
  unfolding set_gravity_delegate_addresses_def
  by (intro leads_bind_lift leads_weaken [OF broadcast_leads]) (use assms in \<open>auto simp: delegation_def\<close>)

text \<open>What is stored is what the commands started later find.\<close>

lemma saved_keys_found:
  assumes "usable T D h fs" "config_exists h fs" "key_from_phrase L ph = Ret ck"
    "save_keys T D h \<lparr>orchestrator_phrase = Some ph, ethereum_key = Some ek\<rparr> fs = (Ret (), fs')"
  shows "cosmos_key_or_stored L T D h fs' None = Ret (Inr ck)" "ethereum_key_or_stored T D h fs' None = Ret (Inr ek)"
proof -
  have "config_exists h fs'" using config_exists_save [OF assms(2,1)] assms(4) by (metis snd_conv)
  moreover have "stored_keys T D h fs' = Some \<lparr>orchestrator_phrase = Some ph, ethereum_key = Some ek\<rparr>"
    using key_file.load_save [OF assms(1)] assms(4) by (metis snd_conv)
  then have "load_keys T D h fs' = Ret (Inr \<lparr>orchestrator_phrase = Some ph, ethereum_key = Some ek\<rparr>)"
    by (auto simp: stored_keys_def split: outcome.splits sum.splits)
  ultimately show "cosmos_key_or_stored L T D h fs' None = Ret (Inr ck)" "ethereum_key_or_stored T D h fs' None = Ret (Inr ek)"
    using assms(3) by (simp_all add: cosmos_key_or_stored_def ethereum_key_or_stored_def stored_key_def outcome_simps)
qed

lemma save_leads:
  assumes "usable T D h fs" "config_exists h fs"
    "\<forall>ph. phrase_to_store T D h fs generated arg = Ret (Inr ph) \<longrightarrow> key_from_phrase L ph = Ret ck"
  shows "leads (\<lambda>r new. case r of Inl e \<Rightarrow> True | Inr fs' \<Rightarrow> new = [] \<and>
      cosmos_key_or_stored L T D h fs' None = Ret (Inr ck) \<and> ethereum_key_or_stored T D h fs' None = Ret (Inr ek))
    (try_io (lift_io (phrase_to_store T D h fs generated arg)) (\<lambda>phrase.
     bind_io (lift_io (case save_keys T D h \<lparr>orchestrator_phrase = Some phrase, ethereum_key = Some ek\<rparr> fs of
         (Ret _, fs') \<Rightarrow> Ret fs' | (Panic p, _) \<Rightarrow> Panic p)) (\<lambda>fs'.
     return_io (Inr fs'))))"
proof (rule leads_after_try [OF emits_lift yields_lift])
  fix ph assume ph: "phrase_to_store T D h fs generated arg = Ret (Inr ph)"
  show "leads (\<lambda>r new. case r of Inl e \<Rightarrow> True | Inr fs' \<Rightarrow> new = [] \<and>
      cosmos_key_or_stored L T D h fs' None = Ret (Inr ck) \<and> ethereum_key_or_stored T D h fs' None = Ret (Inr ek))
    (bind_io (lift_io (case save_keys T D h \<lparr>orchestrator_phrase = Some ph, ethereum_key = Some ek\<rparr> fs of
         (Ret _, fs') \<Rightarrow> Ret fs' | (Panic p, _) \<Rightarrow> Panic p)) (\<lambda>fs'. return_io (Inr fs')))"
    using assms(3) ph by (intro leads_bind_lift leads_return) (auto split: prod.splits outcome.splits dest: saved_keys_found [OF assms(1,2)])
qed auto

text \<open>C20: a registration that succeeds has sent one transaction, signed by the validator, that names the
  Cosmos and the Ethereum address of one pair of keys; and unless told not to save, it leaves a key file from
  which an orchestrator started without keys takes exactly that pair.\<close>

theorem register_orchestrator_address_stores:
  assumes "usable T D h fs"
  shows "leads (\<lambda>r new. case r of Inl e \<Rightarrow> True | Inr fs' \<Rightarrow>
      (\<exists>K G ck ek e. cosmos_endpoint N p 60 (rg_cosmos_grpc args) G K \<and> new = [e] \<and>
         delegation L K (rg_validator_phrase args) ck ek e \<and>
         (if rg_no_save args then fs' = fs
          else cosmos_key_or_stored L T D h fs' None = Ret (Inr ck) \<and> ethereum_key_or_stored T D h fs' None = Ret (Inr ek))))
    (register_orchestrator_address L N E T D args p h fs)"
  unfolding register_orchestrator_address_def
  apply (rule leads_if)
   apply (rule leads_return, simp)
  apply (rule leads_after [OF emits_create_rpc_connections connections_cosmos])
  apply (intro leads_bind_lift)
  apply (rule leads_after [OF emits_checks(1) node_ready_yields])
  apply (intro leads_bind_lift)
  apply (rule leads_after_try [OF emits_checks(2) check_for_fee_yields], simp)
  apply (rule leads_after_try [OF emits_register_keys(1) register_cosmos_key_phrase], simp)
  apply (simp only: split_paired_all prod.case)
  apply (rule leads_after_try [OF emits_register_keys(2), where Q = "\<lambda>_. True"], simp add: yields_True, simp)
  apply (intro leads_bind_lift)
  apply (rule leads_bind [OF delegate_leads], assumption)
  apply (intro leads_bind_lift)
  apply (intro leads_bind_query leads_if leads_return)
    apply simp
   apply (fastforce simp: NABT_TIMEOUT_def outcome_simps)
  apply (rule leads_weaken [OF save_leads [OF assms]])
    apply blast
   apply assumption
  apply (fastforce simp: NABT_TIMEOUT_def outcome_simps split: sum.splits)
  done

section \<open>Amounts\<close>

text \<open>A product of an integer below $2^{53}$ with a power of two is a double.\<close>

lemma fl64_exact:
  assumes "0 \<le> n" "n < 2 ^ 53"
  shows "fl64 (of_int n * 2 powi j) = of_int n * 2 powi j"
proof (cases "n = 0")
  case False
  let ?b = "bitlen n"
  have pos: "0 < n" using False assms(1) by simp
  have len: "?b \<le> 53"
  proof (rule ccontr)
    assume "\<not> ?b \<le> 53"
    then have "(2 :: rat) powi 53 \<le> 2 powi (?b - 1)" by (intro power_int_increasing) auto
    with bitlen_bounds_rat(1) [OF pos] have "(2 :: rat) powi 53 \<le> of_int n" by linarith
    then have "of_int (2 ^ 53) \<le> (of_int n :: rat)" by simp
    with assms(2) show False by linarith
  qed
  define e where "e = ?b - 1 + j"
  have lo: "2 powi e \<le> (of_int n * 2 powi j :: rat)" and hi: "(of_int n * 2 powi j :: rat) < 2 powi (e + 1)"
    using bitlen_bounds_rat [OF pos] by (simp_all add: e_def power_int_add)
  have "(of_int n * 2 powi j :: rat) = of_int (n * 2 ^ nat (53 - ?b)) * 2 powi (e - int 53 + 1)"
  proof -
    have "j = int (nat (53 - ?b)) + (e - int 53 + 1)" using len by (simp add: e_def)
    then have "(2 :: rat) powi j = 2 powi int (nat (53 - ?b)) * 2 powi (e - int 53 + 1)"
      by (metis power_int_add zero_neq_numeral)
    then have "(2 :: rat) powi j = 2 ^ nat (53 - ?b) * 2 powi (e - int 53 + 1)" by (simp only: power_int_of_nat)
    then show ?thesis by simp
  qed
  from round_sig_exact [OF lo hi this] show ?thesis .
qed (simp add: round_sig_def)

lemma times_ten_exact:
  assumes "0 \<le> n" "n * 5 < 2 ^ 53"
  shows "f64_times_ten (Finite (of_int n * 2 powi j)) = Finite (of_int (n * 5) * 2 powi (j + 1))"
proof -
  have "0 \<le> of_int n * (2 :: rat) powi j" using assms(1) by simp
  moreover have "10 * (of_int n * (2 :: rat) powi j) = of_int (n * 5) * 2 powi (j + 1)" by (simp add: power_int_add)
  ultimately have "times_ten (of_int n * 2 powi j) = of_int (n * 5) * 2 powi (j + 1)"
    using fl64_exact [of "n * 5" "j + 1"] assms by (simp only: times_ten_def not_less [symmetric] if_False)
  then show ?thesis by simp
qed

lemma times_ten_powers:
  assumes "0 \<le> n" "n * 5 ^ k < 2 ^ 53"
  shows "(f64_times_ten ^^ k) (Finite (of_int n * 2 powi j)) = Finite (of_int (n * 5 ^ k) * 2 powi (j + int k))"
  using assms
proof (induction k)
  case (Suc k)
  have "n * 5 ^ k \<le> n * 5 ^ Suc k" using Suc.prems(1) by (intro mult_left_mono) auto
  with Suc show ?case using times_ten_exact [of "n * 5 ^ k" "j + int k"] by (simp add: mult_ac add_ac)
qed simp

lemma f64_as_u128_nonneg: "0 \<le> x \<Longrightarrow> f64_as_u128 (Finite x) = min (nat \<lfloor>x\<rfloor>) u128_MAX"
  by auto

text \<open>C30: an amount of the form $n \cdot 2^j$ with $n \cdot 5^e < 2^{53}$, so each whole number of tokens that fits,
  is converted exactly, up to the cut to 128 bits.\<close>

theorem fraction_to_exponent_exact:
  assumes "0 \<le> n" "n * 5 ^ unat exponent < 2 ^ 53"
  shows "fraction_to_exponent (Finite (of_int n * 2 powi j)) exponent =
    min (nat \<lfloor>of_int n * 2 powi j * (10 :: rat) ^ unat exponent\<rfloor>) u128_MAX"
proof -
  have scale: "of_int (n * 5 ^ k) * 2 powi (j + int k) = of_int n * 2 powi j * (10 :: rat) ^ k" for k
  proof -
    have "(10 :: rat) ^ k = 5 ^ k * 2 ^ k" by (simp flip: power_mult_distrib)
    moreover have "(2 :: rat) powi (j + int k) = 2 powi j * 2 ^ k" by (subst power_int_add) simp_all
    ultimately show ?thesis by simp
  qed
  show ?thesis unfolding fraction_to_exponent_def times_ten_powers [OF assms] scale
    using assms(1) by (intro f64_as_u128_nonneg) simp
qed

text \<open>Three amounts that are no doubles.\<close>

lemma amount_0_07: "(f64_times_ten ^^ 18) (Finite (fl64 (7 / 100))) = Finite 70000000000000008"
  by code_simp

lemma amount_1_15: "(f64_times_ten ^^ 18) (Finite (fl64 (23 / 20))) = Finite 1150000000000000000"
  by code_simp

lemma amount_1_1501: "(f64_times_ten ^^ 18) (Finite (fl64 (11501 / 10000))) = Finite 1150100000000000000"
  by code_simp

text \<open>The amounts of the test in \<open>utils.rs\<close> come out as it expects; but the comment that the errors can be
  ignored is too strong: 0.07 of a token with 18 decimals comes out eight units too high, so that an account with
  exactly that balance is refused.\<close>

lemma fraction_to_exponent_values:
  "map (\<lambda>x. fraction_to_exponent (Finite (fl64 x)) 18) [1, 3 / 2, 23 / 20, 11501 / 10000] =
     [1000000000000000000, 1500000000000000000, 1150000000000000000, 1150100000000000000] \<and>
   fraction_to_exponent (Finite (fl64 (7 / 100))) 18 = 70000000000000008"
proof -
  have fl: "fl64 1 = 1" "fl64 (3 / 2) = 3 / 2"
    using fl64_exact [of 1 0] fl64_exact [of 3 "-1"] by (simp_all add: field_simps)
  have "(f64_times_ten ^^ 18) (Finite (fl64 1)) = Finite 1000000000000000000"
    "(f64_times_ten ^^ 18) (Finite (fl64 (3 / 2))) = Finite 1500000000000000000"
    unfolding fl using times_ten_powers [of 1 18 0] times_ten_powers [of 3 18 "-1"] by (simp_all add: field_simps)
  then show ?thesis by (simp add: fraction_to_exponent_def amount_0_07 amount_1_15 amount_1_1501)
qed

section \<open>The relayer command and the transfers\<close>

lemma emits_bind_query: "(\<And>n. emits P (f (ans n))) \<Longrightarrow> emits P (bind_io (query_io ans) f)"
  by (rule emits_bind_yields [OF emits_query yields_query [where Q = "\<lambda>x. \<exists>n. x = ans n"]]) auto

lemma upto_bind_query: "(\<And>n. emits_upto k P (f (ans n))) \<Longrightarrow> emits_upto k P (bind_io (query_io ans) f)"
  by (rule upto_bind_yields [OF emits_query yields_query [where Q = "\<lambda>x. \<exists>n. x = ans n"]]) auto

lemma upto_return: "emits_upto k P (return_io x)"
  by (rule upto_silent) (rule emits_return)

text \<open>\<open>acts R m\<close>: the effects of \<open>m\<close>, as a list in their order, satisfy \<open>R\<close>.\<close>

definition acts :: "('e list \<Rightarrow> bool) \<Rightarrow> ('e, 'a) io \<Rightarrow> bool" where
  "acts R m \<longleftrightarrow> (\<forall>s r t. m s = Some (r, t) \<longrightarrow> (\<exists>new. trace t = trace s @ new \<and> R new))"

lemma acts_mono: "acts R m \<Longrightarrow> (\<And>new. R new \<Longrightarrow> S new) \<Longrightarrow> acts S m"
  unfolding acts_def by blast

lemma acts_silent: "R [] \<Longrightarrow> silent m \<Longrightarrow> acts R m"
  unfolding acts_def by (auto dest: silentD)

lemma acts_return: "R [] \<Longrightarrow> acts R (return_io x)"
  by (rule acts_silent [OF _ emits_return])

lemma acts_bind_upto:
  assumes m: "emits_upto n P m" and f: "\<And>x. emits_upto k Q (f x)"
  shows "acts (\<lambda>new. \<exists>xs ys. new = xs @ ys \<and> length xs \<le> n \<and> length ys \<le> k \<and> list_all P xs \<and> list_all Q ys) (bind_io m f)"
  unfolding acts_def
proof (intro allI impI)
  fix s r t
  assume "bind_io m f s = Some (r, t)"
  then consider (ret) x s1 where "m s = Some (Ret x, s1)" "f x s1 = Some (r, t)"
    | (pan) p where "m s = Some (Panic p, t)"
    by (auto simp: bind_io_Some_iff)
  then show "\<exists>new. trace t = trace s @ new \<and> (\<exists>xs ys. new = xs @ ys \<and> length xs \<le> n \<and> length ys \<le> k \<and> list_all P xs \<and> list_all Q ys)"
  proof cases
    case ret
    with emits_uptoD [OF m ret(1)] emits_uptoD [OF f ret(2)] show ?thesis by fastforce
  next
    case pan
    from emits_uptoD [OF m pan] show ?thesis by (metis append_Nil2 le0 list.pred_inject(1) list.size(3))
  qed
qed

lemma acts_bind_yields:
  assumes "R []" "silent m" "yields Q m" "\<And>x. Q x \<Longrightarrow> acts R (f x)"
  shows "acts R (bind_io m f)"
  unfolding acts_def
proof (intro allI impI)
  fix s r t
  assume "bind_io m f s = Some (r, t)"
  then consider (ret) x s1 where "m s = Some (Ret x, s1)" "f x s1 = Some (r, t)"
    | (pan) p where "m s = Some (Panic p, t)"
    by (auto simp: bind_io_Some_iff)
  then show "\<exists>new. trace t = trace s @ new \<and> R new"
  proof cases
    case ret
    with assms(3) have "Q x" by (auto simp: yields_def)
    from assms(4) [OF this] ret(2) silentD [OF assms(2) ret(1)] show ?thesis unfolding acts_def by fastforce
  next
    case pan
    from silentD [OF assms(2) pan] assms(1) show ?thesis by simp
  qed
qed

lemma acts_bind_query: "R [] \<Longrightarrow> (\<And>n. acts R (f (ans n))) \<Longrightarrow> acts R (bind_io (query_io ans) f)"
  by (rule acts_bind_yields [OF _ emits_query yields_query [where Q = "\<lambda>x. \<exists>n. x = ans n"]]) auto

lemma acts_bind_lift: "R [] \<Longrightarrow> (\<And>x. r = Ret x \<Longrightarrow> acts R (f x)) \<Longrightarrow> acts R (bind_io (lift_io r) f)"
  by (cases r) (auto simp: acts_def bind_io_Some_iff lift_io_def panic_io_def)

lemma acts_try_yields:
  assumes "R []" "silent m" "yields (\<lambda>r. \<forall>x. r = Inr x \<longrightarrow> Q x) m" "\<And>x. Q x \<Longrightarrow> acts R (f x)"
  shows "acts R (try_io m f)"
  unfolding try_io_def
  by (rule acts_bind_yields [where Q = "\<lambda>r. \<forall>x. r = Inr x \<longrightarrow> Q x"]) (auto simp: assms(1-3) intro: assms(4) acts_return split: sum.splits)

lemma acts_try_silent: "R [] \<Longrightarrow> silent m \<Longrightarrow> (\<And>x. acts R (f x)) \<Longrightarrow> acts R (try_io m f)"
  by (rule acts_try_yields [where Q = "\<lambda>_. True"]) (auto simp: yields_def split: outcome.splits)

lemma acts_if: "(b \<Longrightarrow> acts R m) \<Longrightarrow> (\<not> b \<Longrightarrow> acts R k) \<Longrightarrow> acts R (if b then m else k)"
  by simp

lemma acts_case_option:
  "(x = None \<Longrightarrow> acts R m) \<Longrightarrow> (\<And>y. x = Some y \<Longrightarrow> acts R (f y)) \<Longrightarrow> acts R (case x of None \<Rightarrow> m | Some y \<Rightarrow> f y)"
  by (cases x) auto

lemma send_to_eth_upto:
  "emits_upto 1 (broadcasts K sk (\<lambda>msgs. \<exists>a. our_cosmos_address L K sk = Ret a \<and> msgs =
     [Msg ''/nab.v1.MsgSendToEth'' (MsgSendToEth
       \<lparr>mse_sender = cosmos_to_string (ds L) a, mse_eth_dest = address_to_string (cl L) destination,
        mse_amount = Some amt, mse_bridge_fee = Some bridge_fee\<rparr>)])) (send_to_eth L K sk destination amt bridge_fee fee)"
  unfolding send_to_eth_def
  by (intro upto_bind_lift upto_if upto_return upto_bind_query upto_try_lift broadcast_and_wait_emits) blast

lemma send_request_batch_upto:
  "emits_upto 1 (broadcasts K sk (\<lambda>msgs. \<exists>a. our_cosmos_address L K sk = Ret a \<and> msgs =
     [Msg ''/nab.v1.MsgRequestBatch'' (MsgRequestBatch \<lparr>mrb_sender = cosmos_to_string (ds L) a, mrb_denom = d\<rparr>)]))
     (send_request_batch L K sk d fee timeout)"
  unfolding send_request_batch_def
  by (intro upto_bind_lift upto_try_last broadcast_emits) (auto intro: emits_intros split: option.splits)

text \<open>The relayer command sends nothing but what the relayer loop sends, to a node that answered, for an
  account with some Ether whose key came from the arguments or from the key file, to the contract asked for or
  named by the chain.\<close>

lemma relayer_command_safe:
  "emits (\<lambda>e. \<exists>W G sk c current gid.
       ethereum_endpoint N 17 (ro_ethereum_rpc args) W \<and>
       ethereum_key_or_stored T D h fs (ro_ethereum_key args) = Ret (Inr sk) \<and>
       has_ether W (eth_key_to_address (cl L) sk) \<and> contract_known L G (ro_gravity_contract_address args) c \<and>
       last_update_event L W c current \<and> relays L current gid c sk e)
     (relayer L N Tm T D fs args p h config)"
  unfolding relayer_def Let_def
  apply (rule emits_bind_yields [OF emits_create_rpc_connections connections_both])
  apply (rule emits_try_lift)
  apply (intro emits_bind_lift)
  apply (rule emits_bind [OF emits_checks(1)])
  apply (rule emits_try_yields [OF emits_checks(3) check_for_eth_yields])
  apply (rule emits_try_yields [OF emits_contract_address contract_address_yields])
  apply (rule emits_weaken [OF relayer_main_loop_emits])
  apply (clarsimp simp: outcome_simps LOOP_SPEED_def)
  apply blast
  done

text \<open>C28: a deposit from the command line sends nothing but approvals of the bridge contract and deposits of the
  amount asked for, in units of the token as the token itself says, to the destination asked for, and only when
  the account holds that amount and some Ether.\<close>

theorem eth_to_cosmos_deposits:
  "emits (\<lambda>e. \<exists>W res decimals balance t t'.
       ethereum_endpoint N 60 (ec_ethereum_rpc args) W \<and> has_ether W (eth_key_to_address (cl L) (ec_ethereum_key args)) \<and>
       get_erc20_decimals W (ec_token_contract_address args) (eth_key_to_address (cl L) (ec_ethereum_key args)) t = Inr res \<and>
       parse_uint u8_MAX (dec_string res) = Some decimals \<and>
       get_erc20_balance W (ec_token_contract_address args) (eth_key_to_address (cl L) (ec_ethereum_key args)) t' = Inr balance \<and>
       fraction_to_exponent (ec_amount args) (of_nat decimals) \<le> balance \<and> 0 < balance \<and>
       deposit_effect L (ec_token_contract_address args) (ec_gravity_contract_address args)
         (fraction_to_exponent (ec_amount args) (of_nat decimals)) (ec_destination args) (ec_ethereum_key args) e)
     (eth_to_cosmos L N Tm args p)"
  unfolding eth_to_cosmos_def Let_def
  apply (rule emits_bind_yields [OF emits_create_rpc_connections connections_ethereum])
  apply (intro emits_bind_lift)
  apply (rule emits_bind [OF emits_nonces(1)])
  apply (intro emits_bind_lift)
  apply (rule emits_try_yields [OF emits_checks(3) check_for_eth_yields])
  apply (intro emits_bind_query emits_bind_lift emits_if emits_return)
  apply (intro emits_bind emits_return emits_weaken [OF send_to_cosmos_emits])
  apply (clarsimp simp: outcome_simps NABT_TIMEOUT_def not_less)
  apply blast
  done

text \<open>The two messages of a transfer to Ethereum: the transfer with the smallest bridge fee, and the request to
  batch the token.\<close>

definition transfer_msg :: "libs \<Rightarrow> cosmos_address \<Rightarrow> cosmos_to_eth_opts \<Rightarrow> cosmos_msg" where
  "transfer_msg L a args = Msg ''/nab.v1.MsgSendToEth'' (MsgSendToEth
     \<lparr>mse_sender = cosmos_to_string (ds L) a, mse_eth_dest = address_to_string (cl L) (ce_eth_destination args),
      mse_amount = Some (ce_amount args), mse_bridge_fee = Some \<lparr>denom = denom (ce_amount args), coin_amount = 1\<rparr>\<rparr>)"

definition batch_msg :: "libs \<Rightarrow> cosmos_address \<Rightarrow> cosmos_to_eth_opts \<Rightarrow> cosmos_msg" where
  "batch_msg L a args = Msg ''/nab.v1.MsgRequestBatch'' (MsgRequestBatch
     \<lparr>mrb_sender = cosmos_to_string (ds L) a, mrb_denom = denom (ce_amount args)\<rparr>)"

lemma last_balance_SomeD: "last_balance d bs found = Some b \<Longrightarrow> found = Some b \<or> b \<in> set bs \<and> denom b = d"
  by (induction bs arbitrary: found) (fastforce split: if_splits)+

text \<open>What has been checked before the first of them: the token has an ERC20 representation, the account has a
  balance like the fee's that covers it and holds more of the token than it sends.\<close>

definition transfer_checked :: "libs \<Rightarrow> network \<Rightarrow> string \<Rightarrow> cosmos_to_eth_opts \<Rightarrow> contact \<Rightarrow> bool" where
  "transfer_checked L N p args K \<longleftrightarrow>
     (\<exists>G a b bs t t' res.
        cosmos_endpoint N p 60 (ce_cosmos_grpc args) G K \<and> cosmos_key_to_address (ds L) (ce_cosmos_phrase args) p = Inr a \<and>
        denom_to_erc20 G (denom (ce_amount args)) t = Inr res \<and> fee_like_balance K a (ce_fees args) \<and>
        get_balances K a t' = Inr bs \<and> b \<in> set bs \<and> denom b = denom (ce_amount args) \<and>
        coin_amount (ce_amount args) < coin_amount b)"

text \<open>The transactions of a transfer, in their order: at most one with the transfer, and then, unless there is to
  be no batch, at most one with the request of a batch.\<close>

definition transfer_steps :: "libs \<Rightarrow> network \<Rightarrow> string \<Rightarrow> cosmos_to_eth_opts \<Rightarrow> effect list \<Rightarrow> bool" where
  "transfer_steps L N p args new \<longleftrightarrow> new = [] \<or>
     (\<exists>K a sent asked. transfer_checked L N p args K \<and> our_cosmos_address L K (ce_cosmos_phrase args) = Ret a \<and>
        new = sent @ asked \<and> length sent \<le> 1 \<and> length asked \<le> (if ce_no_batch args then 0 else 1) \<and>
        list_all (broadcasts K (ce_cosmos_phrase args) (\<lambda>msgs. msgs = [transfer_msg L a args])) sent \<and>
        list_all (broadcasts K (ce_cosmos_phrase args) (\<lambda>msgs. msgs = [batch_msg L a args])) asked)"

lemma transfer_sends:
  assumes "transfer_checked L N p args K"
  shows "acts (transfer_steps L N p args)
    (bind_io (send_to_eth L K (ce_cosmos_phrase args) (ce_eth_destination args) (ce_amount args)
        \<lparr>denom = denom (ce_amount args), coin_amount = 1\<rparr> (ce_fees args)) (\<lambda>_.
      if \<not> ce_no_batch args then
        bind_io (send_request_batch L K (ce_cosmos_phrase args) (denom (ce_amount args))
          \<lparr>denom = denom (ce_amount args), coin_amount = 1\<rparr> (Some NABT_TIMEOUT)) (\<lambda>res.
        bind_io (lift_io (unwrap_sum res)) (\<lambda>_. return_io (Inr ())))
      else return_io (Inr ())))"
    (is "acts _ (bind_io ?send ?ask)")
proof (cases "\<exists>a. our_cosmos_address L K (ce_cosmos_phrase args) = Ret a")
  case True
  then obtain a where a: "our_cosmos_address L K (ce_cosmos_phrase args) = Ret a" by blast
  have send: "emits_upto 1 (broadcasts K (ce_cosmos_phrase args) (\<lambda>msgs. msgs = [transfer_msg L a args])) ?send"
    by (rule emits_upto_weaken [OF send_to_eth_upto]) (auto simp: transfer_msg_def a elim!: broadcasts_mono)
  have ask: "emits_upto (if ce_no_batch args then 0 else 1)
      (broadcasts K (ce_cosmos_phrase args) (\<lambda>msgs. msgs = [batch_msg L a args])) (?ask x)" for x :: "cosmos_grpc_error + tx_response"
  proof (cases "ce_no_batch args")
    case True
    then show ?thesis by (simp add: upto_return)
  next
    case False
    have "emits_upto 1 (broadcasts K (ce_cosmos_phrase args) (\<lambda>msgs. msgs = [batch_msg L a args])) (?ask x)"
      by (intro upto_if upto_return upto_bind_last emits_upto_weaken [OF send_request_batch_upto] emits_bind emits_lift emits_return)
        (auto simp: batch_msg_def a elim!: broadcasts_mono)
    with False show ?thesis by simp
  qed
  show ?thesis
    by (rule acts_mono [OF acts_bind_upto [OF send ask]]) (use assms a in \<open>auto simp: transfer_steps_def\<close>)
next
  case False
  have "emits_upto 1 (\<lambda>_. False) ?send"
    by (rule emits_upto_weaken [OF send_to_eth_upto]) (use False in \<open>auto elim!: broadcasts_mono simp: broadcasts_def\<close>)
  moreover have "emits_upto 1 (\<lambda>_. False) (?ask x)" for x :: "cosmos_grpc_error + tx_response"
    by (intro upto_if upto_return upto_bind_last emits_upto_weaken [OF send_request_batch_upto] emits_bind emits_lift emits_return)
      (use False in \<open>auto elim!: broadcasts_mono simp: broadcasts_def\<close>)
  ultimately have "acts (\<lambda>new. \<exists>xs ys. new = xs @ ys \<and> length xs \<le> 1 \<and> length ys \<le> 1 \<and> list_all (\<lambda>_. False) xs \<and> list_all (\<lambda>_. False) ys)
      (bind_io ?send ?ask)" by (rule acts_bind_upto)
  then show ?thesis by (rule acts_mono) (auto simp: transfer_steps_def list_all_iff)
qed

text \<open>C29: a transfer from the command line broadcasts at most one transaction with the transfer of the amount asked
  for to the destination asked for and after it, unless told not to, at most one with the request of a batch of that
  token; and it does so only when the token has an ERC20 representation, the account holds more of the token than it
  sends, and the first of its balances whose denomination contains that of the fee covers the fee.\<close>

theorem cosmos_to_eth_transfers: "acts (transfer_steps L N p args) (cosmos_to_eth L N args p)"
proof -
  have idle: "transfer_steps L N p args []" by (simp add: transfer_steps_def)
  show ?thesis
    unfolding cosmos_to_eth_def Let_def
    apply (rule acts_bind_lift, rule idle)
    apply (rule acts_bind_yields, rule idle, rule emits_create_rpc_connections, rule connections_cosmos)
    apply (intro acts_bind_lift acts_bind_query acts_if acts_return idle)
    apply (rule acts_try_silent, rule idle, rule emits_checks(2))
    apply (rule acts_try_yields, rule idle, rule emits_checks(2), rule check_for_fee_yields)
    apply (intro acts_bind_query acts_bind_lift acts_case_option acts_if acts_return idle transfer_sends)
    apply (clarsimp simp: outcome_simps NABT_TIMEOUT_def transfer_checked_def is_ok_iff dest!: last_balance_SomeD)
    apply (metis not_le)
    done
qed

end
