(* ===== verification/Runs.thy ===== *)
theory Runs
  imports Witnesses Commands
begin

text \<open>
  Concrete runs for the theorems about starting up, the key store, the commands and the joined loops,
  on the reference instance.
\<close>

section \<open>The joined loops\<close>

text \<open>Loops that are served without delay see the nodes as they are.\<close>

lemma served_at_once [simp]: "web3_at id W = W" "contact_at id K = K" "grpc_at id G = G"
  by (simp_all add: web3_at_def contact_at_def grpc_at_def seen_def fun_eq_iff)

text \<open>A chain that asks for the confirmation of one validator set and refuses the gas of the
  transaction.\<close>

definition asking :: grpc where
  "asking = grpc_ref\<lparr>last_pending_valset_request_by_addr := \<lambda>_ _. Inr [valset_to_proto libs_ref (two_members 7)]\<rparr>"

definition refusing :: contact where
  "refusing = contact_ref\<lparr>cosmos_send_transaction := \<lambda>_ _. Inl (InsufficientFees FeeInsufficientGas)\<rparr>"

abbreviation nom :: "nat \<Rightarrow> coin" where
  "nom n \<equiv> \<lparr>denom = ''unom'', coin_amount = n\<rparr>"

definition no_relayer :: gravity_bridge_tools_config where
  "no_relayer = default_gravity_bridge_tools_config\<lparr>cfg_orchestrator := \<lparr>relayer_enabled = False\<rparr>\<rparr>"

lemma refusing_address: "our_cosmos_address libs_ref refusing [1] = Ret ref_address"
  by (simp add: refusing_def our_cosmos_address_def deep_space_ref_def contact_ref_def ref_address_def)

lemma refusing_answers:
  "get_chain_status refusing t = Inr (Moving 1)" "cosmos_send_transaction refusing b t = Inl (InsufficientFees FeeInsufficientGas)"
  "get_message_args refusing a f t = Inr \<lparr>ma_sequence = 0, ma_account_number = 0, ma_chain_id = ''chain'', ma_fee = f\<rparr>" "sign_std_msg refusing sk msgs args memo = Inr (of_nat (length msgs) # sk)"
  by (simp_all add: refusing_def contact_ref_def)

lemma gravity_id_ref:
  "get_gravity_id_with_retry libs_ref web3_ref T c a None (fresh None) = Some (Ret (Inr [CHR 0x03]), (fresh None)\<lparr>clock := 1\<rparr>)"
proof -
  have "from_utf8 [3] = Some [CHR 0x03]" by code_simp
  then show ?thesis unfolding get_gravity_id_with_retry_def
    by (subst query_until.simps) (simp add: get_gravity_id_def clarity_ref_def web3_ref_def try_io_query fresh_def return_io_def)
qed

lemma asked_valset: "valset_from_proto libs_ref (valset_to_proto libs_ref (two_members 7)) = Ret (two_members 7)"
  using valset_round_trip [of libs_ref "two_members 7"] by (simp add: wf_valset_def libs_ref_laws clarity_ref_laws two_members_def)

lemma sign_refused:
  assumes "horizon s = None"
  shows "sign_valsets libs_ref refusing asking [1] ref_address [1] (nom 2) gid s =
    Some (Ret (Inl (UnrecoverableError ''Hardcoded gas amounts insufficient!'')),
      s\<lparr>clock := clock s + 3, trace := trace s @ [CosmosSendTransaction [1, 1]]\<rparr>)"
proof -
  obtain b where b: "bech32_of libs_ref ref_address (get_prefix refusing) = Ret b" using bech32_ref by blast
  have asked: "get_oldest_unsigned_valsets libs_ref asking ref_address (get_prefix refusing) s = Some (Ret (Inr [two_members 7]), s\<lparr>clock := Suc (clock s)\<rparr>)"
    using assms by (simp add: get_oldest_unsigned_valsets_def b ask_def try_io_query asking_def asked_valset return_io_def)
  have sent: "send_valset_confirms libs_ref refusing [1] (nom 2) [two_members 7] [1] gid (s\<lparr>clock := Suc (clock s)\<rparr>) =
      Some (Ret (Inl (InsufficientFees FeeInsufficientGas)), s\<lparr>clock := clock s + 3, trace := trace s @ [CosmosSendTransaction [1, 1]]\<rparr>)"
    using assms
    by (simp add: refusing_answers eval_nat_numeral send_valset_confirms_def refusing_address broadcast_and_wait_def broadcast_def cosmos_send_def
        try_io_def bind_io_def query_io_def effect_io_def return_io_def)
  show ?thesis by (simp add: sign_valsets_def bind_io_def asked sent return_io_def check_for_fee_error_def)
qed

lemma signer_refused:
  "eth_signer_main_loop libs_ref web3_ref refusing asking T [1] [1] 5 (nom 2) None (fresh None) =
     Some (Ret (Inl (UnrecoverableError ''Hardcoded gas amounts insufficient!'')), \<lparr>clock = 6, trace = [CosmosSendTransaction [1, 1]], horizon = None\<rparr>)"
proof -
  have round: "signer_iteration libs_ref web3_ref refusing asking [1] ref_address [1] (nom 2) gid ((fresh None)\<lparr>clock := 1\<rparr>) =
      Some (Ret (Inl (UnrecoverableError ''Hardcoded gas amounts insufficient!'')), \<lparr>clock = 6, trace = [CosmosSendTransaction [1, 1]], horizon = None\<rparr>)" for gid
  proof -
    have "eth_block_number web3_ref t = Inr 100" for t by (simp add: web3_ref_def)
    then show ?thesis by (simp add: refusing_answers signer_iteration_def bind_io_query fresh_def try_io_def bind_io_def sign_refused query_io_def return_io_def)
  qed
  show ?thesis unfolding eth_signer_main_loop_def
    by (simp add: refusing_address bind_io_def gravity_id_ref, subst loop_io.simps)
      (simp add: bind_io_def round [simplified] return_io_def)
qed

lemma retry_not_served: "retry_io (query_io ans) (fresh (Some 0)) = Some (Panic end_of_run, fresh (Some 0))"
  by (subst retry_io.simps) (simp add: query_io_def fresh_def cut_off_def)

lemma oracle_not_served:
  "eth_oracle_main_loop libs_ref web3_ref refusing asking [1] 5 (nom 2) (fresh (Some 0)) = Some (Panic end_of_run, fresh (Some 0))"
  by (simp add: eth_oracle_main_loop_def get_last_checked_block_def get_block_number_with_retry_def refusing_address bind_io_def
      Let_def retry_not_served)

text \<open>The signer has sent the confirmation and got the refusal before the oracle was served for the first time.\<close>

lemma orchestrator_run:
  "orchestrator_main_loop libs_ref id id id (\<lambda>_ _. False) [1] [1] web3_ref refusing asking 5 (nom 2) no_relayer None
     (Ret (Inl (UnrecoverableError ''Hardcoded gas amounts insufficient!''))) [CosmosSendTransaction [1, 1]]"
proof -
  let ?a = "eth_oracle_main_loop libs_ref web3_ref refusing asking [1] 5 (nom 2)"
    and ?b = "eth_signer_main_loop libs_ref web3_ref refusing asking (\<lambda>d. seen id (\<lambda>_. False)) [1] [1] 5 (nom 2) None"
    and ?r = "Ret (Inl (UnrecoverableError ''Hardcoded gas amounts insufficient!''))"
  have "runs_to ?a (Panic end_of_run, [])"
    unfolding runs_to_def by (rule exI [of _ "Some 0"]) (use oracle_not_served in \<open>simp add: fresh_def\<close>)
  moreover have "runs_to ?b (?r, [CosmosSendTransaction [1, 1]])"
    unfolding runs_to_def by (rule exI [of _ None]) (simp add: signer_refused)
  ultimately have "try_join [?a, ?b] ?r [CosmosSendTransaction [1, 1]]"
    by (intro try_join.first_failure [of _ "[(Panic end_of_run, [])]" _ "[CosmosSendTransaction [1, 1]]" "[]"]) simp_all
  then show ?thesis by (simp add: orchestrator_main_loop_def no_relayer_def)
qed

theorem orchestrator_effects_witness:
  "broadcasts refusing [1] (new_claims libs_ref refusing asking [1]) (CosmosSendTransaction [1, 1]) \<or>
   broadcasts refusing [1] (\<lambda>msgs. \<exists>a gid. our_cosmos_address libs_ref refusing [1] = Ret a \<and> asked_confirms libs_ref refusing asking a [1] gid msgs)
     (CosmosSendTransaction [1, 1])"
  using orchestrator_effects [OF orchestrator_run, of "CosmosSendTransaction [1, 1]"] by (simp add: no_relayer_def)

theorem orchestrator_result_witness: "fee_failure (UnrecoverableError ''Hardcoded gas amounts insufficient!'')"
  using orchestrator_result [OF orchestrator_run] by simp

section \<open>Starting up\<close>

text \<open>A chain that starts to move at the third look.\<close>

lemma wait_for_cosmos_node_ready_result_witness:
  "wait_for_cosmos_node_ready (contact_ref\<lparr>get_chain_status := \<lambda>t. if t < 2 then Inr Syncing else Inr (Moving 1)\<rparr>) start_state =
     Some (Ret (), \<lparr>clock = 3, trace = [], horizon = None\<rparr>)"
proof -
  have least: "(LEAST k. \<not> k < 2) = (2 :: nat)" by (rule Least_equality) auto
  have ex: "\<exists>k. \<not> k < (2 :: nat)" by (rule exI [of _ 2]) simp
  show ?thesis
    by (subst wait_for_cosmos_node_ready_result) (simp_all add: start_state_def if_distrib [of moving] least ex cong: if_cong)
qed

text \<open>An account with seven \<open>gravity0xunom\<close> and no \<open>unom\<close>.\<close>

theorem check_for_fee_other_token_witness:
  "check_for_fee (nom 2) ref_address (contact_ref\<lparr>get_balances := \<lambda>_ _. Inr [\<lparr>denom = ''gravity0xunom'', coin_amount = 7\<rparr>]\<rparr>) start_state =
     Some (Ret (Inr ()), \<lparr>clock = 1, trace = [], horizon = None\<rparr>)"
  using check_for_fee_other_token [of start_state "contact_ref\<lparr>get_balances := \<lambda>_ _. Inr [\<lparr>denom = ''gravity0xunom'', coin_amount = 7\<rparr>]\<rparr>"
      ref_address "''gravity0x''" "''unom''" "[]" 7 "[]" 2]
  by (simp add: start_state_def)

section \<open>The key store\<close>

text \<open>A text form of the keys that can be read back: two flags, the length of the phrase, the phrase, the key.\<close>

definition keys_text :: "key_storage \<Rightarrow> string" where
  "keys_text k =
     (case orchestrator_phrase k of None \<Rightarrow> ''0'' | Some s \<Rightarrow> ''1'') @ (case ethereum_key k of None \<Rightarrow> ''0'' | Some b \<Rightarrow> ''1'') @
     (case orchestrator_phrase k of None \<Rightarrow> ''0'' | Some s \<Rightarrow> replicate (length s) CHR ''1'' @ ''0'' @ s) @
     (case ethereum_key k of None \<Rightarrow> [] | Some b \<Rightarrow> bytes_string b)"

definition read_keys :: "string \<Rightarrow> key_storage" where
  "read_keys t =
     (let rest = drop 2 t; n = length (takeWhile (\<lambda>c. c = CHR ''1'') rest) in
      \<lparr>orchestrator_phrase = if t ! 0 = CHR ''1'' then Some (take n (drop (Suc n) rest)) else None,
       ethereum_key = if t ! 1 = CHR ''1'' then Some (string_bytes (drop (Suc (n + n)) rest)) else None\<rparr>)"

lemma read_keys_text: "read_keys (keys_text k) = k"
proof -
  have "takeWhile (\<lambda>c. c = CHR ''1'') (replicate n CHR ''1'' @ CHR ''0'' # s) = replicate n CHR ''1''" for n s
    by (induction n) auto
  then show ?thesis
    by (cases k) (simp add: read_keys_def keys_text_def Let_def split: option.splits)
qed

definition toml_ref :: toml where
  "toml_ref = \<lparr>keys_to_toml = (\<lambda>k. Inr (keys_text k)), keys_from_toml = (\<lambda>s. Inr (read_keys s)),
     config_from_toml = (\<lambda>_. Inr default_gravity_bridge_tools_config)\<rparr>"

definition disk_ref :: disk where
  "disk_ref = \<lparr>write_denied = (\<lambda>_. False), read_denied = (\<lambda>_. False)\<rparr>"

lemma toml_ref_laws: "toml_keys toml_ref" "toml_config toml_ref"
  by (simp_all add: toml_keys_def toml_config_def toml_ref_def read_keys_text)

text \<open>An empty disk, and one with an initialised home directory.\<close>

definition empty_disk :: fs where
  "empty_disk = [[] \<mapsto> Directory]"

definition ready_disk :: fs where
  "ready_disk = [[] \<mapsto> Directory, [''h''] \<mapsto> Directory, [''h'', CONFIG_NAME] \<mapsto> File get_default_config,
     [''h'', KEYS_NAME] \<mapsto> File (keys_text default_key_storage)]"

lemma ready_disk_usable: "usable toml_ref disk_ref [''h''] ready_disk" "config_exists [''h''] ready_disk"
  "stored_keys toml_ref disk_ref [''h''] ready_disk = Some default_key_storage"
proof -
  have files: "ready_disk [''h''] = Some Directory" "ready_disk [''h'', CONFIG_NAME] = Some (File get_default_config)"
    "ready_disk [''h'', KEYS_NAME] = Some (File (keys_text default_key_storage))"
    by (simp_all add: ready_disk_def)
  then show "usable toml_ref disk_ref [''h''] ready_disk" "config_exists [''h''] ready_disk"
    by (simp_all add: usable_def toml_ref_laws disk_ref_def path_join_def config_exists_def path_exists_def)
  have "load_keys toml_ref disk_ref [''h''] ready_disk = Ret (Inr default_key_storage)"
    by (rule load_keys_written [of _ _ "keys_text default_key_storage"]) (simp_all add: files path_join_def toml_ref_def read_keys_text disk_ref_def)
  then show "stored_keys toml_ref disk_ref [''h''] ready_disk = Some default_key_storage" by (simp add: stored_keys_def)
qed

theorem set_keys_update_store_witness:
  "\<exists>fs1. set_eth_key toml_ref disk_ref [''h''] [1] ready_disk = (Ret (Inr ()), fs1) \<and>
     stored_keys toml_ref disk_ref [''h''] fs1 = Some \<lparr>orchestrator_phrase = None, ethereum_key = Some [1]\<rparr>"
  using set_keys_update_store [OF ready_disk_usable, of libs_ref "''phrase''" "string_bytes ''phrase''" "[1]"]
  by (auto simp: deep_space_ref_def default_key_storage_def)

lemma init_config_fresh_witness:
  "\<exists>fs'. init_config toml_ref disk_ref [''h''] empty_disk = (Ret (Inr ()), fs') \<and> config_exists [''h''] fs' \<and>
     load_keys toml_ref disk_ref [''h''] fs' = Ret (Inr default_key_storage)"
  using init_config_fresh [OF toml_ref_laws, of empty_disk "[''h'']" disk_ref]
  by (auto simp: empty_disk_def disk_ref_def path_join_def)

section \<open>The commands\<close>

theorem fraction_to_exponent_exact_witness: "fraction_to_exponent (Finite (3 / 2)) 18 = 1500000000000000000"
proof -
  have "unat (18 :: u8) = 18" by simp
  then show ?thesis using fraction_to_exponent_exact [of 3 18 "-1"] by (simp only:) (simp add: power_int_minus)
qed

definition paying :: contact where
  "paying = contact_ref\<lparr>get_balances := \<lambda>_ _. Inr [nom 5]\<rparr>"

definition network_ref :: network where
  "network_ref = \<lparr>parse_url = (\<lambda>_. Some \<lparr>url_scheme = ''https'', url_host_str = Some ''node'', url_port = None\<rparr>),
     connect_grpc = (\<lambda>_ _. Inr grpc_ref), new_contact = (\<lambda>_ _ _. Inr paying), new_web3 = (\<lambda>_ _. web3_ref)\<rparr>"

definition entropy_ref :: entropy where
  "entropy_ref = \<lparr>generate_mnemonic = (\<lambda>_. Inr ''words''), generate_bytes = (\<lambda>_. [7]), eth_key_from_slice = Inr\<rparr>"

definition registration :: register_orchestrator_address_opts where
  "registration = \<lparr>rg_validator_phrase = [1], rg_ethereum_key = None, rg_cosmos_phrase = None, rg_cosmos_grpc = ''https://node'',
     rg_fees = nom 2, rg_no_save = False\<rparr>"

lemma paying_answers [simp]:
  "get_prefix paying = ''cosmos''" "get_balances paying a t = Inr [nom 5]" "get_chain_status paying t = Inr (Moving 1)"
  "cosmos_send_transaction paying b t = Inr \<lparr>txhash = ''hash'', tx_code = 0\<rparr>" "wait_for_tx paying r d t = Inr r"
  "get_message_args paying a f t = Inr \<lparr>ma_sequence = 0, ma_account_number = 0, ma_chain_id = ''chain'', ma_fee = f\<rparr>"
  "sign_std_msg paying sk msgs args memo = Inr (of_nat (length msgs) # sk)"
  by (simp_all add: paying_def contact_ref_def)

lemma connections_run:
  "horizon s = None \<Longrightarrow> create_rpc_connections network_ref p (Some u) None d s =
     Some (Ret \<lparr>con_web3 = None, con_grpc = Some grpc_ref, con_contact = Some paying\<rparr>, s\<lparr>clock := Suc (clock s)\<rparr>)"
  by (simp add: create_rpc_connections_def cosmos_connection_def network_ref_def check_scheme_def bind_io_def query_io_def return_io_def lift_io_def)

lemma node_ready_run: "horizon s = None \<Longrightarrow> wait_for_cosmos_node_ready paying s = Some (Ret (), s\<lparr>clock := Suc (clock s)\<rparr>)"
  using node_ready.returns_first_answer [of s 0 paying "()"] by simp

lemma fee_run: "horizon s = None \<Longrightarrow> check_for_fee (nom 2) a paying s = Some (Ret (Inr ()), s\<lparr>clock := Suc (clock s)\<rparr>)"
  using balances_retry.returns_first_answer [of s 0 paying a "[nom 5]"]
  by (simp add: check_for_fee_def bind_io_def return_io_def str_contains_def)


lemma register_keys_run:
  "horizon s = None \<Longrightarrow> register_cosmos_key libs_ref entropy_ref toml_ref disk_ref [''h''] ready_disk None s =
     Some (Ret (Inr (string_bytes ''words'', Some ''words'')), s\<lparr>clock := Suc (clock s)\<rparr>)"
  "horizon s = None \<Longrightarrow> register_ethereum_key entropy_ref toml_ref disk_ref [''h''] ready_disk None s =
     Some (Ret (Inr [7]), s\<lparr>clock := Suc (clock s)\<rparr>)"
proof -
  have "load_keys toml_ref disk_ref [''h''] ready_disk = Ret (Inr default_key_storage)"
    using ready_disk_usable(3) by (auto simp: stored_keys_def split: outcome.splits sum.splits)
  then have none: "stored_key toml_ref disk_ref [''h''] ready_disk orchestrator_phrase = Ret (Inr None)"
    "stored_key toml_ref disk_ref [''h''] ready_disk ethereum_key = Ret (Inr None)"
    by (simp_all add: stored_key_def ready_disk_usable default_key_storage_def)
  show "horizon s = None \<Longrightarrow> register_cosmos_key libs_ref entropy_ref toml_ref disk_ref [''h''] ready_disk None s =
      Some (Ret (Inr (string_bytes ''words'', Some ''words'')), s\<lparr>clock := Suc (clock s)\<rparr>)"
    by (simp add: register_cosmos_key_def none bind_io_query entropy_ref_def key_from_phrase_def deep_space_ref_def try_io_def
        bind_io_def lift_io_def query_io_def return_io_def)
  show "horizon s = None \<Longrightarrow> register_ethereum_key entropy_ref toml_ref disk_ref [''h''] ready_disk None s =
      Some (Ret (Inr [7]), s\<lparr>clock := Suc (clock s)\<rparr>)"
    by (simp add: register_ethereum_key_def none entropy_ref_def try_io_def bind_io_def lift_io_def query_io_def return_io_def)
qed

lemma delegate_run:
  "horizon s = None \<Longrightarrow> set_gravity_delegate_addresses libs_ref paying a d [1] f s =
     Some (Ret (Inr \<lparr>txhash = ''hash'', tx_code = 0\<rparr>), s\<lparr>clock := clock s + 3, trace := trace s @ [CosmosSendTransaction [1, 1]]\<rparr>)"
  using bech32_ref [of "CosmosAddress [1] ''cosmos''" "''cosmosvaloper''"]
  by (auto simp: set_gravity_delegate_addresses_def our_cosmos_address_def deep_space_ref_def broadcast_and_wait_def broadcast_def
      cosmos_send_def try_io_def bind_io_def query_io_def effect_io_def return_io_def lift_io_def eval_nat_numeral)

lemma register_run:
  "\<exists>fs' t. register_orchestrator_address libs_ref network_ref entropy_ref toml_ref disk_ref registration ''cosmos'' [''h''] ready_disk start_state =
      Some (Ret (Inr fs'), t) \<and> trace t = [CosmosSendTransaction [1, 1]]"
proof -
  obtain body where "save_keys toml_ref disk_ref [''h''] \<lparr>orchestrator_phrase = Some ''words'', ethereum_key = Some [7]\<rparr> ready_disk =
      (Ret (), ready_disk([''h'', KEYS_NAME] \<mapsto> File body))"
    by (rule save_keys_usable [OF ready_disk_usable(1)]) (auto simp: path_join_def)
  moreover have "our_cosmos_address libs_ref paying k = Ret (CosmosAddress k ''cosmos'')" for k
    by (simp add: our_cosmos_address_def deep_space_ref_def)
  ultimately show ?thesis
    by (simp add: register_orchestrator_address_def registration_def ready_disk_usable try_io_def bind_io_def lift_io_def start_state_def
        connections_run node_ready_run fee_run register_keys_run delegate_run query_io_def phrase_to_store_def return_io_def)
qed

theorem register_orchestrator_address_stores_witness:
  "\<exists>fs' t. register_orchestrator_address libs_ref network_ref entropy_ref toml_ref disk_ref registration ''cosmos'' [''h''] ready_disk start_state =
      Some (Ret (Inr fs'), t) \<and> trace t = [CosmosSendTransaction [1, 1]] \<and>
      (\<exists>K ck ek. delegation libs_ref K [1] ck ek (CosmosSendTransaction [1, 1]) \<and>
         cosmos_key_or_stored libs_ref toml_ref disk_ref [''h''] fs' None = Ret (Inr ck) \<and>
         ethereum_key_or_stored toml_ref disk_ref [''h''] fs' None = Ret (Inr ek))"
proof -
  obtain fs' t where run: "register_orchestrator_address libs_ref network_ref entropy_ref toml_ref disk_ref registration ''cosmos'' [''h''] ready_disk start_state =
      Some (Ret (Inr fs'), t)" "trace t = [CosmosSendTransaction [1, 1]]"
    using register_run by blast
  from register_orchestrator_address_stores [OF ready_disk_usable(1), of network_ref "''cosmos''" registration libs_ref entropy_ref] run
  have "\<exists>K ck ek. delegation libs_ref K [1] ck ek (CosmosSendTransaction [1, 1]) \<and>
      cosmos_key_or_stored libs_ref toml_ref disk_ref [''h''] fs' None = Ret (Inr ck) \<and>
      ethereum_key_or_stored toml_ref disk_ref [''h''] fs' None = Ret (Inr ek)"
    unfolding leads_def by (fastforce simp: registration_def start_state_def)
  with run show ?thesis by blast
qed

end
