(* ===== verification/Abi.thy ===== *)
theory Abi
  imports Events
begin

text \<open>
  The ABI encoding of Solidity, \<open>abi.encode\<close>, on the token type of the sources: static values take
  one word, dynamic values leave an offset in the head and stand in the tail.  The contract hashes
  and logs what this function writes.
\<close>

section \<open>Heads and tails\<close>

text \<open>Each argument comes with its encoding and whether it is dynamic.\<close>

fun abi_head_size :: "(bool \<times> bytes) list \<Rightarrow> nat" where
  "abi_head_size [] = 0"
| "abi_head_size ((dynamic, enc) # ps) = (if dynamic then 32 else length enc) + abi_head_size ps"

fun abi_heads :: "nat \<Rightarrow> (bool \<times> bytes) list \<Rightarrow> bytes" where
  "abi_heads offset [] = []"
| "abi_heads offset ((dynamic, enc) # ps) =
     (if dynamic then abi_word offset @ abi_heads (offset + length enc) ps else enc @ abi_heads offset ps)"

fun abi_tails :: "(bool \<times> bytes) list \<Rightarrow> bytes" where
  "abi_tails [] = []"
| "abi_tails ((dynamic, enc) # ps) = (if dynamic then enc @ abi_tails ps else abi_tails ps)"

definition abi_layout :: "(bool \<times> bytes) list \<Rightarrow> bytes" where
  "abi_layout ps = abi_heads (abi_head_size ps) ps @ abi_tails ps"

text \<open>A \<open>bytes32\<close>: the bytes from the left, filled with zeros.\<close>

definition bytes32 :: "bytes \<Rightarrow> bytes" where
  "bytes32 bs = take 32 (bs @ replicate 32 0)"

fun abi_dynamic :: "token \<Rightarrow> bool" where
  "abi_dynamic (TUint n) = False"
| "abi_dynamic (TAddress a) = False"
| "abi_dynamic (TString s) = True"
| "abi_dynamic (TFixedString s) = False"
| "abi_dynamic (TBytes bs) = False"
| "abi_dynamic (TUnboundedBytes bs) = True"
| "abi_dynamic (TDynamic ts) = True"
| "abi_dynamic (TStruct ts) = list_ex abi_dynamic ts"

fun abi_token :: "token \<Rightarrow> bytes" where
  "abi_token (TUint n) = abi_word n"
| "abi_token (TAddress a) = abi_word (unat a)"
| "abi_token (TString s) = abi_string s"
| "abi_token (TFixedString s) = bytes32 (map char_byte s)"
| "abi_token (TBytes bs) = bytes32 bs"
| "abi_token (TUnboundedBytes bs) = abi_word (length bs) @ pad32 bs"
| "abi_token (TDynamic ts) = abi_word (length ts) @ abi_layout (map (\<lambda>t. (abi_dynamic t, abi_token t)) ts)"
| "abi_token (TStruct ts) = abi_layout (map (\<lambda>t. (abi_dynamic t, abi_token t)) ts)"

definition abi_encode :: "token list \<Rightarrow> bytes" where
  "abi_encode ts = abi_layout (map (\<lambda>t. (abi_dynamic t, abi_token t)) ts)"

text \<open>Values that have the type they are declared with: numbers fit 256 bits, fixed strings and
  bytes fit 32 bytes.\<close>

fun wf_token :: "token \<Rightarrow> bool" where
  "wf_token (TUint n) \<longleftrightarrow> n < 2 ^ 256"
| "wf_token (TAddress a) \<longleftrightarrow> True"
| "wf_token (TString s) \<longleftrightarrow> True"
| "wf_token (TFixedString s) \<longleftrightarrow> length s \<le> 32"
| "wf_token (TBytes bs) \<longleftrightarrow> length bs \<le> 32"
| "wf_token (TUnboundedBytes bs) \<longleftrightarrow> True"
| "wf_token (TDynamic ts) \<longleftrightarrow> list_all wf_token ts"
| "wf_token (TStruct ts) \<longleftrightarrow> list_all wf_token ts"

text \<open>The library of the relayer encodes such values the way Solidity does.\<close>

definition clarity_abi :: "clarity \<Rightarrow> bool" where
  "clarity_abi C \<longleftrightarrow> (\<forall>ts. list_all wf_token ts \<longrightarrow> encode_tokens C ts = abi_encode ts)"


section \<open>Arrays of words\<close>

lemma length_bytes32 [simp]: "length (bytes32 bs) = 32"
  by (simp add: bytes32_def)

lemma bytes32_full [simp]: "length bs = 32 \<Longrightarrow> bytes32 bs = bs"
  by (simp add: bytes32_def)

lemma abi_layout_words:
  "abi_layout (map (\<lambda>t. (False, f t)) ts) = concat (map f ts)"
proof -
  have "abi_heads k (map (\<lambda>t. (False, f t)) ts) = concat (map f ts)" for k
    by (induction ts) simp_all
  moreover have "abi_tails (map (\<lambda>t. (False, f t)) ts) = []" by (induction ts) simp_all
  ultimately show ?thesis by (simp add: abi_layout_def)
qed

lemma abi_u256s [simp]: "abi_token (token_u256s ns) = abi_words (length ns # ns)" "abi_dynamic (token_u256s ns)"
  by (simp_all add: token_u256s_def abi_layout_words abi_words_def o_def)

lemma abi_addresses [simp]:
  "abi_token (token_addresses as) = abi_words (length as # map unat as)" "abi_dynamic (token_addresses as)"
  by (simp_all add: token_addresses_def abi_layout_words abi_words_def o_def)

lemma token_u64s_u256s: "token_u64s ps = token_u256s (map unat ps)"
  by (simp add: token_u64s_def token_u256s_def token_u64_def)

lemma wf_token_arrays [simp]:
  "wf_token (token_addresses as)" "wf_token (token_u256s ns) \<longleftrightarrow> list_all (\<lambda>n. n < 2 ^ 256) ns"
  by (simp_all add: token_addresses_def token_u256s_def list_all_iff)

lemma wf_token_u64 [simp]: "wf_token (token_u64 n)" "wf_token (token_u64s ps)"
  using unat_u64_bound by (simp_all add: token_u64_def token_u64s_def list_all_iff)

text \<open>Two sequences of words with the same bytes are the same sequence.\<close>

definition word_bound :: nat where
  "word_bound = 2 ^ 256"

lemma abi_word_inject:
  assumes "m < word_bound" "n < word_bound"
  shows "abi_word m = abi_word n \<longleftrightarrow> m = n"
proof
  assume "abi_word m = abi_word n"
  then have "be_value (abi_word m) = be_value (abi_word n)" by simp
  then show "m = n" by (simp only: assms [unfolded word_bound_def, THEN be_value_abi_word])
qed simp

lemma abi_words_inject:
  assumes "\<forall>n \<in> set ms. n < word_bound" "\<forall>n \<in> set ns. n < word_bound" "abi_words ms = abi_words ns"
  shows "ms = ns"
proof -
  have "length ms = length ns" using arg_cong [OF assms(3), of length] by simp
  then show ?thesis using assms
  proof (induction ms ns rule: list_induct2)
    case (Cons m ms n ns)
    from Cons.prems(3) have "abi_word m = abi_word n" "abi_words ms = abi_words ns"
      by (simp_all add: append_eq_append_conv)
    with Cons abi_word_inject [of m n] show ?case by simp
  qed simp
qed

text \<open>A length word, so many words, and the rest: the pieces are determined.\<close>

lemma length_prefixed_inject:
  "length xs # xs @ us = length ys # ys @ vs \<longleftrightarrow> xs = ys \<and> us = vs" for xs ys :: "nat list"
  by auto

end
