(* ===== verification/Gravity.thy ===== *)
theory Gravity
  imports Contract Abi
begin

text \<open>
  The contract \<open>solidity/contracts/Gravity.sol\<close> as a state machine: its storage as a record, each
  public function as a function that returns the new storage or the reason it reverts with, the
  events it emits and the calls it makes to other contracts in order.  Other contracts are a
  parameter: what they return, and what they call back while they run.  The invariants of the
  storage hold in every state that is reached from the constructor.
\<close>

section \<open>Storage\<close>

record valset_args =
  va_validators :: "eth_address list"
  va_powers :: "uint256 list"
  va_valsetNonce :: uint256
  va_rewardAmount :: uint256
  va_rewardToken :: eth_address

record logic_call_args =
  la_transferAmounts :: "uint256 list"
  la_transferTokenContracts :: "eth_address list"
  la_feeAmounts :: "uint256 list"
  la_feeTokenContracts :: "eth_address list"
  la_logicContractAddress :: eth_address
  la_payload :: bytes
  la_timeOut :: uint256
  la_invalidationId :: bytes
  la_invalidationNonce :: uint256

datatype gravity_event =
    TransactionBatchExecutedEvent uint256 eth_address uint256
  | SendToCosmosEvent eth_address eth_address bytes uint256 uint256
  | ERC20DeployedEvent string eth_address string string u8 uint256
  | ValsetUpdatedEvent uint256 uint256 uint256 eth_address "eth_address list" "uint256 list"
  | LogicCallEvent bytes uint256 bytes uint256

datatype external_call =
    SafeTransfer eth_address eth_address uint256
  | SafeTransferFrom eth_address eth_address eth_address uint256
  | BurnTokens eth_address uint256
  | FunctionCall eth_address bytes

record gravity =
  wNomAddress :: eth_address
  state_lastValsetCheckpoint :: bytes
  state_lastBatchNonces :: "eth_address \<Rightarrow> uint256"
  state_invalidationMapping :: "bytes \<Rightarrow> uint256"
  state_lastValsetNonce :: uint256
  state_lastEventNonce :: uint256
  state_gravityId :: bytes
  state_powerThreshold :: uint256
  entered :: bool
  emitted :: "gravity_event list"
  made :: "external_call list"

text \<open>The sender of a call and the block it is in, and the public functions with their arguments.\<close>

record call_env =
  msg_sender :: eth_address
  msg_block :: uint256

datatype gravity_call =
    UpdateValset valset_args valset_args "uint256 list" "uint256 list" "uint256 list"
  | SubmitBatch valset_args "uint256 list" "uint256 list" "uint256 list"
      "uint256 list" "eth_address list" "uint256 list" uint256 eth_address uint256
  | SubmitLogicCall valset_args "uint256 list" "uint256 list" "uint256 list" logic_call_args
  | SendToCosmos eth_address bytes uint256
  | DeployERC20 string string string u8

text \<open>The other contracts: what a call returns or reverts with and which functions of this contract
  the callee calls meanwhile, given the calls made before, and the address of a new contract.\<close>

record others =
  external :: "external_call list \<Rightarrow> external_call \<Rightarrow> string + bytes \<times> gravity_call list"
  created :: "gravity_event list \<Rightarrow> eth_address"
  this_address :: eth_address


section \<open>Functions\<close>

definition require :: "bool \<Rightarrow> string \<Rightarrow> (string + 'a) \<Rightarrow> string + 'a" where
  "require b msg k = (if b then k else Inl msg)"

definition safe_add :: "uint256 \<Rightarrow> uint256 \<Rightarrow> string + uint256" where
  "safe_add a b = (if (a + b) mod 2 ^ 256 \<ge> a then Inr ((a + b) mod 2 ^ 256) else Inl ''SafeMath: addition overflow'')"

definition emit_next :: "(uint256 \<Rightarrow> gravity_event) \<Rightarrow> gravity \<Rightarrow> string + gravity" where
  "emit_next ev g =
     try_sum (safe_add (state_lastEventNonce g) 1) (\<lambda>n.
     Inr (g\<lparr>state_lastEventNonce := n, emitted := emitted g @ [ev n]\<rparr>))"

text \<open>\<open>deployERC20\<close> is the one state changing function without the guard against re-entrance.\<close>

definition deployERC20 :: "others \<Rightarrow> string \<Rightarrow> string \<Rightarrow> string \<Rightarrow> u8 \<Rightarrow> gravity \<Rightarrow> string + gravity" where
  "deployERC20 W cosmosDenom name symbol decimals g =
     (let erc20 = created W (emitted g) in
      emit_next (ERC20DeployedEvent cosmosDenom erc20 name symbol decimals) g)"

text \<open>A call that another contract makes while this one waits for it.  The guarded functions revert
  (\<open>entered_rejects\<close> below), so the storage changes by \<open>deployERC20\<close> only.\<close>

fun call_back :: "others \<Rightarrow> gravity_call \<Rightarrow> gravity \<Rightarrow> gravity" where
  "call_back W (DeployERC20 cosmosDenom name symbol decimals) g =
     (case deployERC20 W cosmosDenom name symbol decimals g of Inr g' \<Rightarrow> g' | Inl _ \<Rightarrow> g)"
| "call_back W _ g = g"

definition call_out :: "others \<Rightarrow> external_call \<Rightarrow> gravity \<Rightarrow> string + bytes \<times> gravity" where
  "call_out W c g =
     try_sum (external W (made g) c) (\<lambda>(ret, backs).
     Inr (ret, fold (call_back W) backs (g\<lparr>made := made g @ [c]\<rparr>)))"

definition nonReentrant :: "(gravity \<Rightarrow> string + gravity) \<Rightarrow> gravity \<Rightarrow> string + gravity" where
  "nonReentrant body g =
     require (\<not> entered g) ''ReentrancyGuard: reentrant call''
       (try_sum (body (g\<lparr>entered := True\<rparr>)) (\<lambda>g'. Inr (g'\<lparr>entered := False\<rparr>)))"

definition lastBatchNonce :: "gravity \<Rightarrow> eth_address \<Rightarrow> uint256" where
  "lastBatchNonce g erc20Address = state_lastBatchNonces g erc20Address"

definition lastLogicCallNonce :: "gravity \<Rightarrow> bytes \<Rightarrow> uint256" where
  "lastLogicCallNonce g invalidation_id = state_invalidationMapping g invalidation_id"

definition CHECKPOINT_METHOD :: bytes where
  "CHECKPOINT_METHOD = be_bytes 32 0x636865636b706f696e7400000000000000000000000000000000000000000000"

definition BATCH_METHOD :: bytes where
  "BATCH_METHOD = be_bytes 32 0x7472616e73616374696f6e426174636800000000000000000000000000000000"

definition LOGIC_CALL_METHOD :: bytes where
  "LOGIC_CALL_METHOD = be_bytes 32 0x6c6f67696343616c6c0000000000000000000000000000000000000000000000"

definition makeCheckpoint :: "evm \<Rightarrow> valset_args \<Rightarrow> bytes \<Rightarrow> bytes" where
  "makeCheckpoint E V gravityId =
     keccak256 E (abi_encode
       [TBytes gravityId, TBytes CHECKPOINT_METHOD, TUint (va_valsetNonce V),
        token_addresses (va_validators V), token_u256s (va_powers V),
        TUint (va_rewardAmount V), TAddress (va_rewardToken V)])"

definition batchHash :: "evm \<Rightarrow> bytes \<Rightarrow> uint256 list \<Rightarrow> eth_address list \<Rightarrow> uint256 list \<Rightarrow> uint256 \<Rightarrow> eth_address \<Rightarrow> uint256 \<Rightarrow> bytes" where
  "batchHash E gravityId amounts destinations fees batchNonce tokenContract batchTimeout =
     keccak256 E (abi_encode
       [TBytes gravityId, TBytes BATCH_METHOD, token_u256s amounts, token_addresses destinations,
        token_u256s fees, TUint batchNonce, TAddress tokenContract, TUint batchTimeout])"

definition argsHash :: "evm \<Rightarrow> bytes \<Rightarrow> logic_call_args \<Rightarrow> bytes" where
  "argsHash E gravityId args =
     keccak256 E (abi_encode
       [TBytes gravityId, TBytes LOGIC_CALL_METHOD, token_u256s (la_transferAmounts args),
        token_addresses (la_transferTokenContracts args), token_u256s (la_feeAmounts args),
        token_addresses (la_feeTokenContracts args), TAddress (la_logicContractAddress args),
        TUnboundedBytes (la_payload args), TUint (la_timeOut args), TBytes (la_invalidationId args),
        TUint (la_invalidationNonce args)])"

definition wellFormedCurrent :: "valset_args \<Rightarrow> uint256 list \<Rightarrow> uint256 list \<Rightarrow> uint256 list \<Rightarrow> bool" where
  "wellFormedCurrent cur v r s \<longleftrightarrow>
     length (va_validators cur) = length (va_powers cur) \<and> length (va_validators cur) = length v \<and>
     length (va_validators cur) = length r \<and> length (va_validators cur) = length s"

definition pay_reward :: "others \<Rightarrow> call_env \<Rightarrow> valset_args \<Rightarrow> gravity \<Rightarrow> string + gravity" where
  "pay_reward W env newValset g =
     (if va_rewardToken newValset \<noteq> 0 \<and> va_rewardAmount newValset \<noteq> 0
      then try_sum (call_out W (SafeTransfer (va_rewardToken newValset) (msg_sender env) (va_rewardAmount newValset)) g) (\<lambda>(_, g). Inr g)
      else Inr g)"

definition updateValset :: "evm \<Rightarrow> others \<Rightarrow> call_env \<Rightarrow> valset_args \<Rightarrow> valset_args \<Rightarrow> uint256 list \<Rightarrow> uint256 list \<Rightarrow> uint256 list \<Rightarrow>
    gravity \<Rightarrow> string + gravity" where
  "updateValset E W env newValset currentValset v r s = nonReentrant (\<lambda>g.
     require (va_valsetNonce newValset > va_valsetNonce currentValset) ''New valset nonce must be greater than the current nonce''
     (require (length (va_validators newValset) = length (va_powers newValset)) ''Malformed new validator set''
     (require (wellFormedCurrent currentValset v r s) ''Malformed current validator set''
     (require (makeCheckpoint E currentValset (state_gravityId g) = state_lastValsetCheckpoint g)
        ''Supplied current validators and powers do not match checkpoint.''
     (let newCheckpoint = makeCheckpoint E newValset (state_gravityId g) in
      try_sum (checkValidatorSignatures E (va_validators currentValset) (va_powers currentValset) v r s newCheckpoint (state_powerThreshold g)) (\<lambda>_.
      let g = g\<lparr>state_lastValsetCheckpoint := newCheckpoint, state_lastValsetNonce := va_valsetNonce newValset\<rparr> in
      try_sum (pay_reward W env newValset g)
        (emit_next (\<lambda>n. ValsetUpdatedEvent (va_valsetNonce newValset) n (va_rewardAmount newValset) (va_rewardToken newValset)
            (va_validators newValset) (va_powers newValset)))))))))"

fun send_amounts :: "others \<Rightarrow> eth_address \<Rightarrow> uint256 list \<Rightarrow> eth_address list \<Rightarrow> uint256 list \<Rightarrow> uint256 \<Rightarrow> gravity \<Rightarrow>
    string + uint256 \<times> gravity" where
  "send_amounts W tokenContract [] destinations fees totalFee g = Inr (totalFee, g)"
| "send_amounts W tokenContract (a # as) (d # dests) (f # fs) totalFee g =
     try_sum (call_out W (SafeTransfer tokenContract d a) g) (\<lambda>(_, g).
     try_sum (safe_add totalFee f) (\<lambda>totalFee. send_amounts W tokenContract as dests fs totalFee g))"
| "send_amounts W tokenContract (a # as) dests fs totalFee g = Inl ''invalid opcode''"

definition submitBatch :: "evm \<Rightarrow> others \<Rightarrow> call_env \<Rightarrow> valset_args \<Rightarrow> uint256 list \<Rightarrow> uint256 list \<Rightarrow> uint256 list \<Rightarrow>
    uint256 list \<Rightarrow> eth_address list \<Rightarrow> uint256 list \<Rightarrow> uint256 \<Rightarrow> eth_address \<Rightarrow> uint256 \<Rightarrow> gravity \<Rightarrow> string + gravity" where
  "submitBatch E W env currentValset v r s amounts destinations fees batchNonce tokenContract batchTimeout = nonReentrant (\<lambda>g.
     require (state_lastBatchNonces g tokenContract < batchNonce) ''New batch nonce must be greater than the current nonce''
     (require (msg_block env < batchTimeout) ''Batch timeout must be greater than the current block height''
     (require (wellFormedCurrent currentValset v r s) ''Malformed current validator set''
     (require (makeCheckpoint E currentValset (state_gravityId g) = state_lastValsetCheckpoint g)
        ''Supplied current validators and powers do not match checkpoint.''
     (require (length amounts = length destinations \<and> length amounts = length fees) ''Malformed batch of transactions''
     (try_sum (checkValidatorSignatures E (va_validators currentValset) (va_powers currentValset) v r s
         (batchHash E (state_gravityId g) amounts destinations fees batchNonce tokenContract batchTimeout) (state_powerThreshold g)) (\<lambda>_.
      let g = g\<lparr>state_lastBatchNonces := (state_lastBatchNonces g)(tokenContract := batchNonce)\<rparr> in
      try_sum (send_amounts W tokenContract amounts destinations fees 0 g) (\<lambda>(totalFee, g).
      try_sum (call_out W (SafeTransfer tokenContract (msg_sender env) totalFee) g) (\<lambda>(_, g).
      emit_next (TransactionBatchExecutedEvent batchNonce tokenContract) g)))))))))"

fun send_tokens :: "others \<Rightarrow> eth_address \<Rightarrow> uint256 list \<Rightarrow> eth_address list \<Rightarrow> gravity \<Rightarrow> string + gravity" where
  "send_tokens W to [] tokens g = Inr g"
| "send_tokens W to (a # as) (t # ts) g =
     try_sum (call_out W (SafeTransfer t to a) g) (\<lambda>(_, g). send_tokens W to as ts g)"
| "send_tokens W to (a # as) [] g = Inl ''invalid opcode''"

definition submitLogicCall :: "evm \<Rightarrow> others \<Rightarrow> call_env \<Rightarrow> valset_args \<Rightarrow> uint256 list \<Rightarrow> uint256 list \<Rightarrow> uint256 list \<Rightarrow>
    logic_call_args \<Rightarrow> gravity \<Rightarrow> string + gravity" where
  "submitLogicCall E W env currentValset v r s args = nonReentrant (\<lambda>g.
     require (msg_block env < la_timeOut args) ''Timed out''
     (require (state_invalidationMapping g (la_invalidationId args) < la_invalidationNonce args)
        ''New invalidation nonce must be greater than the current nonce''
     (require (wellFormedCurrent currentValset v r s) ''Malformed current validator set''
     (require (makeCheckpoint E currentValset (state_gravityId g) = state_lastValsetCheckpoint g)
        ''Supplied current validators and powers do not match checkpoint.''
     (require (length (la_transferAmounts args) = length (la_transferTokenContracts args)) ''Malformed list of token transfers''
     (require (length (la_feeAmounts args) = length (la_feeTokenContracts args)) ''Malformed list of fees''
     (try_sum (checkValidatorSignatures E (va_validators currentValset) (va_powers currentValset) v r s
         (argsHash E (state_gravityId g) args) (state_powerThreshold g)) (\<lambda>_.
      let g = g\<lparr>state_invalidationMapping := (state_invalidationMapping g)(la_invalidationId args := la_invalidationNonce args)\<rparr> in
      try_sum (send_tokens W (la_logicContractAddress args) (la_transferAmounts args) (la_transferTokenContracts args) g) (\<lambda>g.
      try_sum (call_out W (FunctionCall (la_logicContractAddress args) (la_payload args)) g) (\<lambda>(returnData, g).
      try_sum (send_tokens W (msg_sender env) (la_feeAmounts args) (la_feeTokenContracts args) g) (\<lambda>g.
      emit_next (LogicCallEvent (la_invalidationId args) (la_invalidationNonce args) returnData) g)))))))))))"

definition sendToCosmos :: "others \<Rightarrow> call_env \<Rightarrow> eth_address \<Rightarrow> bytes \<Rightarrow> uint256 \<Rightarrow> gravity \<Rightarrow> string + gravity" where
  "sendToCosmos W env tokenContract destination amt = nonReentrant (\<lambda>g.
     try_sum (call_out W (SafeTransferFrom tokenContract (msg_sender env) (this_address W) amt) g) (\<lambda>(_, g).
     try_sum (if tokenContract = wNomAddress g
              then try_sum (call_out W (BurnTokens (wNomAddress g) amt) g) (\<lambda>(_, g). Inr g)
              else Inr g)
       (emit_next (SendToCosmosEvent tokenContract (msg_sender env) destination amt))))"

text \<open>The constructor: the sum of the powers, which stops once it passes the threshold, and wraps.\<close>

fun cumulative_power :: "uint256 \<Rightarrow> uint256 list \<Rightarrow> uint256 \<Rightarrow> uint256" where
  "cumulative_power powerThreshold [] cumulativePower = cumulativePower"
| "cumulative_power powerThreshold (p # ps) cumulativePower =
     (let cumulativePower = (cumulativePower + p) mod 2 ^ 256 in
      if cumulativePower > powerThreshold then cumulativePower else cumulative_power powerThreshold ps cumulativePower)"

definition gravity_constructor :: "evm \<Rightarrow> bytes \<Rightarrow> uint256 \<Rightarrow> eth_address list \<Rightarrow> uint256 list \<Rightarrow> eth_address \<Rightarrow> string + gravity" where
  "gravity_constructor E gravityId powerThreshold validators powers wNom =
     require (length validators = length powers) ''Malformed current validator set''
     (require (cumulative_power powerThreshold powers 0 > powerThreshold)
        ''Submitted validator set signatures do not have enough power.''
     (let valset = \<lparr>va_validators = validators, va_powers = powers, va_valsetNonce = 0, va_rewardAmount = 0, va_rewardToken = 0\<rparr>;
          newCheckpoint = makeCheckpoint E valset gravityId in
      Inr \<lparr>wNomAddress = wNom, state_lastValsetCheckpoint = newCheckpoint, state_lastBatchNonces = (\<lambda>_. 0),
           state_invalidationMapping = (\<lambda>_. 0), state_lastValsetNonce = 0, state_lastEventNonce = 1,
           state_gravityId = gravityId, state_powerThreshold = powerThreshold, entered = False,
           emitted = [ValsetUpdatedEvent 0 1 0 0 validators powers], made = []\<rparr>))"

fun call_gravity :: "evm \<Rightarrow> others \<Rightarrow> call_env \<Rightarrow> gravity_call \<Rightarrow> gravity \<Rightarrow> string + gravity" where
  "call_gravity E W env (UpdateValset newValset currentValset v r s) g = updateValset E W env newValset currentValset v r s g"
| "call_gravity E W env (SubmitBatch currentValset v r s amounts destinations fees batchNonce tokenContract batchTimeout) g =
     submitBatch E W env currentValset v r s amounts destinations fees batchNonce tokenContract batchTimeout g"
| "call_gravity E W env (SubmitLogicCall currentValset v r s args) g = submitLogicCall E W env currentValset v r s args g"
| "call_gravity E W env (SendToCosmos tokenContract destination amt) g = sendToCosmos W env tokenContract destination amt g"
| "call_gravity E W env (DeployERC20 cosmosDenom name symbol decimals) g = deployERC20 W cosmosDenom name symbol decimals g"

text \<open>Arguments as the ABI decoder delivers them: numbers of 256 bits, \<open>uint8\<close> for the \<open>v\<close> of a
  signature, identifiers of 32 bytes.\<close>

definition typed_valset :: "valset_args \<Rightarrow> bool" where
  "typed_valset V \<longleftrightarrow> list_all (\<lambda>p. p < word_bound) (va_powers V) \<and> va_valsetNonce V < word_bound \<and> va_rewardAmount V < word_bound"

definition typed_signatures :: "uint256 list \<Rightarrow> uint256 list \<Rightarrow> uint256 list \<Rightarrow> bool" where
  "typed_signatures v r s \<longleftrightarrow> list_all (\<lambda>n. n < 256) v \<and> list_all (\<lambda>n. n < word_bound) r \<and> list_all (\<lambda>n. n < word_bound) s"

fun typed_call :: "gravity_call \<Rightarrow> bool" where
  "typed_call (UpdateValset newValset currentValset v r s) \<longleftrightarrow>
     typed_valset newValset \<and> typed_valset currentValset \<and> typed_signatures v r s"
| "typed_call (SubmitBatch currentValset v r s amounts destinations fees batchNonce tokenContract batchTimeout) \<longleftrightarrow>
     typed_valset currentValset \<and> typed_signatures v r s \<and> list_all (\<lambda>n. n < word_bound) amounts \<and>
     list_all (\<lambda>n. n < word_bound) fees \<and> batchNonce < word_bound \<and> batchTimeout < word_bound"
| "typed_call (SubmitLogicCall currentValset v r s args) \<longleftrightarrow>
     typed_valset currentValset \<and> typed_signatures v r s \<and> list_all (\<lambda>n. n < word_bound) (la_transferAmounts args) \<and>
     list_all (\<lambda>n. n < word_bound) (la_feeAmounts args) \<and> la_timeOut args < word_bound \<and>
     length (la_invalidationId args) = 32 \<and> la_invalidationNonce args < word_bound"
| "typed_call (SendToCosmos tokenContract destination amt) \<longleftrightarrow> length destination = 32 \<and> amt < word_bound"
| "typed_call (DeployERC20 cosmosDenom name symbol decimals) \<longleftrightarrow> True"

text \<open>The states the contract can get into: from the constructor, by calls that do not revert, with
  other contracts that may behave differently in each call.\<close>

inductive reachable :: "evm \<Rightarrow> gravity \<Rightarrow> bool" for E where
  deployed: "list_all (\<lambda>p. p < word_bound) powers \<Longrightarrow> length gravityId = 32 \<Longrightarrow>
     gravity_constructor E gravityId powerThreshold validators powers wNom = Inr g \<Longrightarrow> reachable E g"
| called: "reachable E g \<Longrightarrow> typed_call c \<Longrightarrow> call_gravity E W env c g = Inr g' \<Longrightarrow> reachable E g'"

section \<open>What a call leaves behind\<close>

fun event_nonce_of :: "gravity_event \<Rightarrow> uint256" where
  "event_nonce_of (TransactionBatchExecutedEvent batchNonce token n) = n"
| "event_nonce_of (SendToCosmosEvent token sender destination amt n) = n"
| "event_nonce_of (ERC20DeployedEvent cosmosDenom token name symbol decimals n) = n"
| "event_nonce_of (ValsetUpdatedEvent newValsetNonce n rewardAmount rewardToken validators powers) = n"
| "event_nonce_of (LogicCallEvent invalidationId invalidationNonce returnData n) = n"

fun is_deployment :: "gravity_event \<Rightarrow> bool" where
  "is_deployment (ERC20DeployedEvent cosmosDenom token name symbol decimals n) = True"
| "is_deployment _ = False"

text \<open>The validator sets announced so far, and the nonces executed for a token and for an
  invalidation id.\<close>

fun valset_updates :: "gravity_event list \<Rightarrow> valset_args list" where
  "valset_updates [] = []"
| "valset_updates (ValsetUpdatedEvent n k amt tok vals pows # evs) =
     \<lparr>va_validators = vals, va_powers = pows, va_valsetNonce = n, va_rewardAmount = amt, va_rewardToken = tok\<rparr> # valset_updates evs"
| "valset_updates (_ # evs) = valset_updates evs"

fun batch_nonces :: "eth_address \<Rightarrow> gravity_event list \<Rightarrow> uint256 list" where
  "batch_nonces t [] = []"
| "batch_nonces t (TransactionBatchExecutedEvent n t' k # evs) = (if t' = t then n # batch_nonces t evs else batch_nonces t evs)"
| "batch_nonces t (_ # evs) = batch_nonces t evs"

fun call_nonces :: "bytes \<Rightarrow> gravity_event list \<Rightarrow> uint256 list" where
  "call_nonces i [] = []"
| "call_nonces i (LogicCallEvent i' n ret k # evs) = (if i' = i then n # call_nonces i evs else call_nonces i evs)"
| "call_nonces i (_ # evs) = call_nonces i evs"

lemma history_append [simp]:
  "valset_updates (xs @ ys) = valset_updates xs @ valset_updates ys"
  "batch_nonces t (xs @ ys) = batch_nonces t xs @ batch_nonces t ys"
  "call_nonces i (xs @ ys) = call_nonces i xs @ call_nonces i ys"
proof -
  show "valset_updates (xs @ ys) = valset_updates xs @ valset_updates ys"
    by (induction xs rule: valset_updates.induct) simp_all
  show "batch_nonces t (xs @ ys) = batch_nonces t xs @ batch_nonces t ys"
    by (induction t xs rule: batch_nonces.induct) simp_all
  show "call_nonces i (xs @ ys) = call_nonces i xs @ call_nonces i ys"
    by (induction i xs rule: call_nonces.induct) simp_all
qed

text \<open>Deployments with consecutive nonces after \<open>n\<close>.\<close>

definition deployments :: "uint256 \<Rightarrow> gravity_event list \<Rightarrow> bool" where
  "deployments n evs \<longleftrightarrow> list_all is_deployment evs \<and> map event_nonce_of evs = [Suc n..<Suc (n + length evs)]"

lemma deployments_history [simp]:
  assumes "deployments n evs"
  shows "valset_updates evs = []" "batch_nonces t evs = []" "call_nonces i evs = []"
proof -
  from assms have "list_all is_deployment evs" by (simp add: deployments_def)
  then have "valset_updates evs = [] \<and> batch_nonces t evs = [] \<and> call_nonces i evs = []"
  proof (induction evs)
    case (Cons ev evs)
    then show ?case by (cases ev) simp_all
  qed simp
  then show "valset_updates evs = []" "batch_nonces t evs = []" "call_nonces i evs = []" by simp_all
qed

lemma deployments_append:
  "deployments n xs \<Longrightarrow> deployments (n + length xs) ys \<Longrightarrow> deployments n (xs @ ys)"
  using upt_add_eq_append [of "Suc n" "Suc (n + length xs)" "length ys"] by (simp add: deployments_def add.assoc)

text \<open>The storage after some deployments and calls to other contracts.\<close>

definition advanced :: "gravity \<Rightarrow> gravity_event list \<Rightarrow> external_call list \<Rightarrow> gravity" where
  "advanced g evs cs = g\<lparr>state_lastEventNonce := state_lastEventNonce g + length evs,
     emitted := emitted g @ evs, made := made g @ cs\<rparr>"

definition waits :: "external_call list \<Rightarrow> gravity \<Rightarrow> gravity \<Rightarrow> bool" where
  "waits cs g g' \<longleftrightarrow> (state_lastEventNonce g < word_bound \<longrightarrow>
     (\<exists>evs. deployments (state_lastEventNonce g) evs \<and> state_lastEventNonce g + length evs < word_bound \<and> g' = advanced g evs cs))"

lemma advanced_simps [simp]:
  "wNomAddress (advanced g evs cs) = wNomAddress g"
  "state_lastValsetCheckpoint (advanced g evs cs) = state_lastValsetCheckpoint g"
  "state_lastBatchNonces (advanced g evs cs) = state_lastBatchNonces g"
  "state_invalidationMapping (advanced g evs cs) = state_invalidationMapping g"
  "state_lastValsetNonce (advanced g evs cs) = state_lastValsetNonce g"
  "state_lastEventNonce (advanced g evs cs) = state_lastEventNonce g + length evs"
  "state_gravityId (advanced g evs cs) = state_gravityId g"
  "state_powerThreshold (advanced g evs cs) = state_powerThreshold g"
  "entered (advanced g evs cs) = entered g"
  "emitted (advanced g evs cs) = emitted g @ evs"
  "made (advanced g evs cs) = made g @ cs"
  by (simp_all add: advanced_def)

lemma advanced_advanced: "advanced (advanced g xs cs) ys cs' = advanced g (xs @ ys) (cs @ cs')"
  by (simp add: advanced_def add.assoc)

lemma waits_refl: "waits [] g g"
  unfolding waits_def by (intro impI exI [of _ "[]"]) (simp add: deployments_def advanced_def)

lemma waits_trans: "waits cs g g' \<Longrightarrow> waits cs' g' g'' \<Longrightarrow> waits (cs @ cs') g g''"
  unfolding waits_def
  by (clarsimp simp: advanced_advanced) (metis deployments_append length_append add.assoc)

lemma mod_add_one: "1 < (b :: nat) \<Longrightarrow> n < b \<Longrightarrow> n \<le> (n + 1) mod b \<Longrightarrow> n + 1 < b"
  by (cases "n + 1 = b") auto

lemma emit_next_iff:
  assumes "state_lastEventNonce g < word_bound"
  shows "emit_next ev g = Inr g' \<longleftrightarrow> Suc (state_lastEventNonce g) < word_bound \<and>
    g' = g\<lparr>state_lastEventNonce := Suc (state_lastEventNonce g), emitted := emitted g @ [ev (Suc (state_lastEventNonce g))]\<rparr>"
proof (cases "Suc (state_lastEventNonce g) < word_bound")
  case True
  then have "safe_add (state_lastEventNonce g) 1 = Inr (Suc (state_lastEventNonce g))"
    by (simp add: safe_add_def word_bound_def del: power_numeral)
  with True show ?thesis by (auto simp: emit_next_def)
next
  case False
  have "1 < word_bound" unfolding word_bound_def by (rule one_less_power) simp_all
  with False assms mod_add_one have "\<not> state_lastEventNonce g \<le> (state_lastEventNonce g + 1) mod word_bound" by fastforce
  then have "safe_add (state_lastEventNonce g) 1 = Inl ''SafeMath: addition overflow''"
    by (simp add: safe_add_def word_bound_def del: power_numeral)
  with False show ?thesis by (simp add: emit_next_def)
qed

lemma call_back_waits: "waits [] g (call_back W c g)"
proof (cases "\<exists>d n s k g'. c = DeployERC20 d n s k \<and> deployERC20 W d n s k g = Inr g'")
  case True
  then obtain d n s k g' where c: "c = DeployERC20 d n s k" "deployERC20 W d n s k g = Inr g'" by blast
  let ?ev = "ERC20DeployedEvent d (created W (emitted g)) n s k (Suc (state_lastEventNonce g))"
  show ?thesis unfolding waits_def
  proof (intro impI exI [of _ "[?ev]"])
    assume "state_lastEventNonce g < word_bound"
    from c(2) emit_next_iff [OF this] have "Suc (state_lastEventNonce g) < word_bound"
      "g' = advanced g [?ev] []" by (simp_all add: deployERC20_def Let_def advanced_def)
    with c show "deployments (state_lastEventNonce g) [?ev] \<and> state_lastEventNonce g + length [?ev] < word_bound \<and>
        call_back W c g = advanced g [?ev] []"
      by (simp add: deployments_def)
  qed
next
  case False
  then have "call_back W c g = g" by (cases c) (auto split: sum.splits)
  then show ?thesis by (simp add: waits_refl)
qed

lemma call_backs_wait: "waits [] g (fold (call_back W) backs g)"
proof (induction backs arbitrary: g)
  case (Cons c backs)
  from waits_trans [OF call_back_waits Cons.IH] show ?case by simp
qed (simp add: waits_refl)

lemma call_out_waits:
  assumes "call_out W c g = Inr (ret, g')"
  shows "waits [c] g g'"
proof -
  from assms obtain backs where g': "g' = fold (call_back W) backs (g\<lparr>made := made g @ [c]\<rparr>)"
    by (auto simp: call_out_def outcome_simps)
  have "waits [c] g (g\<lparr>made := made g @ [c]\<rparr>)"
    unfolding waits_def by (intro impI exI [of _ "[]"]) (simp add: deployments_def advanced_def)
  from waits_trans [OF this call_backs_wait] g' show ?thesis by simp
qed

lemma safe_add_exact: "a + b < word_bound \<Longrightarrow> safe_add a b = Inr (a + b)"
  by (simp add: safe_add_def word_bound_def del: power_numeral)

lemma safe_add_Inr: "safe_add a b = Inr c \<Longrightarrow> a < word_bound \<Longrightarrow> b < word_bound \<Longrightarrow> c = a + b \<and> c < word_bound"
proof -
  assume *: "safe_add a b = Inr c" "a < word_bound" "b < word_bound"
  have "a + b < word_bound"
  proof (rule ccontr)
    assume "\<not> a + b < word_bound"
    then have "(a + b) mod word_bound = a + b - word_bound" using *(2,3) by (simp add: mod_if)
    moreover have "a \<le> (a + b) mod word_bound"
      using *(1) unfolding safe_add_def word_bound_def by (simp del: power_numeral split: if_splits)
    ultimately show False using *(3) \<open>\<not> a + b < word_bound\<close> by linarith
  qed
  with safe_add_exact [of a b] *(1) show ?thesis by simp
qed

lemma send_amounts_waits:
  "send_amounts W t amounts dests fees tot g = Inr (tot', g') \<Longrightarrow> length amounts = length dests \<Longrightarrow> length amounts = length fees \<Longrightarrow>
     tot < word_bound \<Longrightarrow> list_all (\<lambda>f. f < word_bound) fees \<Longrightarrow>
     waits (map2 (SafeTransfer t) dests amounts) g g' \<and> tot' = tot + sum_list fees \<and> tot' < word_bound"
proof (induction W t amounts dests fees tot g rule: send_amounts.induct)
  case (2 W t a as d dests f fs tot g)
  from "2.prems"(1) obtain ret g1 tot1 where 1: "call_out W (SafeTransfer t d a) g = Inr (ret, g1)"
    and 2: "safe_add tot f = Inr tot1" and 3: "send_amounts W t as dests fs tot1 g1 = Inr (tot', g')"
    by (auto simp: outcome_simps)
  from safe_add_Inr [OF 2] "2.prems"(4,5) have tot1: "tot1 = tot + f" "tot1 < word_bound" by simp_all
  have "waits (map2 (SafeTransfer t) dests as) g1 g' \<and> tot' = tot1 + sum_list fs \<and> tot' < word_bound"
    by (rule "2.IH" [OF 3]) (use "2.prems" tot1 in simp_all)
  with waits_trans [OF call_out_waits [OF 1]] tot1 show ?case by fastforce
qed (auto simp: waits_refl)

lemma send_tokens_waits:
  "send_tokens W to amounts tokens g = Inr g' \<Longrightarrow> length amounts = length tokens \<Longrightarrow>
     waits (map2 (\<lambda>t. SafeTransfer t to) tokens amounts) g g'"
proof (induction W to amounts tokens g rule: send_tokens.induct)
  case (2 W to a as t ts g)
  from "2.prems"(1) obtain ret g1 where 1: "call_out W (SafeTransfer t to a) g = Inr (ret, g1)"
    and 2: "send_tokens W to as ts g1 = Inr g'"
    by (auto simp: outcome_simps)
  from waits_trans [OF call_out_waits [OF 1] "2.IH" [OF 2]] "2.prems"(2) show ?case by simp
qed (auto simp: waits_refl)

text \<open>A guarded function runs its body on a storage that is not entered, and leaves it so.\<close>

lemma require_Inr [outcome_simps]: "require b msg k = Inr x \<longleftrightarrow> b \<and> k = Inr x"
  by (simp add: require_def)

lemma nonReentrant_Inr [outcome_simps]:
  "nonReentrant body g = Inr g' \<longleftrightarrow> \<not> entered g \<and> (\<exists>h. body (g\<lparr>entered := True\<rparr>) = Inr h \<and> g' = h\<lparr>entered := False\<rparr>)"
  by (auto simp: nonReentrant_def outcome_simps)

lemma entered_rejects:
  assumes "entered g" "\<And>d n s k. c \<noteq> DeployERC20 d n s k"
  shows "call_gravity E W env c g = Inl ''ReentrancyGuard: reentrant call'' \<and> call_back W c g = g"
  using assms
  by (cases c) (fastforce simp: updateValset_def submitBatch_def submitLogicCall_def sendToCosmos_def nonReentrant_def require_def)+

lemma waitsE:
  assumes "waits cs g g'" "state_lastEventNonce g < word_bound"
  obtains evs where "deployments (state_lastEventNonce g) evs" "state_lastEventNonce g + length evs < word_bound" "g' = advanced g evs cs"
  using assms by (auto simp: waits_def)

text \<open>How a call that goes through ends: the deployments that other contracts made meanwhile, and
  then its own event.\<close>

definition concludes :: "external_call list \<Rightarrow> (uint256 \<Rightarrow> gravity_event) \<Rightarrow> gravity \<Rightarrow> gravity \<Rightarrow> bool" where
  "concludes cs ev g g' \<longleftrightarrow> (\<exists>evs n. deployments (state_lastEventNonce g) evs \<and> n = Suc (state_lastEventNonce g + length evs) \<and>
     n < word_bound \<and> g' = advanced g (evs @ [ev n]) cs)"

lemma concludesI:
  assumes "waits cs g h" "emit_next ev h = Inr g'" "state_lastEventNonce g < word_bound"
  shows "concludes cs ev g g'"
proof -
  from assms(1,3) obtain evs where evs: "deployments (state_lastEventNonce g) evs"
    "state_lastEventNonce g + length evs < word_bound" "h = advanced g evs cs" by (rule waitsE)
  with assms(2) emit_next_iff [of h] show ?thesis
    unfolding concludes_def by (intro exI [of _ evs]) (auto simp: advanced_def)
qed

lemma concludes_guarded:
  assumes "concludes cs ev (g\<lparr>entered := True\<rparr>) h" "\<not> entered g"
  shows "concludes cs ev g (h\<lparr>entered := False\<rparr>)"
proof -
  from assms(1) obtain evs where evs: "deployments (state_lastEventNonce g) evs"
    "Suc (state_lastEventNonce g + length evs) < word_bound"
    "h = advanced (g\<lparr>entered := True\<rparr>) (evs @ [ev (Suc (state_lastEventNonce g + length evs))]) cs"
    by (auto simp: concludes_def)
  with assms(2) show ?thesis
    unfolding concludes_def by (intro exI [of _ evs]) (auto simp: advanced_def)
qed

definition reward_calls :: "call_env \<Rightarrow> valset_args \<Rightarrow> external_call list" where
  "reward_calls env V = (if va_rewardToken V \<noteq> 0 \<and> va_rewardAmount V \<noteq> 0
     then [SafeTransfer (va_rewardToken V) (msg_sender env) (va_rewardAmount V)] else [])"

definition update_event :: "valset_args \<Rightarrow> uint256 \<Rightarrow> gravity_event" where
  "update_event V n = ValsetUpdatedEvent (va_valsetNonce V) n (va_rewardAmount V) (va_rewardToken V) (va_validators V) (va_powers V)"

text \<open>What each function has checked and done when it does not revert.\<close>

lemma pay_reward_waits: "pay_reward W env V g = Inr h \<Longrightarrow> waits (reward_calls env V) g h"
  by (auto simp: pay_reward_def reward_calls_def outcome_simps waits_refl call_out_waits split: if_splits)

lemma updateValset_Inr:
  assumes "updateValset E W env new cur v r s g = Inr g'" "state_lastEventNonce g < word_bound"
  shows "\<not> entered g \<and> va_valsetNonce cur < va_valsetNonce new \<and> length (va_validators new) = length (va_powers new) \<and>
    wellFormedCurrent cur v r s \<and> makeCheckpoint E cur (state_gravityId g) = state_lastValsetCheckpoint g \<and>
    checkValidatorSignatures E (va_validators cur) (va_powers cur) v r s (makeCheckpoint E new (state_gravityId g)) (state_powerThreshold g) = Inr () \<and>
    concludes (reward_calls env new) (update_event new)
      (g\<lparr>state_lastValsetCheckpoint := makeCheckpoint E new (state_gravityId g), state_lastValsetNonce := va_valsetNonce new\<rparr>) g'"
proof -
  let ?g = "g\<lparr>state_lastValsetCheckpoint := makeCheckpoint E new (state_gravityId g), state_lastValsetNonce := va_valsetNonce new\<rparr>"
  let ?h = "g\<lparr>entered := True, state_lastValsetCheckpoint := makeCheckpoint E new (state_gravityId g), state_lastValsetNonce := va_valsetNonce new\<rparr>"
  have eq: "?h = ?g\<lparr>entered := True\<rparr>" by simp
  from assms(1) obtain h k where
    checks: "\<not> entered g \<and> va_valsetNonce cur < va_valsetNonce new \<and> length (va_validators new) = length (va_powers new) \<and>
      wellFormedCurrent cur v r s \<and> makeCheckpoint E cur (state_gravityId g) = state_lastValsetCheckpoint g \<and>
      checkValidatorSignatures E (va_validators cur) (va_powers cur) v r s (makeCheckpoint E new (state_gravityId g)) (state_powerThreshold g) = Inr ()"
    and h: "pay_reward W env new ?h = Inr h" and k: "emit_next (update_event new) h = Inr k" "g' = k\<lparr>entered := False\<rparr>"
    unfolding updateValset_def Let_def update_event_def by (auto simp: outcome_simps)
  have "waits (reward_calls env new) (?g\<lparr>entered := True\<rparr>) h"
    using h unfolding eq by (rule pay_reward_waits)
  then have "concludes (reward_calls env new) (update_event new) (?g\<lparr>entered := True\<rparr>) k"
    by (rule concludesI [OF _ k(1)]) (use assms(2) in simp)
  then have "concludes (reward_calls env new) (update_event new) ?g g'"
    unfolding k(2) by (rule concludes_guarded) (use checks in simp)
  with checks show ?thesis by blast
qed

definition batch_calls :: "call_env \<Rightarrow> eth_address \<Rightarrow> uint256 list \<Rightarrow> eth_address list \<Rightarrow> uint256 list \<Rightarrow> external_call list" where
  "batch_calls env t amounts destinations fees =
     map2 (SafeTransfer t) destinations amounts @ [SafeTransfer t (msg_sender env) (sum_list fees)]"

lemma submitBatch_Inr:
  assumes "submitBatch E W env cur v r s amounts destinations fees nonce t timeout g = Inr g'" "state_lastEventNonce g < word_bound"
    and "list_all (\<lambda>f. f < word_bound) fees"
  shows "\<not> entered g \<and> state_lastBatchNonces g t < nonce \<and> msg_block env < timeout \<and>
    wellFormedCurrent cur v r s \<and> makeCheckpoint E cur (state_gravityId g) = state_lastValsetCheckpoint g \<and>
    length amounts = length destinations \<and> length amounts = length fees \<and>
    checkValidatorSignatures E (va_validators cur) (va_powers cur) v r s
      (batchHash E (state_gravityId g) amounts destinations fees nonce t timeout) (state_powerThreshold g) = Inr () \<and>
    concludes (batch_calls env t amounts destinations fees) (TransactionBatchExecutedEvent nonce t)
      (g\<lparr>state_lastBatchNonces := (state_lastBatchNonces g)(t := nonce)\<rparr>) g'"
proof -
  let ?g = "g\<lparr>state_lastBatchNonces := (state_lastBatchNonces g)(t := nonce)\<rparr>"
  let ?h = "g\<lparr>entered := True, state_lastBatchNonces := (state_lastBatchNonces g)(t := nonce)\<rparr>"
  have eq: "?h = ?g\<lparr>entered := True\<rparr>" by simp
  from assms(1) obtain tot g1 ret h k where
    checks: "\<not> entered g \<and> state_lastBatchNonces g t < nonce \<and> msg_block env < timeout \<and>
      wellFormedCurrent cur v r s \<and> makeCheckpoint E cur (state_gravityId g) = state_lastValsetCheckpoint g \<and>
      length amounts = length destinations \<and> length amounts = length fees \<and>
      checkValidatorSignatures E (va_validators cur) (va_powers cur) v r s
        (batchHash E (state_gravityId g) amounts destinations fees nonce t timeout) (state_powerThreshold g) = Inr ()"
    and 1: "send_amounts W t amounts destinations fees 0 ?h = Inr (tot, g1)"
    and 2: "call_out W (SafeTransfer t (msg_sender env) tot) g1 = Inr (ret, h)"
    and k: "emit_next (TransactionBatchExecutedEvent nonce t) h = Inr k" "g' = k\<lparr>entered := False\<rparr>"
    unfolding submitBatch_def Let_def by (auto simp: outcome_simps)
  from checks have len: "length amounts = length destinations" "length amounts = length fees" by simp_all
  have "0 < word_bound" by (simp add: word_bound_def)
  from send_amounts_waits [OF 1 [unfolded eq] len this assms(3)]
  have "waits (map2 (SafeTransfer t) destinations amounts) (?g\<lparr>entered := True\<rparr>) g1" "tot = sum_list fees" by simp_all
  with waits_trans [OF this(1) call_out_waits [OF 2]]
  have "waits (batch_calls env t amounts destinations fees) (?g\<lparr>entered := True\<rparr>) h" by (simp add: batch_calls_def)
  then have "concludes (batch_calls env t amounts destinations fees) (TransactionBatchExecutedEvent nonce t) (?g\<lparr>entered := True\<rparr>) k"
    by (rule concludesI [OF _ k(1)]) (use assms(2) in simp)
  then have "concludes (batch_calls env t amounts destinations fees) (TransactionBatchExecutedEvent nonce t) ?g g'"
    unfolding k(2) by (rule concludes_guarded) (use checks in simp)
  with checks show ?thesis by blast
qed

definition logic_calls :: "call_env \<Rightarrow> logic_call_args \<Rightarrow> external_call list" where
  "logic_calls env args =
     map2 (\<lambda>t. SafeTransfer t (la_logicContractAddress args)) (la_transferTokenContracts args) (la_transferAmounts args) @
     [FunctionCall (la_logicContractAddress args) (la_payload args)] @
     map2 (\<lambda>t. SafeTransfer t (msg_sender env)) (la_feeTokenContracts args) (la_feeAmounts args)"

lemma submitLogicCall_Inr:
  assumes "submitLogicCall E W env cur v r s args g = Inr g'" "state_lastEventNonce g < word_bound"
  shows "\<not> entered g \<and> msg_block env < la_timeOut args \<and>
    state_invalidationMapping g (la_invalidationId args) < la_invalidationNonce args \<and>
    wellFormedCurrent cur v r s \<and> makeCheckpoint E cur (state_gravityId g) = state_lastValsetCheckpoint g \<and>
    checkValidatorSignatures E (va_validators cur) (va_powers cur) v r s (argsHash E (state_gravityId g) args) (state_powerThreshold g) = Inr () \<and>
    (\<exists>returnData. concludes (logic_calls env args) (LogicCallEvent (la_invalidationId args) (la_invalidationNonce args) returnData)
      (g\<lparr>state_invalidationMapping := (state_invalidationMapping g)(la_invalidationId args := la_invalidationNonce args)\<rparr>) g')"
proof -
  let ?g = "g\<lparr>state_invalidationMapping := (state_invalidationMapping g)(la_invalidationId args := la_invalidationNonce args)\<rparr>"
  let ?h = "g\<lparr>entered := True,
    state_invalidationMapping := (state_invalidationMapping g)(la_invalidationId args := la_invalidationNonce args)\<rparr>"
  have eq: "?h = ?g\<lparr>entered := True\<rparr>" by simp
  from assms(1) obtain g1 ret g2 h k where
    checks: "\<not> entered g \<and> msg_block env < la_timeOut args \<and>
      state_invalidationMapping g (la_invalidationId args) < la_invalidationNonce args \<and>
      wellFormedCurrent cur v r s \<and> makeCheckpoint E cur (state_gravityId g) = state_lastValsetCheckpoint g \<and>
      checkValidatorSignatures E (va_validators cur) (va_powers cur) v r s (argsHash E (state_gravityId g) args) (state_powerThreshold g) = Inr ()"
    and len: "length (la_transferAmounts args) = length (la_transferTokenContracts args)" "length (la_feeAmounts args) = length (la_feeTokenContracts args)"
    and 1: "send_tokens W (la_logicContractAddress args) (la_transferAmounts args) (la_transferTokenContracts args) ?h = Inr g1"
    and 2: "call_out W (FunctionCall (la_logicContractAddress args) (la_payload args)) g1 = Inr (ret, g2)"
    and 3: "send_tokens W (msg_sender env) (la_feeAmounts args) (la_feeTokenContracts args) g2 = Inr h"
    and k: "emit_next (LogicCallEvent (la_invalidationId args) (la_invalidationNonce args) ret) h = Inr k" "g' = k\<lparr>entered := False\<rparr>"
    unfolding submitLogicCall_def Let_def by (auto simp: outcome_simps)
  let ?ev = "LogicCallEvent (la_invalidationId args) (la_invalidationNonce args) ret"
  from waits_trans [OF waits_trans [OF send_tokens_waits [OF 1 [unfolded eq] len(1)] call_out_waits [OF 2]] send_tokens_waits [OF 3 len(2)]]
  have "waits (logic_calls env args) (?g\<lparr>entered := True\<rparr>) h" by (simp add: logic_calls_def)
  then have "concludes (logic_calls env args) ?ev (?g\<lparr>entered := True\<rparr>) k"
    by (rule concludesI [OF _ k(1)]) (use assms(2) in simp)
  then have "concludes (logic_calls env args) ?ev ?g g'"
    unfolding k(2) by (rule concludes_guarded) (use checks in simp)
  with checks show ?thesis by blast
qed

definition deposit_calls :: "others \<Rightarrow> call_env \<Rightarrow> gravity \<Rightarrow> eth_address \<Rightarrow> uint256 \<Rightarrow> external_call list" where
  "deposit_calls W env g t amt = SafeTransferFrom t (msg_sender env) (this_address W) amt #
     (if t = wNomAddress g then [BurnTokens t amt] else [])"

lemma sendToCosmos_Inr:
  assumes "sendToCosmos W env t destination amt g = Inr g'" "state_lastEventNonce g < word_bound"
  shows "\<not> entered g \<and> concludes (deposit_calls W env g t amt) (SendToCosmosEvent t (msg_sender env) destination amt) g g'"
proof -
  let ?ev = "SendToCosmosEvent t (msg_sender env) destination amt"
  from assms(1) obtain ret g1 h k where e: "\<not> entered g"
    and 1: "call_out W (SafeTransferFrom t (msg_sender env) (this_address W) amt) (g\<lparr>entered := True\<rparr>) = Inr (ret, g1)"
    and 2: "(if t = wNomAddress g1 then try_sum (call_out W (BurnTokens (wNomAddress g1) amt) g1) (\<lambda>(_, g). Inr g) else Inr g1) = Inr h"
    and k: "emit_next ?ev h = Inr k" "g' = k\<lparr>entered := False\<rparr>"
    unfolding sendToCosmos_def by (auto simp: outcome_simps)
  from call_out_waits [OF 1] have "wNomAddress g1 = wNomAddress g" by (rule waitsE) (use assms(2) in simp_all)
  with 2 have "waits (if t = wNomAddress g then [BurnTokens t amt] else []) g1 h"
    by (auto simp: outcome_simps waits_refl call_out_waits split: if_splits)
  from waits_trans [OF call_out_waits [OF 1] this]
  have "waits (deposit_calls W env g t amt) (g\<lparr>entered := True\<rparr>) h" by (simp add: deposit_calls_def)
  then have "concludes (deposit_calls W env g t amt) ?ev (g\<lparr>entered := True\<rparr>) k"
    by (rule concludesI [OF _ k(1)]) (use assms(2) in simp)
  with e k(2) concludes_guarded show ?thesis by blast
qed

lemma deployERC20_Inr:
  assumes "deployERC20 W d n s k g = Inr g'" "state_lastEventNonce g < word_bound"
  shows "concludes [] (ERC20DeployedEvent d (created W (emitted g)) n s k) g g'"
  using assms by (intro concludesI [OF waits_refl]) (simp_all add: deployERC20_def Let_def)

section \<open>Invariants\<close>

definition nonces_consecutive :: "gravity \<Rightarrow> bool" where
  "nonces_consecutive g \<longleftrightarrow> \<not> entered g \<and> state_lastEventNonce g < word_bound \<and>
     map event_nonce_of (emitted g) = [1..<Suc (state_lastEventNonce g)]"

definition checkpoint_current :: "evm \<Rightarrow> gravity \<Rightarrow> bool" where
  "checkpoint_current E g \<longleftrightarrow> length (state_gravityId g) = 32 \<and>
     (\<exists>V older. valset_updates (emitted g) = older @ [V] \<and> typed_valset V \<and> length (va_validators V) = length (va_powers V) \<and>
        state_lastValsetCheckpoint g = makeCheckpoint E V (state_gravityId g) \<and> state_lastValsetNonce g = va_valsetNonce V)"

definition batches_increase :: "gravity \<Rightarrow> bool" where
  "batches_increase g \<longleftrightarrow> (\<forall>t. state_lastBatchNonces g t = last (0 # batch_nonces t (emitted g)) \<and>
     sorted_wrt (<) (0 # batch_nonces t (emitted g)))"

definition logic_calls_increase :: "gravity \<Rightarrow> bool" where
  "logic_calls_increase g \<longleftrightarrow> (\<forall>i. state_invalidationMapping g i = last (0 # call_nonces i (emitted g)) \<and>
     sorted_wrt (<) (0 # call_nonces i (emitted g)))"

lemma concludes_nonces:
  assumes "nonces_consecutive g" "concludes cs ev g g'" "\<And>n. event_nonce_of (ev n) = n"
  shows "nonces_consecutive g'"
proof -
  let ?n = "state_lastEventNonce g"
  from assms(2) obtain evs where evs: "deployments ?n evs" "Suc (?n + length evs) < word_bound"
    "g' = advanced g (evs @ [ev (Suc (?n + length evs))]) cs" by (auto simp: concludes_def)
  have "[1..<Suc (Suc (?n + length evs))] = [1..<Suc ?n] @ [Suc ?n..<Suc (?n + length evs)] @ [Suc (?n + length evs)]"
    using upt_add_eq_append [of 1 "Suc ?n" "Suc (length evs)"] by (simp add: upt_Suc_append)
  with evs assms(1,3) show ?thesis by (simp add: nonces_consecutive_def deployments_def)
qed

text \<open>A call that is not about validator sets, batches or logic calls leaves their history alone.\<close>

lemma concludes_history:
  assumes "concludes cs ev g g'"
  shows "\<exists>n. valset_updates (emitted g') = valset_updates (emitted g) @ valset_updates [ev n] \<and>
    (\<forall>t. batch_nonces t (emitted g') = batch_nonces t (emitted g) @ batch_nonces t [ev n]) \<and>
    (\<forall>i. call_nonces i (emitted g') = call_nonces i (emitted g) @ call_nonces i [ev n]) \<and>
    state_gravityId g' = state_gravityId g \<and> state_lastValsetCheckpoint g' = state_lastValsetCheckpoint g \<and>
    state_lastValsetNonce g' = state_lastValsetNonce g \<and> state_lastBatchNonces g' = state_lastBatchNonces g \<and>
    state_invalidationMapping g' = state_invalidationMapping g \<and> made g' = made g @ cs"
  using assms by (auto simp: concludes_def)

lemma sorted_snoc_last: "sorted_wrt (<) (0 # xs) \<Longrightarrow> last (0 # xs) < n \<Longrightarrow> sorted_wrt (<) (0 # xs @ [n])" for n :: nat
proof -
  assume s: "sorted_wrt (<) (0 # xs)" and n: "last (0 # xs) < n"
  have "x \<le> last (0 # xs)" if "x \<in> set (0 # xs)" for x
  proof -
    from that obtain i where i: "i < length (0 # xs)" "(0 # xs) ! i = x" unfolding in_set_conv_nth by blast
    have "List.sorted (0 # xs)" using s by (rule strict_sorted_imp_sorted)
    with i have "x \<le> (0 # xs) ! length xs" using sorted_nth_mono [of "0 # xs" i "length xs"] by simp
    also have "\<dots> = last (0 # xs)" using last_conv_nth [of "0 # xs"] by (simp del: last.simps)
    finally show ?thesis .
  qed
  with n have "\<forall>x \<in> set (0 # xs). x < n" by fastforce
  with s show ?thesis by (auto simp: sorted_wrt_append)
qed

definition gravity_inv :: "evm \<Rightarrow> gravity \<Rightarrow> bool" where
  "gravity_inv E g \<longleftrightarrow> nonces_consecutive g \<and> checkpoint_current E g \<and> batches_increase g \<and> logic_calls_increase g"

lemma gravity_invD:
  assumes "gravity_inv E g"
  shows "state_lastEventNonce g < word_bound" "\<not> entered g"
  using assms by (simp_all add: gravity_inv_def nonces_consecutive_def)

lemma updateValset_inv:
  assumes I: "gravity_inv E g" and t: "typed_valset new" and ok: "updateValset E W env new cur v r s g = Inr g'"
  shows "gravity_inv E g'"
proof -
  let ?g = "g\<lparr>state_lastValsetCheckpoint := makeCheckpoint E new (state_gravityId g), state_lastValsetNonce := va_valsetNonce new\<rparr>"
  from updateValset_Inr [OF ok gravity_invD(1) [OF I]]
  have len: "length (va_validators new) = length (va_powers new)" and c: "concludes (reward_calls env new) (update_event new) ?g g'"
    by blast+
  have "nonces_consecutive g'"
    by (rule concludes_nonces [OF _ c]) (use I in \<open>simp_all add: gravity_inv_def nonces_consecutive_def update_event_def\<close>)
  moreover have "valset_updates [update_event new n] = [new]" "batch_nonces t [update_event new n] = []"
    "call_nonces i [update_event new n] = []" for n t i by (simp_all add: update_event_def)
  ultimately show ?thesis
    using concludes_history [OF c] I len t
    by (auto simp: gravity_inv_def checkpoint_current_def batches_increase_def logic_calls_increase_def)
qed

lemma submitBatch_inv:
  assumes I: "gravity_inv E g" and t: "list_all (\<lambda>n. n < word_bound) fees"
    and ok: "submitBatch E W env cur v r s amounts destinations fees nonce t timeout g = Inr g'"
  shows "gravity_inv E g'"
proof -
  from submitBatch_Inr [OF ok gravity_invD(1) [OF I] t]
  have lt: "state_lastBatchNonces g t < nonce" and c: "concludes (batch_calls env t amounts destinations fees)
      (TransactionBatchExecutedEvent nonce t) (g\<lparr>state_lastBatchNonces := (state_lastBatchNonces g)(t := nonce)\<rparr>) g'"
    by blast+
  have "nonces_consecutive g'"
    by (rule concludes_nonces [OF _ c]) (use I in \<open>simp_all add: gravity_inv_def nonces_consecutive_def\<close>)
  moreover have "batches_increase g'"
    unfolding batches_increase_def
  proof
    fix u
    from I have b: "state_lastBatchNonces g u = last (0 # batch_nonces u (emitted g))" "sorted_wrt (<) (0 # batch_nonces u (emitted g))"
      by (simp_all add: gravity_inv_def batches_increase_def)
    show "state_lastBatchNonces g' u = last (0 # batch_nonces u (emitted g')) \<and> sorted_wrt (<) (0 # batch_nonces u (emitted g'))"
    proof (cases "u = t")
      case True
      with sorted_snoc_last [OF b(2)] b(1) lt concludes_history [OF c] show ?thesis by auto
    next
      case False
      with b concludes_history [OF c] show ?thesis by auto
    qed
  qed
  ultimately show ?thesis
    using concludes_history [OF c] I
    by (auto simp: gravity_inv_def checkpoint_current_def logic_calls_increase_def)
qed

lemma submitLogicCall_inv:
  assumes I: "gravity_inv E g" and ok: "submitLogicCall E W env cur v r s args g = Inr g'"
  shows "gravity_inv E g'"
proof -
  let ?i = "la_invalidationId args" and ?n = "la_invalidationNonce args"
  from submitLogicCall_Inr [OF ok gravity_invD(1) [OF I]] obtain ret where
    lt: "state_invalidationMapping g ?i < ?n" and c: "concludes (logic_calls env args)
      (LogicCallEvent ?i ?n ret) (g\<lparr>state_invalidationMapping := (state_invalidationMapping g)(?i := ?n)\<rparr>) g'"
    by blast
  have "nonces_consecutive g'"
    by (rule concludes_nonces [OF _ c]) (use I in \<open>simp_all add: gravity_inv_def nonces_consecutive_def\<close>)
  moreover have "logic_calls_increase g'"
    unfolding logic_calls_increase_def
  proof
    fix j
    from I have b: "state_invalidationMapping g j = last (0 # call_nonces j (emitted g))" "sorted_wrt (<) (0 # call_nonces j (emitted g))"
      by (simp_all add: gravity_inv_def logic_calls_increase_def)
    show "state_invalidationMapping g' j = last (0 # call_nonces j (emitted g')) \<and> sorted_wrt (<) (0 # call_nonces j (emitted g'))"
    proof (cases "j = ?i")
      case True
      with sorted_snoc_last [OF b(2)] b(1) lt concludes_history [OF c] show ?thesis by auto
    next
      case False
      with b concludes_history [OF c] show ?thesis by auto
    qed
  qed
  ultimately show ?thesis
    using concludes_history [OF c] I
    by (auto simp: gravity_inv_def checkpoint_current_def batches_increase_def)
qed

lemma quiet_inv:
  assumes I: "gravity_inv E g" and c: "concludes cs ev g g'" and ev: "\<And>n. event_nonce_of (ev n) = n"
    "\<And>n. valset_updates [ev n] = []" "\<And>t n. batch_nonces t [ev n] = []" "\<And>i n. call_nonces i [ev n] = []"
  shows "gravity_inv E g'"
  using concludes_history [OF c] I ev(2-4) concludes_nonces [OF _ c ev(1)]
  by (auto simp: gravity_inv_def checkpoint_current_def batches_increase_def logic_calls_increase_def)

lemma call_inv:
  assumes I: "gravity_inv E g" and t: "typed_call c" and ok: "call_gravity E W env c g = Inr g'"
  shows "gravity_inv E g'"
proof (cases c)
  case (SendToCosmos tok dest amt)
  with sendToCosmos_Inr [OF _ gravity_invD(1) [OF I]] ok show ?thesis
    by (intro quiet_inv [OF I, of "deposit_calls W env g tok amt" "SendToCosmosEvent tok (msg_sender env) dest amt"]) auto
next
  case (DeployERC20 d n s k)
  with deployERC20_Inr [OF _ gravity_invD(1) [OF I]] ok show ?thesis
    by (intro quiet_inv [OF I, of "[]" "ERC20DeployedEvent d (created W (emitted g)) n s k"]) auto
qed (use t ok in \<open>auto intro: updateValset_inv [OF I] submitBatch_inv [OF I] submitLogicCall_inv [OF I]\<close>)

lemma constructor_inv:
  assumes "list_all (\<lambda>p. p < word_bound) powers" "length gravityId = 32"
    "gravity_constructor E gravityId powerThreshold validators powers wNom = Inr g"
  shows "gravity_inv E g"
proof -
  have "1 < word_bound" unfolding word_bound_def by (rule one_less_power) simp_all
  with assms show ?thesis
    by (auto simp: gravity_constructor_def outcome_simps Let_def gravity_inv_def nonces_consecutive_def checkpoint_current_def
        batches_increase_def logic_calls_increase_def typed_valset_def)
qed

lemma reachable_inv: "reachable E g \<Longrightarrow> gravity_inv E g"
  by (induction rule: reachable.induct) (auto intro: constructor_inv call_inv)

section \<open>When a call goes through\<close>

text \<open>The calls a function makes to other contracts, in order: the reason the first that reverts gives,
  or how many functions of this contract they call back in all.\<close>

fun outgoing :: "others \<Rightarrow> external_call list \<Rightarrow> external_call list \<Rightarrow> string + nat" where
  "outgoing W before [] = Inr 0"
| "outgoing W before (c # cs) =
     try_sum (external W before c) (\<lambda>(ret, backs).
     try_sum (outgoing W (before @ [c]) cs) (\<lambda>n. Inr (length backs + n)))"

lemma outgoing_append:
  "outgoing W before (cs @ cs') =
     try_sum (outgoing W before cs) (\<lambda>n. try_sum (outgoing W (before @ cs) cs') (\<lambda>k. Inr (n + k)))"
proof (induction cs arbitrary: before)
  case Nil
  show ?case by (cases "outgoing W before cs'") simp_all
next
  case (Cons c cs)
  then show ?case
    by (cases "external W before c"; cases "outgoing W (before @ [c]) cs"; cases "outgoing W (before @ c # cs) cs'")
      (auto simp: add.assoc)
qed

lemma call_backs_nonce:
  "state_lastEventNonce g < word_bound \<Longrightarrow> state_lastEventNonce (fold (call_back W) backs g) \<le> state_lastEventNonce g + length backs \<and>
     state_lastEventNonce (fold (call_back W) backs g) < word_bound \<and> made (fold (call_back W) backs g) = made g"
proof (induction backs arbitrary: g)
  case (Cons c backs)
  have "state_lastEventNonce (call_back W c g) \<le> Suc (state_lastEventNonce g) \<and> state_lastEventNonce (call_back W c g) < word_bound \<and>
      made (call_back W c g) = made g"
    using Cons.prems by (cases c) (auto simp: deployERC20_def Let_def emit_next_iff split: sum.splits)
  with Cons.IH [of "call_back W c g"] show ?case by auto
qed simp

lemma try_sum_assoc: "try_sum (try_sum r f) h = try_sum r (\<lambda>x. try_sum (f x) h)"
  by (cases r) simp_all

text \<open>A part of a function that makes the calls \<open>cs\<close> and reverts exactly when one of them does.\<close>

definition performs :: "others \<Rightarrow> external_call list \<Rightarrow> gravity \<Rightarrow> string + 'a \<Rightarrow> ('a \<Rightarrow> gravity) \<Rightarrow> bool" where
  "performs W cs g r st \<longleftrightarrow>
     (case outgoing W (made g) cs of
        Inl e \<Rightarrow> r = Inl e
      | Inr k \<Rightarrow> \<exists>x. r = Inr x \<and> made (st x) = made g @ cs \<and> state_lastEventNonce (st x) \<le> state_lastEventNonce g + k \<and>
          state_lastEventNonce (st x) < word_bound)"

lemma performs_Inr: "state_lastEventNonce g < word_bound \<Longrightarrow> st x = g \<Longrightarrow> performs W [] g (Inr x) st"
  by (simp add: performs_def)

lemma performs_call_out: "state_lastEventNonce g < word_bound \<Longrightarrow> performs W [c] g (call_out W c g) snd"
  using call_backs_nonce [of "g\<lparr>made := made g @ [c]\<rparr>" W]
  by (cases "external W (made g) c") (auto simp: performs_def call_out_def)

lemma performs_then:
  assumes "performs W cs g r st"
    and "\<And>x. r = Inr x \<Longrightarrow> state_lastEventNonce (st x) < word_bound \<Longrightarrow> performs W cs' (st x) (f x) st'"
  shows "performs W (cs @ cs') g (try_sum r f) st'"
proof (cases "outgoing W (made g) cs")
  case (Inl e)
  with assms(1) show ?thesis by (simp add: performs_def outgoing_append)
next
  case (Inr k)
  with assms(1) obtain x where x: "r = Inr x" "made (st x) = made g @ cs" "state_lastEventNonce (st x) \<le> state_lastEventNonce g + k"
    "state_lastEventNonce (st x) < word_bound" by (auto simp: performs_def)
  from assms(2) [OF x(1,4)] x Inr show ?thesis
    by (cases "outgoing W (made g @ cs) cs'") (auto simp: performs_def outgoing_append)
qed

lemma performs_pay_reward:
  assumes "state_lastEventNonce g < word_bound"
  shows "performs W (reward_calls env V) g (pay_reward W env V g) (\<lambda>g. g)"
proof -
  let ?c = "SafeTransfer (va_rewardToken V) (msg_sender env) (va_rewardAmount V)"
  have "performs W ([?c] @ []) g (try_sum (call_out W ?c g) (\<lambda>(_, g). Inr g)) (\<lambda>g. g)"
    by (rule performs_then [OF performs_call_out [OF assms]]) (auto intro: performs_Inr)
  with assms show ?thesis by (simp add: pay_reward_def reward_calls_def performs_Inr)
qed

lemma performs_send_amounts:
  "length amounts = length dests \<Longrightarrow> length amounts = length fees \<Longrightarrow> tot + sum_list fees < word_bound \<Longrightarrow>
     state_lastEventNonce g < word_bound \<Longrightarrow>
     performs W (map2 (SafeTransfer t) dests amounts) g (send_amounts W t amounts dests fees tot g) snd"
proof (induction amounts arbitrary: dests fees tot g)
  case (Cons a amounts)
  then obtain d dests' f fees' where *: "dests = d # dests'" "fees = f # fees'"
    by (metis Suc_length_conv length_Cons)
  have "safe_add tot f = Inr (tot + f)" by (rule safe_add_exact) (use Cons.prems(3) * in simp)
  moreover have "performs W ([SafeTransfer t d a] @ map2 (SafeTransfer t) dests' amounts) g
      (try_sum (call_out W (SafeTransfer t d a) g) (\<lambda>(_, g). send_amounts W t amounts dests' fees' (tot + f) g)) snd"
    by (rule performs_then [OF performs_call_out [OF Cons.prems(4)]]) (use Cons * in \<open>auto simp: add.assoc\<close>)
  ultimately show ?case by (simp add: *)
qed (simp add: performs_Inr)

lemma performs_send_tokens:
  "length amounts = length tokens \<Longrightarrow> state_lastEventNonce g < word_bound \<Longrightarrow>
     performs W (map2 (\<lambda>t. SafeTransfer t to) tokens amounts) g (send_tokens W to amounts tokens g) (\<lambda>g. g)"
proof (induction amounts arbitrary: tokens g)
  case (Cons a amounts)
  then obtain t ts where *: "tokens = t # ts" by (metis Suc_length_conv length_Cons)
  have "performs W ([SafeTransfer t to a] @ map2 (\<lambda>t. SafeTransfer t to) ts amounts) g
      (try_sum (call_out W (SafeTransfer t to a) g) (\<lambda>(_, g). send_tokens W to amounts ts g)) (\<lambda>g. g)"
    by (rule performs_then [OF performs_call_out [OF Cons.prems(2)]]) (use Cons * in auto)
  then show ?case by (simp add: *)
qed (simp add: performs_Inr)

text \<open>How a function ends that makes these calls and then emits its event: it reverts with the first
  call that reverts, and goes through otherwise, as long as there are event nonces left.\<close>

definition settles :: "others \<Rightarrow> external_call list \<Rightarrow> gravity \<Rightarrow> string + gravity \<Rightarrow> bool" where
  "settles W cs g r \<longleftrightarrow>
     (case outgoing W (made g) cs of
        Inl e \<Rightarrow> r = Inl e
      | Inr k \<Rightarrow> state_lastEventNonce g + k + 1 < word_bound \<longrightarrow> (\<exists>g'. r = Inr g'))"

lemma emit_next_room:
  "Suc (state_lastEventNonce g) < word_bound \<Longrightarrow> \<exists>g'. emit_next ev g = Inr g'"
  by (intro exI, subst emit_next_iff) auto

lemma performs_settles:
  assumes "performs W cs h r st" "made h = made g" "state_lastEventNonce h = state_lastEventNonce g"
  shows "settles W cs g (try_sum (try_sum r (\<lambda>x. emit_next (ev x) (st x))) (\<lambda>g'. Inr (g'\<lparr>entered := False\<rparr>)))"
proof (cases "outgoing W (made g) cs")
  case (Inr k)
  with assms obtain x where x: "r = Inr x" "state_lastEventNonce (st x) \<le> state_lastEventNonce g + k" by (auto simp: performs_def)
  then show ?thesis using emit_next_room [of "st x" "ev x"] Inr by (auto simp: settles_def)
qed (use assms in \<open>simp add: settles_def performs_def\<close>)

text \<open>The verdict of each signed function, once everything but the signatures is right.\<close>

lemma updateValset_verdict:
  assumes "\<not> entered g" "va_valsetNonce cur < va_valsetNonce new" "length (va_validators new) = length (va_powers new)"
    "wellFormedCurrent cur v r s" "makeCheckpoint E cur (state_gravityId g) = state_lastValsetCheckpoint g"
    "state_lastEventNonce g < word_bound"
  shows "case checkValidatorSignatures E (va_validators cur) (va_powers cur) v r s (makeCheckpoint E new (state_gravityId g)) (state_powerThreshold g) of
      Inl e \<Rightarrow> updateValset E W env new cur v r s g = Inl e
    | Inr _ \<Rightarrow> settles W (reward_calls env new) g (updateValset E W env new cur v r s g)"
proof (cases "checkValidatorSignatures E (va_validators cur) (va_powers cur) v r s (makeCheckpoint E new (state_gravityId g)) (state_powerThreshold g)")
  case (Inl e)
  with assms show ?thesis by (simp add: updateValset_def nonReentrant_def require_def)
next
  case (Inr u)
  let ?h = "g\<lparr>entered := True, state_lastValsetCheckpoint := makeCheckpoint E new (state_gravityId g), state_lastValsetNonce := va_valsetNonce new\<rparr>"
  have "performs W (reward_calls env new) ?h (pay_reward W env new ?h) (\<lambda>g. g)" by (rule performs_pay_reward) (simp add: assms(6))
  from performs_settles [OF this, of g "\<lambda>_. update_event new"] assms Inr show ?thesis
    by (simp add: updateValset_def nonReentrant_def require_def update_event_def [abs_def])
qed

lemma submitBatch_verdict:
  assumes "\<not> entered g" "state_lastBatchNonces g t < nonce" "msg_block env < timeout" "wellFormedCurrent cur v r s"
    "makeCheckpoint E cur (state_gravityId g) = state_lastValsetCheckpoint g"
    "length amounts = length destinations" "length amounts = length fees" "sum_list fees < word_bound"
    "state_lastEventNonce g < word_bound"
  shows "case checkValidatorSignatures E (va_validators cur) (va_powers cur) v r s
        (batchHash E (state_gravityId g) amounts destinations fees nonce t timeout) (state_powerThreshold g) of
      Inl e \<Rightarrow> submitBatch E W env cur v r s amounts destinations fees nonce t timeout g = Inl e
    | Inr _ \<Rightarrow> settles W (batch_calls env t amounts destinations fees) g
        (submitBatch E W env cur v r s amounts destinations fees nonce t timeout g)"
proof (cases "checkValidatorSignatures E (va_validators cur) (va_powers cur) v r s
    (batchHash E (state_gravityId g) amounts destinations fees nonce t timeout) (state_powerThreshold g)")
  case (Inl e)
  with assms show ?thesis by (simp add: submitBatch_def nonReentrant_def require_def)
next
  case (Inr u)
  let ?h = "g\<lparr>entered := True, state_lastBatchNonces := (state_lastBatchNonces g)(t := nonce)\<rparr>"
  have b: "list_all (\<lambda>f. f < word_bound) fees"
    using member_le_sum_list [of _ fees] assms(8) by (auto simp: list_all_iff intro: le_less_trans)
  have total: "fst x = sum_list fees" if "send_amounts W t amounts destinations fees 0 ?h = Inr x" for x
    using send_amounts_waits [of W t amounts destinations fees 0 ?h "fst x" "snd x"] that assms(6-8) b by simp
  have "performs W (map2 (SafeTransfer t) destinations amounts @ [SafeTransfer t (msg_sender env) (sum_list fees)]) ?h
      (try_sum (send_amounts W t amounts destinations fees 0 ?h) (\<lambda>x. call_out W (SafeTransfer t (msg_sender env) (fst x)) (snd x))) snd"
    by (rule performs_then [OF performs_send_amounts]) (use assms total in \<open>auto intro: performs_call_out\<close>)
  from performs_settles [OF this, of g "\<lambda>_. TransactionBatchExecutedEvent nonce t"] assms Inr show ?thesis
    by (simp add: submitBatch_def nonReentrant_def require_def batch_calls_def case_prod_beta try_sum_assoc)
qed

lemma submitLogicCall_verdict:
  assumes "\<not> entered g" "msg_block env < la_timeOut args" "state_invalidationMapping g (la_invalidationId args) < la_invalidationNonce args"
    "wellFormedCurrent cur v r s" "makeCheckpoint E cur (state_gravityId g) = state_lastValsetCheckpoint g"
    "length (la_transferAmounts args) = length (la_transferTokenContracts args)" "length (la_feeAmounts args) = length (la_feeTokenContracts args)"
    "state_lastEventNonce g < word_bound"
  shows "case checkValidatorSignatures E (va_validators cur) (va_powers cur) v r s (argsHash E (state_gravityId g) args) (state_powerThreshold g) of
      Inl e \<Rightarrow> submitLogicCall E W env cur v r s args g = Inl e
    | Inr _ \<Rightarrow> settles W (logic_calls env args) g (submitLogicCall E W env cur v r s args g)"
proof (cases "checkValidatorSignatures E (va_validators cur) (va_powers cur) v r s (argsHash E (state_gravityId g) args) (state_powerThreshold g)")
  case (Inl e)
  with assms show ?thesis by (simp add: submitLogicCall_def nonReentrant_def require_def)
next
  case (Inr u)
  let ?i = "la_invalidationId args" and ?to = "la_logicContractAddress args"
  let ?h = "g\<lparr>entered := True, state_invalidationMapping := (state_invalidationMapping g)(?i := la_invalidationNonce args)\<rparr>"
  have fees: "performs W (map2 (\<lambda>t. SafeTransfer t (msg_sender env)) (la_feeTokenContracts args) (la_feeAmounts args)) h
      (try_sum (send_tokens W (msg_sender env) (la_feeAmounts args) (la_feeTokenContracts args) h) (\<lambda>h. Inr (ret, h))) snd"
    if "state_lastEventNonce h < word_bound" for ret h
    using performs_then [OF performs_send_tokens [OF assms(7) that], where cs' = "[]" and f = "\<lambda>h. Inr (ret, h)" and st' = snd]
    by (simp add: performs_Inr)
  have "performs W (map2 (\<lambda>t. SafeTransfer t ?to) (la_transferTokenContracts args) (la_transferAmounts args) @
      [FunctionCall ?to (la_payload args)] @ map2 (\<lambda>t. SafeTransfer t (msg_sender env)) (la_feeTokenContracts args) (la_feeAmounts args)) ?h
      (try_sum (send_tokens W ?to (la_transferAmounts args) (la_transferTokenContracts args) ?h) (\<lambda>h.
       try_sum (call_out W (FunctionCall ?to (la_payload args)) h) (\<lambda>(ret, h).
       try_sum (send_tokens W (msg_sender env) (la_feeAmounts args) (la_feeTokenContracts args) h) (\<lambda>h. Inr (ret, h))))) snd"
    by (intro performs_then [OF performs_send_tokens] performs_then [OF performs_call_out]) (use assms fees in auto)
  from performs_settles [OF this, of g "\<lambda>x. LogicCallEvent ?i (la_invalidationNonce args) (fst x)"] assms Inr show ?thesis
    by (simp add: submitLogicCall_def nonReentrant_def require_def logic_calls_def case_prod_beta try_sum_assoc)
qed

section \<open>What a checkpoint stands for\<close>

definition checkpoint_message :: "valset_args \<Rightarrow> bytes \<Rightarrow> bytes" where
  "checkpoint_message V gravityId = abi_encode
     [TBytes gravityId, TBytes CHECKPOINT_METHOD, TUint (va_valsetNonce V), token_addresses (va_validators V),
      token_u256s (va_powers V), TUint (va_rewardAmount V), TAddress (va_rewardToken V)]"

lemma makeCheckpoint_message: "makeCheckpoint E V gravityId = keccak256 E (checkpoint_message V gravityId)"
  by (simp add: makeCheckpoint_def checkpoint_message_def)

definition checkpoint_words :: "valset_args \<Rightarrow> nat list" where
  "checkpoint_words V = [va_valsetNonce V, 224, 256 + 32 * length (va_validators V), va_rewardAmount V, unat (va_rewardToken V)] @
     (length (va_validators V) # map unat (va_validators V)) @ (length (va_powers V) # va_powers V)"

lemma checkpoint_message_words: "checkpoint_message V gravityId = bytes32 gravityId @ bytes32 CHECKPOINT_METHOD @ abi_words (checkpoint_words V)"
  by (simp add: checkpoint_message_def abi_encode_def abi_layout_def checkpoint_words_def)

lemma abi_words_eq: "abi_words ms = abi_words ns \<longleftrightarrow> map abi_word ms = map abi_word ns"
proof
  assume eq: "abi_words ms = abi_words ns"
  then have "length ms = length ns" by (metis length_abi_words mult_cancel1 zero_neq_numeral)
  then show "map abi_word ms = map abi_word ns" using eq
    by (induction ms ns rule: list_induct2) (simp_all add: append_eq_append_conv)
qed (simp add: abi_words_def)

lemma map_abi_word_inject:
  "list_all (\<lambda>n. n < word_bound) ms \<Longrightarrow> list_all (\<lambda>n. n < word_bound) ns \<Longrightarrow> map abi_word ms = map abi_word ns \<Longrightarrow> ms = ns"
  by (rule abi_words_inject) (auto simp: list_all_iff abi_words_eq)

lemma addresses_bounded: "list_all (\<lambda>n. n < word_bound) (map unat (as :: eth_address list))"
  using unat_address_bound by (simp add: list_all_iff word_bound_def del: power_numeral)

text \<open>Two well-formed sets with the same message are the same set.\<close>

lemma checkpoint_message_inject:
  assumes "typed_valset V" "typed_valset V'" "length (va_validators V) = length (va_powers V)" "length (va_validators V') = length (va_powers V')"
    and eq: "checkpoint_message V gravityId = checkpoint_message V' gravityId"
  shows "V = V'"
proof -
  from eq have w: "map abi_word (checkpoint_words V) = map abi_word (checkpoint_words V')"
    by (simp add: checkpoint_message_words abi_words_eq)
  from arg_cong [OF this, of length] assms(3,4) have len: "length (va_validators V) = length (va_validators V')"
    by (simp add: checkpoint_words_def)
  with w assms(3,4) have
    "map abi_word [va_valsetNonce V, va_rewardAmount V] = map abi_word [va_valsetNonce V', va_rewardAmount V']"
    "map abi_word (map unat [va_rewardToken V]) = map abi_word (map unat [va_rewardToken V'])"
    "map abi_word (map unat (va_validators V)) = map abi_word (map unat (va_validators V'))"
    "map abi_word (va_powers V) = map abi_word (va_powers V')"
    by (simp_all add: checkpoint_words_def append_eq_append_conv)
  note eqs = this [THEN map_abi_word_inject [rotated 2]]
  have "[va_valsetNonce V, va_rewardAmount V] = [va_valsetNonce V', va_rewardAmount V']"
    "map unat [va_rewardToken V] = map unat [va_rewardToken V']"
    "map unat (va_validators V) = map unat (va_validators V')" "va_powers V = va_powers V'"
    using eqs(1,4) assms(1,2) eqs(2,3) [OF addresses_bounded addresses_bounded] by (simp_all add: typed_valset_def)
  then have "va_valsetNonce V = va_valsetNonce V'" "va_rewardAmount V = va_rewardAmount V'" "va_rewardToken V = va_rewardToken V'"
    "va_validators V = va_validators V'" "va_powers V = va_powers V'"
    by (auto simp: inj_map_eq_map [OF injI [OF unsigned_word_eqI]] intro: unsigned_word_eqI)
  then show ?thesis by simp
qed

section \<open>What the contract promises\<close>

text \<open>C4: in every state the contract can reach, the events emitted so far are numbered from one on
  without a gap, whatever other contracts did in between; the stored checkpoint and nonce are those
  of the validator set announced last; and the nonces of the batches executed for a token, and of
  the calls executed for an invalidation id, go strictly up to the one stored, so that nothing is
  executed twice.\<close>

theorem gravity_history:
  assumes "reachable E g"
  shows "map event_nonce_of (emitted g) = [1..<Suc (state_lastEventNonce g)] \<and>
    (\<exists>V older. valset_updates (emitted g) = older @ [V] \<and>
       state_lastValsetCheckpoint g = makeCheckpoint E V (state_gravityId g) \<and> state_lastValsetNonce g = va_valsetNonce V) \<and>
    sorted_wrt (<) (0 # batch_nonces t (emitted g)) \<and> lastBatchNonce g t = last (0 # batch_nonces t (emitted g)) \<and>
    sorted_wrt (<) (0 # call_nonces i (emitted g)) \<and> lastLogicCallNonce g i = last (0 # call_nonces i (emitted g))"
  using reachable_inv [OF assms]
  unfolding gravity_inv_def nonces_consecutive_def checkpoint_current_def batches_increase_def logic_calls_increase_def
    lastBatchNonce_def lastLogicCallNonce_def by blast

text \<open>C7: a validator set update that goes through raises the nonce of the contract, unless its
  caller supplied, in place of the set announced last, another one whose checkpoint message has the
  same hash.\<close>

theorem valset_nonce_increases:
  assumes g: "reachable E g" and typed: "typed_valset new" "typed_valset cur" and ok: "updateValset E W env new cur v r s g = Inr g'"
  shows "state_lastValsetNonce g' = va_valsetNonce new \<and>
    (state_lastValsetNonce g < state_lastValsetNonce g' \<or>
     (\<exists>V. last (valset_updates (emitted g)) = V \<and> checkpoint_message V (state_gravityId g) \<noteq> checkpoint_message cur (state_gravityId g) \<and>
        keccak256 E (checkpoint_message V (state_gravityId g)) = keccak256 E (checkpoint_message cur (state_gravityId g))))"
proof -
  from reachable_inv [OF g] obtain V older where V: "valset_updates (emitted g) = older @ [V]" "typed_valset V"
    "length (va_validators V) = length (va_powers V)" "state_lastValsetCheckpoint g = makeCheckpoint E V (state_gravityId g)"
    "state_lastValsetNonce g = va_valsetNonce V"
    by (auto simp: gravity_inv_def checkpoint_current_def)
  from updateValset_Inr [OF ok gravity_invD(1) [OF reachable_inv [OF g]]] have
    up: "va_valsetNonce cur < va_valsetNonce new" and cur: "wellFormedCurrent cur v r s" "makeCheckpoint E cur (state_gravityId g) = state_lastValsetCheckpoint g"
    and c: "concludes (reward_calls env new) (update_event new)
      (g\<lparr>state_lastValsetCheckpoint := makeCheckpoint E new (state_gravityId g), state_lastValsetNonce := va_valsetNonce new\<rparr>) g'"
    by blast+
  from concludes_history [OF c] have n: "state_lastValsetNonce g' = va_valsetNonce new" by auto
  have "va_valsetNonce V < va_valsetNonce new" if "checkpoint_message V (state_gravityId g) = checkpoint_message cur (state_gravityId g)"
    using checkpoint_message_inject [OF V(2) typed(2) V(3) _ that] cur(1) up by (simp add: wellFormedCurrent_def)
  with n V cur(2) show ?thesis by (auto simp: makeCheckpoint_message)
qed

end
