(* ===== verification/Bridge.thy ===== *)
theory Bridge
  imports Gravity Orchestrator
begin

text \<open>
  Both ends of the bridge together.  A payload of the relayer is a call of the contract, which
  executes it exactly when the power behind the signatures passes its threshold; the logs of the
  contract are what the parsers of the oracle read, and the claims made of them have no gaps.
\<close>

section \<open>The same bytes on both sides\<close>

lemma be_bytes_numeral: "be_bytes (numeral k) n = be_bytes (pred_numeral k) (n div 256) @ [of_nat (n mod 256)]"
  by (simp add: numeral_eq_Suc [of k])

lemma replicate_numeral: "replicate (numeral k) x = x # replicate (pred_numeral k) x"
  by (simp add: numeral_eq_Suc [of k])

text \<open>The hexadecimal constants of the contract spell the method names of the Rust sources.\<close>

lemma method_names:
  "CHECKPOINT_METHOD = bytes32 (map char_byte ''checkpoint'')"
  "BATCH_METHOD = bytes32 (map char_byte ''transactionBatch'')"
  "LOGIC_CALL_METHOD = bytes32 (map char_byte ''logicCall'')"
  by (simp_all add: CHECKPOINT_METHOD_def BATCH_METHOD_def LOGIC_CALL_METHOD_def bytes32_def char_byte_def
      be_bytes_numeral replicate_numeral)

definition gid_bytes :: "string \<Rightarrow> bytes" where
  "gid_bytes gravity_id = bytes32 (map char_byte gravity_id)"

text \<open>A validator set, a batch and a logic call as arguments of the contract.\<close>

definition args_of :: "valset \<Rightarrow> valset_args" where
  "args_of v = (case filter_empty_addresses v of (addresses, powers) \<Rightarrow>
     \<lparr>va_validators = addresses, va_powers = map unat powers, va_valsetNonce = unat (vs_nonce v),
      va_rewardAmount = vs_reward_amount v, va_rewardToken = reward_token_or_zero v\<rparr>)"

definition call_args_of :: "logic_call \<Rightarrow> logic_call_args" where
  "call_args_of c =
     \<lparr>la_transferAmounts = map amount (lc_transfers c), la_transferTokenContracts = map token_contract_address (lc_transfers c),
      la_feeAmounts = map amount (lc_fees c), la_feeTokenContracts = map token_contract_address (lc_fees c),
      la_logicContractAddress = lc_logic_contract_address c, la_payload = lc_payload c, la_timeOut = unat (lc_timeout c),
      la_invalidationId = lc_invalidation_id c, la_invalidationNonce = unat (lc_invalidation_nonce c)\<rparr>"

definition batch_amounts :: "transaction_batch \<Rightarrow> uint256 list" where
  "batch_amounts b = map (\<lambda>t. amount (tx_erc20_token t)) (batch_transactions b)"

definition batch_fees :: "transaction_batch \<Rightarrow> uint256 list" where
  "batch_fees b = map (\<lambda>t. amount (tx_erc20_fee t)) (batch_transactions b)"

definition batch_destinations :: "transaction_batch \<Rightarrow> eth_address list" where
  "batch_destinations b = map tx_destination (batch_transactions b)"

text \<open>The public functions in the ABI: their signatures and their arguments as tokens; a \<open>bytes32\<close>
  of a signature is the number of its word.\<close>

definition valset_token :: "valset_args \<Rightarrow> token" where
  "valset_token V = TStruct [token_addresses (va_validators V), token_u256s (va_powers V), TUint (va_valsetNonce V),
     TUint (va_rewardAmount V), TAddress (va_rewardToken V)]"

fun call_signature :: "gravity_call \<Rightarrow> string" where
  "call_signature (UpdateValset new cur v r s) =
     ''updateValset((address[],uint256[],uint256,uint256,address),(address[],uint256[],uint256,uint256,address),uint8[],bytes32[],bytes32[])''"
| "call_signature (SubmitBatch cur v r s amounts destinations fees nonce t timeout) =
     ''submitBatch((address[],uint256[],uint256,uint256,address),uint8[],bytes32[],bytes32[],uint256[],address[],uint256[],uint256,address,uint256)''"
| "call_signature (SubmitLogicCall cur v r s args) =
     ''submitLogicCall((address[],uint256[],uint256,uint256,address),uint8[],bytes32[],bytes32[],(uint256[],address[],uint256[],address[],address,bytes,uint256,bytes32,uint256))''"
| "call_signature (SendToCosmos t destination amt) = ''sendToCosmos(address,bytes32,uint256)''"
| "call_signature (DeployERC20 d n s k) = ''deployERC20(string,string,string,uint8)''"

fun call_tokens :: "gravity_call \<Rightarrow> token list" where
  "call_tokens (UpdateValset new cur v r s) = [valset_token new, valset_token cur, token_u256s v, token_u256s r, token_u256s s]"
| "call_tokens (SubmitBatch cur v r s amounts destinations fees nonce t timeout) =
     [valset_token cur, token_u256s v, token_u256s r, token_u256s s, token_u256s amounts, token_addresses destinations,
      token_u256s fees, TUint nonce, TAddress t, TUint timeout]"
| "call_tokens (SubmitLogicCall cur v r s args) =
     [valset_token cur, token_u256s v, token_u256s r, token_u256s s,
      TStruct [token_u256s (la_transferAmounts args), token_addresses (la_transferTokenContracts args),
        token_u256s (la_feeAmounts args), token_addresses (la_feeTokenContracts args),
        TAddress (la_logicContractAddress args), TUnboundedBytes (la_payload args), TUint (la_timeOut args),
        TBytes (la_invalidationId args), TUint (la_invalidationNonce args)]]"
| "call_tokens (SendToCosmos t destination amt) = [TAddress t, TBytes destination, TUint amt]"
| "call_tokens (DeployERC20 d n s k) = [TString d, TString n, TString s, TUint (unat k)]"

fun call_v :: "gravity_call \<Rightarrow> uint256 list" where
  "call_v (UpdateValset new cur v r s) = v"
| "call_v (SubmitBatch cur v r s amounts destinations fees nonce t timeout) = v"
| "call_v (SubmitLogicCall cur v r s args) = v"
| "call_v (SendToCosmos t destination amt) = []"
| "call_v (DeployERC20 d n s k) = []"

text \<open>What ties the library of the relayer to the chain: addresses are recovered alike, values are
  encoded alike, and messages are hashed alike.  A call that the library has encoded consists of values
  its types hold; the decoder of the contract delivers it as it was, but refuses it if a \<open>v\<close> is more
  than the \<open>uint8\<close> it is declared as.\<close>

definition linked :: "clarity \<Rightarrow> evm \<Rightarrow> (bytes \<Rightarrow> gravity_call option) \<Rightarrow> bool" where
  "linked C E D \<longleftrightarrow> evm_recovers C E \<and> clarity_abi C \<and>
     (\<forall>m. get_ethereum_msg_hash C m = keccak256 E (ETHEREUM_SALT @ keccak256 E m)) \<and>
     (\<forall>c payload. encode_call C (call_signature c) (call_tokens c) = Inr payload \<longrightarrow>
        list_all wf_token (call_tokens c) \<and> (typed_call c \<longrightarrow> D payload = Some c) \<and>
        (\<not> list_all (\<lambda>v. v < 256) (call_v c) \<longrightarrow> D payload = None))"

text \<open>A transaction with this data on the contract, which has no fallback function.\<close>

definition call_payload :: "evm \<Rightarrow> (bytes \<Rightarrow> gravity_call option) \<Rightarrow> others \<Rightarrow> call_env \<Rightarrow> bytes \<Rightarrow> gravity \<Rightarrow> string + gravity" where
  "call_payload E D W env payload g = (case D payload of Some c \<Rightarrow> call_gravity E W env c g | None \<Rightarrow> Inl [])"

lemma linked_call:
  assumes "linked C E D" "encode_call C (call_signature c) (call_tokens c) = Inr payload"
  shows "list_all wf_token (call_tokens c)" "typed_call c \<Longrightarrow> D payload = Some c" "\<not> list_all (\<lambda>v. v < 256) (call_v c) \<Longrightarrow> D payload = None"
  using assms unfolding linked_def by blast+

lemma encode_valset_struct_token: "encode_valset_struct v = valset_token (args_of v)"
  by (simp add: encode_valset_struct_def valset_token_def args_of_def filter_empty_addresses_map token_u64s_u256s token_u64_def)

lemma linked_hash:
  assumes "linked C E D" "list_all wf_token ts"
  shows "get_ethereum_msg_hash C (encode_tokens C ts) = keccak256 E (ETHEREUM_SALT @ keccak256 E (abi_encode ts))"
  using assms by (simp add: linked_def clarity_abi_def)

text \<open>What a validator signs is what the contract checks the signatures against.\<close>

lemma valset_hash_agrees:
  assumes "linked C E D" "length gid \<le> 32" "vs_reward_amount v < word_bound"
  shows "encode_valset_confirm_hashed C gid v = keccak256 E (ETHEREUM_SALT @ makeCheckpoint E (args_of v) (gid_bytes gid))"
proof -
  have "encode_valset_confirm_hashed C gid v = keccak256 E (ETHEREUM_SALT @ keccak256 E (abi_encode
      [TFixedString gid, TFixedString ''checkpoint'', token_u64 (vs_nonce v), token_addresses (va_validators (args_of v)),
       token_u256s (va_powers (args_of v)), TUint (vs_reward_amount v), TAddress (reward_token_or_zero v)]))"
    unfolding encode_valset_confirm_hashed_def encode_valset_confirm_def
    using assms(2,3) by (simp add: filter_empty_addresses_map args_of_def token_u64s_u256s [of "map vm_power _", simplified, symmetric]
        word_bound_def linked_hash [OF assms(1)] del: power_numeral)
  then show ?thesis
    by (simp add: makeCheckpoint_def abi_encode_def method_names gid_bytes_def args_of_def filter_empty_addresses_map token_u64_def)
qed

lemma batch_hash_agrees:
  assumes "linked C E D" "length gid \<le> 32" "list_all (\<lambda>n. n < word_bound) (batch_amounts b)" "list_all (\<lambda>n. n < word_bound) (batch_fees b)"
  shows "encode_tx_batch_confirm_hashed C gid b = Ret (keccak256 E (ETHEREUM_SALT @
    batchHash E (gid_bytes gid) (batch_amounts b) (batch_destinations b) (batch_fees b) (unat (batch_nonce b))
      (batch_token_contract b) (unat (batch_timeout b))))"
proof -
  have tok: "TDynamic (map (\<lambda>t. TUint (amount (tx_erc20_token t))) (batch_transactions b)) = token_u256s (batch_amounts b)"
    "TDynamic (map (\<lambda>t. TUint (amount (tx_erc20_fee t))) (batch_transactions b)) = token_u256s (batch_fees b)"
    "map tx_destination (batch_transactions b) = batch_destinations b"
    by (simp_all add: token_u256s_def batch_amounts_def batch_fees_def batch_destinations_def)
  have "encode_tx_batch_confirm_hashed C gid b = Ret (keccak256 E (ETHEREUM_SALT @ keccak256 E (abi_encode
      [TFixedString gid, TFixedString ''transactionBatch'', token_u256s (batch_amounts b), token_addresses (batch_destinations b),
       token_u256s (batch_fees b), token_u64 (batch_nonce b), TAddress (batch_token_contract b), token_u64 (batch_timeout b)])))"
    unfolding encode_tx_batch_confirm_hashed_def encode_tx_batch_confirm_def get_checkpoint_values_total tok
    using assms(2-4) by (simp add: word_bound_def linked_hash [OF assms(1)] del: power_numeral)
  then show ?thesis
    by (simp add: batchHash_def abi_encode_def method_names gid_bytes_def token_u64_def)
qed

lemma logic_call_hash_agrees:
  assumes "linked C E D" "length gid \<le> 32" "length (lc_invalidation_id c) \<le> 32"
    "list_all (\<lambda>t. amount t < word_bound) (lc_transfers c)" "list_all (\<lambda>t. amount t < word_bound) (lc_fees c)"
  shows "encode_logic_call_confirm_hashed C gid c = keccak256 E (ETHEREUM_SALT @ argsHash E (gid_bytes gid) (call_args_of c))"
proof -
  have tok: "token_amounts ts = token_u256s (map amount ts)" for ts by (simp add: token_amounts_def token_u256s_def)
  have "encode_logic_call_confirm_hashed C gid c = keccak256 E (ETHEREUM_SALT @ keccak256 E (abi_encode
      [TFixedString gid, TFixedString ''logicCall'', token_u256s (map amount (lc_transfers c)), token_contracts (lc_transfers c),
       token_u256s (map amount (lc_fees c)), token_contracts (lc_fees c), TAddress (lc_logic_contract_address c),
       TUnboundedBytes (lc_payload c), token_u64 (lc_timeout c), TBytes (lc_invalidation_id c), token_u64 (lc_invalidation_nonce c)]))"
    unfolding encode_logic_call_confirm_hashed_def encode_logic_call_confirm_def tok
    using assms(2-5) by (simp add: word_bound_def list_all_iff token_contracts_def linked_hash [OF assms(1)] del: power_numeral)
  then show ?thesis
    by (simp add: argsHash_def abi_encode_def method_names gid_bytes_def token_u64_def call_args_of_def token_contracts_def)
qed

section \<open>A payload of the relayer is executed\<close>

lemma args_of_simps [simp]:
  "va_validators (args_of v) = map (\<lambda>m. case vm_eth_address m of Some a \<Rightarrow> a | None \<Rightarrow> ZERO_ADDRESS) (vs_members v)"
  "va_powers (args_of v) = map (\<lambda>m. unat (vm_power m)) (vs_members v)"
  "va_valsetNonce (args_of v) = unat (vs_nonce v)" "va_rewardAmount (args_of v) = vs_reward_amount v"
  "va_rewardToken (args_of v) = reward_token_or_zero v"
  by (simp_all add: args_of_def filter_empty_addresses_map)

lemma typed_args_of: "vs_reward_amount v < word_bound \<Longrightarrow> typed_valset (args_of v)"
  using unat_u64_bound by (simp add: typed_valset_def list_all_iff word_bound_def del: power_numeral)

text \<open>The signatures in the order of the members, as the contract checks them.\<close>

lemma ordered_verdict:
  assumes "evm_recovers C E" "normalized v" "order_sigs C K v (keccak256 E (ETHEREUM_SALT @ h)) confirms = Ret (Inr gs)"
  shows "checkValidatorSignatures E (va_validators (args_of v)) (va_powers (args_of v)) (map gs_v gs) (map gs_r gs) (map gs_s gs) h thr =
      (if thr < unat (voted_power K v confirms) then Inr ()
       else Inl ''Submitted validator set signatures do not have enough power.'')"
    and "wellFormedCurrent (args_of v) (map gs_v gs) (map gs_r gs) (map gs_s gs)"
proof -
  from assms(3) have gs: "gs = map (ordered_signature K (get_hashmap K confirms)) (vs_members v)" by (simp add: order_sigs_Ok_iff)
  then show "wellFormedCurrent (args_of v) (map gs_v gs) (map gs_r gs) (map gs_s gs)" by (simp add: wellFormedCurrent_def)
  from gs have "map gs_eth_address gs = va_validators (args_of v)" "map (\<lambda>g. unat (gs_power g)) gs = va_powers (args_of v)" by simp_all
  with contract_verdict [OF assms, of thr] show "checkValidatorSignatures E (va_validators (args_of v)) (va_powers (args_of v))
      (map gs_v gs) (map gs_r gs) (map gs_s gs) h thr = (if thr < unat (voted_power K v confirms) then Inr ()
       else Inl ''Submitted validator set signatures do not have enough power.'')"
    by (simp add: sent_to_contract_def)
qed

text \<open>Signatures whose \<open>v\<close> is a byte, as it is in the 65 bytes a signature is parsed from.\<close>

definition byte_signatures :: "'t confirm \<Rightarrow> 't list \<Rightarrow> bool" where
  "byte_signatures K confirms \<longleftrightarrow> list_all (\<lambda>x. sig_v (get_signature K x) < 256) confirms"

lemma ordered_bytes:
  assumes "order_sigs C K v h confirms = Ret (Inr gs)" "byte_signatures K confirms"
  shows "list_all (\<lambda>n. n < 256) (map gs_v gs)"
proof -
  from assms(1) have gs: "gs = map (ordered_signature K (get_hashmap K confirms)) (vs_members v)" by (simp add: order_sigs_Ok_iff)
  have "gs_v (ordered_signature K (get_hashmap K confirms) m) < 256" for m
    using assms(2) get_hashmap_Some [of K confirms]
    by (auto simp: ordered_signature_def no_signature_def byte_signatures_def list_all_iff split: option.splits)
  then show ?thesis by (simp add: gs list_all_iff)
qed

text \<open>The contract holds the set \<open>v\<close>: it is the last one announced.\<close>

definition holds_valset :: "gravity \<Rightarrow> string \<Rightarrow> valset \<Rightarrow> bool" where
  "holds_valset g gid v \<longleftrightarrow> length gid \<le> 32 \<and> state_gravityId g = gid_bytes gid \<and>
     valset_updates (emitted g) \<noteq> [] \<and> last (valset_updates (emitted g)) = args_of v"

lemma holds_valset_checkpoint:
  assumes "reachable E g" "holds_valset g gid v"
  shows "makeCheckpoint E (args_of v) (gid_bytes gid) = state_lastValsetCheckpoint g" "\<not> entered g"
  using reachable_inv [OF assms(1)] assms(2)
  by (auto simp: gravity_inv_def checkpoint_current_def holds_valset_def nonces_consecutive_def)

text \<open>A valset payload on the contract.\<close>

definition update_call :: "valset \<Rightarrow> valset \<Rightarrow> gravity_signature list \<Rightarrow> gravity_call" where
  "update_call new old gs = UpdateValset (args_of new) (args_of old) (map gs_v gs) (map gs_r gs) (map gs_s gs)"

lemma word_tokens:
  "list_all wf_token (call_tokens (UpdateValset new cur v r s)) \<Longrightarrow> typed_valset new \<and> typed_valset cur \<and>
     list_all (\<lambda>n. n < word_bound) r \<and> list_all (\<lambda>n. n < word_bound) s"
  "list_all wf_token (call_tokens (SubmitBatch cur v r s amounts destinations fees nonce t timeout)) \<Longrightarrow> typed_valset cur \<and>
     list_all (\<lambda>n. n < word_bound) r \<and> list_all (\<lambda>n. n < word_bound) s \<and> list_all (\<lambda>n. n < word_bound) amounts \<and>
     list_all (\<lambda>n. n < word_bound) fees \<and> nonce < word_bound \<and> timeout < word_bound"
  "list_all wf_token (call_tokens (SubmitLogicCall cur v r s args)) \<Longrightarrow> typed_valset cur \<and>
     list_all (\<lambda>n. n < word_bound) r \<and> list_all (\<lambda>n. n < word_bound) s \<and> list_all (\<lambda>n. n < word_bound) (la_transferAmounts args) \<and>
     list_all (\<lambda>n. n < word_bound) (la_feeAmounts args) \<and> la_timeOut args < word_bound \<and> length (la_invalidationId args) \<le> 32 \<and>
     la_invalidationNonce args < word_bound"
  by (simp_all add: valset_token_def typed_valset_def word_bound_def del: power_numeral)

lemma valset_payload_call:
  assumes D: "linked C E D" and v: "holds_valset g gid old" and ok: "encode_valset_update_payload C new old confirms gid = Ret (Inr payload)"
    and bytes: "byte_signatures valset_confirm confirms"
  obtains gs where "D payload = Some (update_call new old gs)" "typed_call (update_call new old gs)"
    "order_sigs C valset_confirm old (keccak256 E (ETHEREUM_SALT @ makeCheckpoint E (args_of new) (gid_bytes gid))) confirms = Ret (Inr gs)"
proof -
  from ok obtain gs where gs: "order_sigs C valset_confirm old (encode_valset_confirm_hashed C gid new) confirms = Ret (Inr gs)"
    and call: "encode_call C (call_signature (update_call new old gs)) (call_tokens (update_call new old gs)) = Inr payload"
    by (auto simp: encode_valset_update_payload_def Let_def outcome_simps to_arrays_def encode_valset_struct_token update_call_def)
  note fits = word_tokens(1) [OF linked_call(1) [OF D call, unfolded update_call_def]]
  from fits ordered_bytes [OF gs bytes] have typed: "typed_call (update_call new old gs)" by (simp add: update_call_def typed_signatures_def)
  have "encode_valset_confirm_hashed C gid new = keccak256 E (ETHEREUM_SALT @ makeCheckpoint E (args_of new) (gid_bytes gid))"
    by (rule valset_hash_agrees [OF D]) (use v fits in \<open>simp_all add: holds_valset_def typed_valset_def\<close>)
  with gs linked_call(2) [OF D call typed] typed show ?thesis by (intro that) simp_all
qed

text \<open>The payload of a valset update that the relayer sends while the contract holds the set it
  was signed by.\<close>

lemma valset_update_executed:
  assumes D: "linked C E D" and g: "reachable E g" "holds_valset g gid old" and v: "normalized old"
    and ok: "encode_valset_update_payload C new old confirms gid = Ret (Inr payload)" "byte_signatures valset_confirm confirms"
  shows "let r = call_payload E D W env payload g in
    if \<not> vs_nonce old < vs_nonce new then r = Inl ''New valset nonce must be greater than the current nonce''
    else if unat (voted_power valset_confirm old confirms) \<le> state_powerThreshold g
    then r = Inl ''Submitted validator set signatures do not have enough power.''
    else case outgoing W (made g) (reward_calls env (args_of new)) of
      Inl e \<Rightarrow> r = Inl e
    | Inr k \<Rightarrow> state_lastEventNonce g + k + 1 < word_bound \<longrightarrow>
        (\<exists>g'. r = Inr g' \<and> reachable E g' \<and> holds_valset g' gid new \<and>
           state_lastValsetNonce g' = unat (vs_nonce new) \<and> made g' = made g @ reward_calls env (args_of new))"
proof -
  from valset_payload_call [OF D g(2) ok] obtain gs where call: "D payload = Some (update_call new old gs)"
    and typed: "typed_call (update_call new old gs)"
    and gs: "order_sigs C valset_confirm old (keccak256 E (ETHEREUM_SALT @ makeCheckpoint E (args_of new) (gid_bytes gid))) confirms = Ret (Inr gs)" .
  let ?r = "updateValset E W env (args_of new) (args_of old) (map gs_v gs) (map gs_r gs) (map gs_s gs) g"
  have r: "call_payload E D W env payload g = ?r" by (simp add: call_payload_def call update_call_def)
  note state = holds_valset_checkpoint [OF g]
  have gid: "state_gravityId g = gid_bytes gid" using g(2) by (simp add: holds_valset_def)
  note room = gravity_invD(1) [OF reachable_inv [OF g(1)]]
  from D have E: "evm_recovers C E" by (simp add: linked_def)
  note sigs = ordered_verdict [OF E v gs]
  note verdict = updateValset_verdict [of g "args_of old" "args_of new" "map gs_v gs" "map gs_r gs" "map gs_s gs" E W env,
    unfolded gid, OF state(2) _ _ sigs(2) state(1) room]
  have taken: "reachable E g' \<and> holds_valset g' gid new \<and> state_lastValsetNonce g' = unat (vs_nonce new) \<and>
      made g' = made g @ reward_calls env (args_of new)" if g': "?r = Inr g'" for g'
  proof -
    from g' have "call_gravity E W env (update_call new old gs) g = Inr g'" by (simp add: update_call_def)
    from reachable.called [OF g(1) typed this] have "reachable E g'" .
    moreover from updateValset_Inr [OF g' room]
    have "concludes (reward_calls env (args_of new)) (update_event (args_of new))
      (g\<lparr>state_lastValsetCheckpoint := makeCheckpoint E (args_of new) (state_gravityId g), state_lastValsetNonce := va_valsetNonce (args_of new)\<rparr>) g'"
      by blast
    from concludes_history [OF this] have "holds_valset g' gid new" "state_lastValsetNonce g' = unat (vs_nonce new)"
      "made g' = made g @ reward_calls env (args_of new)"
      using g(2) by (auto simp: holds_valset_def update_event_def)
    ultimately show ?thesis by blast
  qed
  show ?thesis
  proof (cases "vs_nonce old < vs_nonce new")
    case True
    then have "unat (vs_nonce old) < unat (vs_nonce new)" by (simp add: word_less_nat_alt)
    with verdict sigs(1) True taken show ?thesis unfolding Let_def r
      by (cases "outgoing W (made g) (reward_calls env (args_of new))") (auto simp: settles_def not_le)
  next
    case False
    then have "\<not> unat (vs_nonce old) < unat (vs_nonce new)" by (simp add: word_less_nat_alt)
    with False state(2) show ?thesis unfolding Let_def r by (simp add: updateValset_def nonReentrant_def require_def)
  qed
qed

text \<open>A batch payload on the contract.\<close>

definition batch_call :: "valset \<Rightarrow> transaction_batch \<Rightarrow> gravity_signature list \<Rightarrow> gravity_call" where
  "batch_call v b gs = SubmitBatch (args_of v) (map gs_v gs) (map gs_r gs) (map gs_s gs)
     (batch_amounts b) (batch_destinations b) (batch_fees b) (unat (batch_nonce b)) (batch_token_contract b) (unat (batch_timeout b))"

lemma batch_payload_encoded:
  assumes D: "linked C E D" and ok: "encode_batch_payload C cur b confirms gid = Ret (Inr payload)"
  obtains h gs where "encode_tx_batch_confirm_hashed C gid b = Ret h" "order_sigs C batch_confirm cur h confirms = Ret (Inr gs)"
    "encode_call C (call_signature (batch_call cur b gs)) (call_tokens (batch_call cur b gs)) = Inr payload"
    "list_all (\<lambda>n. n < 256) (map gs_v gs) \<Longrightarrow> typed_call (batch_call cur b gs)"
proof -
  have tok: "TDynamic (map (\<lambda>t. TUint (amount (tx_erc20_token t))) (batch_transactions b)) = token_u256s (batch_amounts b)"
    "TDynamic (map (\<lambda>t. TUint (amount (tx_erc20_fee t))) (batch_transactions b)) = token_u256s (batch_fees b)"
    "map tx_destination (batch_transactions b) = batch_destinations b"
    by (simp_all add: token_u256s_def batch_amounts_def batch_fees_def batch_destinations_def)
  from ok obtain h gs where h: "encode_tx_batch_confirm_hashed C gid b = Ret h"
    and gs: "order_sigs C batch_confirm cur h confirms = Ret (Inr gs)"
    and call: "encode_call C (call_signature (batch_call cur b gs)) (call_tokens (batch_call cur b gs)) = Inr payload"
    unfolding encode_batch_payload_def get_checkpoint_values_total tok
    by (auto simp: Let_def outcome_simps to_arrays_def encode_valset_struct_token batch_call_def token_u64_def)
  have "typed_call (batch_call cur b gs)" if "list_all (\<lambda>n. n < 256) (map gs_v gs)"
    using word_tokens(2) [OF linked_call(1) [OF D call, unfolded batch_call_def]] that by (simp add: batch_call_def typed_signatures_def)
  with h gs call show ?thesis by (rule that)
qed

lemma batch_payload_call:
  assumes D: "linked C E D" and v: "holds_valset g gid cur" and ok: "encode_batch_payload C cur b confirms gid = Ret (Inr payload)"
  obtains gs where "encode_call C (call_signature (batch_call cur b gs)) (call_tokens (batch_call cur b gs)) = Inr payload"
    "list_all (\<lambda>n. n < 256) (map gs_v gs) \<longrightarrow> typed_call (batch_call cur b gs)"
    "order_sigs C batch_confirm cur (keccak256 E (ETHEREUM_SALT @ batchHash E (gid_bytes gid) (batch_amounts b) (batch_destinations b)
      (batch_fees b) (unat (batch_nonce b)) (batch_token_contract b) (unat (batch_timeout b)))) confirms = Ret (Inr gs)"
proof -
  obtain h gs where h: "encode_tx_batch_confirm_hashed C gid b = Ret h" "order_sigs C batch_confirm cur h confirms = Ret (Inr gs)"
    and call: "encode_call C (call_signature (batch_call cur b gs)) (call_tokens (batch_call cur b gs)) = Inr payload"
    and typed: "list_all (\<lambda>n. n < 256) (map gs_v gs) \<Longrightarrow> typed_call (batch_call cur b gs)"
    using batch_payload_encoded [OF D ok] by blast
  note fits = word_tokens(2) [OF linked_call(1) [OF D call, unfolded batch_call_def]]
  have "encode_tx_batch_confirm_hashed C gid b = Ret (keccak256 E (ETHEREUM_SALT @ batchHash E (gid_bytes gid) (batch_amounts b)
      (batch_destinations b) (batch_fees b) (unat (batch_nonce b)) (batch_token_contract b) (unat (batch_timeout b))))"
    by (rule batch_hash_agrees [OF D]) (use v fits in \<open>simp_all add: holds_valset_def\<close>)
  with h call typed show ?thesis by (intro that) simp_all
qed

lemma batch_executed:
  fixes env :: call_env
  assumes D: "linked C E D" and g: "reachable E g" "holds_valset g gid cur" and v: "normalized cur" and fees: "sum_list (batch_fees b) < word_bound"
    and ok: "encode_batch_payload C cur b confirms gid = Ret (Inr payload)" and bytes: "byte_signatures batch_confirm confirms"
  defines "cs \<equiv> map (\<lambda>t. SafeTransfer (batch_token_contract b) (tx_destination t) (amount (tx_erc20_token t))) (batch_transactions b) @
           [SafeTransfer (batch_token_contract b) (msg_sender env) (sum_list (batch_fees b))]"
  shows "let r = call_payload E D W env payload g in
    if \<not> lastBatchNonce g (batch_token_contract b) < unat (batch_nonce b) then r = Inl ''New batch nonce must be greater than the current nonce''
    else if \<not> msg_block env < unat (batch_timeout b) then r = Inl ''Batch timeout must be greater than the current block height''
    else if unat (voted_power batch_confirm cur confirms) \<le> state_powerThreshold g
    then r = Inl ''Submitted validator set signatures do not have enough power.''
    else case outgoing W (made g) cs of
      Inl e \<Rightarrow> r = Inl e
    | Inr k \<Rightarrow> state_lastEventNonce g + k + 1 < word_bound \<longrightarrow>
        (\<exists>g'. r = Inr g' \<and> reachable E g' \<and> holds_valset g' gid cur \<and>
           lastBatchNonce g' (batch_token_contract b) = unat (batch_nonce b) \<and> made g' = made g @ cs)"
proof -
  from batch_payload_call [OF D g(2) ok] obtain gs where
    enc: "encode_call C (call_signature (batch_call cur b gs)) (call_tokens (batch_call cur b gs)) = Inr payload"
    and typed: "list_all (\<lambda>n. n < 256) (map gs_v gs) \<longrightarrow> typed_call (batch_call cur b gs)"
    and gs: "order_sigs C batch_confirm cur (keccak256 E (ETHEREUM_SALT @ batchHash E (gid_bytes gid) (batch_amounts b) (batch_destinations b)
      (batch_fees b) (unat (batch_nonce b)) (batch_token_contract b) (unat (batch_timeout b)))) confirms = Ret (Inr gs)" .
  note typed = typed [THEN mp, OF ordered_bytes [OF gs bytes]]
  let ?r = "call_gravity E W env (batch_call cur b gs) g"
  have r: "call_payload E D W env payload g = ?r" by (simp add: call_payload_def linked_call(2) [OF D enc typed])
  note state = holds_valset_checkpoint [OF g]
  have gid: "state_gravityId g = gid_bytes gid" using g(2) by (simp add: holds_valset_def)
  note room = gravity_invD(1) [OF reachable_inv [OF g(1)]]
  from D have E: "evm_recovers C E" by (simp add: linked_def)
  note sigs = ordered_verdict [OF E v gs]
  have len: "length (batch_amounts b) = length (batch_destinations b)" "length (batch_amounts b) = length (batch_fees b)"
    by (simp_all add: batch_amounts_def batch_destinations_def batch_fees_def)
  have cs: "batch_calls env (batch_token_contract b) (batch_amounts b) (batch_destinations b) (batch_fees b) = cs"
    by (simp add: batch_calls_def cs_def batch_destinations_def batch_amounts_def zip_map_map zip_same_conv_map)
  note verdict = submitBatch_verdict [of g "batch_token_contract b" "unat (batch_nonce b)" env "unat (batch_timeout b)",
    OF state(2) _ _ sigs(2) state(1) [folded gid] len fees room, unfolded gid sigs(1) cs]
  have b: "list_all (\<lambda>n. n < word_bound) (batch_fees b)" using typed by (simp add: batch_call_def)
  have taken: "reachable E g' \<and> holds_valset g' gid cur \<and> lastBatchNonce g' (batch_token_contract b) = unat (batch_nonce b) \<and>
      made g' = made g @ cs" if g': "?r = Inr g'" for g'
  proof -
    from reachable.called [OF g(1) typed g'] have "reachable E g'" .
    moreover from g' submitBatch_Inr [OF _ room b]
    have "concludes (batch_calls env (batch_token_contract b) (batch_amounts b) (batch_destinations b) (batch_fees b))
      (TransactionBatchExecutedEvent (unat (batch_nonce b)) (batch_token_contract b))
      (g\<lparr>state_lastBatchNonces := (state_lastBatchNonces g)(batch_token_contract b := unat (batch_nonce b))\<rparr>) g'"
      by (simp add: batch_call_def)
    from concludes_history [OF this [unfolded cs]] have "holds_valset g' gid cur" "lastBatchNonce g' (batch_token_contract b) = unat (batch_nonce b)"
      "made g' = made g @ cs"
      using g(2) by (auto simp: holds_valset_def lastBatchNonce_def)
    ultimately show ?thesis by blast
  qed
  show ?thesis
  proof (cases "lastBatchNonce g (batch_token_contract b) < unat (batch_nonce b) \<and> msg_block env < unat (batch_timeout b)")
    case True
    with verdict [of W] taken show ?thesis
      unfolding Let_def r
      by (cases "outgoing W (made g) cs") (auto simp: settles_def not_le lastBatchNonce_def batch_call_def)
  next
    case False
    with state(2) show ?thesis
      unfolding Let_def r by (auto simp: batch_call_def lastBatchNonce_def submitBatch_def nonReentrant_def require_def)
  qed
qed

text \<open>A logic call payload on the contract.\<close>

lemma logic_payload_call:
  assumes D: "linked C E D" and v: "holds_valset g gid cur" "length (lc_invalidation_id c) = 32"
    and ok: "encode_logic_call_payload C cur c confirms gid = Ret (Inr payload)" and bytes: "byte_signatures logic_call_confirm confirms"
  obtains gs where "D payload = Some (SubmitLogicCall (args_of cur) (map gs_v gs) (map gs_r gs) (map gs_s gs) (call_args_of c))"
    "typed_call (SubmitLogicCall (args_of cur) (map gs_v gs) (map gs_r gs) (map gs_s gs) (call_args_of c))"
    "order_sigs C logic_call_confirm cur (keccak256 E (ETHEREUM_SALT @ argsHash E (gid_bytes gid) (call_args_of c))) confirms = Ret (Inr gs)"
proof -
  let ?call = "\<lambda>gs. SubmitLogicCall (args_of cur) (map gs_v gs) (map gs_r gs) (map gs_s gs) (call_args_of c)"
  have tok: "token_amounts ts = token_u256s (map amount ts)" for ts by (simp add: token_amounts_def token_u256s_def)
  from ok obtain gs where gs: "order_sigs C logic_call_confirm cur (encode_logic_call_confirm_hashed C gid c) confirms = Ret (Inr gs)"
    and call: "encode_call C (call_signature (?call gs)) (call_tokens (?call gs)) = Inr payload"
    by (auto simp: encode_logic_call_payload_def Let_def outcome_simps to_arrays_def encode_valset_struct_token tok token_u64_def
        call_args_of_def token_contracts_def)
  note fits = word_tokens(3) [OF linked_call(1) [OF D call]]
  have typed: "typed_call (?call gs)"
    using fits ordered_bytes [OF gs bytes] v(2) by (simp add: typed_signatures_def call_args_of_def)
  have "encode_logic_call_confirm_hashed C gid c = keccak256 E (ETHEREUM_SALT @ argsHash E (gid_bytes gid) (call_args_of c))"
    by (rule logic_call_hash_agrees [OF D]) (use v fits in \<open>simp_all add: holds_valset_def call_args_of_def list_all_iff\<close>)
  with gs linked_call(2) [OF D call typed] typed show ?thesis by (intro that) simp_all
qed

lemma logic_call_executed:
  assumes D: "linked C E D" and g: "reachable E g" "holds_valset g gid cur" and v: "normalized cur" "length (lc_invalidation_id c) = 32"
    and ok: "encode_logic_call_payload C cur c confirms gid = Ret (Inr payload)" "byte_signatures logic_call_confirm confirms"
  shows "let r = call_payload E D W env payload g; cs = logic_calls env (call_args_of c) in
    if \<not> msg_block env < unat (lc_timeout c) then r = Inl ''Timed out''
    else if \<not> lastLogicCallNonce g (lc_invalidation_id c) < unat (lc_invalidation_nonce c)
    then r = Inl ''New invalidation nonce must be greater than the current nonce''
    else if unat (voted_power logic_call_confirm cur confirms) \<le> state_powerThreshold g
    then r = Inl ''Submitted validator set signatures do not have enough power.''
    else case outgoing W (made g) cs of
      Inl e \<Rightarrow> r = Inl e
    | Inr k \<Rightarrow> state_lastEventNonce g + k + 1 < word_bound \<longrightarrow>
        (\<exists>g'. r = Inr g' \<and> reachable E g' \<and> holds_valset g' gid cur \<and>
           lastLogicCallNonce g' (lc_invalidation_id c) = unat (lc_invalidation_nonce c) \<and> made g' = made g @ cs)"
proof -
  from logic_payload_call [OF D g(2) v(2) ok] obtain gs where
    call: "D payload = Some (SubmitLogicCall (args_of cur) (map gs_v gs) (map gs_r gs) (map gs_s gs) (call_args_of c))"
    and typed: "typed_call (SubmitLogicCall (args_of cur) (map gs_v gs) (map gs_r gs) (map gs_s gs) (call_args_of c))"
    and gs: "order_sigs C logic_call_confirm cur (keccak256 E (ETHEREUM_SALT @ argsHash E (gid_bytes gid) (call_args_of c))) confirms = Ret (Inr gs)" .
  let ?args = "call_args_of c"
  let ?r = "submitLogicCall E W env (args_of cur) (map gs_v gs) (map gs_r gs) (map gs_s gs) ?args g"
  have args: "la_invalidationId ?args = lc_invalidation_id c" "la_invalidationNonce ?args = unat (lc_invalidation_nonce c)"
    "la_timeOut ?args = unat (lc_timeout c)" "length (la_transferAmounts ?args) = length (la_transferTokenContracts ?args)"
    "length (la_feeAmounts ?args) = length (la_feeTokenContracts ?args)" by (simp_all add: call_args_of_def)
  have r: "call_payload E D W env payload g = ?r" by (simp add: call_payload_def call)
  note state = holds_valset_checkpoint [OF g]
  have gid: "state_gravityId g = gid_bytes gid" using g(2) by (simp add: holds_valset_def)
  note room = gravity_invD(1) [OF reachable_inv [OF g(1)]]
  from D have E: "evm_recovers C E" by (simp add: linked_def)
  note sigs = ordered_verdict [OF E v(1) gs]
  note verdict = submitLogicCall_verdict [of g env ?args, unfolded args(1-3), OF state(2) _ _
    sigs(2) state(1) [folded gid] args(4,5) room, unfolded gid sigs(1)]
  have taken: "reachable E g' \<and> holds_valset g' gid cur \<and> lastLogicCallNonce g' (lc_invalidation_id c) = unat (lc_invalidation_nonce c) \<and>
      made g' = made g @ logic_calls env ?args" if g': "?r = Inr g'" for g'
  proof -
    from g' reachable.called [OF g(1) typed] have "reachable E g'" by simp
    moreover from submitLogicCall_Inr [OF g' room] obtain ret where
      "concludes (logic_calls env ?args) (LogicCallEvent (lc_invalidation_id c) (unat (lc_invalidation_nonce c)) ret)
        (g\<lparr>state_invalidationMapping := (state_invalidationMapping g)(lc_invalidation_id c := unat (lc_invalidation_nonce c))\<rparr>) g'"
      unfolding args by blast
    from concludes_history [OF this] have "holds_valset g' gid cur" "lastLogicCallNonce g' (lc_invalidation_id c) = unat (lc_invalidation_nonce c)"
      "made g' = made g @ logic_calls env ?args"
      using g(2) by (auto simp: holds_valset_def lastLogicCallNonce_def)
    ultimately show ?thesis by blast
  qed
  show ?thesis
  proof (cases "msg_block env < unat (lc_timeout c) \<and> lastLogicCallNonce g (lc_invalidation_id c) < unat (lc_invalidation_nonce c)")
    case True
    with verdict [of W] taken show ?thesis
      unfolding Let_def r
      by (cases "outgoing W (made g) (logic_calls env ?args)") (auto simp: settles_def not_le lastLogicCallNonce_def)
  next
    case False
    with state(2) show ?thesis
      unfolding Let_def r by (auto simp: lastLogicCallNonce_def submitLogicCall_def nonReentrant_def require_def args)
  qed
qed

section \<open>The logs of the contract\<close>

text \<open>What \<open>emit\<close> writes for each event declaration: the hash of its signature and the indexed
  fields as topics, the other fields encoded as data.\<close>

fun event_signature :: "gravity_event \<Rightarrow> string" where
  "event_signature (TransactionBatchExecutedEvent batchNonce token eventNonce) = ''TransactionBatchExecutedEvent(uint256,address,uint256)''"
| "event_signature (SendToCosmosEvent token sender destination amt eventNonce) = ''SendToCosmosEvent(address,address,bytes32,uint256,uint256)''"
| "event_signature (ERC20DeployedEvent cosmosDenom token name symbol decimals eventNonce) =
     ''ERC20DeployedEvent(string,address,string,string,uint8,uint256)''"
| "event_signature (ValsetUpdatedEvent newValsetNonce eventNonce rewardAmount rewardToken validators powers) =
     ''ValsetUpdatedEvent(uint256,uint256,uint256,address,address[],uint256[])''"
| "event_signature (LogicCallEvent invalidationId invalidationNonce returnData eventNonce) = ''LogicCallEvent(bytes32,uint256,bytes,uint256)''"

fun indexed_fields :: "gravity_event \<Rightarrow> bytes list" where
  "indexed_fields (TransactionBatchExecutedEvent batchNonce token eventNonce) = [abi_word batchNonce, abi_word (unat token)]"
| "indexed_fields (SendToCosmosEvent token sender destination amt eventNonce) = [abi_word (unat token), abi_word (unat sender), destination]"
| "indexed_fields (ERC20DeployedEvent cosmosDenom token name symbol decimals eventNonce) = [abi_word (unat token)]"
| "indexed_fields (ValsetUpdatedEvent newValsetNonce eventNonce rewardAmount rewardToken validators powers) = [abi_word newValsetNonce]"
| "indexed_fields (LogicCallEvent invalidationId invalidationNonce returnData eventNonce) = []"

fun data_fields :: "gravity_event \<Rightarrow> token list" where
  "data_fields (TransactionBatchExecutedEvent batchNonce token eventNonce) = [TUint eventNonce]"
| "data_fields (SendToCosmosEvent token sender destination amt eventNonce) = [TUint amt, TUint eventNonce]"
| "data_fields (ERC20DeployedEvent cosmosDenom token name symbol decimals eventNonce) =
     [TString cosmosDenom, TString name, TString symbol, TUint (unat decimals), TUint eventNonce]"
| "data_fields (ValsetUpdatedEvent newValsetNonce eventNonce rewardAmount rewardToken validators powers) =
     [TUint eventNonce, TUint rewardAmount, TAddress rewardToken, token_addresses validators, token_u256s powers]"
| "data_fields (LogicCallEvent invalidationId invalidationNonce returnData eventNonce) =
     [TBytes invalidationId, TUint invalidationNonce, TUnboundedBytes returnData, TUint eventNonce]"

definition event_log :: "evm \<Rightarrow> uint256 \<times> gravity_event \<Rightarrow> log" where
  "event_log E he = (case he of (height, ev) \<Rightarrow>
     \<lparr>topics = keccak256 E (map char_byte (event_signature ev)) # indexed_fields ev,
      log_data = abi_encode (data_fields ev), block_number = Some height\<rparr>)"

text \<open>The node's answer to a search for one event: the logs of the contract with that signature, in
  their order.\<close>

definition contract_logs :: "evm \<Rightarrow> (uint256 \<times> gravity_event) list \<Rightarrow> string \<Rightarrow> log list" where
  "contract_logs E blocks sig = map (event_log E) (filter (\<lambda>he. event_signature (snd he) = sig) blocks)"

text \<open>The events as the oracle should read them.\<close>

fun read_valset :: "uint256 \<times> gravity_event \<Rightarrow> valset_updated_event option" where
  "read_valset (h, ValsetUpdatedEvent n k amt tok vals pows) =
     Some \<lparr>vu_valset_nonce = of_nat n, vu_event_nonce = of_nat k, vu_block_height = h, vu_reward_amount = amt,
       vu_reward_token = (if tok = 0 then None else Some tok),
       vu_members = map2 (\<lambda>a p. \<lparr>vm_power = of_nat p, vm_eth_address = Some a\<rparr>) vals pows\<rparr>"
| "read_valset _ = None"

fun read_batch :: "uint256 \<times> gravity_event \<Rightarrow> transaction_batch_executed_event option" where
  "read_batch (h, TransactionBatchExecutedEvent n t k) =
     Some \<lparr>be_batch_nonce = of_nat n, be_block_height = h, be_erc20 = t, be_event_nonce = of_nat k\<rparr>"
| "read_batch _ = None"

fun read_deposit :: "libs \<Rightarrow> uint256 \<times> gravity_event \<Rightarrow> send_to_cosmos_event option" where
  "read_deposit L (h, SendToCosmosEvent t s d amt k) =
     Some \<lparr>sc_erc20 = t, sc_sender = s, sc_destination = CosmosAddress (drop 12 d) (COSMOS_DEFAULT_PREFIX (ds L)),
       sc_amount = amt, sc_event_nonce = of_nat k, sc_block_height = h\<rparr>"
| "read_deposit L _ = None"

fun read_deploy :: "uint256 \<times> gravity_event \<Rightarrow> erc20_deployed_event option" where
  "read_deploy (h, ERC20DeployedEvent d t n s dec k) =
     Some \<lparr>ed_cosmos_denom = d, ed_erc20_address = t, ed_name = n, ed_symbol = s, ed_decimals = dec,
       ed_event_nonce = of_nat k, ed_block_height = h\<rparr>"
| "read_deploy _ = None"

text \<open>Events the oracle can read: nonces, powers and heights fit 64 bits, strings are valid UTF-8, and
  there is no logic call among them.\<close>

fun readable :: "uint256 \<times> gravity_event \<Rightarrow> bool" where
  "readable (h, TransactionBatchExecutedEvent n t k) \<longleftrightarrow> h \<le> u64_MAX \<and> n \<le> u64_MAX \<and> k \<le> u64_MAX"
| "readable (h, SendToCosmosEvent t s d amt k) \<longleftrightarrow> h \<le> u64_MAX \<and> length d = 32 \<and> amt < 2 ^ 256 \<and> k \<le> u64_MAX"
| "readable (h, ERC20DeployedEvent d t n s dec k) \<longleftrightarrow> wf_string d \<and> wf_string n \<and> wf_string s \<and> k \<le> u64_MAX"
| "readable (h, ValsetUpdatedEvent n k amt tok vals pows) \<longleftrightarrow> n \<le> u64_MAX \<and> k \<le> u64_MAX \<and> amt < 2 ^ 256 \<and>
     length vals = length pows \<and> list_all (\<lambda>p. p \<le> u64_MAX) pows \<and> 32 * (7 + 2 * length vals) < 2 ^ 64"
| "readable (h, LogicCallEvent i n ret k) \<longleftrightarrow> False"

lemma abi_encode_static: "\<not> list_ex abi_dynamic ts \<Longrightarrow> abi_encode ts = concat (map abi_token ts)"
proof -
  assume "\<not> list_ex abi_dynamic ts"
  then have "map (\<lambda>t. (abi_dynamic t, abi_token t)) ts = map (\<lambda>t. (False, abi_token t)) ts" by (auto simp: list_ex_iff)
  then show ?thesis by (simp only: abi_encode_def abi_layout_words)
qed

lemma map2_members:
  assumes "length vals = length pows" "list_all (\<lambda>p. p \<le> u64_MAX) pows"
  defines "ms \<equiv> map2 (\<lambda>a p. \<lparr>vm_power = of_nat p, vm_eth_address = Some a\<rparr>) vals pows"
  shows "map member_address ms = map unat vals" "map (\<lambda>m. unat (vm_power m)) ms = pows" "length ms = length vals"
    "list_all (\<lambda>m. vm_eth_address m \<noteq> None) ms"
proof -
  show "length ms = length vals" "list_all (\<lambda>m. vm_eth_address m \<noteq> None) ms"
    using assms(1) by (auto simp: ms_def list_all_iff)
  show "map member_address ms = map unat vals"
    using assms(1) by (intro nth_equalityI) (simp_all add: ms_def member_address_def)
  show "map (\<lambda>m. unat (vm_power m)) ms = pows"
    using assms(1,2) by (intro nth_equalityI) (simp_all add: ms_def list_all_length unat_of_nat_u64 del: power_numeral)
qed

lemma valset_log_read:
  assumes "readable (h, ev)" "read_valset (h, ev) = Some e"
  shows "event_log E (h, ev) = valset_updated_log (keccak256 E (map char_byte (event_signature ev))) e \<and> wf_valset_updated e"
proof (cases ev)
  case (ValsetUpdatedEvent n k amt tok vals pows)
  let ?ms = "map2 (\<lambda>a p. \<lparr>vm_power = of_nat p, vm_eth_address = Some a\<rparr> :: valset_member) vals pows"
  from assms ValsetUpdatedEvent have r: "n \<le> u64_MAX" "k \<le> u64_MAX" "amt < 2 ^ 256" "length vals = length pows"
    "list_all (\<lambda>p. p \<le> u64_MAX) pows" "32 * (7 + 2 * length vals) < 2 ^ 64"
    and e: "e = \<lparr>vu_valset_nonce = of_nat n, vu_event_nonce = of_nat k, vu_block_height = h, vu_reward_amount = amt,
       vu_reward_token = (if tok = 0 then None else Some tok), vu_members = ?ms\<rparr>"
    by (simp_all del: power_numeral)
  note ms = map2_members [OF r(4,5)]
  have tok: "(case (if tok = 0 then None else Some tok) of Some t \<Rightarrow> unat t | None \<Rightarrow> 0) = unat tok" by simp
  have "abi_encode (data_fields ev) = abi_words (valset_data_words (length ?ms) \<lparr>vd_event_nonce = of_nat k, vd_reward_amount = amt,
      vd_reward_token = (if tok = 0 then None else Some tok), vd_members = ?ms\<rparr>)"
    using r(4) unat_of_nat_u64 [OF r(2)]
    by (simp add: ValsetUpdatedEvent valset_data_words_def valset_head_words_def ms(1-2) abi_encode_def abi_layout_def del: map_map)
  then show ?thesis
    using ValsetUpdatedEvent r ms unat_of_nat_u64 [OF r(1)]
    by (auto simp: event_log_def valset_updated_log_def encode_valset_data_def e wf_valset_updated_def wf_valset_data_def simp del: power_numeral)
qed (use assms in simp_all)

lemma batch_log_read:
  assumes "readable (h, ev)" "read_batch (h, ev) = Some e"
  shows "event_log E (h, ev) = transaction_batch_executed_log (keccak256 E (map char_byte (event_signature ev))) e \<and>
    wf_transaction_batch_executed e"
  using assms
  by (cases ev) (auto simp: event_log_def transaction_batch_executed_log_def wf_transaction_batch_executed_def address_topic_def
      abi_encode_static unat_of_nat_u64 simp del: power_numeral)

text \<open>The parser of deposits looks at the last twenty bytes of the destination only.\<close>

lemma deposit_destination:
  assumes "length d = 32"
  shows "send_to_cosmos_from_log L \<lparr>topics = [t0, t1, t2, d], log_data = x, block_number = b\<rparr> =
    send_to_cosmos_from_log L \<lparr>topics = [t0, t1, t2, replicate 12 0 @ drop 12 d], log_data = x, block_number = b\<rparr>"
proof -
  have "slice_range d 12 32 = slice_range (replicate 12 0 @ drop 12 d) 12 32"
    using assms by (simp add: slice_range_def)
  then show ?thesis by (simp add: send_to_cosmos_from_log_def get_at_def)
qed

lemma deposit_log_read:
  assumes L: "libs_decode L" "deep_space_bytes (ds L)" and r: "readable (h, ev)" "read_deposit L (h, ev) = Some e"
  shows "send_to_cosmos_from_log L (event_log E (h, ev)) = Ret (Inr e)"
proof (cases ev)
  case (SendToCosmosEvent t s d amt k)
  with r have b: "h \<le> u64_MAX" "length d = 32" "amt < 2 ^ 256" "k \<le> u64_MAX"
    and e: "e = \<lparr>sc_erc20 = t, sc_sender = s, sc_destination = CosmosAddress (drop 12 d) (COSMOS_DEFAULT_PREFIX (ds L)),
       sc_amount = amt, sc_event_nonce = of_nat k, sc_block_height = h\<rparr>" by (simp_all del: power_numeral)
  let ?sig = "keccak256 E (map char_byte (event_signature ev))"
  have "send_to_cosmos_log ?sig e = \<lparr>topics = [?sig, abi_word (unat t), abi_word (unat s), replicate 12 0 @ drop 12 d],
      log_data = abi_encode (data_fields ev), block_number = Some h\<rparr>"
    using unat_of_nat_u64 [OF b(4)] by (simp add: send_to_cosmos_log_def e address_topic_def SendToCosmosEvent abi_encode_static)
  with send_to_cosmos_parses [OF L, of e ?sig] b deposit_destination [OF b(2), of L ?sig] show ?thesis
    by (simp add: wf_send_to_cosmos_def e event_log_def SendToCosmosEvent del: power_numeral)
qed (use r in simp_all)

lemma deploy_log_read:
  assumes "readable (h, ev)" "read_deploy (h, ev) = Some e"
  shows "event_log E (h, ev) = erc20_deployed_log (keccak256 E (map char_byte (event_signature ev))) e \<and> wf_erc20_deployed e"
  using assms
  by (cases ev) (auto simp: event_log_def erc20_deployed_log_def wf_erc20_deployed_def erc20_deployed_head_def address_topic_def
      abi_encode_def abi_layout_def unat_of_nat_u64 simp del: power_numeral length_abi_string)

text \<open>The signatures of the Rust sources select the events of the contract.\<close>

lemma signature_selects:
  "event_signature (snd he) = VALSET_UPDATED_EVENT_SIG \<longleftrightarrow> read_valset he \<noteq> None"
  "event_signature (snd he) = TRANSACTION_BATCH_EXECUTED_EVENT_SIG \<longleftrightarrow> read_batch he \<noteq> None"
  "event_signature (snd he) = SENT_TO_COSMOS_EVENT_SIG \<longleftrightarrow> read_deposit L he \<noteq> None"
  "event_signature (snd he) = ERC20_DEPLOYED_EVENT_SIG \<longleftrightarrow> read_deploy he \<noteq> None"
  "event_signature (snd he) = LOGIC_CALL_EVENT_SIG \<longrightarrow> \<not> readable he"
proof -
  note sigs = VALSET_UPDATED_EVENT_SIG_def TRANSACTION_BATCH_EXECUTED_EVENT_SIG_def SENT_TO_COSMOS_EVENT_SIG_def
    ERC20_DEPLOYED_EVENT_SIG_def LOGIC_CALL_EVENT_SIG_def
  obtain h ev where he: "he = (h, ev)" by (cases he)
  show "event_signature (snd he) = VALSET_UPDATED_EVENT_SIG \<longleftrightarrow> read_valset he \<noteq> None"
    "event_signature (snd he) = TRANSACTION_BATCH_EXECUTED_EVENT_SIG \<longleftrightarrow> read_batch he \<noteq> None"
    "event_signature (snd he) = SENT_TO_COSMOS_EVENT_SIG \<longleftrightarrow> read_deposit L he \<noteq> None"
    "event_signature (snd he) = ERC20_DEPLOYED_EVENT_SIG \<longleftrightarrow> read_deploy he \<noteq> None"
    "event_signature (snd he) = LOGIC_CALL_EVENT_SIG \<longrightarrow> \<not> readable he"
    by (cases ev; simp add: he sigs)+
qed

text \<open>A parser that reads each selected log reads them all, in order.\<close>

lemma contract_logs_each:
  assumes "\<And>he. event_signature (snd he) = sig \<longleftrightarrow> read he \<noteq> None"
    and "\<And>he e. he \<in> set blocks \<Longrightarrow> read he = Some e \<Longrightarrow> from_log (event_log E he) = Ret (Inr e)"
  shows "list_all2 (\<lambda>l e. from_log l = Ret (Inr e)) (contract_logs E blocks sig) (List.map_filter read blocks)"
  using assms(2)
proof (induction blocks)
  case (Cons he blocks)
  then show ?case using assms(1) [of he]
    by (cases "read he") (auto simp: contract_logs_def List.map_filter_simps)
qed (simp add: contract_logs_def List.map_filter_simps)

lemma contract_logs_parse:
  assumes L: "libs_decode L" "deep_space_bytes (ds L)" and r: "list_all readable blocks"
  shows "valset_updated_from_logs L (contract_logs E blocks VALSET_UPDATED_EVENT_SIG) = Ret (Inr (List.map_filter read_valset blocks))"
    "transaction_batch_executed_from_logs L (contract_logs E blocks TRANSACTION_BATCH_EXECUTED_EVENT_SIG) = Ret (Inr (List.map_filter read_batch blocks))"
    "send_to_cosmos_from_logs L (contract_logs E blocks SENT_TO_COSMOS_EVENT_SIG) = Ret (Inr (List.map_filter (read_deposit L) blocks))"
    "erc20_deployed_from_logs L (contract_logs E blocks ERC20_DEPLOYED_EVENT_SIG) = Ret (Inr (List.map_filter read_deploy blocks))"
    "contract_logs E blocks LOGIC_CALL_EVENT_SIG = []"
proof -
  have r: "readable he" if "he \<in> set blocks" for he using r that by (auto simp: list_all_iff)
  show "valset_updated_from_logs L (contract_logs E blocks VALSET_UPDATED_EVENT_SIG) = Ret (Inr (List.map_filter read_valset blocks))"
    unfolding valset_events.from_logs_each
    by (rule contract_logs_each [OF signature_selects(1)]) (use r valset_log_read valset_updated_parses [OF L(1)] in force)
  show "transaction_batch_executed_from_logs L (contract_logs E blocks TRANSACTION_BATCH_EXECUTED_EVENT_SIG) = Ret (Inr (List.map_filter read_batch blocks))"
    unfolding batch_events.from_logs_each
    by (rule contract_logs_each [OF signature_selects(2)]) (use r batch_log_read transaction_batch_executed_parses [OF L(1)] in force)
  show "send_to_cosmos_from_logs L (contract_logs E blocks SENT_TO_COSMOS_EVENT_SIG) = Ret (Inr (List.map_filter (read_deposit L) blocks))"
    unfolding deposit_events.from_logs_each
    by (rule contract_logs_each [OF signature_selects(3)]) (use r deposit_log_read [OF L] in force)
  show "erc20_deployed_from_logs L (contract_logs E blocks ERC20_DEPLOYED_EVENT_SIG) = Ret (Inr (List.map_filter read_deploy blocks))"
    unfolding erc20_events.from_logs_each
    by (rule contract_logs_each [OF signature_selects(4)]) (use r deploy_log_read erc20_deployed_parses [OF L(1)] in force)
  show "contract_logs E blocks LOGIC_CALL_EVENT_SIG = []"
    unfolding contract_logs_def using r signature_selects(5) by (force simp: filter_empty_conv)
qed

section \<open>The claims have no gaps\<close>

lemma read_nonces:
  assumes "readable he"
  defines "k \<equiv> (of_nat (event_nonce_of (snd he)) :: u64)"
  shows "sc_event_nonce ` set_option (read_deposit L he) \<union> be_event_nonce ` set_option (read_batch he) \<union>
    ed_event_nonce ` set_option (read_deploy he) \<union> vu_event_nonce ` set_option (read_valset he) = {k}"
    and "event_nonce_of (snd he) \<le> u64_MAX"
proof -
  obtain h ev where he: "he = (h, ev)" by (cases he)
  show "sc_event_nonce ` set_option (read_deposit L he) \<union> be_event_nonce ` set_option (read_batch he) \<union>
    ed_event_nonce ` set_option (read_deploy he) \<union> vu_event_nonce ` set_option (read_valset he) = {k}"
    using assms(1) by (cases ev) (auto simp: he k_def)
  show "event_nonce_of (snd he) \<le> u64_MAX"
    using assms(1) by (cases ev) (simp_all add: he del: power_numeral)
qed

lemma set_map_filter: "set (List.map_filter f xs) = (\<Union>x \<in> set xs. set_option (f x))"
  by (induction xs) (auto simp: List.map_filter_simps split: option.splits)

lemma sorted_nonces:
  assumes "m \<le> u64_MAX"
  shows "sorted_list_of_set (of_nat ` {k..<Suc m} :: u64 set) = map of_nat [k..<Suc m]"
proof -
  have "sorted_wrt (<) (map of_nat [k..<Suc m] :: u64 list)"
    unfolding sorted_wrt_map
  proof (rule sorted_wrt_mono_rel [OF _ sorted_wrt_upt])
    fix x y
    assume "x \<in> set [k..<Suc m]" "y \<in> set [k..<Suc m]" "x < y"
    moreover from this have "x \<le> m" "y \<le> m" by auto
    moreover from this assms have "x \<le> u64_MAX" "y \<le> u64_MAX" by linarith+
    ultimately show "(of_nat x :: u64) < of_nat y"
      unfolding word_less_nat_alt by (simp only: unat_of_nat_u64)
  qed
  then have "List.sorted (map of_nat [k..<Suc m] :: u64 list)" "distinct (map of_nat [k..<Suc m] :: u64 list)"
    by (simp_all only: strict_sorted_iff)
  with sorted_list_of_set.idem_if_sorted_distinct [of "map of_nat [k..<Suc m] :: u64 list"] show ?thesis
    by (simp only: set_map set_upt)
qed

text \<open>The nonces of the events of a range that are left once those up to \<open>n\<close> are dropped, where what is
  before the range has been claimed.\<close>

lemma contract_claim_nonces:
  assumes g: "reachable E g" "emitted g = old @ map snd blocks" and r: "list_all readable blocks"
    and n: "length old \<le> unat n" "unat n < state_lastEventNonce g"
    and msgs: "ethereum_claims L K a (send_to_cosmos_filter_by_event_nonce n (List.map_filter (read_deposit L) blocks))
       (transaction_batch_executed_filter_by_event_nonce n (List.map_filter read_batch blocks))
       (erc20_deployed_filter_by_event_nonce n (List.map_filter read_deploy blocks)) []
       (valset_updated_filter_by_event_nonce n (List.map_filter read_valset blocks)) = Ret msgs"
  shows "map (\<lambda>m. claim_event_nonce (msg_value m)) msgs =
    map Some (map of_nat [Suc (unat n)..<Suc (state_lastEventNonce g)])"
proof -
  let ?m = "state_lastEventNonce g" and ?k = "Suc (length old)"
  from reachable_inv [OF g(1)] have "map event_nonce_of (emitted g) = [1..<Suc ?m]"
    by (auto simp: gravity_inv_def nonces_consecutive_def)
  then have "map event_nonce_of old @ map (\<lambda>he. event_nonce_of (snd he)) blocks = [1..<Suc ?m]" by (simp add: g(2) o_def)
  from arg_cong [OF this, of "drop (length old)"] have "map (\<lambda>he. event_nonce_of (snd he)) blocks = [?k..<Suc ?m]"
    by (simp add: drop_upt del: upt_Suc)
  from arg_cong [OF this, of set] have all: "(\<lambda>he. event_nonce_of (snd he)) ` set blocks = {?k..<Suc ?m}" by (simp only: set_map set_upt)
  have r: "readable he" if "he \<in> set blocks" for he using r that by (auto simp: list_all_iff)
  have "?m \<in> {?k..<Suc ?m}" using n by simp
  with all r read_nonces(2) have m: "?m \<le> u64_MAX" by (metis (no_types, lifting) image_iff)
  have "set (map fst (event_claims L K a (send_to_cosmos_filter_by_event_nonce n (List.map_filter (read_deposit L) blocks))
       (transaction_batch_executed_filter_by_event_nonce n (List.map_filter read_batch blocks))
       (erc20_deployed_filter_by_event_nonce n (List.map_filter read_deploy blocks)) []
       (valset_updated_filter_by_event_nonce n (List.map_filter read_valset blocks)))) =
    {k. n < k \<and> (\<exists>he \<in> set blocks. k \<in> sc_event_nonce ` set_option (read_deposit L he) \<union> be_event_nonce ` set_option (read_batch he) \<union>
      ed_event_nonce ` set_option (read_deploy he) \<union> vu_event_nonce ` set_option (read_valset he))}"
    unfolding event_claims_nonces filter_nonce_defs set_filter set_map_filter by (auto simp del: option.set_sel)
  also have "\<dots> = {k. n < k \<and> (\<exists>he \<in> set blocks. k = of_nat (event_nonce_of (snd he)))}"
    using r read_nonces(1) [of _ L] by auto
  also have "\<dots> = {k. n < k \<and> k \<in> of_nat ` {?k..<Suc ?m}}" unfolding all [symmetric] by auto
  also have "\<dots> = of_nat ` {Suc (unat n)..<Suc ?m}"
  proof (intro set_eqI iffI)
    fix k :: u64
    assume "k \<in> {k. n < k \<and> k \<in> of_nat ` {?k..<Suc ?m}}"
    then obtain j where j: "k = of_nat j" "j < Suc ?m" "n < k" by auto
    with m have "unat k = j" by (simp add: unat_of_nat_u64 del: power_numeral)
    with j show "k \<in> of_nat ` {Suc (unat n)..<Suc ?m}" by (auto simp: word_less_nat_alt)
  next
    fix k :: u64
    assume "k \<in> of_nat ` {Suc (unat n)..<Suc ?m}"
    then obtain j where j: "k = of_nat j" "j < Suc ?m" "unat n < j" by auto
    with m have "unat k = j" by (simp add: unat_of_nat_u64 del: power_numeral)
    with j n(1) show "k \<in> {k. n < k \<and> k \<in> of_nat ` {?k..<Suc ?m}}" by (auto simp: word_less_nat_alt)
  qed
  finally show ?thesis
    using ethereum_claims_sorted [OF msgs] sorted_nonces [OF m, of "Suc (unat n)"] by (simp only:)
qed

text \<open>Claims can be made of events in blocks below the last one of 64 bits, if addresses can be printed.\<close>

lemma claims_made:
  assumes "num256_writes_be (nm L)" "\<And>d. \<exists>x. bech32_of L d (get_prefix K) = Ret x" "list_all (\<lambda>he. fst he < u64_MAX) blocks"
  shows "\<exists>msgs. ethereum_claims L K a (send_to_cosmos_filter_by_event_nonce n (List.map_filter (read_deposit L) blocks))
       (transaction_batch_executed_filter_by_event_nonce n (List.map_filter read_batch blocks))
       (erc20_deployed_filter_by_event_nonce n (List.map_filter read_deploy blocks)) []
       (valset_updated_filter_by_event_nonce n (List.map_filter read_valset blocks)) = Ret msgs"
proof -
  have heights: "read_deposit L he = Some e1 \<Longrightarrow> sc_block_height e1 = fst he" "read_batch he = Some e2 \<Longrightarrow> be_block_height e2 = fst he"
    "read_deploy he = Some e3 \<Longrightarrow> ed_block_height e3 = fst he" "read_valset he = Some e4 \<Longrightarrow> vu_block_height e4 = fst he" for he e1 e2 e3 e4
    by (cases he; cases "snd he"; auto)+
  have made: "\<not> is_panic (send_to_cosmos_claim L K a e1)" if "sc_block_height e1 < u64_MAX" for e1
    using that claim_height_small [OF assms(1)] assms(2) [of "sc_destination e1"] by (auto simp: send_to_cosmos_claim_def simp del: power_numeral)
  have low: "fst he < u64_MAX" if "he \<in> set blocks" for he using assms(3) that by (simp only: list_all_iff)
  have "\<not> is_panic (snd p)" if "p \<in> set (event_claims L K a (send_to_cosmos_filter_by_event_nonce n (List.map_filter (read_deposit L) blocks))
       (transaction_batch_executed_filter_by_event_nonce n (List.map_filter read_batch blocks))
       (erc20_deployed_filter_by_event_nonce n (List.map_filter read_deploy blocks)) []
       (valset_updated_filter_by_event_nonce n (List.map_filter read_valset blocks)))" for p
    using that made heights low claim_height_small [OF assms(1)]
    unfolding event_claims_def filter_nonce_defs
    by (auto simp: set_map_filter batch_send_to_eth_claim_def erc20_deployed_claim_def valset_updated_claim_def
        simp del: option.set_sel power_numeral)
  then show ?thesis using insert_pairs_total unfolding ethereum_claims_pairs by (metis bind_out.simps(1))
qed

section \<open>The set the relayer works with is the one the contract holds\<close>

text \<open>A node that answers for the contract: every search gives the logs of its range, and the latest
  block is not below any of them.\<close>

definition node_of :: "evm \<Rightarrow> web3 \<Rightarrow> eth_address \<Rightarrow> (uint256 \<times> gravity_event) list \<Rightarrow> bool" where
  "node_of E W c blocks \<longleftrightarrow>
     (\<forall>lo hi sig t. web3_check_for_events W lo (Some hi) [c] [sig] t =
        Inr (contract_logs E (filter (\<lambda>he. lo \<le> fst he \<and> fst he \<le> hi) blocks) sig)) \<and>
     (\<forall>t b. eth_block_number W t = Inr b \<longrightarrow> (\<forall>he \<in> set blocks. fst he \<le> b)) \<and>
     sorted_wrt (\<le>) (map fst blocks)"

text \<open>The events that announce a validator set.\<close>

definition updates_of :: "(uint256 \<times> gravity_event) list \<Rightarrow> (uint256 \<times> gravity_event) list" where
  "updates_of blocks = filter (\<lambda>he. read_valset he \<noteq> None) blocks"

definition updates_upto :: "(uint256 \<times> gravity_event) list \<Rightarrow> uint256 \<Rightarrow> bool" where
  "updates_upto blocks b \<longleftrightarrow> (\<forall>he \<in> set blocks. read_valset he \<noteq> None \<longrightarrow> fst he \<le> b)"

lemma last_filter: "xs \<noteq> [] \<Longrightarrow> P (last xs) \<Longrightarrow> last (filter P xs) = last xs"
  by (induction xs) (auto simp: filter_empty_conv)

lemma sorted_fst_last: "sorted_wrt (\<le>) (map fst xs) \<Longrightarrow> x \<in> set xs \<Longrightarrow> fst x \<le> fst (last xs)" for xs :: "('a :: linorder \<times> 'b) list"
  by (induction xs) auto

lemma sorted_fst_filter: "sorted_wrt (\<le>) (map fst xs) \<Longrightarrow> sorted_wrt (\<le>) (map fst (filter P xs))"
  by (induction xs) auto

lemma update_logs:
  assumes W: "node_of E W c blocks" and b: "updates_upto blocks b"
    and logs: "web3_check_for_events W e (Some b) [c] [VALSET_UPDATED_EVENT_SIG] t = Inr logs"
  shows "logs = [] \<Longrightarrow> updates_upto blocks e"
    and "logs \<noteq> [] \<Longrightarrow> last logs = event_log E (last (updates_of blocks)) \<and>
      updates_of blocks \<noteq> []"
proof -
  let ?U = "updates_of blocks" and ?R = "\<lambda>he :: uint256 \<times> gravity_event. e \<le> fst he \<and> fst he \<le> b"
  from W logs have l: "logs = map (event_log E) (filter ?R ?U)"
    by (auto simp: node_of_def contract_logs_def signature_selects(1) filter_filter conj_commute updates_of_def)
  show "updates_upto blocks e" if "logs = []"
    using that b by (force simp: l filter_empty_conv updates_upto_def updates_of_def)
  show "last logs = event_log E (last ?U) \<and> ?U \<noteq> []" if ne: "logs \<noteq> []"
  proof -
    from ne obtain he where he: "he \<in> set ?U" "?R he" by (auto simp: l filter_empty_conv)
    have "sorted_wrt (\<le>) (map fst ?U)" using W unfolding updates_of_def by (intro sorted_fst_filter) (simp add: node_of_def)
    from sorted_fst_last [OF this he(1)] he(2) have "e \<le> fst (last ?U)" by simp
    moreover from he(1) have U: "?U \<noteq> []" by (intro notI) (simp only: list.set empty_iff)
    moreover from last_in_set [OF this] b have "fst (last ?U) \<le> b" by (auto simp: updates_upto_def updates_of_def)
    ultimately have "last (filter ?R ?U) = last ?U" by (intro last_filter) simp_all
    moreover have "filter ?R ?U \<noteq> []" using ne by (simp add: l)
    ultimately show ?thesis using U by (simp add: l last_map)
  qed
qed

lemma announced_args:
  assumes "readable he" "read_valset he = Some e"
  shows "valset_updates [snd he] = [args_of (valset_of_event e)]"
proof -
  obtain h ev where he: "he = (h, ev)" by (cases he)
  show ?thesis
  proof (cases ev)
    case (ValsetUpdatedEvent n k amt tok vals pows)
    let ?ms = "map2 (\<lambda>a p. \<lparr>vm_power = of_nat p, vm_eth_address = Some a\<rparr> :: valset_member) vals pows"
    from assms ValsetUpdatedEvent he have r: "n \<le> u64_MAX" "length vals = length pows" "list_all (\<lambda>p. p \<le> u64_MAX) pows"
      and e: "valset_of_event e = \<lparr>vs_nonce = of_nat n, vs_members = ?ms, vs_reward_amount = amt,
         vs_reward_token = (if tok = 0 then None else Some tok)\<rparr>"
      by (auto simp: valset_of_event_def simp del: power_numeral)
    have "map (\<lambda>m. case vm_eth_address m of Some a \<Rightarrow> a | None \<Rightarrow> ZERO_ADDRESS) ?ms = vals"
      using r(2) by (intro nth_equalityI) simp_all
    moreover have "map unat (map vm_power ?ms) = pows"
      using map2_members(2) [OF r(2,3)] by (simp only: map_map o_def)
    ultimately show ?thesis using unat_of_nat_u64 [OF r(1)]
      by (simp add: he ValsetUpdatedEvent e args_of_def filter_empty_addresses_map reward_token_or_zero_def del: map_map)
  qed (use assms he in simp_all)
qed

lemma announced_valsets:
  "valset_updates (map snd blocks) = map (\<lambda>he. hd (valset_updates [snd he])) (updates_of blocks)"
proof (induction blocks)
  case (Cons he blocks)
  have "valset_updates (map snd (he # blocks)) = valset_updates [snd he] @ valset_updates (map snd blocks)"
    using history_append(1) [of "[snd he]" "map snd blocks"] by (simp only: list.map append_Cons append_Nil)
  moreover have "valset_updates [snd he] = (if read_valset he = None then [] else [hd (valset_updates [snd he])])"
    by (cases he; cases "snd he") simp_all
  ultimately show ?case using Cons by (cases "read_valset he") (simp_all add: updates_of_def)
qed (simp add: updates_of_def)

lemma announced_held:
  assumes g: "map snd blocks = emitted g" "readable (last (updates_of blocks))" and gid: "length gid \<le> 32" "state_gravityId g = gid_bytes gid"
    and U: "updates_of blocks \<noteq> []"
  shows "holds_valset g gid (valset_of_event (the (read_valset (last (updates_of blocks)))))"
proof -
  from last_in_set [OF U] obtain e where "read_valset (last (updates_of blocks)) = Some e" by (auto simp: updates_of_def)
  with announced_args [OF g(2)] have "hd (valset_updates [snd (last (updates_of blocks))]) = args_of (valset_of_event (the (read_valset (last (updates_of blocks)))))"
    by simp
  with announced_valsets [of blocks] U gid show ?thesis by (simp add: g(1) holds_valset_def last_map)
qed

lemma find_valset_step_current:
  assumes W: "node_of E W c blocks" and L: "libs_decode L" and r: "readable (last (updates_of blocks))" and b: "updates_upto blocks b"
  shows "yields (\<lambda>r. case r of Inl b' \<Rightarrow> updates_upto blocks b'
     | Inr res \<Rightarrow> \<forall>v. res = Inr v \<longrightarrow> updates_of blocks \<noteq> [] \<and>
         v = valset_of_event (the (read_valset (last (updates_of blocks))))) (find_valset_step L W G c b)"
proof -
  let ?U = "updates_of blocks"
  let ?v = "valset_of_event (the (read_valset (last ?U)))"
  have found: "?U \<noteq> [] \<and> parsed = Inr (the (read_valset (last ?U)))"
    if "map_err from_web3_error (web3_check_for_events W e (Some b) [c] [VALSET_UPDATED_EVENT_SIG] n) = Inr logs"
      "rev logs = l # ls" "valset_updated_from_log L l = Ret parsed" for e n logs l ls parsed
  proof -
    from that(2) have "logs \<noteq> []" "last logs = l" by (auto simp: rev_eq_Cons_iff)
    with update_logs(2) [OF W b] that(1) have l: "l = event_log E (last ?U)" "?U \<noteq> []" by (simp_all add: map_err_Ok_iff)
    from last_in_set [OF l(2)] have "read_valset (last ?U) \<noteq> None" by (simp add: updates_of_def)
    with r have "readable (last ?U)" "\<exists>x. read_valset (last ?U) = Some x" by blast+
    then obtain h ev x where x: "last ?U = (h, ev)" "readable (h, ev)" "read_valset (h, ev) = Some x"
      by (metis surj_pair)
    from valset_log_read [OF x(2,3)] valset_updated_parses [OF L] that(3) l x show ?thesis by force
  qed
  have none: "updates_upto blocks e"
    if "map_err from_web3_error (web3_check_for_events W e (Some b) [c] [VALSET_UPDATED_EVENT_SIG] n) = Inr logs" "rev logs = []" for e n logs
    using update_logs(1) [OF W b] that by (simp add: map_err_Ok_iff)
  have Ok: "yields (\<lambda>r. \<forall>v. r = Inr v \<longrightarrow> v = w) (try_io m (\<lambda>x. bind_io (k x) (\<lambda>_. return_io (Inr w))))"
    for m :: "'x gresult act" and k :: "'x \<Rightarrow> 'y act" and w :: valset
    by (rule yields_try_any) (simp, intro yields_bind_any yields_return, simp)
  show ?thesis
    unfolding find_valset_step_def Let_def ask_def
    by ((rule yields_if yields_return yields_panic yields_bind_lift yields_bind_query yields_case_sum
          yields_case_list yields_bind [OF Ok] | (simp; fail) | (use none found in \<open>force split: sum.splits\<close>)[1])+)
qed

lemma find_latest_valset_current:
  assumes W: "node_of E W c blocks" and L: "libs_decode L"
    and g: "map snd blocks = emitted g" "readable (last (updates_of blocks))" and gid: "length gid \<le> 32" "state_gravityId g = gid_bytes gid"
  shows "yields (\<lambda>r. \<forall>v. r = Inr v \<longrightarrow> holds_valset g gid v) (find_latest_valset L W G c)"
proof -
  let ?U = "updates_of blocks"
  have "yields (\<lambda>r. \<forall>v. r = Inr v \<longrightarrow> holds_valset g gid v) (loop_io (find_valset_step L W G c) b)" if "updates_upto blocks b" for b
  proof (rule yields_loop [where I = "updates_upto blocks", OF that])
    fix b
    assume "updates_upto blocks b"
    from find_valset_step_current [OF W L g(2) this]
    show "yields (\<lambda>r. case r of Inl c \<Rightarrow> updates_upto blocks c | Inr x \<Rightarrow> \<forall>v. x = Inr v \<longrightarrow> holds_valset g gid v) (find_valset_step L W G c b)"
      by (rule yields_weaken) (use announced_held [OF g gid] in \<open>auto split: sum.splits\<close>)
  qed
  moreover have "updates_upto blocks b" if "map_err from_web3_error (eth_block_number W t) = Inr b" for t b
    using W that by (auto simp: node_of_def updates_upto_def map_err_Ok_iff)
  ultimately show ?thesis
    unfolding find_latest_valset_def ask_def try_io_def
    by (intro yields_bind_query yields_case_sum yields_return) auto
qed

section \<open>A denomination that is not UTF-8\<close>

lemma undecodable_log:
  assumes L: "libs_decode L" and d: "\<not> utf8_valid (map char_byte d)" "length d \<le> u32_MAX" and k: "k \<le> u64_MAX"
  shows "erc20_deployed_from_log L (event_log E (h, ERC20DeployedEvent d t n s dec k)) =
    Ret (Inl (ValidationError '' is not valid utf8, probably incorrect parsing''))"
proof -
  let ?log = "event_log E (h, ERC20DeployedEvent d t n s dec k)"
  define pre where "pre = abi_words [160, 160 + length (abi_string d), 160 + length (abi_string d) + length (abi_string n)]"
  define rest where "rest = abi_string n @ abi_string s"
  have data: "log_data ?log = pre @ abi_word (unat dec) @ abi_word k @ abi_string d @ rest"
    by (simp add: event_log_def abi_encode_def abi_layout_def pre_def rest_def del: length_abi_string)
  have len: "length pre = 96" by (simp add: pre_def)
  have d8: "unat dec \<le> u8_MAX" using unsigned_less [of dec, where 'a = nat] by simp
  have N: "num256_reads_be (nm L)" using L by (simp add: libs_decode_def)
  have k256: "k < 2 ^ 256" using unat_u64_bound [of "of_nat k"] unat_of_nat_u64 [OF k] by (simp del: power_numeral)
  have 1: "read_word (nm L) (log_data ?log) (3 * 32) = Ret (unat dec)"
    unfolding data using d8 len by (intro read_word_append [OF N] u32_bound) simp_all
  have 2: "read_word (nm L) (log_data ?log) (4 * 32) = Ret k"
    unfolding data using read_word_append [OF N, of "4 * 32" "pre @ abi_word (unat dec)" k "abi_string d @ rest"] k256 len by simp
  have 3: "u256_as_u8 (nm L) (unat dec) = Ret dec" "(unat dec > u8_MAX) = False"
    using L d8 by (simp_all add: u256_as_u8_exact libs_decode_def)
  have 4: "u256_as_u64 (nm L) k = Ret (of_nat k)" "(k > u64_MAX) = False"
    using L k by (simp_all add: u256_as_u64_exact libs_decode_def del: power_numeral)
  have t: "get_at (topics ?log) 1 = Some (address_topic t)" by (simp add: event_log_def get_at_def address_topic_def)
  have "read_string L (log_data ?log) (5 * 32) m = Ret (Inl (ValidationError '' is not valid utf8, probably incorrect parsing''))" for m
    unfolding data using read_string_invalid [OF L d(2,1), of "5 * 32" "pre @ abi_word (unat dec) @ abi_word k" rest m] d(2) len by simp
  then show ?thesis
    by (simp only: erc20_deployed_from_log_def t option.case topic_address_topic [OF L] try_out.simps 1 2 3 4 bind_out.simps if_False)
qed

lemma undecodable_logs:
  assumes L: "libs_decode L" and d: "\<not> utf8_valid (map char_byte d)" "length d \<le> u32_MAX" "k \<le> u64_MAX"
    and log: "(h, ERC20DeployedEvent d t n s dec k) \<in> set blocks"
  shows "erc20_deployed_from_logs L (contract_logs E blocks ERC20_DEPLOYED_EVENT_SIG) \<noteq> Ret (Inr evs)"
proof
  assume "erc20_deployed_from_logs L (contract_logs E blocks ERC20_DEPLOYED_EVENT_SIG) = Ret (Inr evs)"
  then have "list_all2 (\<lambda>l e. erc20_deployed_from_log L l = Ret (Inr e)) (contract_logs E blocks ERC20_DEPLOYED_EVENT_SIG) evs"
    by (simp only: erc20_events.from_logs_each)
  moreover have "event_log E (h, ERC20DeployedEvent d t n s dec k) \<in> set (contract_logs E blocks ERC20_DEPLOYED_EVENT_SIG)"
    using log by (auto simp: contract_logs_def ERC20_DEPLOYED_EVENT_SIG_def intro!: image_eqI)
  ultimately obtain e where "erc20_deployed_from_log L (event_log E (h, ERC20DeployedEvent d t n s dec k)) = Ret (Inr e)"
    by (auto simp: list_all2_conv_all_nth in_set_conv_nth)
  with undecodable_log [OF L d] show False by simp
qed

text \<open>A computation that acts on no chain and has no result but errors.\<close>

definition fails :: "('e + 'a) act \<Rightarrow> bool" where
  "fails m \<longleftrightarrow> silent m \<and> yields (\<lambda>r. \<forall>x. r \<noteq> Inr x) m"

lemma fails_return: "fails (return_io (Inl e))"
  by (auto simp: fails_def intro: emits_return yields_return)

lemma fails_try_lift: "(\<And>x. r = Ret (Inr x) \<Longrightarrow> fails (f x)) \<Longrightarrow> fails (try_io (lift_io r) f)"
  by (cases r rule: is_panic.cases; cases "case r of Ret x \<Rightarrow> x")
    (auto simp: fails_def try_io_def intro: emits_return yields_return emits_panic yields_panic split: sum.splits)

lemma fails_bind: "silent m \<Longrightarrow> yields Q m \<Longrightarrow> (\<And>x. Q x \<Longrightarrow> fails (f x)) \<Longrightarrow> fails (bind_io m f)"
  unfolding fails_def by (blast intro: emits_bind_yields yields_bind)

lemma claim_events_fails:
  assumes "\<And>evs. erc20_deployed_from_logs L deploy_logs \<noteq> Ret (Inr evs)"
  shows "fails (claim_events L K G sk a fee latest valset_logs batch_logs deposit_logs deploy_logs call_logs)"
  unfolding claim_events_def by (intro fails_try_lift) (simp add: assms)

lemma check_for_events_fails:
  assumes node: "node_of E N c blocks" and start: "start \<le> h"
    and old: "\<And>b t v t'. eth_block_number N t = Inr b \<Longrightarrow> net_version N t' = Inr v \<Longrightarrow> h + block_delay v \<le> b"
    and L: "libs_decode L" "num256_arith (nm L)"
    and bad: "\<And>blocks evs. (h, ev) \<in> set blocks \<Longrightarrow> erc20_deployed_from_logs L (contract_logs E blocks ERC20_DEPLOYED_EVENT_SIG) \<noteq> Ret (Inr evs)"
    and log: "(h, ev) \<in> set blocks"
  shows "fails (check_for_events L N K G c sk fee start)"
proof -
  have block: "yields (\<lambda>b. \<exists>t. eth_block_number N t = Inr b) (get_block_number_with_retry N)"
    unfolding get_block_number_with_retry_def by (rule yields_retry)
  have delay: "yields (\<lambda>d. \<exists>v t. net_version N t = Inr v \<and> d = block_delay v) (get_block_delay N)"
    unfolding get_block_delay_def get_net_version_with_retry_def
    by (rule yields_bind [OF yields_retry]) (auto intro: yields_return)
  have logs: "yields (\<lambda>r. r = Inr (contract_logs E (filter (\<lambda>he. lo \<le> fst he \<and> fst he \<le> hi) blocks) sig)) (logs_of N c lo hi sig)" for lo hi sig
    using node by (auto simp: logs_of_def node_of_def intro: yields_query)
  have range: "(h, ev) \<in> set (filter (\<lambda>he. start \<le> fst he \<and> fst he \<le> hi) blocks)"
    if "u256_sub (nm L) b (block_delay v) = Ret hi" "eth_block_number N t = Inr b" "net_version N t' = Inr v" for b v hi t t'
    using old [OF that(2,3)] that(1) u256_sub_exact [OF L(2), of "block_delay v" b] start log by auto
  have lift: "fails (bind_io (lift_io r) f)" if "\<And>x. r = Ret x \<Longrightarrow> fails (f x)" for r :: "'x outcome" and f :: "'x \<Rightarrow> (gravity_error + uint256) act"
    using that by (intro fails_bind [OF emits_lift yields_lift])
  show ?thesis
    unfolding check_for_events_def
    apply (rule lift)
    apply (rule fails_bind [OF _ block], rule emits_intros)
    apply (rule fails_bind [OF emits_get_block_delay delay])
    apply (rule lift)
    apply (rule fails_bind [OF emits_logs_of logs])+
    apply (simp only: prod.case sum.case)
    apply (rule claim_events_fails, rule bad)
    apply (use range in blast)
    done
qed

lemma oracle_iteration_fails:
  assumes "fails (check_for_events L N K G c sk fee start)"
  shows "silent (oracle_iteration L N K G sk c fee start) \<and> yields (\<lambda>b. b = start) (oracle_iteration L N K G sk c fee start)"
proof
  show "silent (oracle_iteration L N K G sk c fee start)"
    using assms unfolding oracle_iteration_def fails_def
    by (intro emits_bind emits_query emits_if emits_return emits_case_sum) simp_all
  show "yields (\<lambda>b. b = start) (oracle_iteration L N K G sk c fee start)"
    using assms unfolding oracle_iteration_def fails_def
    by (intro yields_bind_query yields_if yields_return) (auto elim!: yields_bind intro: yields_return split: sum.splits)
qed

section \<open>What the two ends promise together\<close>

text \<open>C3: what the payload of a validator set update does on the contract, while that holds the set whose
  confirmations were counted and every confirmation has a byte for its \<open>v\<close>.  The contract reverts if
  the new nonce is not above the old one, and for lack of power if the power behind the signatures does
  not pass its threshold.  Otherwise it reverts only with the reason the transfer of the reward reverts
  with.  If that does not revert, whatever the token calls back meanwhile, and if the event nonces are
  not used up, the contract takes the new set over, which is then the one it holds, and has made the
  transfer of the reward, if there is one, and no other call.\<close>

theorem relayed_valset_update_executed:
  assumes "linked C E D" "reachable E g" "holds_valset g gid old" "normalized old"
      "encode_valset_update_payload C new old confirms gid = Ret (Inr payload)" "byte_signatures valset_confirm confirms"
  shows "let r = call_payload E D W env payload g in
    if \<not> vs_nonce old < vs_nonce new then r = Inl ''New valset nonce must be greater than the current nonce''
    else if unat (voted_power valset_confirm old confirms) \<le> state_powerThreshold g
    then r = Inl ''Submitted validator set signatures do not have enough power.''
    else case outgoing W (made g) (reward_calls env (args_of new)) of
      Inl e \<Rightarrow> r = Inl e
    | Inr k \<Rightarrow> state_lastEventNonce g + k + 1 < word_bound \<longrightarrow>
        (\<exists>g'. r = Inr g' \<and> reachable E g' \<and> holds_valset g' gid new \<and>
           state_lastValsetNonce g' = unat (vs_nonce new) \<and> made g' = made g @ reward_calls env (args_of new))"
  by (rule valset_update_executed [OF assms])

text \<open>C5: what the payload of a batch does on the contract, while that holds the set whose confirmations
  were counted, every confirmation has a byte for its \<open>v\<close> and the fees add up to a number of 256 bits.
  The contract reverts if the nonce is not above the last one for the token, if the block is not below
  the timeout, and for lack of power; otherwise only with the reason the first reverting transfer gives.
  If no transfer reverts, whatever the token calls back meanwhile, and if the event nonces are not used
  up, the contract has transferred each amount to its destination and the sum of the fees to the caller,
  made no other call, and stored the nonce.\<close>

theorem relayed_batch_executed:
  assumes "linked C E D" "reachable E g" "holds_valset g gid cur" "normalized cur" "sum_list (batch_fees b) < word_bound"
    "encode_batch_payload C cur b confirms gid = Ret (Inr payload)" "byte_signatures batch_confirm confirms"
  shows "let r = call_payload E D W env payload g;
      cs = map (\<lambda>t. SafeTransfer (batch_token_contract b) (tx_destination t) (amount (tx_erc20_token t))) (batch_transactions b) @
           [SafeTransfer (batch_token_contract b) (msg_sender env) (sum_list (batch_fees b))] in
    if \<not> lastBatchNonce g (batch_token_contract b) < unat (batch_nonce b) then r = Inl ''New batch nonce must be greater than the current nonce''
    else if \<not> msg_block env < unat (batch_timeout b) then r = Inl ''Batch timeout must be greater than the current block height''
    else if unat (voted_power batch_confirm cur confirms) \<le> state_powerThreshold g
    then r = Inl ''Submitted validator set signatures do not have enough power.''
    else case outgoing W (made g) cs of
      Inl e \<Rightarrow> r = Inl e
    | Inr k \<Rightarrow> state_lastEventNonce g + k + 1 < word_bound \<longrightarrow>
        (\<exists>g'. r = Inr g' \<and> reachable E g' \<and> holds_valset g' gid cur \<and>
           lastBatchNonce g' (batch_token_contract b) = unat (batch_nonce b) \<and> made g' = made g @ cs)"
  using batch_executed [OF assms, of W env] unfolding Let_def .

text \<open>C8: on a node that answers for the contract, the validator set the relayer finds is the one the
  contract holds: the signatures it orders by that set are checked against the same set.  Of the
  history of the contract only the last update has to be one the parser can read: its nonces and powers
  have 64 bits.\<close>

theorem relayer_finds_held_valset:
  assumes "node_of E W c blocks" "libs_decode L" "map snd blocks = emitted g" "readable (last (updates_of blocks))"
    "length gid \<le> 32" "state_gravityId g = gid_bytes gid"
  shows "yields (\<lambda>r. \<forall>v. r = Inr v \<longrightarrow> holds_valset g gid v) (find_latest_valset L W G c)"
  by (rule find_latest_valset_current [OF assms])

text \<open>C6: the oracle is given the logs of a range that reaches to the last event of the contract and
  leaves out only events the chain has from us, which are those up to the nonce \<open>n\<close>; the events of the
  range can be read (no logic call among them, strings in UTF-8, numbers of 64 bits), and there are some
  after \<open>n\<close>.  Then there is a list of claims with the nonces from \<open>n + 1\<close> to the last one of the
  contract, in order and without a gap; and if the chain gives the arguments for a transaction and the
  key signs the list, the oracle broadcasts exactly that transaction.\<close>

theorem contract_events_claimed:
  assumes g: "reachable E g" "emitted g = old @ map snd blocks" "list_all readable blocks" "list_all (\<lambda>he. fst he < u64_MAX) blocks"
    and L: "libs_decode L" "deep_space_bytes (ds L)" "num256_writes_be (nm L)" "\<And>d. \<exists>x. bech32_of L d (get_prefix K) = Ret x"
    and a: "our_cosmos_address L K sk = Ret a" "bech32_of L a (get_prefix K) = Ret addr"
    and nonce: "last_event_nonce_by_addr G addr (clock s) = Inr n" "length old \<le> unat n" "unat n < state_lastEventNonce g"
    and args: "get_message_args K a (fee_of fee 500000000) (Suc (clock s)) = Inr args" and hz: "horizon s = None"
  shows "\<exists>msgs. map (\<lambda>m. claim_event_nonce (msg_value m)) msgs = map (\<lambda>k. Some (of_nat k)) [Suc (unat n)..<Suc (state_lastEventNonce g)] \<and>
    (\<forall>b. sign_std_msg K sk msgs args MEMO = Inr b \<longrightarrow>
      (\<exists>r t. claim_events L K G sk a fee latest (contract_logs E blocks VALSET_UPDATED_EVENT_SIG)
          (contract_logs E blocks TRANSACTION_BATCH_EXECUTED_EVENT_SIG) (contract_logs E blocks SENT_TO_COSMOS_EVENT_SIG)
          (contract_logs E blocks ERC20_DEPLOYED_EVENT_SIG) (contract_logs E blocks LOGIC_CALL_EVENT_SIG) s = Some (r, t) \<and>
        trace t = trace s @ [CosmosSendTransaction b]))"
proof -
  obtain msgs where msgs: "ethereum_claims L K a (send_to_cosmos_filter_by_event_nonce n (List.map_filter (read_deposit L) blocks))
         (transaction_batch_executed_filter_by_event_nonce n (List.map_filter read_batch blocks))
         (erc20_deployed_filter_by_event_nonce n (List.map_filter read_deploy blocks)) []
         (valset_updated_filter_by_event_nonce n (List.map_filter read_valset blocks)) = Ret msgs"
    using claims_made [OF L(3,4) g(4)] by blast
  have nonces: "map (\<lambda>m. claim_event_nonce (msg_value m)) msgs = map (\<lambda>k. Some (of_nat k)) [Suc (unat n)..<Suc (state_lastEventNonce g)]"
    using contract_claim_nonces [OF g(1-3) nonce(2,3) msgs] by (simp del: upt_Suc)
  have "map (\<lambda>m. claim_event_nonce (msg_value m)) msgs \<noteq> []" unfolding nonces using nonce(3) by (simp del: upt_Suc)
  then have ne: "msgs \<noteq> []" by auto
  note logs = contract_logs_parse [OF L(1,2) g(3), of E]
  from claim_events_sends [OF logs(1-4) a(2) nonce(1) a(1) msgs ne args _ hz, of _ latest] nonces show ?thesis
    unfolding logs(5) by blast
qed

text \<open>C36: anyone may deploy a representation whose denomination is not UTF-8, and has a log of it in the
  contract's history.  Whatever else is in that history, on a node that answers for the contract a
  round of the oracle that starts at or before that log, once the log is as many blocks old as the
  oracle waits, claims nothing and stays where it is: the reading of the events ends in an error, if
  not in a panic.  So the next round starts at the same block.\<close>

theorem undecodable_denom_stops_oracle:
  assumes "state_lastEventNonce g < u64_MAX" "\<not> utf8_valid (map char_byte d)" "length d \<le> u32_MAX"
    and L: "libs_decode L" "num256_arith (nm L)"
  shows "\<exists>g' ev. call_gravity E W env (DeployERC20 d n symb dec) g = Inr g' \<and> emitted g' = emitted g @ [ev] \<and>
    (\<forall>blocks h N start. (h, ev) \<in> set blocks \<longrightarrow> node_of E N c blocks \<longrightarrow> start \<le> h \<longrightarrow>
       (\<forall>b t v t'. eth_block_number N t = Inr b \<longrightarrow> net_version N t' = Inr v \<longrightarrow> h + block_delay v \<le> b) \<longrightarrow>
       fails (check_for_events L N K G c sk fee start) \<and>
       silent (oracle_iteration L N K G sk c fee start) \<and> yields (\<lambda>b. b = start) (oracle_iteration L N K G sk c fee start))"
proof -
  let ?k = "Suc (state_lastEventNonce g)"
  let ?ev = "ERC20DeployedEvent d (created W (emitted g)) n symb dec ?k"
  have k: "?k \<le> u64_MAX" using assms(1) by simp
  then have "?k < word_bound"
    using unat_u64_bound [of "of_nat ?k"] unat_of_nat_u64 [OF k] by (simp add: word_bound_def del: power_numeral of_nat_Suc)
  then have "call_gravity E W env (DeployERC20 d n symb dec) g = Inr (g\<lparr>state_lastEventNonce := ?k, emitted := emitted g @ [?ev]\<rparr>)"
    by (simp add: deployERC20_def Let_def) (subst emit_next_iff, auto)
  moreover have "fails (check_for_events L N K G c sk fee start)"
    if "(h, ?ev) \<in> set blocks" "node_of E N c blocks" "start \<le> h"
      "\<forall>b t v t'. eth_block_number N t = Inr b \<longrightarrow> net_version N t' = Inr v \<longrightarrow> h + block_delay v \<le> b" for blocks h N start
    using undecodable_logs [OF L(1) assms(2,3) k] that by (intro check_for_events_fails [OF that(2,3) _ L]) blast+
  ultimately show ?thesis using oracle_iteration_fails by (intro exI [of _ ?ev] exI) auto
qed

text \<open>C37: the relayer still sends a batch when the latest block is the one the batch times out at, while
  the contract asks for a block before that one: the transaction, which can only be in a later block,
  reverts.\<close>

theorem batch_sent_at_timeout:
  assumes D: "linked C E D" "cl L = C"
    and nonce: "get_tx_batch_nonce L W c (batch_token_contract b) (eth_key_to_address C sk) s = Some (Ret (Inr n), s1)"
      "trace s1 = trace s" "horizon s1 = None" "n < batch_nonce b"
    and height: "eth_block_number W (clock s1) = Inr (unat (batch_timeout b))"
    and payload: "encode_batch_payload C cur b confirms gid = Ret (Inr data)"
  shows "(\<exists>r t. send_eth_transaction_batch L W cur b confirms timeout c gid sk s = Some (r, t) \<and>
      trace t = trace s @ [EthSendTransaction c data 0 (eth_key_to_address C sk) sk [gas_price_multiplier]]) \<and>
    (\<forall>X env g g'. unat (batch_timeout b) \<le> msg_block env \<longrightarrow> call_payload E D X env data g \<noteq> Inr g')"
proof -
  let ?e = "EthSendTransaction c data 0 (eth_key_to_address C sk) sk [gas_price_multiplier]"
  let ?rest = "\<lambda>tx. try_io (web3_ask (wait_for_transaction W tx timeout)) (\<lambda>_.
      try_io (convert_io from_web3_error (get_tx_batch_nonce L W c (batch_token_contract b) (eth_key_to_address C sk))) (\<lambda>last_nonce. return_io (Inr ())))"
  let ?s2 = "s1\<lparr>clock := Suc (clock s1)\<rparr>"
  let ?ans = "send_transaction W c data 0 (eth_key_to_address C sk) sk [gas_price_multiplier] (clock ?s2)"
  let ?s3 = "?s2\<lparr>clock := Suc (clock ?s2), trace := trace ?s2 @ [?e]\<rparr>"
  have run: "send_eth_transaction_batch L W cur b confirms timeout c gid sk s =
      (case map_err from_web3_error ?ans of Inl e \<Rightarrow> Some (Ret (Inl e), ?s3) | Inr tx \<Rightarrow> ?rest tx ?s3)"
    using nonce height payload D(2) nonce(4) [unfolded not_le [symmetric]]
    by (simp add: send_eth_transaction_batch_def Let_def try_io_def convert_io_def bind_io_def return_io_def lift_io_def
        eth_send_def effect_io_def ask_def query_io_def split: sum.splits)
  have quiet: "silent (?rest tx)" and returns: "comes_back (?rest tx)" for tx
    unfolding get_tx_batch_nonce_def by (intro emits_intros, intro back_intros)
  have "\<exists>r t. send_eth_transaction_batch L W cur b confirms timeout c gid sk s = Some (r, t) \<and> trace t = trace s @ [?e]"
  proof (cases ?ans)
    case (Inl e)
    with run nonce(2) show ?thesis by simp
  next
    case (Inr tx)
    from comes_backD [OF returns] obtain r t where t: "?rest tx ?s3 = Some (r, t)" by blast
    with silentD [OF quiet t] run Inr nonce(2) show ?thesis by simp
  qed
  moreover obtain gs where enc: "encode_call C (call_signature (batch_call cur b gs)) (call_tokens (batch_call cur b gs)) = Inr data"
    and typed: "list_all (\<lambda>n. n < 256) (map gs_v gs) \<Longrightarrow> typed_call (batch_call cur b gs)"
    using batch_payload_encoded [OF D(1) payload] by blast
  have "D data = Some (batch_call cur b gs) \<or> D data = None"
  proof (cases "list_all (\<lambda>n. n < 256) (map gs_v gs)")
    case True
    from linked_call(2) [OF D(1) enc typed [OF this]] show ?thesis by blast
  next
    case False
    with linked_call(3) [OF D(1) enc] show ?thesis by (simp add: batch_call_def)
  qed
  ultimately show ?thesis by (auto simp: call_payload_def batch_call_def submitBatch_def outcome_simps)
qed

end
