(* ===== verification/Bridge_Runs.thy ===== *)
theory Bridge_Runs
  imports Witnesses Bridge
begin

text \<open>
  The theorems on the contract and on both ends of the bridge, applied to a contract that was
  deployed with two validators and to the reference instance of the libraries.
\<close>

section \<open>A deployed contract\<close>

definition genesis_set :: valset where
  "genesis_set = (two_members 3000000000)\<lparr>vs_nonce := 0\<rparr>"

definition deployed_gravity :: gravity where
  "deployed_gravity = \<lparr>wNomAddress = 9, state_lastValsetCheckpoint = makeCheckpoint evm_ref (args_of genesis_set) (gid_bytes ''id''),
     state_lastBatchNonces = (\<lambda>_. 0), state_invalidationMapping = (\<lambda>_. 0), state_lastValsetNonce = 0, state_lastEventNonce = 1,
     state_gravityId = gid_bytes ''id'', state_powerThreshold = vote_power, entered = False,
     emitted = [ValsetUpdatedEvent 0 1 0 0 [1, 2] [3000000000, 5]], made = []\<rparr>"

lemma args_of_genesis: "args_of genesis_set =
  \<lparr>va_validators = [1, 2], va_powers = [3000000000, 5], va_valsetNonce = 0, va_rewardAmount = 0, va_rewardToken = 0\<rparr>"
  by (simp add: args_of_def genesis_set_def two_members_def filter_empty_addresses_def reward_token_or_zero_def)

lemma small_word_bound: "n \<le> u64_MAX \<Longrightarrow> n < word_bound"
  using unat_u64_bound [of "of_nat n"] unat_of_nat_u64 [of n] by (simp add: word_bound_def del: power_numeral)

lemma reachable_deployed: "reachable evm_ref deployed_gravity"
proof (rule reachable.deployed)
  show "list_all (\<lambda>p. p < word_bound) [3000000000, 5]" by (simp add: small_word_bound)
  show "length (gid_bytes ''id'') = 32" by (simp add: gid_bytes_def)
  show "gravity_constructor evm_ref (gid_bytes ''id'') vote_power [1, 2] [3000000000, 5] 9 = Inr deployed_gravity"
    by (simp add: gravity_constructor_def require_def deployed_gravity_def args_of_genesis vote_power_def Let_def)
qed

text \<open>Other contracts that do nothing in particular.\<close>

definition others_ref :: others where
  "others_ref = \<lparr>external = (\<lambda>_ _. Inr ([], [])), created = (\<lambda>_. 8), this_address = 7\<rparr>"

lemma outgoing_ref: "outgoing others_ref before cs = Inr 0"
  by (induction cs arbitrary: before) (simp_all add: others_ref_def)

definition env_ref :: call_env where
  "env_ref = \<lparr>msg_sender = 6, msg_block = 100\<rparr>"

section \<open>A library that is linked to the chain\<close>

text \<open>The calls of the contract are told apart by their signatures and arguments.\<close>

lemma valset_token_inject: "valset_token V = valset_token V' \<longleftrightarrow> V = V'"
  by (cases V; cases V') (auto simp: valset_token_def)

lemma call_abi_inject: "call_signature c = call_signature c' \<Longrightarrow> call_tokens c = call_tokens c' \<Longrightarrow> c = c'"
proof (cases c; cases c')
  fix v r s a cur v' r' s' a' cur'
  assume "c = SubmitLogicCall cur v r s a" "c' = SubmitLogicCall cur' v' r' s' a'" "call_tokens c = call_tokens c'"
  then show "c = c'" by (cases a; cases a') (auto simp: valset_token_inject)
qed (auto simp: valset_token_inject intro: unsigned_word_eqI)

text \<open>An instance that encodes as Solidity does, and of all calls encodes one.\<close>

definition clarity_chain :: "gravity_call \<Rightarrow> clarity" where
  "clarity_chain c = clarity_ref\<lparr>encode_tokens := abi_encode,
     get_ethereum_msg_hash := (\<lambda>m. keccak256 evm_ref (ETHEREUM_SALT @ keccak256 evm_ref m)),
     encode_call := (\<lambda>f ts. if f = call_signature c \<and> ts = call_tokens c then Inr [7]
       else if f = ''lastBatchNonce(address)'' then Inr [8] else Inl ''unknown function'')\<rparr>"

lemma clarity_chain_simps [simp]:
  "signature_is_valid (clarity_chain c) = signature_is_valid clarity_ref"
  "signature_recover (clarity_chain c) = signature_recover clarity_ref"
  "encode_tokens (clarity_chain c) = abi_encode"
  "get_ethereum_msg_hash (clarity_chain c) m = keccak256 evm_ref (ETHEREUM_SALT @ keccak256 evm_ref m)"
  "encode_call (clarity_chain c) f ts = (if f = call_signature c \<and> ts = call_tokens c then Inr [7]
     else if f = ''lastBatchNonce(address)'' then Inr [8] else Inl ''unknown function'')"
  "eth_key_to_address (clarity_chain c) = eth_key_to_address clarity_ref"
  by (simp_all add: clarity_chain_def)

lemma not_a_query: "call_signature c \<noteq> ''lastBatchNonce(address)''"
  by (cases c) simp_all

lemma typed_call_tokens: "typed_call c \<Longrightarrow> list_all wf_token (call_tokens c)"
proof -
  have byte: "list_all (\<lambda>n. n < word_bound) v" if "list_all (\<lambda>n. n < 256) v" for v :: "nat list"
    using that small_word_bound by (auto simp: list_all_iff intro: small_word_bound)
  have u8: "unat d < word_bound" for d :: u8
    using unsigned_less [of d, where 'a = nat] by (intro small_word_bound) simp
  show "typed_call c \<Longrightarrow> list_all wf_token (call_tokens c)"
    using byte u8 by (cases c) (auto simp: valset_token_def typed_valset_def typed_signatures_def word_bound_def simp del: power_numeral)
qed

lemma linked_chain: "typed_call c \<Longrightarrow> linked (clarity_chain c) evm_ref (\<lambda>_. Some c)"
proof -
  assume typed: "typed_call c"
  then have v: "list_all (\<lambda>v. v < 256) (call_v c)" by (cases c) (simp_all add: typed_signatures_def)
  have "evm_recovers (clarity_chain c) evm_ref" using evm_ref_recovers by (simp add: evm_recovers_def)
  moreover have "list_all wf_token (call_tokens c') \<and> (typed_call c' \<longrightarrow> Some c = Some c') \<and>
      (\<not> list_all (\<lambda>v. v < 256) (call_v c') \<longrightarrow> Some c = None)"
    if "encode_call (clarity_chain c) (call_signature c') (call_tokens c') = Inr payload" for c' payload
  proof -
    from that not_a_query [of c'] have "c' = c" by (auto intro: call_abi_inject split: if_splits)
    with typed_call_tokens [OF typed] v show ?thesis by simp
  qed
  ultimately show ?thesis unfolding linked_def by (simp only: clarity_abi_def clarity_chain_simps(3,4)) blast
qed

text \<open>A call encoded by this instance is executed as it is.\<close>

lemma call_payload_chain [simp]: "call_payload E (\<lambda>_. Some c) W env payload g = call_gravity E W env c g"
  by (simp add: call_payload_def)

lemma sound_vote_chain: "sound_vote (clarity_chain c) = sound_vote clarity_ref"
  by (intro ext) (auto simp: sound_vote_def split: option.splits)

section \<open>The contract\<close>

theorem gravity_history_witness:
  "map event_nonce_of (emitted deployed_gravity) = [1..<Suc (state_lastEventNonce deployed_gravity)] \<and>
   lastBatchNonce deployed_gravity 5 = 0 \<and> lastLogicCallNonce deployed_gravity [1] = 0"
proof -
  have "emitted deployed_gravity = [ValsetUpdatedEvent 0 1 0 0 [1, 2] [3000000000, 5]]" by (simp add: deployed_gravity_def)
  with gravity_history [OF reachable_deployed, of 5 "[1]"] show ?thesis by simp
qed

lemma holds_genesis: "holds_valset deployed_gravity ''id'' genesis_set"
  by (simp add: holds_valset_def deployed_gravity_def args_of_genesis)

lemma room_deployed: "state_lastEventNonce deployed_gravity + 0 + 1 < word_bound"
  by (simp add: deployed_gravity_def small_word_bound)

lemma normalized_genesis: "normalized genesis_set"
  using normalized_two_members [of 3000000000] by (simp add: genesis_set_def normalized_def)

definition update_digest :: bytes where
  "update_digest = keccak256 evm_ref (ETHEREUM_SALT @ makeCheckpoint evm_ref (args_of newer_valset) (gid_bytes ''id''))"

definition update_sigs :: "gravity_signature list" where
  "update_sigs = map (ordered_signature valset_confirm (get_hashmap valset_confirm (first_confirms update_digest))) (vs_members genesis_set)"

definition newer_call :: gravity_call where
  "newer_call = update_call newer_valset genesis_set update_sigs"

lemma vs_members_genesis: "vs_members genesis_set = vs_members (two_members 3000000000)"
  by (simp add: genesis_set_def)

lemma voted_genesis: "voted_power valset_confirm genesis_set (first_confirms m) = 3000000000"
  using voted_first [of 3000000000 m] by (simp add: voted_power_def vs_members_genesis)

lemma order_genesis: "order_sigs (clarity_chain c) valset_confirm genesis_set update_digest (first_confirms update_digest) = Ret (Inr update_sigs)"
proof -
  have "first_confirms update_digest \<noteq> []" by (simp add: first_confirms_def)
  then show ?thesis
    unfolding order_sigs_Ok_iff sound_vote_chain voted_genesis vs_members_genesis update_sigs_def
    using sound_first by (simp add: ACCEPTED_POWER_def)
qed

lemma reward_bounds: "vs_reward_amount genesis_set < word_bound" "vs_reward_amount newer_valset < word_bound"
  by (simp_all add: genesis_set_def newer_valset_def two_members_def small_word_bound)

lemma signed_ref: "sign_ethereum_msg clarity_ref [1] m = \<lparr>sig_v = 27, sig_r = 1, sig_s = key_number m\<rparr>"
  by (simp add: clarity_ref_def key_number_single)

lemma key_number_word: "key_number m < word_bound"
  using key_number_less [of m] by (simp add: word_bound_def)

lemma typed_newer_call: "typed_call newer_call"
proof -
  have "typed_signatures (map gs_v update_sigs) (map gs_r update_sigs) (map gs_s update_sigs)"
    using key_number_word [of update_digest]
    by (simp add: typed_signatures_def update_sigs_def vs_members_genesis two_members_def first_confirms_def signed_ref
        ordered_signature_def no_signature_def get_hashmap_def valset_confirm_def small_word_bound)
  then show ?thesis using reward_bounds by (simp add: newer_call_def update_call_def typed_args_of)
qed

lemma byte_first: "byte_signatures valset_confirm (first_confirms m)"
  by (simp add: byte_signatures_def first_confirms_def valset_confirm_def signed_ref)

lemma update_payload:
  "encode_valset_update_payload (clarity_chain newer_call) newer_valset genesis_set (first_confirms update_digest) ''id'' = Ret (Inr [7])"
proof -
  have "encode_valset_confirm_hashed (clarity_chain newer_call) ''id'' newer_valset = update_digest"
    unfolding update_digest_def
    by (rule valset_hash_agrees [OF linked_chain [OF typed_newer_call]]) (simp_all add: reward_bounds)
  then show ?thesis
    by (simp add: encode_valset_update_payload_def order_genesis to_arrays_def encode_valset_struct_token Let_def newer_call_def update_call_def)
qed

lemma newer_call_checks: "vs_nonce genesis_set < vs_nonce newer_valset"
  "\<not> unat (voted_power valset_confirm genesis_set (first_confirms update_digest)) \<le> state_powerThreshold deployed_gravity"
  by (simp add: genesis_set_def newer_valset_def two_members_def, simp add: deployed_gravity_def vote_power_def voted_genesis)

theorem relayed_valset_update_executed_witness:
  "\<exists>g'. call_gravity evm_ref others_ref env_ref newer_call deployed_gravity = Inr g' \<and> holds_valset g' ''id'' newer_valset \<and>
     state_lastValsetNonce g' = 4"
proof -
  from relayed_valset_update_executed [OF linked_chain [OF typed_newer_call] reachable_deployed holds_genesis normalized_genesis update_payload
      byte_first, of others_ref env_ref] newer_call_checks room_deployed show ?thesis
    unfolding Let_def call_payload_chain outgoing_ref by (auto simp: newer_valset_def)
qed

theorem valset_nonce_increases_witness:
  "\<exists>g'. updateValset evm_ref others_ref env_ref (args_of newer_valset) (args_of genesis_set) (map gs_v update_sigs) (map gs_r update_sigs)
       (map gs_s update_sigs) deployed_gravity = Inr g' \<and> state_lastValsetNonce g' = 4"
proof -
  from valset_update_executed [OF linked_chain [OF typed_newer_call] reachable_deployed holds_genesis normalized_genesis update_payload
      byte_first, of others_ref env_ref] newer_call_checks room_deployed obtain g' where
    g': "updateValset evm_ref others_ref env_ref (args_of newer_valset) (args_of genesis_set) (map gs_v update_sigs) (map gs_r update_sigs)
       (map gs_s update_sigs) deployed_gravity = Inr g'"
    unfolding Let_def call_payload_chain outgoing_ref by (auto simp: newer_call_def update_call_def)
  from valset_nonce_increases [OF reachable_deployed typed_args_of [OF reward_bounds(2)] typed_args_of [OF reward_bounds(1)] g'] g' show ?thesis
    by (auto simp: newer_valset_def)
qed

section \<open>A batch\<close>

definition batch_digest :: bytes where
  "batch_digest = keccak256 evm_ref (ETHEREUM_SALT @ batchHash evm_ref (gid_bytes ''id'') [10] [2] [3] 1 5 200)"

definition batch_first_confirms :: "batch_confirm_response list" where
  "batch_first_confirms = [\<lparr>bcr_nonce = 1, bcr_orchestrator = CosmosAddress [1] ''cosmos'', bcr_token_contract = 5, bcr_ethereum_signer = 1,
     bcr_eth_signature = sign_ethereum_msg clarity_ref [1] batch_digest\<rparr>]"

definition batch_sigs :: "gravity_signature list" where
  "batch_sigs = map (ordered_signature batch_confirm (get_hashmap batch_confirm batch_first_confirms)) (vs_members genesis_set)"

lemma small_batch_args:
  "batch_amounts small_batch = [10]" "batch_destinations small_batch = [2]" "batch_fees small_batch = [3]"
  "batch_nonce small_batch = 1" "batch_token_contract small_batch = 5" "batch_timeout small_batch = 200"
  by (simp_all add: batch_amounts_def batch_destinations_def batch_fees_def small_batch_def)

lemma voted_batch: "voted_power batch_confirm genesis_set batch_first_confirms = 3000000000"
  by (simp add: voted_power_def vs_members_genesis two_members_def batch_first_confirms_def power_where_def get_hashmap_def batch_confirm_def has_voted_def)

lemma order_batch: "order_sigs (clarity_chain c) batch_confirm genesis_set batch_digest batch_first_confirms = Ret (Inr batch_sigs)"
proof -
  have "list_all (sound_vote clarity_ref batch_confirm batch_digest (get_hashmap batch_confirm batch_first_confirms)) (vs_members genesis_set)"
    by (simp add: vs_members_genesis two_members_def batch_first_confirms_def sound_vote_def get_hashmap_def batch_confirm_def clarity_ref_def key_number_single)
  moreover have "batch_first_confirms \<noteq> []" by (simp add: batch_first_confirms_def)
  ultimately show ?thesis
    unfolding order_sigs_Ok_iff sound_vote_chain voted_batch batch_sigs_def by (simp add: ACCEPTED_POWER_def)
qed

lemma typed_small_batch: "typed_call (batch_call genesis_set small_batch batch_sigs)"
proof -
  have "typed_signatures (map gs_v batch_sigs) (map gs_r batch_sigs) (map gs_s batch_sigs)"
    using key_number_word [of batch_digest]
    by (simp add: typed_signatures_def batch_sigs_def vs_members_genesis two_members_def batch_first_confirms_def signed_ref
        ordered_signature_def no_signature_def get_hashmap_def batch_confirm_def small_word_bound)
  then show ?thesis using reward_bounds by (simp add: batch_call_def typed_args_of small_batch_args small_word_bound)
qed

lemma batch_payload:
  "encode_batch_payload (clarity_chain (batch_call genesis_set small_batch batch_sigs)) genesis_set small_batch batch_first_confirms ''id'' = Ret (Inr [7])"
proof -
  have h: "encode_tx_batch_confirm_hashed (clarity_chain (batch_call genesis_set small_batch batch_sigs)) ''id'' small_batch = Ret batch_digest"
    using batch_hash_agrees [OF linked_chain [OF typed_small_batch], of "''id''" small_batch]
    by (simp add: small_batch_args batch_digest_def small_word_bound)
  have tok: "TDynamic (map (\<lambda>t. TUint (amount (tx_erc20_token t))) (batch_transactions small_batch)) = token_u256s (batch_amounts small_batch)"
    "TDynamic (map (\<lambda>t. TUint (amount (tx_erc20_fee t))) (batch_transactions small_batch)) = token_u256s (batch_fees small_batch)"
    "map tx_destination (batch_transactions small_batch) = batch_destinations small_batch"
    by (simp_all add: token_u256s_def batch_amounts_def batch_fees_def batch_destinations_def)
  show ?thesis
    unfolding encode_batch_payload_def get_checkpoint_values_total tok
    by (simp add: h order_batch) (simp add: to_arrays_def encode_valset_struct_token Let_def batch_call_def token_u64_def)
qed

theorem relayed_batch_executed_witness:
  "\<exists>g'. call_gravity evm_ref others_ref env_ref (batch_call genesis_set small_batch batch_sigs) deployed_gravity = Inr g' \<and>
     lastBatchNonce g' 5 = 1 \<and> made g' = [SafeTransfer 5 2 10, SafeTransfer 5 6 3]"
proof -
  have n: "lastBatchNonce deployed_gravity (batch_token_contract small_batch) < unat (batch_nonce small_batch)"
    "msg_block env_ref < unat (batch_timeout small_batch)"
    "\<not> unat (voted_power batch_confirm genesis_set batch_first_confirms) \<le> state_powerThreshold deployed_gravity" "made deployed_gravity = []"
    by (simp_all add: lastBatchNonce_def deployed_gravity_def small_batch_args env_ref_def vote_power_def voted_batch)
  have b: "sum_list (batch_fees small_batch) < word_bound" "byte_signatures batch_confirm batch_first_confirms"
    by (simp_all add: small_batch_args small_word_bound byte_signatures_def batch_first_confirms_def batch_confirm_def signed_ref)
  from relayed_batch_executed [OF linked_chain [OF typed_small_batch] reachable_deployed holds_genesis normalized_genesis b(1) batch_payload b(2),
      of others_ref env_ref] n room_deployed show ?thesis
    unfolding Let_def call_payload_chain outgoing_ref by (auto simp: small_batch_args env_ref_def) (simp add: small_batch_def)
qed

section \<open>Events\<close>

text \<open>A deposit of 1000 units on the deployed contract.\<close>

definition used_gravity :: gravity where
  "used_gravity = deployed_gravity\<lparr>state_lastEventNonce := 2,
     emitted := emitted deployed_gravity @ [SendToCosmosEvent 5 6 (replicate 32 1) 1000 2],
     made := [SafeTransferFrom 5 6 7 1000]\<rparr>"

lemma reachable_used: "reachable evm_ref used_gravity"
proof (rule reachable.called [OF reachable_deployed])
  show "typed_call (SendToCosmos 5 (replicate 32 1) 1000)" by (simp add: small_word_bound)
  have "safe_add 1 1 = Inr 2" using safe_add_exact [of 1 1] by (simp add: small_word_bound)
  then show "call_gravity evm_ref others_ref env_ref (SendToCosmos 5 (replicate 32 1) 1000) deployed_gravity = Inr used_gravity"
    by (simp add: sendToCosmos_def nonReentrant_def require_def call_out_def others_ref_def env_ref_def used_gravity_def
        deployed_gravity_def emit_next_def)
qed

definition used_blocks :: "(uint256 \<times> gravity_event) list" where
  "used_blocks = [(90, ValsetUpdatedEvent 0 1 0 0 [1, 2] [3000000000, 5]), (95, SendToCosmosEvent 5 6 (replicate 32 1) 1000 2)]"

lemma used_blocks_ok: "map snd used_blocks = emitted used_gravity" "readable (last (updates_of used_blocks))"
  by (simp_all add: used_blocks_def used_gravity_def deployed_gravity_def updates_of_def)

definition used_node :: web3 where
  "used_node = web3_ref\<lparr>web3_check_for_events := (\<lambda>lo hi _ sigs _.
     Inr (contract_logs evm_ref (filter (\<lambda>he. lo \<le> fst he \<and> fst he \<le> the hi) used_blocks) (hd sigs)))\<rparr>"

theorem relayer_finds_held_valset_witness:
  "yields (\<lambda>r. \<forall>v. r = Inr v \<longrightarrow> holds_valset used_gravity ''id'' v) (find_latest_valset libs_ref used_node grpc_ref 5)"
proof (rule relayer_finds_held_valset [OF _ libs_ref_laws(2) used_blocks_ok])
  show "node_of evm_ref used_node 5 used_blocks" by (simp add: node_of_def used_node_def used_blocks_def web3_ref_def)
qed (simp_all add: used_gravity_def deployed_gravity_def)

text \<open>The chain has the first event from us, and the oracle reads the range after it.\<close>

definition grpc_one :: grpc where
  "grpc_one = grpc_ref\<lparr>last_event_nonce_by_addr := (\<lambda>_ _. Inr 1)\<rparr>"

definition new_blocks :: "(uint256 \<times> gravity_event) list" where
  "new_blocks = [(95, SendToCosmosEvent 5 6 (replicate 32 1) 1000 2)]"

theorem contract_events_claimed_witness:
  "\<exists>r t msgs. claim_events libs_ref contact_ref grpc_one [1] ref_address \<lparr>denom = ''unom'', coin_amount = 1\<rparr> 100
       (contract_logs evm_ref new_blocks VALSET_UPDATED_EVENT_SIG) (contract_logs evm_ref new_blocks TRANSACTION_BATCH_EXECUTED_EVENT_SIG)
       (contract_logs evm_ref new_blocks SENT_TO_COSMOS_EVENT_SIG) (contract_logs evm_ref new_blocks ERC20_DEPLOYED_EVENT_SIG)
       (contract_logs evm_ref new_blocks LOGIC_CALL_EVENT_SIG) start_state = Some (r, t) \<and>
     trace t = [CosmosSendTransaction [1, 1]] \<and> map (\<lambda>m. claim_event_nonce (msg_value m)) msgs = [Some 2]"
proof -
  obtain b where b: "bech32_of libs_ref ref_address (get_prefix contact_ref) = Ret b" using bech32_ref by blast
  let ?args = "\<lparr>ma_sequence = 0, ma_account_number = 0, ma_chain_id = ''chain'', ma_fee = fee_of \<lparr>denom = ''unom'', coin_amount = 1\<rparr> 500000000\<rparr>"
  have n: "length [ValsetUpdatedEvent 0 1 0 0 [1, 2] [3000000000, 5]] \<le> unat (1 :: u64)" "unat (1 :: u64) < state_lastEventNonce used_gravity"
    and two: "state_lastEventNonce used_gravity = 2" by (simp_all add: used_gravity_def)
  have blocks: "emitted used_gravity = [ValsetUpdatedEvent 0 1 0 0 [1, 2] [3000000000, 5]] @ map snd new_blocks" "list_all readable new_blocks"
    "list_all (\<lambda>he. fst he < u64_MAX) new_blocks" by (simp_all add: new_blocks_def used_gravity_def deployed_gravity_def)
  have laws: "deep_space_bytes (ds libs_ref)" "num256_writes_be (nm libs_ref)" by (simp_all add: deep_space_ref_laws num256_ref_laws)
  have args: "get_message_args contact_ref ref_address (fee_of \<lparr>denom = ''unom'', coin_amount = 1\<rparr> 500000000) (Suc (clock start_state)) = Inr ?args"
    and start: "last_event_nonce_by_addr grpc_one b (clock start_state) = Inr 1" "horizon start_state = None" "trace start_state = []"
    by (simp_all add: contact_ref_def grpc_one_def start_state_def)
  have upto: "map (\<lambda>k. Some (of_nat k)) [Suc (unat (1 :: u64))..<Suc (state_lastEventNonce used_gravity)] = [Some (2 :: u64)]"
    unfolding two by (simp add: upt_rec)
  obtain msgs where msgs: "map (\<lambda>m. claim_event_nonce (msg_value m)) msgs = [Some 2]"
    and sent: "\<forall>b. sign_std_msg contact_ref [1] msgs ?args MEMO = Inr b \<longrightarrow>
      (\<exists>r t. claim_events libs_ref contact_ref grpc_one [1] ref_address \<lparr>denom = ''unom'', coin_amount = 1\<rparr> 100
       (contract_logs evm_ref new_blocks VALSET_UPDATED_EVENT_SIG) (contract_logs evm_ref new_blocks TRANSACTION_BATCH_EXECUTED_EVENT_SIG)
       (contract_logs evm_ref new_blocks SENT_TO_COSMOS_EVENT_SIG) (contract_logs evm_ref new_blocks ERC20_DEPLOYED_EVENT_SIG)
       (contract_logs evm_ref new_blocks LOGIC_CALL_EVENT_SIG) start_state = Some (r, t) \<and> trace t = trace start_state @ [CosmosSendTransaction b])"
    using contract_events_claimed [OF reachable_used blocks libs_ref_laws(2) laws bech32_ref our_address_ref b start(1) n args start(2), of 100]
    unfolding upto by (elim exE conjE) (rule that)
  from arg_cong [OF msgs, of length] have sig: "sign_std_msg contact_ref [1] msgs ?args MEMO = Inr [1, 1]" by (simp add: contact_ref_def)
  from sent [rule_format, OF sig] msgs start(3) show ?thesis by (elim exE conjE) (intro exI conjI, assumption, simp, assumption)
qed

text \<open>A node that knows of the announcement of the first set and of one more event.\<close>

definition stuck_node :: "gravity_event \<Rightarrow> web3" where
  "stuck_node ev = web3_ref\<lparr>web3_check_for_events := (\<lambda>lo hi _ sigs _.
     Inr (contract_logs evm_ref (filter (\<lambda>he. lo \<le> fst he \<and> fst he \<le> the hi)
       [(90, ValsetUpdatedEvent 0 1 0 0 [1, 2] [3000000000, 5]), (94, ev)]) (hd sigs)))\<rparr>"

theorem undecodable_denom_stops_oracle_witness:
  "\<exists>g' ev. call_gravity evm_ref others_ref env_ref (DeployERC20 [CHR 0xFF] ''name'' ''N'' 18) deployed_gravity = Inr g' \<and>
     emitted g' = emitted deployed_gravity @ [ev] \<and>
     fails (check_for_events libs_ref (stuck_node ev) contact_ref grpc_ref 5 [1] \<lparr>denom = ''unom'', coin_amount = 1\<rparr> 91) \<and>
     yields (\<lambda>b. b = 91) (oracle_iteration libs_ref (stuck_node ev) contact_ref grpc_ref [1] 5 \<lparr>denom = ''unom'', coin_amount = 1\<rparr> 91)"
proof -
  have d: "\<not> utf8_valid (map char_byte [CHR 0xFF])" "length [CHR 0xFF] \<le> u32_MAX" "state_lastEventNonce deployed_gravity < u64_MAX"
    by (simp_all add: char_byte_def deployed_gravity_def)
  have L: "libs_decode libs_ref" "num256_arith (nm libs_ref)" by (simp_all add: libs_ref_laws num256_ref_laws)
  obtain g' ev where g': "call_gravity evm_ref others_ref env_ref (DeployERC20 [CHR 0xFF] ''name'' ''N'' 18) deployed_gravity = Inr g'"
      "emitted g' = emitted deployed_gravity @ [ev]"
    and stop: "\<forall>blocks h N start. (h, ev) \<in> set blocks \<longrightarrow> node_of evm_ref N 5 blocks \<longrightarrow> start \<le> h \<longrightarrow>
       (\<forall>b t v t'. eth_block_number N t = Inr b \<longrightarrow> net_version N t' = Inr v \<longrightarrow> h + block_delay v \<le> b) \<longrightarrow>
       fails (check_for_events libs_ref N contact_ref grpc_ref 5 [1] \<lparr>denom = ''unom'', coin_amount = 1\<rparr> start) \<and>
       silent (oracle_iteration libs_ref N contact_ref grpc_ref [1] 5 \<lparr>denom = ''unom'', coin_amount = 1\<rparr> start) \<and>
       yields (\<lambda>b. b = start) (oracle_iteration libs_ref N contact_ref grpc_ref [1] 5 \<lparr>denom = ''unom'', coin_amount = 1\<rparr> start)"
    using undecodable_denom_stops_oracle [OF d(3,1,2) L, where E = evm_ref and W = others_ref and env = env_ref and n = "''name''"
        and symb = "''N''" and dec = 18 and c = 5 and K = contact_ref and G = grpc_ref and sk = "[1]"
        and fee = "\<lparr>denom = ''unom'', coin_amount = 1\<rparr>"] by blast
  let ?blocks = "[(90, ValsetUpdatedEvent 0 1 0 0 [1, 2] [3000000000, 5]), (94, ev)]"
  have "node_of evm_ref (stuck_node ev) 5 ?blocks" by (simp add: node_of_def stuck_node_def web3_ref_def)
  moreover have "\<forall>b t v t'. eth_block_number (stuck_node ev) t = Inr b \<longrightarrow> net_version (stuck_node ev) t' = Inr v \<longrightarrow> 94 + block_delay v \<le> b"
    by (simp add: stuck_node_def web3_ref_def block_delay_def)
  ultimately show ?thesis using stop [rule_format, of 94 ?blocks "stuck_node ev" 91] g' by auto
qed

section \<open>A batch at its timeout\<close>

definition late_node :: web3 where
  "late_node = web3_ref\<lparr>eth_block_number := (\<lambda>_. Inr 200), simulate_transaction := (\<lambda>_ _ _ _ _. Inr [0])\<rparr>"

definition late_libs :: libs where
  "late_libs = libs_ref\<lparr>cl := clarity_chain (batch_call genesis_set small_batch batch_sigs)\<rparr>"

theorem batch_sent_at_timeout_witness:
  "(\<exists>r t. send_eth_transaction_batch late_libs late_node genesis_set small_batch batch_first_confirms 60 5 ''id'' [1] start_state = Some (r, t) \<and>
      trace t = [EthSendTransaction 5 [7] 0 1 [1] [gas_price_multiplier]]) \<and>
   (\<nexists>g'. call_gravity evm_ref others_ref (env_ref\<lparr>msg_block := 200\<rparr>) (batch_call genesis_set small_batch batch_sigs)
      deployed_gravity = Inr g')"
proof -
  let ?c = "batch_call genesis_set small_batch batch_sigs"
  have libs: "cl late_libs = clarity_chain ?c" "nm late_libs = num256_ref" by (simp_all add: late_libs_def)
  have "encode_call (cl late_libs) ''lastBatchNonce(address)'' [TAddress 5] = Inr [8]"
    using not_a_query [of ?c] by (auto simp: libs)
  from nonce_query_result [OF _ _ this, of late_node 5 1 start_state "[0]"]
  have n: "get_tx_batch_nonce late_libs late_node 5 (batch_token_contract small_batch) (eth_key_to_address (clarity_chain ?c) [1]) start_state =
      Some (Ret (Inr 0), \<lparr>clock = 1, trace = [], horizon = None\<rparr>)"
    by (simp add: get_tx_batch_nonce_def small_batch_args libs num256_ref_laws late_node_def start_state_def be_value_def clarity_ref_def
        key_number_single)
  have addr: "eth_key_to_address (clarity_chain ?c) [1] = 1" by (simp add: clarity_ref_def key_number_single)
  show ?thesis
    using batch_sent_at_timeout [OF linked_chain [OF typed_small_batch] libs(1) n _ _ _ _ batch_payload, of 60]
    unfolding addr call_payload_chain by (fastforce simp: start_state_def small_batch_args late_node_def)
qed

end
