(* ===== verification/Proto_Build.thy ===== *)
theory Proto_Build
  imports Key_Store "HOL-Library.Sublist"
begin

text \<open>
  The generator of the protocol buffer bindings, \<open>proto_build/src/main.rs\<close>: it compiles the
  \<open>.proto\<close> files of the module into a temporary directory and copies what was generated into
  \<open>gravity_proto/src/prost\<close>, leaving out the packages that come from other crates and rewriting the
  paths that refer to them.  The directory walk, the two compilers and the regular expressions are
  crates and so parameters; the file system is the one of \<open>Key_Store\<close>, with the absolute paths
  starting with the component \<open>/\<close>.
\<close>

section \<open>What the standard library does with paths, directories and strings\<close>

definition path_parent :: "path \<Rightarrow> path option" where
  "path_parent p = (if p = [] \<or> p = [''/''] then None else Some (butlast p))"

definition path_file_name :: "path \<Rightarrow> string option" where
  "path_file_name p = (if p = [] \<or> last p \<in> {''/'', ''..''} then None else Some (last p))"

text \<open>The part of the file name after its last dot, where something precedes that dot.\<close>

definition path_extension :: "path \<Rightarrow> string option" where
  "path_extension p =
     (case path_file_name p of
        None \<Rightarrow> None
      | Some name \<Rightarrow>
          (case dropWhile (\<lambda>c. c \<noteq> CHR ''.'') (rev name) of
             _ # _ # _ \<Rightarrow> Some (rev (takeWhile (\<lambda>c. c \<noteq> CHR ''.'') (rev name)))
           | _ \<Rightarrow> None))"

text \<open>A disk whose system also refuses, or does not get to, the removal of some entries.\<close>

record build_disk = disk +
  undeletable :: "path \<Rightarrow> bool"

definition below :: "path \<Rightarrow> path \<Rightarrow> bool" where
  "below p q \<longleftrightarrow> take (length p) q = p"

text \<open>The callers ignore the result of \<open>remove_dir_all\<close>, so only its effect is given.\<close>

definition remove_dir_all :: "build_disk \<Rightarrow> path \<Rightarrow> fs \<Rightarrow> fs" where
  "remove_dir_all D p fs =
     (if fs p = Some Directory then (\<lambda>q. if below p q \<and> \<not> undeletable D q then None else fs q) else fs)"

function create_dir_all :: "build_disk \<Rightarrow> path \<Rightarrow> fs \<Rightarrow> (string + unit) \<times> fs" where
  "create_dir_all D p fs =
     (if p = [] then (Inr (), fs)
      else case create_dir (disk.truncate D) p fs of
        Inr fs' \<Rightarrow> (Inr (), fs')
      | Inl e \<Rightarrow>
          if fs p = Some Directory then (Inr (), fs)
          else if fs (butlast p) \<noteq> None then (Inl e, fs)
          else case path_parent p of
            None \<Rightarrow> (Inl ''failed to create whole tree'', fs)
          | Some parent \<Rightarrow>
              (case create_dir_all D parent fs of
                 (Inl e, fs') \<Rightarrow> (Inl e, fs')
               | (Inr _, fs') \<Rightarrow>
                   (case create_dir (disk.truncate D) p fs' of
                      Inl e \<Rightarrow> (Inl e, fs') | Inr fs'' \<Rightarrow> (Inr (), fs''))))"
  by pat_completeness auto
termination
  by (relation "measure (\<lambda>(_, p, _). length p)") (auto simp: path_parent_def split: if_splits)

declare create_dir_all.simps [simp del]

text \<open>Replacement of all matches from left to right.  A matcher says how many characters at the start
  of a text it matches; an empty match is not a match.\<close>

fun replace_matches :: "(string \<Rightarrow> nat option) \<Rightarrow> string \<Rightarrow> string \<Rightarrow> string" where
  "replace_matches m r [] = []"
| "replace_matches m r (c # cs) =
     (case m (c # cs) of
        Some (Suc n) \<Rightarrow> r @ replace_matches m r (drop n cs)
      | _ \<Rightarrow> c # replace_matches m r cs)"

definition literal_match :: "string \<Rightarrow> string \<Rightarrow> nat option" where
  "literal_match pat s = (if take (length pat) s = pat then Some (length pat) else None)"

definition str_replace :: "string \<Rightarrow> string \<Rightarrow> string \<Rightarrow> string" where
  "str_replace s pat r = replace_matches (literal_match pat) r s"

definition starts_with :: "string \<Rightarrow> string \<Rightarrow> bool" where
  "starts_with s pat \<longleftrightarrow> take (length pat) s = pat"

fun join_lines :: "string list \<Rightarrow> string" where
  "join_lines [] = []"
| "join_lines [l] = l"
| "join_lines (l # ls) = l @ newline @ join_lines ls"


section \<open>The crates\<close>

datatype walk_entry = Walk_Entry (into_path: path) (is_file: bool)

record build_tools =
  walk_dir :: "path \<Rightarrow> fs \<Rightarrow> (string + walk_entry) list"
  prost_compile :: "path \<Rightarrow> path list \<Rightarrow> path list \<Rightarrow> fs \<Rightarrow> (string + unit) \<times> fs"
  tonic_compile :: "path \<Rightarrow> path list \<Rightarrow> path list \<Rightarrow> fs \<Rightarrow> (string + unit) \<times> fs"
  regex_replace_all :: "string \<Rightarrow> (string \<Rightarrow> string \<Rightarrow> string) option"


section \<open>The generator\<close>

definition EXCLUDED_PROTO_PACKAGES :: "string list" where
  "EXCLUDED_PROTO_PACKAGES = [''gogoproto'', ''google'', ''tendermint'', ''cosmos.base'', ''cosmos_proto'']"

definition quote :: string where "quote = [char_of (34 :: nat)]"

definition TONIC_CLIENT_ATTRIBUTE :: string where
  "TONIC_CLIENT_ATTRIBUTE = ''#[doc = r'' @ quote @ '' Generated client implementations.'' @ quote @ '']''"

definition GRPC_CLIENT_ATTRIBUTES :: "string list" where
  "GRPC_CLIENT_ATTRIBUTES =
     [''#[cfg(feature = '' @ quote @ ''grpc'' @ quote @ '')]'',
      ''#[cfg_attr(docsrs, doc(cfg(feature = '' @ quote @ ''grpc'' @ quote @ '')))]'',
      TONIC_CLIENT_ATTRIBUTE]"

definition COSMOS_SDK_PROTO_REGEX :: string where "COSMOS_SDK_PROTO_REGEX = ''(super::)+cosmos''"

definition TMP_PATH :: path where "TMP_PATH = [''/'', ''tmp'', ''gravity'']"
definition OUT_PATH :: path where "OUT_PATH = [''..'', ''gravity_proto'', ''src'', ''prost'']"

text \<open>The loop over the excluded packages with its early return.\<close>

definition excluded :: "path \<Rightarrow> bool" where
  "excluded src \<longleftrightarrow>
     list_ex (\<lambda>package. case path_file_name src of
         Some filename \<Rightarrow> starts_with filename (package @ ''.'') | None \<Rightarrow> False) EXCLUDED_PROTO_PACKAGES"

definition patch_contents :: "(string \<Rightarrow> string \<Rightarrow> string) \<Rightarrow> string \<Rightarrow> string" where
  "patch_contents replace_all contents =
     str_replace (replace_all contents ''cosmos_sdk_proto::cosmos'') TONIC_CLIENT_ATTRIBUTE (join_lines GRPC_CLIENT_ATTRIBUTES)"

definition copy_and_patch :: "build_tools \<Rightarrow> build_disk \<Rightarrow> path \<Rightarrow> path \<Rightarrow> (string + unit) disk_op" where
  "copy_and_patch P D src dest fs =
     (if excluded src then (Ret (Inr ()), fs)
      else case read_to_string (disk.truncate D) src fs of
        Inl e \<Rightarrow> (Ret (Inl e), fs)
      | Inr contents \<Rightarrow>
          (case regex_replace_all P COSMOS_SDK_PROTO_REGEX of
             None \<Rightarrow> (Panic ''called unwrap on an Err value'', fs)
           | Some replace_all \<Rightarrow>
               (case fs_write (disk.truncate D) dest (patch_contents replace_all contents) fs of
                  Inl e \<Rightarrow> (Ret (Inl e), fs)
                | Inr fs' \<Rightarrow> (Ret (Inr ()), fs'))))"

text \<open>\<open>filter_map(|e| e.ok())\<close> on the entries of a walk.\<close>

definition walked :: "build_tools \<Rightarrow> path \<Rightarrow> fs \<Rightarrow> walk_entry list" where
  "walked P p fs = concat (map (\<lambda>e. case e of Inr x \<Rightarrow> [x] | Inl _ \<Rightarrow> []) (walk_dir P p fs))"

text \<open>\<open>.unwrap()\<close> and \<open>.unwrap_or_else(|_| panic!(..))\<close> on what may change the file system before it fails.\<close>

definition expect_run :: "(fs \<Rightarrow> (string + unit) \<times> fs) \<Rightarrow> string \<Rightarrow> unit disk_op" where
  "expect_run m message fs = (case m fs of (Inr _, fs') \<Rightarrow> (Ret (), fs') | (Inl _, fs') \<Rightarrow> (Panic message, fs'))"

definition unwrap_run :: "(fs \<Rightarrow> (string + unit) \<times> fs) \<Rightarrow> unit disk_op" where
  "unwrap_run m = expect_run m ''called unwrap on an Err value''"

text \<open>The copies one after the other, and the errors they gave.\<close>

fun copy_files :: "build_tools \<Rightarrow> build_disk \<Rightarrow> path \<Rightarrow> walk_entry list \<Rightarrow> string list disk_op" where
  "copy_files P D to_dir [] = return_fs []"
| "copy_files P D to_dir (e # es) =
     bind_fs (reading (\<lambda>_. unwrap_opt (path_file_name (into_path e)))) (\<lambda>filename.
     bind_fs (copy_and_patch P D (into_path e) (path_join to_dir filename)) (\<lambda>res.
     bind_fs (copy_files P D to_dir es) (\<lambda>errors.
     return_fs (case res of Inl err \<Rightarrow> err # errors | Inr _ \<Rightarrow> errors))))"

definition copy_generated_files :: "build_tools \<Rightarrow> build_disk \<Rightarrow> path \<Rightarrow> path \<Rightarrow> unit disk_op" where
  "copy_generated_files P D from_dir to_dir fs =
     bind_fs (unwrap_run (create_dir_all D to_dir)) (\<lambda>_.
     bind_fs (\<lambda>fs. copy_files P D to_dir (filter is_file (walked P from_dir fs)) fs) (\<lambda>errors.
     if errors \<noteq> [] then reading (\<lambda>_. Panic ''[error] Aborted.'') else return_fs ()))
       (remove_dir_all D to_dir fs)"

definition proto_files :: "build_tools \<Rightarrow> path list \<Rightarrow> fs \<Rightarrow> path list" where
  "proto_files P proto_paths fs =
     concat (map (\<lambda>p. map into_path
       (filter (\<lambda>e. is_file e \<and> path_extension (into_path e) = Some ''proto'') (walked P p fs))) proto_paths)"

text \<open>The directory of the manifest is fixed when the program is compiled.\<close>

definition compile_protos :: "build_tools \<Rightarrow> build_disk \<Rightarrow> path \<Rightarrow> path \<Rightarrow> path \<Rightarrow> unit disk_op" where
  "compile_protos P D manifest_dir out_dir tmp_dir =
     bind_fs (reading (\<lambda>_. unwrap_opt (path_parent manifest_dir))) (\<lambda>up.
     bind_fs (reading (\<lambda>_. unwrap_opt (path_parent up))) (\<lambda>root.
     bind_fs (reading (\<lambda>fs. Ret (proto_files P [root @ [''module'', ''proto'', ''nab'', ''v1'']] fs))) (\<lambda>protos.
     bind_fs (expect_run (create_dir_all D tmp_dir) ''Failed to create'') (\<lambda>_.
     let proto_include_paths = [root @ [''module'', ''proto''], root @ [''module'', ''third_party'', ''proto'']] in
     bind_fs (unwrap_run (prost_compile P tmp_dir protos proto_include_paths)) (\<lambda>_.
     bind_fs (unwrap_run (tonic_compile P tmp_dir protos proto_include_paths)) (\<lambda>_.
     copy_generated_files P D tmp_dir out_dir))))))"

definition proto_build_main :: "build_tools \<Rightarrow> build_disk \<Rightarrow> path \<Rightarrow> unit disk_op" where
  "proto_build_main P D manifest_dir = compile_protos P D manifest_dir OUT_PATH TMP_PATH"

section \<open>Regular expressions\<close>

text \<open>The part of the syntax of the \<open>regex\<close> crate that the generator uses: sequences of literal characters and of
  groups of literal characters, each once or, with a \<open>+\<close>, once or more.\<close>

datatype regex_item = One string | Many string

definition plain_char :: "char \<Rightarrow> bool" where
  "plain_char c \<longleftrightarrow> of_char c < (128 :: nat) \<and> c \<notin> set (char_of (92 :: nat) # ''.+*?()|[]{}^$'')"

definition regex_atom :: "string \<Rightarrow> (string \<times> string) option" where
  "regex_atom p =
     (case p of
        [] \<Rightarrow> None
      | c # cs \<Rightarrow>
          if c = CHR ''('' then
            (case (takeWhile plain_char cs, dropWhile plain_char cs) of
               (x # xs, d # rest) \<Rightarrow> if d = CHR '')'' then Some (x # xs, rest) else None
             | _ \<Rightarrow> None)
          else if plain_char c then Some ([c], cs)
          else None)"

lemma regex_atom_shorter: "regex_atom p = Some (w, rest) \<Longrightarrow> w \<noteq> [] \<and> length rest < length p"
  using length_dropWhile_le [of plain_char "tl p"]
  by (auto simp: regex_atom_def split: list.splits if_splits)

function parse_regex :: "string \<Rightarrow> regex_item list option" where
  "parse_regex p =
     (if p = [] then Some []
      else case regex_atom p of
        None \<Rightarrow> None
      | Some (w, rest) \<Rightarrow>
          (case rest of
             c # cs \<Rightarrow> if c = CHR ''+'' then map_option ((#) (Many w)) (parse_regex cs) else map_option ((#) (One w)) (parse_regex rest)
           | [] \<Rightarrow> Some [One w]))"
  by pat_completeness auto
termination
  by (relation "measure length") (auto dest!: regex_atom_shorter)

declare parse_regex.simps [simp del]

lemma starts_with_iff: "starts_with s p \<longleftrightarrow> (\<exists>t. s = p @ t)"
  by (metis append_take_drop_id append_eq_conv_conj starts_with_def)

lemma starts_with_shorter: "w \<noteq> [] \<Longrightarrow> starts_with s w \<Longrightarrow> length s - length w < length s"
  by (auto simp: starts_with_iff)

text \<open>The length of the match at the start of a text, where there is one.  Of the ways to match the crate takes the
  first in the order of preference, in which a repetition goes on as long as it can.\<close>

function match_regex :: "regex_item list \<Rightarrow> string \<Rightarrow> nat option" where
  "match_regex [] s = Some 0"
| "match_regex (One w # r) s =
     (if starts_with s w then map_option ((+) (length w)) (match_regex r (drop (length w) s)) else None)"
| "match_regex (Many w # r) s =
     (if w \<noteq> [] \<and> starts_with s w then
        (case match_regex (Many w # r) (drop (length w) s) of
           Some n \<Rightarrow> Some (length w + n)
         | None \<Rightarrow> map_option ((+) (length w)) (match_regex r (drop (length w) s)))
      else None)"
  by pat_completeness auto
termination
  by (relation "measures [\<lambda>(r, s). length r, \<lambda>(r, s). length s]") (auto dest!: starts_with_shorter)

text \<open>What the crate documents of \<open>Regex::new\<close> and \<open>replace_all\<close> for such a pattern, if it is not empty: it
  compiles, and the leftmost matches are replaced one after the other by a replacement that names no
  group.\<close>

definition regex_crate :: "build_tools \<Rightarrow> bool" where
  "regex_crate P \<longleftrightarrow> (\<forall>p r. parse_regex p = Some r \<and> r \<noteq> [] \<longrightarrow>
     (\<exists>f. regex_replace_all P p = Some f \<and>
       (\<forall>s t. CHR ''$'' \<notin> set t \<longrightarrow> f s t = replace_matches (match_regex r) t s)))"

section \<open>The rewritten paths\<close>

text \<open>The matches of the regular expression: the longest run of \<open>super::\<close>, if it is not empty and
  \<open>cosmos\<close> follows.\<close>

lemma starts_with_nonempty: "starts_with s (x # p) \<Longrightarrow> s \<noteq> []"
  by (auto simp: starts_with_def)

function super_run :: "string \<Rightarrow> nat" where
  "super_run s = (if starts_with s ''super::'' then 7 + super_run (drop 7 s) else 0)"
  by pat_completeness auto
termination
  by (relation "measure length") (auto dest!: starts_with_nonempty)

declare super_run.simps [simp del]

definition path_match :: "string \<Rightarrow> nat option" where
  "path_match s = (let n = super_run s in if 0 < n \<and> starts_with (drop n s) ''cosmos'' then Some (n + 6) else None)"

definition rewrite_paths :: "string \<Rightarrow> string" where
  "rewrite_paths s = replace_matches path_match ''cosmos_sdk_proto::cosmos'' s"

text \<open>What a replaced text shows before the replacement could begin was in the text.\<close>

lemma replace_matches_prefix:
  assumes "hd r \<notin> set p" "r \<noteq> []" "replace_matches m r s = p @ t"
  shows "\<exists>u. s = p @ u \<and> t = replace_matches m r u"
  using assms
proof (induction p arbitrary: s)
  case (Cons x p)
  then obtain c cs where s: "s = c # cs" by (cases s) auto
  have "c = x \<and> replace_matches m r cs = p @ t"
    using Cons.prems by (cases r) (auto simp: s split: option.splits nat.splits)
  with Cons.IH [of cs] Cons.prems(1,2) show ?case by (auto simp: s)
qed simp

lemma super_run_super [simp]: "super_run (''super::'' @ t) = 7 + super_run t"
  by (subst super_run.simps) (simp add: starts_with_def)

lemma super_run_other [simp]: "\<not> starts_with s ''super::'' \<Longrightarrow> super_run s = 0"
  by (subst super_run.simps) simp

lemma path_match_super:
  assumes "starts_with t ''cosmos'' \<or> path_match t \<noteq> None"
  shows "path_match (''super::'' @ t) \<noteq> None"
proof -
  have drop7: "drop (7 + n) (''super::'' @ t) = drop n t" for n
    by (subst add.commute, subst drop_drop [symmetric]) simp
  have "super_run t = 0" if "starts_with t ''cosmos''"
    using that by (intro super_run_other) (auto simp: starts_with_iff)
  with assms show ?thesis
    unfolding path_match_def Let_def super_run_super drop7 by (auto split: if_splits)
qed

lemma path_match_Some:
  assumes "path_match s = Some n"
  shows "\<exists>a. s = a @ ''cosmos'' @ drop n s"
proof -
  from assms have n: "n = super_run s + 6" "starts_with (drop (super_run s) s) ''cosmos''"
    by (auto simp: path_match_def Let_def split: if_splits)
  then obtain t where t: "drop (super_run s) s = ''cosmos'' @ t" by (auto simp: starts_with_iff)
  have "drop n s = drop 6 (drop (super_run s) s)" by (simp add: n(1) add.commute)
  then have "drop n s = t" by (simp add: t)
  with t show ?thesis by (metis append_take_drop_id)
qed

text \<open>So the pattern is a run of \<open>super::\<close> and \<open>cosmos\<close>, and its matches are those given above.\<close>

lemma parse_path_regex: "parse_regex COSMOS_SDK_PROTO_REGEX = Some (Many ''super::'' # map (\<lambda>c. One [c]) ''cosmos'')"
  by (simp add: COSMOS_SDK_PROTO_REGEX_def parse_regex.simps regex_atom_def plain_char_def char_of_def)

lemma match_literals: "match_regex (map (\<lambda>c. One [c]) w) s = (if starts_with s w then Some (length w) else None)"
  by (induction w arbitrary: s) (auto simp: starts_with_iff)

lemma match_path_regex: "match_regex (Many ''super::'' # map (\<lambda>c. One [c]) ''cosmos'') s = path_match s" (is "match_regex ?r s = _")
proof (induction s rule: super_run.induct)
  case (1 s)
  show ?case
  proof (cases "starts_with s ''super::''")
    case True
    then obtain t where s: "s = ''super::'' @ t" by (auto simp: starts_with_iff)
    have drop7: "drop (7 + n) s = drop n t" for n
      unfolding s by (subst add.commute, subst drop_drop [symmetric]) simp
    have s7: "length ''super::'' = 7" "length ''cosmos'' = 6" by simp_all
    have run: "super_run t = 0" if "starts_with t ''cosmos''"
      using that by (intro super_run_other) (auto simp: starts_with_iff)
    have "match_regex ?r s = (case path_match t of Some n \<Rightarrow> Some (7 + n) | None \<Rightarrow> if starts_with t ''cosmos'' then Some 13 else None)"
      using True 1 [OF True] match_literals [of "''cosmos''" t, unfolded s7] drop7 [of 0]
      by (subst match_regex.simps(3), unfold s7) (simp split: option.splits del: list.map match_regex.simps)
    also have "\<dots> = path_match s"
      using run unfolding path_match_def Let_def s super_run_super drop7 [unfolded s] by (auto split: if_splits)
    finally show ?thesis .
  qed (simp add: path_match_def)
qed

text \<open>The texts in which a rewritten path can be glued to what follows it.\<close>

lemma rewrite_cosmos:
  assumes "rewrite_paths t = ''cosmos'' @ v"
  shows "starts_with t ''cosmos'' \<or> path_match t \<noteq> None"
proof (rule disjCI)
  assume "\<not> path_match t \<noteq> None"
  then have none: "path_match t = None" by simp
  from assms none obtain cs where t: "t = CHR ''c'' # cs" "rewrite_paths cs = ''osmos'' @ v"
    by (cases t) (auto simp: rewrite_paths_def)
  from replace_matches_prefix [OF _ _ t(2) [unfolded rewrite_paths_def]] show "starts_with t ''cosmos''"
    by (auto simp: t(1) starts_with_iff)
qed

lemma rewrite_uper:
  assumes "rewrite_paths t = ''uper::cosmos'' @ v"
  shows "\<exists>u. t = ''uper::'' @ u \<and> path_match (CHR ''s'' # t) \<noteq> None"
proof -
  have "rewrite_paths t = ''uper::'' @ (''cosmos'' @ v)" using assms by simp
  from replace_matches_prefix [OF _ _ this [unfolded rewrite_paths_def]]
  obtain u where u: "t = ''uper::'' @ u" "rewrite_paths u = ''cosmos'' @ v"
    by (auto simp: rewrite_paths_def)
  from path_match_super [OF rewrite_cosmos [OF u(2)]] show ?thesis by (auto simp: u(1))
qed

lemma prefix_super: "prefix ''super::cosmos'' (c # cs) \<longleftrightarrow> c = CHR ''s'' \<and> prefix ''uper::cosmos'' cs"
  by auto

lemma overlap_s:
  assumes "''super::cosmos'' = a @ b" "suffix a ''cosmos_sdk_proto::cosmos''"
  shows "a = [] \<and> b = ''super::cosmos'' \<or> a = ''s'' \<and> b = ''uper::cosmos''"
proof -
  from assms have "prefix a ''super::cosmos''" by (simp add: prefix_def)
  then have "a \<in> set (prefixes ''super::cosmos'')" by (simp only: in_set_prefixes)
  then have "a \<in> {[], ''s''} \<or> \<not> suffix a ''cosmos_sdk_proto::cosmos''"
    by (simp del: in_set_prefixes) (elim disjE; simp add: suffix_to_prefix)
  with assms show ?thesis by auto
qed

lemma rewrite_paths_clean:
  assumes "\<not> sublist ''cosmosuper::'' s"
  shows "\<not> sublist ''super::cosmos'' (rewrite_paths s)"
  using assms
proof (induction "length s" arbitrary: s rule: less_induct)
  case less
  show ?case
  proof (cases s)
    case (Cons c cs)
    show ?thesis
    proof (cases "path_match s")
      case None
      then have out: "rewrite_paths s = c # rewrite_paths cs" by (simp add: Cons rewrite_paths_def)
      have tail: "\<not> sublist ''super::cosmos'' (rewrite_paths cs)"
        using less Cons by (simp add: sublist_Cons_right)
      have "\<not> prefix ''super::cosmos'' (rewrite_paths s)"
        using rewrite_uper [of cs] None unfolding out prefix_super by (auto simp: Cons prefix_def)
      with tail show ?thesis unfolding out by (simp only: sublist_Cons_right) blast
    next
      case (Some n)
      obtain a where a: "s = a @ ''cosmos'' @ drop n s" using path_match_Some [OF Some] by blast
      have n: "0 < n" using Some by (auto simp: path_match_def Let_def split: if_splits)
      then have out: "rewrite_paths s = ''cosmos_sdk_proto::cosmos'' @ rewrite_paths (drop n s)"
        using Some by (cases n) (simp_all add: Cons rewrite_paths_def)
      have "\<not> sublist ''cosmosuper::'' (drop n s)"
        using less.prems sublist_order.order.trans [OF _ sublist_drop] by blast
      then have rest: "\<not> sublist ''super::cosmos'' (rewrite_paths (drop n s))"
        using n by (intro less.hyps) (simp_all add: Cons)
      have "\<not> prefix ''uper::cosmos'' (rewrite_paths (drop n s))"
      proof
        assume "prefix ''uper::cosmos'' (rewrite_paths (drop n s))"
        then obtain u where "drop n s = ''uper::'' @ u" using rewrite_uper by (auto simp: prefix_def)
        with a have "s = a @ ''cosmosuper::'' @ u" by simp
        with less.prems show False by (metis sublist_appendI)
      qed
      then have "\<not> (\<exists>xs ys. ''super::cosmos'' = xs @ ys \<and> suffix xs ''cosmos_sdk_proto::cosmos'' \<and>
          prefix ys (rewrite_paths (drop n s)))"
        using overlap_s rest by (metis prefix_imp_sublist)
      with rest show ?thesis unfolding out sublist_append by (simp add: sublist_code)
    qed
  qed (simp add: rewrite_paths_def)
qed

text \<open>A replacement that begins and ends with characters foreign to a word does not complete it.\<close>

lemma replace_matches_clean:
  assumes r: "r \<noteq> []" "hd r \<notin> set w" "last r \<notin> set w" "\<not> sublist w r" and "\<not> sublist w s"
  shows "\<not> sublist w (replace_matches m r s)"
  using assms(5)
proof (induction "length s" arbitrary: s rule: less_induct)
  case less
  show ?case
  proof (cases s)
    case (Cons c cs)
    have copied: ?thesis if out: "replace_matches m r s = c # replace_matches m r cs"
    proof -
      have tail: "\<not> sublist w (replace_matches m r cs)"
        using less Cons by (simp add: sublist_Cons_right)
      have "\<not> prefix w (c # replace_matches m r cs)"
      proof
        assume "prefix w (c # replace_matches m r cs)"
        then obtain t where "w = [] \<or> (\<exists>v. w = c # v \<and> replace_matches m r cs = v @ t)"
          by (auto simp: prefix_def Cons_eq_append_conv)
        then have "prefix w s"
          using replace_matches_prefix [OF _ r(1)] r(2) Cons by (fastforce simp: prefix_def)
        with less.prems show False by (blast dest: prefix_imp_sublist)
      qed
      with tail show ?thesis unfolding out by (simp add: sublist_Cons_right)
    qed
    show ?thesis
    proof (cases "\<exists>n. m s = Some (Suc n)")
      case True
      then obtain n where out: "replace_matches m r s = r @ replace_matches m r (drop n cs)" by (auto simp: Cons)
      have "\<not> sublist w (drop n cs)"
        using less.prems sublist_order.order.trans [OF _ sublist_drop [of n cs]] Cons by (auto simp: sublist_Cons_right)
      then have rest: "\<not> sublist w (replace_matches m r (drop n cs))"
        by (intro less.hyps) (simp_all add: Cons)
      have "a = []" if "w = a @ b" "suffix a r" for a b
        using that r(1,3) by (metis Un_iff last_appendR last_in_set set_append suffix_def)
      with rest r(4) show ?thesis unfolding out sublist_append by (metis append_Nil prefix_imp_sublist)
    next
      case False
      then show ?thesis by (intro copied) (simp add: Cons split: option.splits nat.splits)
    qed
  qed (use less.prems in simp)
qed

text \<open>C31: the regular expression of the generator compiles, and no path to a cosmos crate is left relative in a
  file it has patched, however long the path was, if no identifier of the generated file ends one \<open>cosmos\<close> with the
  letter another path starts with (\<open>cosmosuper::\<close>).\<close>

theorem generated_paths_rewritten:
  assumes "regex_crate P" "\<not> sublist ''cosmosuper::'' contents"
  shows "\<exists>f. regex_replace_all P COSMOS_SDK_PROTO_REGEX = Some f \<and> \<not> sublist ''super::cosmos'' (patch_contents f contents)"
proof -
  let ?r = "Many ''super::'' # map (\<lambda>c. One [c]) ''cosmos''"
  have "match_regex ?r = path_match" by (rule ext) (rule match_path_regex)
  moreover obtain f where f: "regex_replace_all P COSMOS_SDK_PROTO_REGEX = Some f"
      "\<forall>s t. CHR ''$'' \<notin> set t \<longrightarrow> f s t = replace_matches (match_regex ?r) t s"
    using assms(1) [unfolded regex_crate_def, rule_format, OF conjI, OF parse_path_regex] by blast
  ultimately have "f contents ''cosmos_sdk_proto::cosmos'' = rewrite_paths contents"
    unfolding rewrite_paths_def by simp
  with rewrite_paths_clean [OF assms(2)] have "\<not> sublist ''super::cosmos'' (f contents ''cosmos_sdk_proto::cosmos'')" by simp
  then have "\<not> sublist ''super::cosmos'' (patch_contents f contents)"
    unfolding patch_contents_def str_replace_def
    by (rule replace_matches_clean [rotated 4])
      (simp_all add: GRPC_CLIENT_ATTRIBUTES_def TONIC_CLIENT_ATTRIBUTE_def quote_def newline_def sublist_code char_of_def)
  with f(1) show ?thesis by blast
qed

section \<open>The copied files\<close>

text \<open>The laws of a directory walk: it finds entries below the directory, tells files from
  directories, and depends on nothing outside.\<close>

definition walks :: "build_tools \<Rightarrow> bool" where
  "walks P \<longleftrightarrow>
     (\<forall>p fs e. Inr e \<in> set (walk_dir P p fs) \<longrightarrow>
        below p (into_path e) \<and> (is_file e \<longrightarrow> path_file_name (into_path e) \<noteq> None \<and> (\<exists>s. fs (into_path e) = Some (File s)))) \<and>
     (\<forall>p fs fs'. (\<forall>q. below p q \<longrightarrow> fs q = fs' q) \<longrightarrow> walk_dir P p fs = walk_dir P p fs')"

text \<open>A disk that lets the generator read the one directory and replace the other.\<close>

definition lets_copy :: "build_disk \<Rightarrow> path \<Rightarrow> path \<Rightarrow> bool" where
  "lets_copy D from_dir to_dir \<longleftrightarrow>
     (\<forall>q. (below from_dir q \<longrightarrow> \<not> read_denied D q) \<and> (below to_dir q \<longrightarrow> \<not> write_denied D q \<and> \<not> undeletable D q))"

text \<open>The output directory is there, or nothing is there in its place.\<close>

definition replaceable :: "path \<Rightarrow> fs \<Rightarrow> bool" where
  "replaceable p fs \<longleftrightarrow> p \<noteq> [] \<and> fs (butlast p) = Some Directory \<and>
     (fs p = Some Directory \<or> (\<forall>q. below p q \<longrightarrow> fs q = None))"

definition file_text :: "fs \<Rightarrow> path \<Rightarrow> string" where
  "file_text fs p = (case fs p of Some (File s) \<Rightarrow> s | _ \<Rightarrow> '''')"

text \<open>What a generated file becomes in the output directory.\<close>

definition copies :: "(string \<Rightarrow> string \<Rightarrow> string) \<Rightarrow> path \<Rightarrow> fs \<Rightarrow> walk_entry list \<Rightarrow> (path \<times> node) list" where
  "copies f to_dir fs es =
     map (\<lambda>e. (path_join to_dir (last (into_path e)), File (patch_contents f (file_text fs (into_path e)))))
       (filter (\<lambda>e. \<not> excluded (into_path e)) es)"

lemma copies_cong:
  "(\<And>e. e \<in> set es \<Longrightarrow> fs (into_path e) = fs' (into_path e)) \<Longrightarrow> copies f to_dir fs es = copies f to_dir fs' es"
  by (simp add: copies_def file_text_def)

lemma below_join: "below p (path_join p n)" by (simp add: below_def path_join_def)

lemma below_trans: "below p q \<Longrightarrow> below q r \<Longrightarrow> below p r"
  by (auto simp: below_def) (metis min.absorb1 take_take length_take min.cobounded2 nat_le_linear take_all)

lemma below_comparable: "below p q \<Longrightarrow> below r q \<Longrightarrow> below p r \<or> below r p"
  by (auto simp: below_def) (metis linear min.absorb1 min.absorb2 take_take)

lemma disk_truncate [simp]:
  "write_denied (disk.truncate D) = write_denied D" "read_denied (disk.truncate D) = read_denied D"
  by (simp_all add: disk.truncate_def)

lemma file_name_last: "path_file_name p \<noteq> None \<Longrightarrow> path_file_name p = Some (last p)"
  by (auto simp: path_file_name_def split: if_splits)

text \<open>The loop over the entries writes exactly the copies, in their order.\<close>

lemma copy_files_result:
  assumes f: "regex_replace_all P COSMOS_SDK_PROTO_REGEX = Some f"
    and D: "\<And>n. \<not> write_denied D (path_join to_dir n)"
    and es: "\<And>e. e \<in> set es \<Longrightarrow> path_file_name (into_path e) \<noteq> None \<and> \<not> read_denied D (into_path e) \<and>
      \<not> below to_dir (into_path e) \<and> (\<exists>s. fs (into_path e) = Some (File s))"
    and fs: "fs to_dir = Some Directory" "\<And>n. fs (path_join to_dir n) \<noteq> Some Directory"
  shows "copy_files P D to_dir es fs = (Ret [], fs ++ map_of (rev (copies f to_dir fs es)))"
  using es fs
proof (induction es arbitrary: fs)
  case Nil
  then show ?case by (simp add: copies_def return_fs_def)
next
  case (Cons e es)
  let ?src = "into_path e" let ?d = "path_join to_dir (last (into_path e))"
  from Cons.prems(1) [of e] obtain s where e: "path_file_name ?src = Some (last ?src)" "\<not> read_denied D ?src" "fs ?src = Some (File s)"
    using file_name_last by auto
  define fs' where "fs' = (if excluded ?src then fs else fs(?d \<mapsto> File (patch_contents f s)))"
  have step: "copy_and_patch P D ?src ?d fs = (Ret (Inr ()), fs')"
    using e Cons.prems(2,3) f D by (simp add: copy_and_patch_def fs'_def read_to_string_def fs_write_def)
  have same: "fs' q = fs q" if "\<not> below to_dir q" for q
    using that below_join [of to_dir] by (auto simp: fs'_def)
  have text_same: "copies f to_dir fs' es = copies f to_dir fs es"
    using Cons.prems(1) by (intro copies_cong) (simp add: same)
  have "copy_files P D to_dir es fs' = (Ret [], fs' ++ map_of (rev (copies f to_dir fs' es)))"
    using Cons.prems same by (intro Cons.IH) (auto simp: fs'_def)
  moreover have "fs' ++ map_of (rev (copies f to_dir fs es)) = fs ++ map_of (rev (copies f to_dir fs (e # es)))"
    by (simp add: fs'_def copies_def file_text_def e(3) map_add_assoc)
  ultimately show ?case
    by (simp add: bind_fs_def reading_def return_fs_def e(1) step text_same)
qed

lemma walked_below:
  assumes "walks P" "e \<in> set (walked P p fs)"
  shows "below p (into_path e)" "is_file e \<Longrightarrow> path_file_name (into_path e) \<noteq> None \<and> (\<exists>s. fs (into_path e) = Some (File s))"
proof -
  from assms(2) have "Inr e \<in> set (walk_dir P p fs)" by (auto simp: walked_def split: sum.splits)
  with assms(1) show "below p (into_path e)" "is_file e \<Longrightarrow> path_file_name (into_path e) \<noteq> None \<and> (\<exists>s. fs (into_path e) = Some (File s))"
    unfolding walks_def by blast+
qed

lemma walked_cong: "walks P \<Longrightarrow> (\<And>q. below p q \<Longrightarrow> fs q = fs' q) \<Longrightarrow> walked P p fs = walked P p fs'"
  unfolding walks_def walked_def by metis

lemma not_below_butlast: "p \<noteq> [] \<Longrightarrow> \<not> below p (butlast p)"
proof
  assume "p \<noteq> []" "below p (butlast p)"
  then have "length p = length (take (length p) (butlast p))" by (simp only: below_def)
  with \<open>p \<noteq> []\<close> show False by (cases p rule: rev_cases) simp_all
qed

text \<open>An output directory that is emptied and made again.\<close>

lemma output_cleared:
  assumes "lets_copy D from_dir to_dir" "replaceable to_dir fs"
  shows "create_dir_all D to_dir (remove_dir_all D to_dir fs) =
    (Inr (), (\<lambda>q. if below to_dir q then None else fs q)(to_dir \<mapsto> Directory))"
proof -
  have removed: "remove_dir_all D to_dir fs = (\<lambda>q. if below to_dir q then None else fs q)"
    using assms by (auto simp: remove_dir_all_def lets_copy_def replaceable_def fun_eq_iff)
  have "below to_dir to_dir" by (simp add: below_def)
  then show ?thesis
    using assms unfolding removed
    by (subst create_dir_all.simps)
      (simp add: create_dir_def path_exists_def lets_copy_def replaceable_def not_below_butlast)
qed

text \<open>C32: the generator replaces the output directory by the copies of the generated files that are not
  excluded, with their paths and attributes patched: of files with the same name the last one stays,
  nothing of an earlier run is left, and nothing else changes.\<close>

theorem copy_generated_files_result:
  assumes "walks P" "regex_replace_all P COSMOS_SDK_PROTO_REGEX = Some f" "lets_copy D from_dir to_dir"
    and "replaceable to_dir fs" "\<not> below from_dir to_dir" "\<not> below to_dir from_dir"
  shows "\<exists>fs'. copy_generated_files P D from_dir to_dir fs = (Ret (), fs') \<and> fs' to_dir = Some Directory \<and>
    (\<forall>q. if below to_dir q \<and> q \<noteq> to_dir
         then fs' q = map_of (rev (copies f to_dir fs (filter is_file (walked P from_dir fs)))) q
         else q = to_dir \<or> fs' q = fs q)"
proof -
  let ?fs = "(\<lambda>q. if below to_dir q then None else fs q)(to_dir \<mapsto> Directory)"
  let ?es = "filter is_file (walked P from_dir fs)"
  have out: "\<not> below to_dir q" if "below from_dir q" for q
    using that assms(5,6) below_comparable by blast
  have same: "?fs q = fs q" if "below from_dir q" for q
    using out [OF that] by (auto simp: below_def)
  have walk: "walked P from_dir ?fs = walked P from_dir fs"
    by (rule walked_cong [OF assms(1) same])
  have copied: "copies f to_dir ?fs ?es = copies f to_dir fs ?es"
    using walked_below(1) [OF assms(1)] by (intro copies_cong same) auto
  have "copy_files P D to_dir ?es ?fs = (Ret [], ?fs ++ map_of (rev (copies f to_dir ?fs ?es)))"
  proof (rule copy_files_result [OF assms(2)])
    fix e assume "e \<in> set ?es"
    then have e: "e \<in> set (walked P from_dir fs)" "is_file e" by simp_all
    note b = walked_below(1) [OF assms(1) e(1)]
    show "path_file_name (into_path e) \<noteq> None \<and> \<not> read_denied D (into_path e) \<and> \<not> below to_dir (into_path e) \<and>
        (\<exists>s. ?fs (into_path e) = Some (File s))"
      using walked_below(2) [OF assms(1) e] assms(3) out [OF b] b unfolding same [OF b] lets_copy_def by blast
  qed (use assms(3) below_join in \<open>auto simp: lets_copy_def\<close>)
  then have "copy_generated_files P D from_dir to_dir fs = (Ret (), ?fs ++ map_of (rev (copies f to_dir fs ?es)))"
    using output_cleared [OF assms(3,4)] walk
    by (simp add: copy_generated_files_def bind_fs_def unwrap_run_def expect_run_def return_fs_def copied)
  moreover have keys: "map_of (rev (copies f to_dir fs ?es)) q = None" if "\<not> below to_dir q \<or> q = to_dir" for q
    using that below_join by (auto simp: map_of_eq_None_iff copies_def)
  ultimately show ?thesis by (auto simp: map_add_def split: option.splits)
qed

end
