(* ===== verification/Test_Net.thy ===== *)
theory Test_Net
  imports Commands
begin

text \<open>
  The ground of the integration tests: the constants of \<open>test_runner/src/main.rs\<close>, the keys and
  contracts of the test chain (\<open>bootstrapping.rs\<close>) and the operations the tests share
  (\<open>utils.rs\<close>).  The tests call the crates of the repository, whose models they use, and some
  requests of the node libraries that nothing else uses; those are the parameters \<open>test_env\<close>.
  What a test does to the chains, the files and the running orchestrators is a \<open>test_effect\<close>.
  Logging is left out.
\<close>

section \<open>Effects of a test\<close>

record validator_keys =
  vk_eth_key :: eth_private_key
  vk_orch_key :: cosmos_private_key
  vk_validator_key :: cosmos_private_key

record raw_transaction =
  rt_to :: eth_address
  rt_nonce :: uint256
  rt_gas_price :: uint256
  rt_gas_limit :: uint256
  rt_value :: uint256
  rt_data :: bytes

record param_change =
  pc_subspace :: string
  pc_key :: string
  pc_value :: string

record parameter_change_proposal =
  pp_title :: string
  pp_description :: string
  pp_changes :: "param_change list"

datatype test_effect =
    Node effect
  | RawTransaction raw_transaction eth_private_key u64
  | Erc20Send uint256 eth_address eth_address eth_private_key "send_tx_option list"
  | WrapEth uint256 eth_private_key
  | SwapUniswap eth_private_key eth_address eth_address uint256
  | Delegate cosmos_address coin coin cosmos_private_key
  | SendTokens coin "coin option" cosmos_address cosmos_private_key
  | GovProposal parameter_change_proposal coin coin cosmos_private_key
  | VoteYes u64 coin cosmos_private_key
  | RunCommand string "string list" "string option"
  | WriteFile string string
  | SpawnOrchestrator validator_keys eth_address coin gravity_bridge_tools_config

type_synonym 'a test = "(test_effect, 'a) io"

text \<open>A call of a function of the repository inside a test: its effects are effects of the test.\<close>

definition calling :: "'a act \<Rightarrow> 'a test" where
  "calling m s =
     map_option (\<lambda>(r, t). (r, \<lparr>clock = clock t, trace = trace s @ map Node (trace t), horizon = horizon t\<rparr>))
       (m \<lparr>clock = clock s, trace = [], horizon = horizon s\<rparr>)"

text \<open>\<open>.unwrap()\<close>, \<open>.expect(message)\<close> and \<open>assert!\<close>.\<close>

definition expect_sum :: "string \<Rightarrow> ('e + 'a) \<Rightarrow> 'a outcome" where
  "expect_sum message r = (case r of Inr x \<Rightarrow> Ret x | Inl _ \<Rightarrow> Panic message)"

definition expect_io :: "string \<Rightarrow> ('x, 'e + 'a) io \<Rightarrow> ('x, 'a) io" where
  "expect_io message m = bind_io m (\<lambda>r. lift_io (expect_sum message r))"

definition unwrap_io :: "('x, 'e + 'a) io \<Rightarrow> ('x, 'a) io" where
  "unwrap_io m = bind_io m (\<lambda>r. lift_io (unwrap_sum r))"

definition assert_io :: "bool \<Rightarrow> ('x, unit) io" where
  "assert_io b = (if b then return_io () else panic_io ''assertion failed'')"

text \<open>\<open>tokio::time::timeout(d, async { loop { ... } })\<close>: the deadline is looked at before each turn of
  the loop; the body leaves the loop with \<open>Some\<close>.  The result \<open>None\<close> is a deadline missed.\<close>

definition clock_io :: "(nat \<Rightarrow> 'a) \<Rightarrow> ('x, 'a) io" where
  "clock_io f s = Some (Ret (f (clock s)), s)"

definition timeout_loop :: "(nat \<Rightarrow> bool) \<Rightarrow> ('x, 'a option) io \<Rightarrow> ('x, 'a option) io" where
  "timeout_loop elapsed body =
     loop_io (\<lambda>_ :: unit.
       bind_io (clock_io elapsed) (\<lambda>late.
       if late then return_io (Inr None)
       else bind_io body (\<lambda>r. return_io (case r of None \<Rightarrow> Inl () | Some x \<Rightarrow> Inr (Some x))))) ()"


section \<open>What the tests ask of the world\<close>

record command_output =
  co_stdout :: string
  co_success :: bool

record staking_validator =
  sv_operator_address :: string
  sv_jailed :: bool

record test_env =
  env_var :: "string \<Rightarrow> string option"
  chain_net :: network
  randomness :: entropy
  gen_range :: "nat \<Rightarrow> nat \<Rightarrow> nat"
  eth_key_parse :: "string \<Rightarrow> string + eth_private_key"
  eth_key_hex :: "eth_private_key \<Rightarrow> string"
  cosmos_key_from_secret :: "bytes \<Rightarrow> cosmos_private_key"
  signed_transaction_bytes :: "raw_transaction \<Rightarrow> eth_private_key \<Rightarrow> u64 \<Rightarrow> string + bytes"
  eth_send_raw_transaction :: "bytes \<Rightarrow> nat \<Rightarrow> web3_error + uint256"
  web3_error_string :: "web3_error \<Rightarrow> string"
  erc20_send :: "uint256 \<Rightarrow> eth_address \<Rightarrow> eth_address \<Rightarrow> eth_private_key \<Rightarrow> send_tx_option list \<Rightarrow> nat \<Rightarrow> web3_error + uint256"
  wrap_eth :: "uint256 \<Rightarrow> eth_private_key \<Rightarrow> nat \<Rightarrow> web3_error + uint256"
  swap_uniswap :: "eth_private_key \<Rightarrow> eth_address \<Rightarrow> eth_address \<Rightarrow> uint256 \<Rightarrow> nat \<Rightarrow> web3_error + uint256"
  DAI_CONTRACT_ADDRESS :: eth_address
  delegate_to :: "cosmos_address \<Rightarrow> coin \<Rightarrow> coin \<Rightarrow> cosmos_private_key \<Rightarrow> nat \<Rightarrow> cosmos_grpc_error + tx_response"
  send_tokens_to :: "coin \<Rightarrow> coin option \<Rightarrow> cosmos_address \<Rightarrow> cosmos_private_key \<Rightarrow> nat \<Rightarrow> cosmos_grpc_error + tx_response"
  create_gov_proposal :: "parameter_change_proposal \<Rightarrow> coin \<Rightarrow> coin \<Rightarrow> cosmos_private_key \<Rightarrow> nat \<Rightarrow> cosmos_grpc_error + tx_response"
  proposals_in_voting_period :: "nat \<Rightarrow> cosmos_grpc_error + u64 list"
  vote_on_gov_proposal :: "u64 \<Rightarrow> coin \<Rightarrow> cosmos_private_key \<Rightarrow> nat \<Rightarrow> cosmos_grpc_error + tx_response"
  get_validators_list :: "string \<Rightarrow> nat \<Rightarrow> cosmos_grpc_error + staking_validator list"
  get_active_validators :: "nat \<Rightarrow> cosmos_grpc_error + staking_validator list"
  coin_to_json :: "coin \<Rightarrow> string + string"
  decode_valset_updated :: "bytes \<Rightarrow> string + msg_valset_updated_claim"
  decode_send_to_cosmos :: "bytes \<Rightarrow> string + msg_send_to_cosmos_claim"
  run_process :: "string \<Rightarrow> string list \<Rightarrow> string option \<Rightarrow> nat \<Rightarrow> string + command_output"
  file_exists :: "string \<Rightarrow> nat \<Rightarrow> bool"
  file_contents :: "string \<Rightarrow> nat \<Rightarrow> string + string"
  file_create :: "string \<Rightarrow> string \<Rightarrow> nat \<Rightarrow> string + unit"


section \<open>Constants\<close>

definition OPERATION_TIMEOUT :: duration where "OPERATION_TIMEOUT = 120"
definition TOTAL_TIMEOUT :: duration where "TOTAL_TIMEOUT = 600"

definition env_or :: "test_env \<Rightarrow> string \<Rightarrow> string \<Rightarrow> string" where
  "env_or X name fallback = unwrap_or (env_var X name) fallback"

definition ADDRESS_PREFIX :: "libs \<Rightarrow> test_env \<Rightarrow> string" where
  "ADDRESS_PREFIX L X = env_or X ''ADDRESS_PREFIX'' (COSMOS_DEFAULT_PREFIX (ds L))"

definition STAKING_TOKEN :: "test_env \<Rightarrow> string" where "STAKING_TOKEN X = env_or X ''STAKING_TOKEN'' ''stake''"
definition COSMOS_NODE_GRPC :: "test_env \<Rightarrow> string" where "COSMOS_NODE_GRPC X = env_or X ''COSMOS_NODE_GRPC'' ''http://localhost:9090''"
definition COSMOS_NODE_ABCI :: "test_env \<Rightarrow> string" where "COSMOS_NODE_ABCI X = env_or X ''COSMOS_NODE_ABCI'' ''http://localhost:26657''"
definition ETH_NODE :: "test_env \<Rightarrow> string" where "ETH_NODE X = env_or X ''ETH_NODE'' ''http://localhost:8545''"

definition STAKE_SUPPLY_PER_VALIDATOR :: uint256 where "STAKE_SUPPLY_PER_VALIDATOR = 1000000000000000000000"
definition STARTING_STAKE_PER_VALIDATOR :: uint256 where "STARTING_STAKE_PER_VALIDATOR = STAKE_SUPPLY_PER_VALIDATOR div 2"

definition MINER_PRIVATE_KEY :: "test_env \<Rightarrow> eth_private_key outcome" where
  "MINER_PRIVATE_KEY X = unwrap_sum (eth_key_parse X ''0xb1bab011e03a9862664706fc3bbaa1b16651528e5f0e7fbfcbfdd8be302a13e7'')"

definition MINER_ADDRESS :: "libs \<Rightarrow> test_env \<Rightarrow> eth_address outcome" where
  "MINER_ADDRESS L X = bind_out (MINER_PRIVATE_KEY X) (\<lambda>k. Ret (eth_key_to_address (cl L) k))"

definition get_test_token_name :: string where "get_test_token_name = ''footoken''"

definition get_fee :: coin where "get_fee = \<lparr>denom = get_test_token_name, coin_amount = 1\<rparr>"

definition get_chain_id :: string where "get_chain_id = ''gravity-test''"

definition test_one_eth :: uint256 where "test_one_eth = 1000000000000000000"

definition one_hundred_eth :: uint256 where "one_hundred_eth = 1000000000000000000 * 100"

definition should_deploy_contracts :: "test_env \<Rightarrow> bool" where
  "should_deploy_contracts X =
     (case env_var X ''DEPLOY_CONTRACTS'' of
        Some s \<Rightarrow> s = ''1'' \<or> to_lowercase s = ''yes'' \<or> to_lowercase s = ''true''
      | None \<Rightarrow> False)"

text \<open>The miner's key and address, which the tests pay with.\<close>

definition with_miner :: "libs \<Rightarrow> test_env \<Rightarrow> (eth_private_key \<Rightarrow> eth_address \<Rightarrow> 'a test) \<Rightarrow> 'a test" where
  "with_miner L X f =
     bind_io (lift_io (MINER_PRIVATE_KEY X)) (\<lambda>k. bind_io (lift_io (MINER_ADDRESS L X)) (\<lambda>a. f k a))"

section \<open>Keys and contracts of the test chain\<close>

text \<open>\<open>str::split\<close> on a character, \<open>lines\<close> and \<open>trim\<close> (of ASCII white space).\<close>

fun split_on :: "char \<Rightarrow> string \<Rightarrow> string list" where
  "split_on c [] = [[]]"
| "split_on c (x # xs) =
     (if x = c then [] # split_on c xs
      else case split_on c xs of [] \<Rightarrow> [[x]] | l # ls \<Rightarrow> (x # l) # ls)"

definition strip_cr :: "string \<Rightarrow> string" where
  "strip_cr l = (if l \<noteq> [] \<and> last l = char_of (13 :: nat) then butlast l else l)"

definition str_lines :: "string \<Rightarrow> string list" where
  "str_lines s =
     (let ls = split_on (char_of (10 :: nat)) s in
      map strip_cr (butlast ls) @ (if last ls = [] then [] else [last ls]))"

definition is_space :: "char \<Rightarrow> bool" where
  "is_space c = (let n = of_char c :: nat in n = 32 \<or> 9 \<le> n \<and> n \<le> 13)"

definition str_trim :: "string \<Rightarrow> string" where
  "str_trim s = rev (dropWhile is_space (rev (dropWhile is_space s)))"

text \<open>\<open>line.split(c).last().unwrap().trim()\<close>.\<close>

definition last_field :: "char \<Rightarrow> string \<Rightarrow> string" where
  "last_field c line = str_trim (last (split_on c line))"

fun eth_keys_of :: "test_env \<Rightarrow> string list \<Rightarrow> eth_private_key list outcome" where
  "eth_keys_of X [] = Ret []"
| "eth_keys_of X (line # ls) =
     (if line = [] \<or> str_contains line ''public'' \<or> str_contains line ''address'' then eth_keys_of X ls
      else
        bind_out (unwrap_sum (eth_key_parse X (last_field CHR '':'' line))) (\<lambda>k.
        bind_out (eth_keys_of X ls) (\<lambda>ks. Ret (k # ks))))"

definition parse_ethereum_keys :: "test_env \<Rightarrow> eth_private_key list test" where
  "parse_ethereum_keys X =
     bind_io (expect_io ''Failed to find eth keys'' (query_io (file_contents X ''/validator-eth-keys''))) (\<lambda>body.
     lift_io (eth_keys_of X (str_lines body)))"

fun cosmos_keys_of :: "libs \<Rightarrow> string list \<Rightarrow> cosmos_private_key list outcome" where
  "cosmos_keys_of L [] = Ret []"
| "cosmos_keys_of L (phrase # ls) =
     (if phrase = [] \<or> str_contains phrase ''write this mnemonic phrase'' \<or> str_contains phrase ''recover your account if''
      then cosmos_keys_of L ls
      else
        bind_out (expect_sum ''Bad phrase!'' (cosmos_key_from_phrase (ds L) phrase '''')) (\<lambda>k.
        bind_out (cosmos_keys_of L ls) (\<lambda>ks. Ret (k # ks))))"

definition parse_phrases :: "libs \<Rightarrow> test_env \<Rightarrow> string \<Rightarrow> cosmos_private_key list test" where
  "parse_phrases L X filename =
     bind_io (expect_io ''Failed to find phrases'' (query_io (file_contents X filename))) (\<lambda>body.
     lift_io (cosmos_keys_of L (str_lines body)))"

definition parse_validator_keys :: "libs \<Rightarrow> test_env \<Rightarrow> cosmos_private_key list test" where
  "parse_validator_keys L X = parse_phrases L X ''/validator-phrases''"

definition parse_orchestrator_keys :: "libs \<Rightarrow> test_env \<Rightarrow> cosmos_private_key list test" where
  "parse_orchestrator_keys L X = parse_phrases L X ''/orchestrator-phrases''"

definition get_keys :: "libs \<Rightarrow> test_env \<Rightarrow> validator_keys list test" where
  "get_keys L X =
     bind_io (parse_validator_keys L X) (\<lambda>cosmos_keys.
     bind_io (parse_orchestrator_keys L X) (\<lambda>orch_keys.
     bind_io (parse_ethereum_keys X) (\<lambda>eth_keys.
     return_io (map (\<lambda>((c_key, o_key), e_key). \<lparr>vk_eth_key = e_key, vk_orch_key = o_key, vk_validator_key = c_key\<rparr>)
       (zip (zip cosmos_keys orch_keys) eth_keys)))))"

text \<open>The files are looked at one after the other, up to the first that is missing.\<close>

fun all_paths_exist :: "test_env \<Rightarrow> string list \<Rightarrow> bool test" where
  "all_paths_exist X [] = return_io True"
| "all_paths_exist X (i # input) =
     bind_io (query_io (file_exists X i)) (\<lambda>there. if \<not> there then return_io False else all_paths_exist X input)"

definition return_existing :: "test_env \<Rightarrow> string list \<Rightarrow> string list \<Rightarrow> string list test" where
  "return_existing X a b =
     bind_io (all_paths_exist X a) (\<lambda>in_a.
     if in_a then return_io a
     else bind_io (all_paths_exist X b) (\<lambda>in_b. if in_b then return_io b else panic_io ''No paths exist!''))"

definition deployer_args :: "test_env \<Rightarrow> eth_private_key \<Rightarrow> string \<Rightarrow> string list" where
  "deployer_args X miner_key contract =
     [''--cosmos-node='' @ COSMOS_NODE_ABCI X, ''--eth-node='' @ ETH_NODE X,
      ''--eth-privkey='' @ eth_key_hex X miner_key, ''--contract='' @ contract, ''--test-mode=true'']"

definition deploy_contracts :: "libs \<Rightarrow> test_env \<Rightarrow> contact \<Rightarrow> unit test" where
  "deploy_contracts L X K =
     (let A = [''contract-deployer'', ''Gravity.json''];
          B = [''/solidity/contract-deployer'', ''/solidity/Gravity.json''];
          C = [''/nab/solidity/contract-deployer.ts'', ''/nab/solidity/artifacts/contracts/Gravity.sol/Gravity.json'', ''/nab/solidity/''];
          run = (\<lambda>prog args dir. expect_io ''Failed to deploy contracts!'' (effect_io (RunCommand prog args dir) (run_process X prog args dir))) in
      bind_io (unwrap_io (query_io (wait_for_next_block K TOTAL_TIMEOUT))) (\<lambda>_.
      bind_io (all_paths_exist X A) (\<lambda>in_a.
      bind_io (if in_a then return_io True else all_paths_exist X B) (\<lambda>in_ab.
      bind_io
        (if in_ab then
           bind_io (return_existing X A B) (\<lambda>paths.
           with_miner L X (\<lambda>k _. run (paths ! 0) (deployer_args X k (paths ! 1)) None))
         else
           bind_io (all_paths_exist X C) (\<lambda>in_c.
           if in_c then
             with_miner L X (\<lambda>k _. run ''npx'' ([''ts-node'', C ! 0] @ deployer_args X k (C ! 1)) (Some (C ! 2)))
           else panic_io ''Could not find Gravity.json contract artifact in any known location!'')) (\<lambda>output.
      if \<not> co_success output then panic_io ''Contract deploy failed!''
      else unwrap_io (effect_io (WriteFile ''/contracts'' (co_stdout output)) (file_create X ''/contracts'' (co_stdout output))))))))"

record bootstrap_contract_addresses =
  bc_gravity_contract :: eth_address
  bc_erc20_addresses :: "eth_address list"
  bc_uniswap_liquidity_address :: "eth_address option"

fun contract_lines :: "libs \<Rightarrow> string list \<Rightarrow> eth_address option \<Rightarrow> eth_address list \<Rightarrow> eth_address option \<Rightarrow>
    (eth_address option \<times> eth_address list \<times> eth_address option) outcome" where
  "contract_lines L [] gravity erc20s uniswap = Ret (gravity, erc20s, uniswap)"
| "contract_lines L (line # ls) gravity erc20s uniswap =
     (let address = unwrap_sum (address_parse (cl L) (last_field CHR ''-'' line)) in
      if str_contains line ''Gravity deployed at Address -'' then
        bind_out address (\<lambda>a. contract_lines L ls (Some a) erc20s uniswap)
      else if str_contains line ''ERC20 deployed at Address -'' then
        bind_out address (\<lambda>a. contract_lines L ls gravity (erc20s @ [a]) uniswap)
      else if str_contains line ''Uniswap Liquidity test deployed at Address - '' then
        bind_out address (\<lambda>a. contract_lines L ls gravity erc20s (Some a))
      else contract_lines L ls gravity erc20s uniswap)"

definition contracts_of :: "libs \<Rightarrow> string \<Rightarrow> bootstrap_contract_addresses outcome" where
  "contracts_of L body =
     bind_out (contract_lines L (str_lines body) None [] None) (\<lambda>(maybe_gravity, erc20s, uniswap).
     bind_out (unwrap_opt maybe_gravity) (\<lambda>gravity.
     Ret \<lparr>bc_gravity_contract = gravity, bc_erc20_addresses = erc20s, bc_uniswap_liquidity_address = uniswap\<rparr>))"

definition parse_contract_addresses :: "libs \<Rightarrow> test_env \<Rightarrow> bootstrap_contract_addresses test" where
  "parse_contract_addresses L X =
     bind_io (expect_io ''Failed to find contracts! did they not deploy?'' (query_io (file_contents X ''/contracts''))) (\<lambda>output.
     lift_io (contracts_of L output))"


section \<open>Operations shared by the tests\<close>

definition create_default_test_config :: gravity_bridge_tools_config where
  "create_default_test_config = default_gravity_bridge_tools_config
     \<lparr>cfg_relayer := (cfg_relayer default_gravity_bridge_tools_config)
        \<lparr>batch_market_enabled := False, valset_market_enabled := False, logic_call_market_enabled := False\<rparr>\<rparr>"

definition create_market_test_config :: gravity_bridge_tools_config where
  "create_market_test_config = default_gravity_bridge_tools_config
     \<lparr>cfg_relayer := (cfg_relayer default_gravity_bridge_tools_config)
        \<lparr>batch_market_enabled := True, valset_market_enabled := True, logic_call_market_enabled := False\<rparr>\<rparr>"

definition HIGH_GAS_PRICE :: uint256 where "HIGH_GAS_PRICE = 1000000000"

definition bulk_transaction :: "uint256 \<Rightarrow> uint256 \<Rightarrow> eth_address \<Rightarrow> raw_transaction" where
  "bulk_transaction amt nonce address =
     \<lparr>rt_to = address, rt_nonce = nonce, rt_gas_price = HIGH_GAS_PRICE, rt_gas_limit = 24000, rt_value = amt, rt_data = []\<rparr>"

text \<open>The body of the loop: one transaction, and the nonce of the next one.\<close>

definition bulk_step :: "libs \<Rightarrow> test_env \<Rightarrow> web3 \<Rightarrow> uint256 \<Rightarrow> eth_private_key \<Rightarrow> u64 \<Rightarrow> eth_address \<Rightarrow> uint256 \<Rightarrow> uint256 test" where
  "bulk_step L X W amt sk version address nonce =
     (let tx = bulk_transaction amt nonce address in
      bind_io (lift_io (unwrap_sum (signed_transaction_bytes X tx sk version))) (\<lambda>bs.
      bind_io (unwrap_io (effect_io (RawTransaction tx sk version) (eth_send_raw_transaction X bs))) (\<lambda>txid.
      bind_io (unwrap_io (query_io (wait_for_transaction W txid TOTAL_TIMEOUT))) (\<lambda>_.
      lift_io (u256_add (nm L) nonce 1)))))"

definition send_eth_bulk :: "libs \<Rightarrow> test_env \<Rightarrow> web3 \<Rightarrow> uint256 \<Rightarrow> eth_address list \<Rightarrow> unit test" where
  "send_eth_bulk L X W amt destinations =
     with_miner L X (\<lambda>sk miner.
     bind_io (unwrap_io (query_io (net_version W))) (\<lambda>version.
     bind_io (unwrap_io (query_io (eth_get_transaction_count W miner))) (\<lambda>nonce.
     bind_io (fold_io (bulk_step L X W amt sk version) destinations nonce) (\<lambda>_.
     return_io ()))))"

definition send_eth_to_orchestrators :: "libs \<Rightarrow> test_env \<Rightarrow> web3 \<Rightarrow> validator_keys list \<Rightarrow> unit test" where
  "send_eth_to_orchestrators L X W keys =
     with_miner L X (\<lambda>sk miner.
     bind_io (unwrap_io (query_io (eth_get_balance W miner))) (\<lambda>_.
     bind_io (lift_io (u256_mul (nm L) test_one_eth 100)) (\<lambda>amt.
     send_eth_bulk L X W amt (map (\<lambda>k. eth_key_to_address (cl L) (vk_eth_key k)) keys))))"

definition send_one_eth :: "libs \<Rightarrow> test_env \<Rightarrow> web3 \<Rightarrow> eth_address \<Rightarrow> unit test" where
  "send_one_eth L X W dest = send_eth_bulk L X W test_one_eth [dest]"

definition has_prefix :: "string \<Rightarrow> string \<Rightarrow> bool" where
  "has_prefix s p = (take (length p) s = p)"

definition check_cosmos_balance :: "contact \<Rightarrow> string \<Rightarrow> cosmos_address \<Rightarrow> coin option test" where
  "check_cosmos_balance K d address =
     bind_io (unwrap_io (query_io (get_balances K address))) (\<lambda>account_info.
     return_io (List.find (\<lambda>c. has_prefix (denom c) d) account_info))"

text \<open>A balance request is repeated while the node complains about gas prices.\<close>

definition check_erc20_balance :: "test_env \<Rightarrow> web3 \<Rightarrow> timer \<Rightarrow> eth_address \<Rightarrow> eth_address \<Rightarrow> uint256 \<Rightarrow> unit test" where
  "check_erc20_balance X W T address erc20 amt =
     bind_io (timeout_loop (T TOTAL_TIMEOUT)
       (bind_io (query_io (get_erc20_balance W erc20 address)) (\<lambda>r.
        return_io (case r of
          Inr new_balance \<Rightarrow> Some (Some new_balance)
        | Inl err \<Rightarrow> if \<not> str_contains (web3_error_string X err) ''maxFeePerGas'' then Some None else None)))) (\<lambda>r.
     case r of
       None \<Rightarrow> panic_io ''get_erc20_balance timedout''
     | Some new_balance \<Rightarrow>
         bind_io (lift_io (unwrap_opt new_balance)) (\<lambda>new_balance. assert_io (new_balance \<ge> amt)))"

definition send_erc20_bulk :: "libs \<Rightarrow> test_env \<Rightarrow> web3 \<Rightarrow> timer \<Rightarrow> uint256 \<Rightarrow> eth_address \<Rightarrow> eth_address list \<Rightarrow> unit test" where
  "send_erc20_bulk L X W T amt erc20 destinations =
     with_miner L X (\<lambda>sk miner.
     bind_io (unwrap_io (query_io (get_erc20_balance W erc20 miner))) (\<lambda>miner_balance.
     bind_io (lift_io (u256_mul (nm L) amt (length destinations))) (\<lambda>total.
     bind_io (assert_io (miner_balance > total)) (\<lambda>_.
     bind_io (unwrap_io (query_io (eth_get_transaction_count W miner))) (\<lambda>nonce.
     bind_io (fold_io (\<lambda>address nonce.
         let options = [Nonce nonce, GasLimit 100000, GasPriceMultiplier 5] in
         bind_io (unwrap_io (effect_io (Erc20Send amt address erc20 sk options) (erc20_send X amt address erc20 sk options))) (\<lambda>txid.
         bind_io (unwrap_io (query_io (wait_for_transaction W txid TOTAL_TIMEOUT))) (\<lambda>_.
         bind_io (check_erc20_balance X W T address erc20 amt) (\<lambda>_.
         lift_io (u256_add (nm L) nonce 1))))) destinations nonce) (\<lambda>_.
     return_io ()))))))"

record bridge_user_key =
  uk_eth_address :: eth_address
  uk_eth_key :: eth_private_key
  uk_cosmos_address :: cosmos_address
  uk_cosmos_key :: cosmos_private_key
  uk_eth_dest_address :: eth_address
  uk_eth_dest_key :: eth_private_key

definition get_user_key :: "libs \<Rightarrow> test_env \<Rightarrow> bridge_user_key test" where
  "get_user_key L X =
     bind_io (query_io (generate_bytes (randomness X))) (\<lambda>secret.
     bind_io (lift_io (unwrap_sum (eth_key_from_slice (randomness X) secret))) (\<lambda>eth_key.
     let eth_addr = eth_key_to_address (cl L) eth_key; cosmos_key = cosmos_key_from_secret X secret in
     bind_io (lift_io (unwrap_sum (cosmos_key_to_address (ds L) cosmos_key (ADDRESS_PREFIX L X)))) (\<lambda>cosmos_addr.
     bind_io (query_io (generate_bytes (randomness X))) (\<lambda>secret.
     bind_io (lift_io (unwrap_sum (eth_key_from_slice (randomness X) secret))) (\<lambda>eth_dest_key.
     let eth_dest_addr = eth_key_to_address (cl L) eth_key in
     return_io \<lparr>uk_eth_address = eth_addr, uk_eth_key = eth_key, uk_cosmos_address = cosmos_addr,
       uk_cosmos_key = cosmos_key, uk_eth_dest_address = eth_dest_addr, uk_eth_dest_key = eth_dest_key\<rparr>)))))"

text \<open>One orchestrator after the other is spawned; the loop ends early to leave the last validator out.\<close>

fun spawn_orchestrators :: "test_env \<Rightarrow> eth_address \<Rightarrow> bool \<Rightarrow> gravity_bridge_tools_config \<Rightarrow> nat \<Rightarrow> nat \<Rightarrow>
    validator_keys list \<Rightarrow> unit test" where
  "spawn_orchestrators X gravity_address validator_out config n_validators started [] = return_io ()"
| "spawn_orchestrators X gravity_address validator_out config n_validators started (k # keys) =
     bind_io (unwrap_io (query_io (connect_grpc (chain_net X) (COSMOS_NODE_GRPC X)))) (\<lambda>_.
     bind_io (effect_io (SpawnOrchestrator k gravity_address get_fee config) (\<lambda>_. ())) (\<lambda>_.
     let started = started + 1 in
     if validator_out \<and> started = n_validators - 1 then return_io ()
     else spawn_orchestrators X gravity_address validator_out config n_validators started keys))"

definition start_orchestrators :: "test_env \<Rightarrow> validator_keys list \<Rightarrow> eth_address \<Rightarrow> bool \<Rightarrow> gravity_bridge_tools_config \<Rightarrow> unit test" where
  "start_orchestrators X keys gravity_address validator_out orchestrator_config =
     spawn_orchestrators X gravity_address validator_out orchestrator_config (length keys) 0 keys"

definition dquoted :: "string \<Rightarrow> string" where
  "dquoted s = [char_of (34 :: nat)] @ s @ [char_of (34 :: nat)]"

definition create_parameter_change_proposal :: "libs \<Rightarrow> test_env \<Rightarrow> contact \<Rightarrow> cosmos_private_key \<Rightarrow> coin \<Rightarrow> eth_address \<Rightarrow> coin \<Rightarrow> unit test" where
  "create_parameter_change_proposal L X K sk deposit gravity_address valset_reward =
     bind_io (lift_io (unwrap_sum (coin_to_json X valset_reward))) (\<lambda>json_value.
     let proposal = \<lparr>pp_title = ''Set gravity settings!'', pp_description = ''test proposal'',
       pp_changes =
         [\<lparr>pc_subspace = ''nab'', pc_key = ''BridgeContractAddress'', pc_value = dquoted (address_to_string (cl L) gravity_address)\<rparr>,
          \<lparr>pc_subspace = ''nab'', pc_key = ''ValsetReward'', pc_value = json_value\<rparr>,
          \<lparr>pc_subspace = ''nab'', pc_key = ''BridgeChainID'', pc_value = dquoted ''1''\<rparr>]\<rparr> in
     bind_io (unwrap_io (effect_io (GovProposal proposal deposit get_fee sk) (create_gov_proposal X proposal deposit get_fee sk))) (\<lambda>res.
     bind_io (unwrap_io (query_io (wait_for_tx K res TOTAL_TIMEOUT))) (\<lambda>_.
     return_io ())))"

definition get_operator_address :: "libs \<Rightarrow> test_env \<Rightarrow> cosmos_private_key \<Rightarrow> cosmos_address outcome" where
  "get_operator_address L X k = unwrap_sum (cosmos_key_to_address (ds L) k (ADDRESS_PREFIX L X @ ''valoper''))"

end
