(* ===== verification/Test_Cases.thy ===== *)
theory Test_Cases
  imports Test_Net
begin

text \<open>
  The integration tests of \<open>test_runner/src\<close> over the operations of \<open>Test_Net\<close>: the deposit and
  the withdrawal (\<open>happy_path.rs\<close>, \<open>happy_path_v2.rs\<close>), the relay market, validator set rewards and
  updates, slashing, cancellation, delegate keys, and the choice among them in \<open>main.rs\<close>.  A test
  passes when it returns and fails when it panics.
\<close>

definition nth_io :: "'a list \<Rightarrow> nat \<Rightarrow> ('x, 'a) io" where
  "nth_io xs i = (if i < length xs then return_io (xs ! i) else panic_io ''index out of bounds'')"


section \<open>Attestations\<close>

definition decoded_claims :: "(bytes \<Rightarrow> string + 'm) \<Rightarrow> attestation list \<Rightarrow> 'm list" where
  "decoded_claims decode atts =
     concat (map (\<lambda>att. case att_claim att of
         None \<Rightarrow> []
       | Some claim \<Rightarrow> (case decode (any_value claim) of Inl _ \<Rightarrow> [] | Inr decoded \<Rightarrow> [decoded])) atts)"

text \<open>The closure is a function on the variables it captures.\<close>

definition iterate_attestations :: "grpc \<Rightarrow> (bytes \<Rightarrow> string + 'm) \<Rightarrow> ('m \<Rightarrow> 'c \<Rightarrow> 'c) \<Rightarrow> 'c \<Rightarrow> 'c test" where
  "iterate_attestations G decode f c =
     bind_io (expect_io ''Something happened while getting attestations after delegating to validator''
       (calling (get_attestations G None))) (\<lambda>attestations.
     return_io (fold f (decoded_claims decode attestations) c))"

definition is_validator :: "libs \<Rightarrow> validator_keys list \<Rightarrow> bridge_validator \<Rightarrow> bool" where
  "is_validator L keys bridge_val =
     list_ex (\<lambda>k. bv_ethereum_address bridge_val = address_to_string (cl L) (eth_key_to_address (cl L) (vk_eth_key k))) keys"

definition check_valset_update_attestation :: "libs \<Rightarrow> test_env \<Rightarrow> grpc \<Rightarrow> validator_keys list \<Rightarrow> unit test" where
  "check_valset_update_attestation L X G keys =
     bind_io (iterate_attestations G (decode_valset_updated X)
       (\<lambda>decoded found. fold (\<lambda>bridge_val found. found \<and> is_validator L keys bridge_val) (mvu_members decoded) found) True) (\<lambda>found.
     if found then return_io ()
     else panic_io ''Could not find the valset updated attestation we were looking for!'')"

definition right_claim :: "libs \<Rightarrow> eth_address \<Rightarrow> cosmos_address \<Rightarrow> eth_address \<Rightarrow> msg_send_to_cosmos_claim \<Rightarrow> bool" where
  "right_claim L erc20_address receiver sender decoded \<longleftrightarrow>
     msc_token_contract decoded = address_to_string (cl L) erc20_address \<and>
     msc_cosmos_receiver decoded = cosmos_to_string (ds L) receiver \<and>
     msc_ethereum_sender decoded = address_to_string (cl L) sender"

definition check_send_to_cosmos_attestation :: "libs \<Rightarrow> test_env \<Rightarrow> grpc \<Rightarrow> timer \<Rightarrow> eth_address \<Rightarrow> cosmos_address \<Rightarrow> eth_address \<Rightarrow> unit test" where
  "check_send_to_cosmos_attestation L X G T erc20_address receiver sender =
     bind_io (timeout_loop (T TOTAL_TIMEOUT)
       (bind_io (iterate_attestations G (decode_send_to_cosmos X)
          (\<lambda>decoded found. right_claim L erc20_address receiver sender decoded) False) (\<lambda>found.
        return_io (if found then Some () else None)))) (\<lambda>r.
     case r of
       None \<Rightarrow> panic_io ''Could not find the send_to_cosmos attestation we were looking for!''
     | Some _ \<Rightarrow> return_io ())"


section \<open>The happy path\<close>

definition wait_for_nonzero_valset :: "libs \<Rightarrow> test_env \<Rightarrow> web3 \<Rightarrow> timer \<Rightarrow> eth_address \<Rightarrow> unit test" where
  "wait_for_nonzero_valset L X W T gravity_address =
     with_miner L X (\<lambda>_ miner.
     bind_io (timeout_loop (T TOTAL_TIMEOUT)
       (bind_io (expect_io ''Failed to get current eth valset'' (calling (get_valset_nonce L W gravity_address miner))) (\<lambda>nonce.
        return_io (if nonce = 0 then None else Some ())))) (\<lambda>r.
     case r of None \<Rightarrow> panic_io ''Failed to update validator set'' | Some _ \<Rightarrow> return_io ()))"

definition stake_change :: "test_env \<Rightarrow> coin" where
  "stake_change X = \<lparr>denom = STAKING_TOKEN X, coin_amount = STARTING_STAKE_PER_VALIDATOR div 4\<rparr>"

definition test_valset_update :: "libs \<Rightarrow> test_env \<Rightarrow> web3 \<Rightarrow> grpc \<Rightarrow> timer \<Rightarrow> validator_keys list \<Rightarrow> eth_address \<Rightarrow> unit test" where
  "test_valset_update L X W G T keys gravity_address =
     bind_io (nth_io keys 0) (\<lambda>key0.
     bind_io (expect_io ''Incorrect Gravity Address or otherwise unable to contact Gravity''
       (calling (get_valset_nonce L W gravity_address (eth_key_to_address (cl L) (vk_eth_key key0))))) (\<lambda>_.
     with_miner L X (\<lambda>_ miner.
     bind_io (expect_io ''Failed to get starting eth valset'' (calling (get_valset_nonce L W gravity_address miner))) (\<lambda>starting_eth_valset_nonce.
     bind_io (query_io (gen_range X (length keys))) (\<lambda>validator_to_change.
     bind_io (nth_io keys validator_to_change) (\<lambda>changed.
     bind_io (lift_io (get_operator_address L X (vk_validator_key changed))) (\<lambda>delegate_address.
     bind_io (nth_io keys 1) (\<lambda>key1.
     bind_io (unwrap_io (effect_io (Delegate delegate_address (stake_change X) get_fee (vk_validator_key key1))
       (delegate_to X delegate_address (stake_change X) get_fee (vk_validator_key key1)))) (\<lambda>_.
     bind_io (check_valset_update_attestation L X G keys) (\<lambda>_.
     bind_io (timeout_loop (T TOTAL_TIMEOUT)
       (bind_io (expect_io ''Failed to get current eth valset'' (calling (get_valset_nonce L W gravity_address miner))) (\<lambda>current_eth_valset_nonce.
        return_io (if starting_eth_valset_nonce \<noteq> current_eth_valset_nonce then Some current_eth_valset_nonce else None)))) (\<lambda>r.
     case r of
       None \<Rightarrow> panic_io ''Failed to update validator set''
     | Some current_eth_valset_nonce \<Rightarrow> assert_io (starting_eth_valset_nonce \<noteq> current_eth_valset_nonce))))))))))))"

text \<open>One look at the balance: \<open>Some (Inr ())\<close> when the deposit has arrived, \<open>Some (Inl ())\<close> when
  another amount has, \<open>None\<close> to go on waiting.\<close>

definition deposit_arrived :: "libs \<Rightarrow> uint256 \<Rightarrow> coin option \<Rightarrow> coin option \<Rightarrow> (unit + unit) option outcome" where
  "deposit_arrived L amt start_coin end_coin =
     (case (start_coin, end_coin) of
        (Some start_coin, Some end_coin) \<Rightarrow>
          bind_out (u256_add (nm L) (coin_amount start_coin) amt) (\<lambda>total.
          Ret (if total = coin_amount end_coin \<and> denom start_coin = denom end_coin then Some (Inr ()) else None))
      | (None, Some end_coin) \<Rightarrow> Ret (if amt = coin_amount end_coin then Some (Inr ()) else Some (Inl ()))
      | (_, None) \<Rightarrow> Ret None)"

definition poll_deposit :: "libs \<Rightarrow> contact \<Rightarrow> cosmos_address \<Rightarrow> uint256 \<Rightarrow> coin option \<Rightarrow> (unit + unit) option test" where
  "poll_deposit L K dest amt start_coin =
     bind_io (check_cosmos_balance K ''nab'' dest) (\<lambda>end_coin.
     bind_io (lift_io (deposit_arrived L amt start_coin end_coin)) (\<lambda>r.
     case r of
       Some x \<Rightarrow> return_io (Some x)
     | None \<Rightarrow> bind_io (unwrap_io (query_io (wait_for_next_block K TOTAL_TIMEOUT))) (\<lambda>_. return_io None)))"

definition await_deposit :: "libs \<Rightarrow> contact \<Rightarrow> timer \<Rightarrow> cosmos_address \<Rightarrow> uint256 \<Rightarrow> coin option \<Rightarrow> unit test" where
  "await_deposit L K T dest amt start_coin =
     bind_io (timeout_loop (T TOTAL_TIMEOUT) (poll_deposit L K dest amt start_coin)) (\<lambda>r.
     case r of Some (Inr _) \<Rightarrow> return_io () | _ \<Rightarrow> panic_io ''Failed to bridge ERC20!'')"

definition test_erc20_deposit :: "libs \<Rightarrow> test_env \<Rightarrow> web3 \<Rightarrow> contact \<Rightarrow> grpc \<Rightarrow> timer \<Rightarrow> cosmos_address \<Rightarrow> eth_address \<Rightarrow> eth_address \<Rightarrow> uint256 \<Rightarrow> unit test" where
  "test_erc20_deposit L X W K G T dest gravity_address erc20_address amt =
     with_miner L X (\<lambda>sk miner.
     bind_io (expect_io ''Incorrect Gravity Address or otherwise unable to contact Gravity'' (calling (get_valset_nonce L W gravity_address miner))) (\<lambda>_.
     bind_io (check_cosmos_balance K ''nab'' dest) (\<lambda>start_coin.
     bind_io (expect_io ''Failed to send tokens to Cosmos''
       (calling (send_to_cosmos L W T erc20_address gravity_address amt dest sk None []))) (\<lambda>tx_id.
     bind_io (check_send_to_cosmos_attestation L X G T erc20_address dest miner) (\<lambda>_.
     bind_io (expect_io ''Send to cosmos transaction failed to be included into ethereum side''
       (query_io (wait_for_transaction W tx_id OPERATION_TIMEOUT))) (\<lambda>_.
     await_deposit L K T dest amt start_coin))))))"

text \<open>The wait for another batch nonce than the first one, which \<open>happy_path.rs\<close> and
  \<open>relay_market.rs\<close> write the same way.\<close>

definition await_batch_nonce :: "libs \<Rightarrow> web3 \<Rightarrow> (nat \<Rightarrow> bool) \<Rightarrow> eth_address \<Rightarrow> eth_address \<Rightarrow> eth_address \<Rightarrow> u64 \<Rightarrow> u64 option test" where
  "await_batch_nonce L W elapsed gravity_address erc20_contract miner starting_batch_nonce =
     timeout_loop elapsed
       (bind_io (expect_io ''Failed to get current eth tx batch nonce''
          (calling (get_tx_batch_nonce L W gravity_address erc20_contract miner))) (\<lambda>current.
        return_io (if starting_batch_nonce = current then None else Some current)))"

text \<open>Ether for the receiver, so that it can ask for its balance.\<close>

definition fund_receiver :: "libs \<Rightarrow> test_env \<Rightarrow> web3 \<Rightarrow> eth_address \<Rightarrow> unit test" where
  "fund_receiver L X W dest_eth_address =
     with_miner L X (\<lambda>sk miner.
     bind_io (expect_io ''Failed to send Eth to validator {}''
       (calling (eth_send W dest_eth_address [] 1000000000000000000 miner sk []))) (\<lambda>txid.
     bind_io (unwrap_io (query_io (wait_for_transaction W txid TOTAL_TIMEOUT))) (\<lambda>_.
     send_one_eth L X W dest_eth_address)))"

definition test_batch :: "libs \<Rightarrow> test_env \<Rightarrow> web3 \<Rightarrow> contact \<Rightarrow> grpc \<Rightarrow> timer \<Rightarrow> eth_address \<Rightarrow> eth_address \<Rightarrow> cosmos_private_key \<Rightarrow>
    cosmos_private_key \<Rightarrow> eth_address \<Rightarrow> unit test" where
  "test_batch L X W K G T dest_eth_address gravity_address requester_key dest_key erc20_contract =
     with_miner L X (\<lambda>_ miner.
     bind_io (expect_io ''Incorrect Gravity Address or otherwise unable to contact Gravity'' (calling (get_valset_nonce L W gravity_address miner))) (\<lambda>_.
     bind_io (lift_io (unwrap_sum (cosmos_key_to_address (ds L) dest_key (get_prefix K)))) (\<lambda>dest_cosmos_address.
     bind_io (check_cosmos_balance K ''nab'' dest_cosmos_address) (\<lambda>c.
     bind_io (lift_io (unwrap_opt c)) (\<lambda>c.
     let token_name = denom c; bridge_denom_fee = \<lparr>denom = token_name, coin_amount = 1\<rparr> in
     bind_io (lift_io (u256_sub (nm L) (coin_amount c) 5)) (\<lambda>amt.
     bind_io (unwrap_io (calling (send_to_eth L K dest_key dest_eth_address \<lparr>denom = token_name, coin_amount = amt\<rparr> bridge_denom_fee bridge_denom_fee))) (\<lambda>_.
     bind_io (unwrap_io (calling (send_request_batch L K requester_key token_name get_fee None))) (\<lambda>_.
     bind_io (unwrap_io (query_io (wait_for_next_block K TOTAL_TIMEOUT))) (\<lambda>_.
     bind_io (lift_io (unwrap_sum (cosmos_key_to_address (ds L) requester_key (get_prefix K)))) (\<lambda>requester_address.
     bind_io (expect_io ''Failed to get batch to sign'' (calling (get_oldest_unsigned_transaction_batch L G requester_address (get_prefix K)))) (\<lambda>_.
     bind_io (expect_io ''Failed to get current eth valset'' (calling (get_tx_batch_nonce L W gravity_address erc20_contract miner))) (\<lambda>starting_batch_nonce.
     bind_io (await_batch_nonce L W (T TOTAL_TIMEOUT) gravity_address erc20_contract miner starting_batch_nonce) (\<lambda>r.
     case r of
       None \<Rightarrow> panic_io ''Failed to submit transaction batch set''
     | Some _ \<Rightarrow>
         bind_io (fund_receiver L X W dest_eth_address) (\<lambda>_.
         bind_io (unwrap_io (query_io (get_erc20_balance W erc20_contract dest_eth_address))) (\<lambda>balance.
         assert_io (balance = amt))))))))))))))))"

definition duplicate_event :: "u64 \<Rightarrow> eth_address \<Rightarrow> eth_address \<Rightarrow> cosmos_address \<Rightarrow> uint256 \<Rightarrow> send_to_cosmos_event" where
  "duplicate_event nonce erc20_address ethereum_sender receiver amt =
     \<lparr>sc_erc20 = erc20_address, sc_sender = ethereum_sender, sc_destination = receiver, sc_amount = amt,
      sc_event_nonce = nonce, sc_block_height = 500\<rparr>"

definition submit_duplicate_erc20_send :: "libs \<Rightarrow> contact \<Rightarrow> u64 \<Rightarrow> eth_address \<Rightarrow> uint256 \<Rightarrow> cosmos_address \<Rightarrow> validator_keys list \<Rightarrow> unit test" where
  "submit_duplicate_erc20_send L K nonce erc20_address amt receiver keys =
     bind_io (check_cosmos_balance K ''nab'' receiver) (\<lambda>start_coin.
     bind_io (lift_io (expect_opt ''Did not find coins!'' start_coin)) (\<lambda>start_coin.
     bind_io (lift_io (unwrap_sum (address_parse (cl L) ''0x912fd21d7a69678227fe6d08c64222db41477ba0''))) (\<lambda>ethereum_sender.
     bind_io (for_io keys (\<lambda>k.
       bind_io (unwrap_io (calling (send_ethereum_claims L K (vk_orch_key k)
         [duplicate_event nonce erc20_address ethereum_sender receiver amt] [] [] [] [] get_fee))) (\<lambda>_. return_io ()))) (\<lambda>_.
     bind_io (unwrap_io (query_io (wait_for_next_block K TOTAL_TIMEOUT))) (\<lambda>_.
     bind_io (check_cosmos_balance K ''nab'' receiver) (\<lambda>end_coin.
     case end_coin of
       Some end_coin \<Rightarrow>
         if coin_amount start_coin = coin_amount end_coin \<and> denom start_coin = denom end_coin then return_io ()
         else panic_io ''Duplicated ERC20!''
     | None \<Rightarrow> panic_io ''Duplicate test failed for unknown reasons!''))))))"

definition times_io :: "nat \<Rightarrow> unit test \<Rightarrow> unit test" where
  "times_io n m = for_io [0..<n] (\<lambda>_. m)"

definition happy_path_test :: "libs \<Rightarrow> test_env \<Rightarrow> web3 \<Rightarrow> contact \<Rightarrow> grpc \<Rightarrow> timer \<Rightarrow> validator_keys list \<Rightarrow> eth_address \<Rightarrow> eth_address \<Rightarrow> bool \<Rightarrow> unit test" where
  "happy_path_test L X W K G T keys gravity_address erc20_address validator_out =
     bind_io (start_orchestrators X keys gravity_address validator_out create_default_test_config) (\<lambda>_.
     bind_io (if \<not> validator_out then times_io 2 (test_valset_update L X W G T keys gravity_address)
              else wait_for_nonzero_valset L X W T gravity_address) (\<lambda>_.
     bind_io (get_user_key L X) (\<lambda>user_keys.
     bind_io (times_io 3 (test_erc20_deposit L X W K G T (uk_cosmos_address user_keys) gravity_address erc20_address 100)) (\<lambda>_.
     with_miner L X (\<lambda>_ miner.
     bind_io (unwrap_io (calling (get_event_nonce L W gravity_address miner))) (\<lambda>event_nonce.
     bind_io (submit_duplicate_erc20_send L K event_nonce erc20_address 1 (uk_cosmos_address user_keys) keys) (\<lambda>_.
     bind_io (nth_io keys 0) (\<lambda>key0.
     test_batch L X W K G T (uk_eth_address user_keys) gravity_address (vk_validator_key key0) (uk_cosmos_key user_keys) erc20_address))))))))"

section \<open>Cosmos assets on Ethereum\<close>

definition deploy_cosmos_representing_erc20_and_check_adoption :: "libs \<Rightarrow> test_env \<Rightarrow> web3 \<Rightarrow> grpc \<Rightarrow> timer \<Rightarrow> validator_keys list \<Rightarrow>
    eth_address \<Rightarrow> bool \<Rightarrow> string \<Rightarrow> string \<Rightarrow> eth_address test" where
  "deploy_cosmos_representing_erc20_and_check_adoption L X W G T keys gravity_address validator_out token display_name =
     bind_io (nth_io keys 0) (\<lambda>key0.
     let sk = vk_eth_key key0; our_address = eth_key_to_address (cl L) sk in
     bind_io (expect_io ''Incorrect Gravity Address or otherwise unable to contact Gravity'' (calling (get_valset_nonce L W gravity_address our_address))) (\<lambda>_.
     bind_io (unwrap_io (calling (get_event_nonce L W gravity_address our_address))) (\<lambda>starting_event_nonce.
     bind_io (unwrap_io (calling (deploy_erc20 L W token display_name display_name 6 gravity_address (Some TOTAL_TIMEOUT) sk []))) (\<lambda>_.
     bind_io (unwrap_io (calling (get_event_nonce L W gravity_address our_address))) (\<lambda>ending_event_nonce.
     bind_io (assert_io (starting_event_nonce \<noteq> ending_event_nonce)) (\<lambda>_.
     bind_io (start_orchestrators X keys gravity_address validator_out create_default_test_config) (\<lambda>_.
     bind_io (timeout_loop (T TOTAL_TIMEOUT)
       (bind_io (query_io (denom_to_erc20 G token)) (\<lambda>res.
        return_io (case res of Inr res \<Rightarrow> Some (dte_erc20 res) | Inl _ \<Rightarrow> None)))) (\<lambda>r.
     case r of
       None \<Rightarrow> panic_io ''Cosmos did not adopt the ERC20 contract, it must be invalid in some way''
     | Some erc20_contract \<Rightarrow> lift_io (unwrap_sum (address_parse (cl L) erc20_contract))))))))))"

text \<open>A failed request or a balance of zero is waited out, another balance than the expected one
  fails.\<close>

definition asset_bridged :: "uint256 \<Rightarrow> web3_error + uint256 \<Rightarrow> unit option outcome" where
  "asset_bridged expected r =
     (case r of
        Inl _ \<Rightarrow> Ret None
      | Inr balance \<Rightarrow>
          if balance = expected then Ret (Some ())
          else if balance \<noteq> 0 then Panic ''Expected another balance''
          else Ret None)"

definition happy_path_test_v2 :: "libs \<Rightarrow> test_env \<Rightarrow> web3 \<Rightarrow> contact \<Rightarrow> grpc \<Rightarrow> timer \<Rightarrow> validator_keys list \<Rightarrow> eth_address \<Rightarrow> bool \<Rightarrow> unit test" where
  "happy_path_test_v2 L X W K G T keys gravity_address validator_out =
     (let token = ''footoken'' in
      bind_io (deploy_cosmos_representing_erc20_and_check_adoption L X W G T keys gravity_address validator_out token ''mfootoken'') (\<lambda>erc20_contract.
      let amount_to_bridge = 1000000 in
      bind_io (lift_io (u256_add (nm L) amount_to_bridge 100)) (\<lambda>user_amount.
      let send_to_user_coin = \<lparr>denom = token, coin_amount = user_amount\<rparr>;
          send_to_eth_coin = \<lparr>denom = token, coin_amount = amount_to_bridge\<rparr> in
      bind_io (get_user_key L X) (\<lambda>user.
      bind_io (nth_io keys 0) (\<lambda>key0.
      bind_io (unwrap_io (effect_io (SendTokens send_to_user_coin (Some get_fee) (uk_cosmos_address user) (vk_validator_key key0))
        (send_tokens_to X send_to_user_coin (Some get_fee) (uk_cosmos_address user) (vk_validator_key key0)))) (\<lambda>_.
      bind_io (unwrap_io (query_io (get_balances K (uk_cosmos_address user)))) (\<lambda>balances.
      if \<not> list_ex (\<lambda>c. denom c = token) balances then panic_io ''Failed to send tokens to the user address''
      else
        bind_io (send_one_eth L X W (uk_eth_address user)) (\<lambda>_.
        bind_io (unwrap_io (calling (send_to_eth L K (uk_cosmos_key user) (uk_eth_address user) send_to_eth_coin get_fee get_fee))) (\<lambda>_.
        bind_io (unwrap_io (calling (send_request_batch L K (vk_validator_key key0) token get_fee (Some TIMEOUT)))) (\<lambda>_.
        bind_io (timeout_loop (T TOTAL_TIMEOUT)
          (bind_io (query_io (get_erc20_balance W erc20_contract (uk_eth_address user))) (\<lambda>r. lift_io (asset_bridged amount_to_bridge r)))) (\<lambda>r.
        case r of
          None \<Rightarrow> panic_io ''failed to verify asset is bridged to ethereum: timed out''
        | Some _ \<Rightarrow> return_io ())))))))))))"


section \<open>The relay market\<close>

record batch_setup =
  bs_held :: coin
  bs_send_amount :: uint256
  bs_requester_key :: cosmos_private_key
  bs_requester_address :: cosmos_address
  bs_dest_eth_address :: eth_address

definition setup_batch_test :: "libs \<Rightarrow> test_env \<Rightarrow> web3 \<Rightarrow> contact \<Rightarrow> grpc \<Rightarrow> timer \<Rightarrow> validator_keys list \<Rightarrow> eth_address \<Rightarrow> eth_address \<Rightarrow>
    uint256 \<Rightarrow> batch_setup test" where
  "setup_batch_test L X W K G T keys gravity_address erc20_contract bridge_fee_amount =
     with_miner L X (\<lambda>sk _.
     bind_io (lift_io (u256_mul (nm L) test_one_eth 10000)) (\<lambda>weth.
     bind_io (effect_io (WrapEth weth sk) (wrap_eth X weth sk)) (\<lambda>weth_acquired.
     bind_io (assert_io (\<not> is_err weth_acquired)) (\<lambda>_.
     bind_io (lift_io (u256_mul (nm L) test_one_eth 1000)) (\<lambda>swapped.
     bind_io (effect_io (SwapUniswap sk (WETH_CONTRACT_ADDRESS W) erc20_contract swapped)
       (swap_uniswap X sk (WETH_CONTRACT_ADDRESS W) erc20_contract swapped)) (\<lambda>token_acquired.
     bind_io (assert_io (\<not> is_err token_acquired)) (\<lambda>_.
     bind_io (query_io (generate_bytes (randomness X))) (\<lambda>secret.
     let dest_key = cosmos_key_from_secret X secret in
     bind_io (lift_io (unwrap_sum (cosmos_key_to_address (ds L) dest_key (ADDRESS_PREFIX L X)))) (\<lambda>dest_cosmos_address.
     bind_io (lift_io (unwrap_sum (eth_key_from_slice (randomness X) secret))) (\<lambda>dest_eth_key.
     let dest_eth_address = eth_key_to_address (cl L) dest_eth_key in
     bind_io (lift_io (u256_mul (nm L) test_one_eth 100)) (\<lambda>one_deposit.
     bind_io (times_io 3 (test_erc20_deposit L X W K G T dest_cosmos_address gravity_address erc20_contract one_deposit)) (\<lambda>_.
     bind_io (nth_io keys 0) (\<lambda>key0.
     let requester_key = vk_validator_key key0 in
     bind_io (lift_io (unwrap_sum (cosmos_key_to_address (ds L) requester_key (get_prefix K)))) (\<lambda>requester_address.
     bind_io (test_erc20_deposit L X W K G T requester_address gravity_address erc20_contract one_deposit) (\<lambda>_.
     bind_io (check_cosmos_balance K ''nab'' dest_cosmos_address) (\<lambda>held.
     bind_io (lift_io (unwrap_opt held)) (\<lambda>held.
     let bridge_denom_fee = \<lparr>denom = denom held, coin_amount = bridge_fee_amount\<rparr> in
     bind_io (lift_io (u256_mul (nm L) test_one_eth 200)) (\<lambda>send_amount.
     bind_io (unwrap_io (calling (send_to_eth L K dest_key dest_eth_address \<lparr>denom = denom held, coin_amount = send_amount\<rparr>
       bridge_denom_fee bridge_denom_fee))) (\<lambda>_.
     return_io \<lparr>bs_held = held, bs_send_amount = send_amount, bs_requester_key = requester_key,
       bs_requester_address = requester_address, bs_dest_eth_address = dest_eth_address\<rparr>)))))))))))))))))))"

definition wait_for_batch :: "libs \<Rightarrow> test_env \<Rightarrow> web3 \<Rightarrow> contact \<Rightarrow> grpc \<Rightarrow> timer \<Rightarrow> bool \<Rightarrow> cosmos_address \<Rightarrow> eth_address \<Rightarrow> eth_address \<Rightarrow> u64 test" where
  "wait_for_batch L X W K G T expect_batch requester_address erc20_contract gravity_address =
     bind_io (unwrap_io (query_io (wait_for_next_block K OPERATION_TIMEOUT))) (\<lambda>_.
     bind_io (expect_io ''Failed to get batch to sign'' (calling (get_oldest_unsigned_transaction_batch L G requester_address (get_prefix K)))) (\<lambda>_.
     with_miner L X (\<lambda>_ miner.
     bind_io (expect_io ''Failed to get current eth valset'' (calling (get_tx_batch_nonce L W gravity_address erc20_contract miner))) (\<lambda>starting_batch_nonce.
     bind_io (await_batch_nonce L W (T OPERATION_TIMEOUT) gravity_address erc20_contract miner starting_batch_nonce) (\<lambda>r.
     case r of
       None \<Rightarrow> if expect_batch then panic_io ''Failed to submit transaction batch set'' else return_io starting_batch_nonce
     | Some current_eth_batch_nonce \<Rightarrow>
         if \<not> expect_batch \<and> starting_batch_nonce \<noteq> current_eth_batch_nonce then panic_io ''Expected to not have a batch update''
         else return_io current_eth_batch_nonce)))))"

definition test_good_batch :: "libs \<Rightarrow> test_env \<Rightarrow> web3 \<Rightarrow> contact \<Rightarrow> grpc \<Rightarrow> timer \<Rightarrow> validator_keys list \<Rightarrow> eth_address \<Rightarrow> eth_address \<Rightarrow> unit test" where
  "test_good_batch L X W K G T keys gravity_address erc20_contract =
     bind_io (lift_io (u256_mul (nm L) test_one_eth 10)) (\<lambda>bridge_fee_amount.
     bind_io (setup_batch_test L X W K G T keys gravity_address erc20_contract bridge_fee_amount) (\<lambda>b.
     bind_io (lift_io (u256_mul (nm L) test_one_eth 20)) (\<lambda>fee_amount.
     bind_io (unwrap_io (calling (send_request_batch L K (bs_requester_key b) (denom (bs_held b))
       \<lparr>denom = denom (bs_held b), coin_amount = fee_amount\<rparr> (Some TIMEOUT)))) (\<lambda>_.
     bind_io (wait_for_batch L X W K G T True (bs_requester_address b) erc20_contract gravity_address) (\<lambda>_.
     bind_io (fund_receiver L X W (bs_dest_eth_address b)) (\<lambda>_.
     bind_io (unwrap_io (query_io (get_erc20_balance W erc20_contract (bs_dest_eth_address b)))) (\<lambda>dest_eth_bal.
     assert_io (dest_eth_bal = bs_send_amount b))))))))"

definition test_bad_batch :: "libs \<Rightarrow> test_env \<Rightarrow> web3 \<Rightarrow> contact \<Rightarrow> grpc \<Rightarrow> timer \<Rightarrow> validator_keys list \<Rightarrow> eth_address \<Rightarrow> eth_address \<Rightarrow> unit test" where
  "test_bad_batch L X W K G T keys gravity_address erc20_contract =
     bind_io (setup_batch_test L X W K G T keys gravity_address erc20_contract 2500) (\<lambda>b.
     bind_io (unwrap_io (calling (send_request_batch L K (bs_requester_key b) (denom (bs_held b))
       \<lparr>denom = denom (bs_held b), coin_amount = 2500\<rparr> (Some TIMEOUT)))) (\<lambda>_.
     bind_io (wait_for_batch L X W K G T False (bs_requester_address b) erc20_contract gravity_address) (\<lambda>_.
     bind_io (send_one_eth L X W (bs_dest_eth_address b)) (\<lambda>_.
     bind_io (unwrap_io (query_io (get_erc20_balance W erc20_contract (bs_dest_eth_address b)))) (\<lambda>dest_eth_bal.
     assert_io (dest_eth_bal \<noteq> bs_send_amount b))))))"

definition relay_market_test :: "libs \<Rightarrow> test_env \<Rightarrow> web3 \<Rightarrow> contact \<Rightarrow> grpc \<Rightarrow> timer \<Rightarrow> validator_keys list \<Rightarrow> eth_address \<Rightarrow> unit test" where
  "relay_market_test L X W K G T keys gravity_address =
     bind_io (start_orchestrators X keys gravity_address False create_market_test_config) (\<lambda>_.
     bind_io (test_good_batch L X W K G T keys gravity_address (DAI_CONTRACT_ADDRESS X)) (\<lambda>_.
     test_bad_batch L X W K G T keys gravity_address (DAI_CONTRACT_ADDRESS X)))"


section \<open>Rewards, slashing, cancellation and keys\<close>

definition valset_rewards_test :: "libs \<Rightarrow> test_env \<Rightarrow> web3 \<Rightarrow> contact \<Rightarrow> grpc \<Rightarrow> timer \<Rightarrow> validator_keys list \<Rightarrow> eth_address \<Rightarrow> bool \<Rightarrow> unit test" where
  "valset_rewards_test L X W K G T keys gravity_address validator_out =
     bind_io (deploy_cosmos_representing_erc20_and_check_adoption L X W G T keys gravity_address validator_out ''footoken'' ''mfootoken'') (\<lambda>erc20_contract.
     let valset_reward = \<lparr>denom = ''footoken'', coin_amount = 1000000\<rparr>;
         deposit = \<lparr>denom = STAKING_TOKEN X, coin_amount = 1000000000\<rparr> in
     bind_io (nth_io keys 0) (\<lambda>key0.
     bind_io (create_parameter_change_proposal L X K (vk_validator_key key0) deposit gravity_address valset_reward) (\<lambda>_.
     bind_io (unwrap_io (query_io (proposals_in_voting_period X))) (\<lambda>proposals.
     bind_io (for_io proposals (\<lambda>proposal_id. for_io keys (\<lambda>k.
       bind_io (unwrap_io (effect_io (VoteYes proposal_id get_fee (vk_validator_key k))
         (vote_on_gov_proposal X proposal_id get_fee (vk_validator_key k)))) (\<lambda>res.
       bind_io (unwrap_io (query_io (wait_for_tx K res TOTAL_TIMEOUT))) (\<lambda>_. return_io ()))))) (\<lambda>_.
     bind_io (unwrap_io (calling (get_gravity_params G))) (\<lambda>params.
     bind_io (assert_io (bridge_chain_id params = 1)) (\<lambda>_.
     bind_io (assert_io (bridge_ethereum_address params = address_to_string (cl L) gravity_address)) (\<lambda>_.
     bind_io (test_valset_update L X W G T keys gravity_address) (\<lambda>_.
     bind_io (fold_io (\<lambda>k found.
       bind_io (unwrap_io (query_io (get_erc20_balance W erc20_contract (eth_key_to_address (cl L) (vk_eth_key k))))) (\<lambda>balance.
       return_io (if balance = coin_amount valset_reward then True else found))) keys False) (\<lambda>found.
     if \<not> found then panic_io ''No relayer was rewarded in footoken for relaying validator set!'' else return_io ()))))))))))"

definition check_validator :: "libs \<Rightarrow> test_env \<Rightarrow> cosmos_private_key \<Rightarrow> string \<Rightarrow> (bool \<times> bool) test" where
  "check_validator L X k status =
     bind_io (unwrap_io (query_io (get_validators_list X status))) (\<lambda>validators.
     bind_io (lift_io (get_operator_address L X k)) (\<lambda>addr.
     return_io (case List.find (\<lambda>v. sv_operator_address v = cosmos_to_string (ds L) addr) validators of
       Some val \<Rightarrow> (True, sv_jailed val) | None \<Rightarrow> (False, False))))"

definition print_validator_status :: "test_env \<Rightarrow> unit test" where
  "print_validator_status X = bind_io (unwrap_io (query_io (get_active_validators X))) (\<lambda>_. return_io ())"

definition delegate_to_validator :: "libs \<Rightarrow> test_env \<Rightarrow> validator_keys list \<Rightarrow> cosmos_private_key \<Rightarrow> unit test" where
  "delegate_to_validator L X keys to =
     bind_io (lift_io (get_operator_address L X to)) (\<lambda>delegate_address.
     bind_io (nth_io keys 1) (\<lambda>key1.
     bind_io (unwrap_io (effect_io (Delegate delegate_address (stake_change X) get_fee (vk_validator_key key1))
       (delegate_to X delegate_address (stake_change X) get_fee (vk_validator_key key1)))) (\<lambda>_.
     return_io ())))"

definition false_valset :: "eth_address \<Rightarrow> valset" where
  "false_valset eth_addr =
     \<lparr>vs_nonce = 500, vs_members = [\<lparr>vm_power = 1337, vm_eth_address = Some eth_addr\<rparr>], vs_reward_amount = 0, vs_reward_token = None\<rparr>"

definition evidence_based_slashing :: "libs \<Rightarrow> test_env \<Rightarrow> web3 \<Rightarrow> contact \<Rightarrow> timer \<Rightarrow> validator_keys list \<Rightarrow> eth_address \<Rightarrow> unit test" where
  "evidence_based_slashing L X W K T keys gravity_address =
     bind_io (nth_io keys 1) (\<lambda>key1.
     bind_io (delegate_to_validator L X keys (vk_validator_key key1)) (\<lambda>_.
     bind_io (nth_io keys 2) (\<lambda>key2.
     bind_io (delegate_to_validator L X keys (vk_validator_key key2)) (\<lambda>_.
     bind_io (nth_io keys 0) (\<lambda>key0.
     let sk = vk_eth_key key0; eth_addr = eth_key_to_address (cl L) sk; valset = false_valset eth_addr in
     bind_io (unwrap_io (calling (get_gravity_id_with_retry L W T gravity_address eth_addr None))) (\<lambda>gravity_id.
     let eth_signature = sign_ethereum_msg (cl L) sk (encode_valset_confirm (cl L) gravity_id valset) in
     bind_io (print_validator_status X) (\<lambda>_.
     bind_io (check_validator L X (vk_validator_key key0) ''BOND_STATUS_BONDED'') (\<lambda>(is_in_set, jailed).
     bind_io (assert_io is_in_set) (\<lambda>_.
     bind_io (assert_io (\<not> jailed)) (\<lambda>_.
     bind_io (unwrap_io (calling (submit_bad_signature_evidence L K (vk_orch_key key1) get_fee (EvidenceValset valset) eth_signature))) (\<lambda>_.
     bind_io (check_validator L X (vk_validator_key key0) ''BOND_STATUS_UNBONDING'') (\<lambda>(is_in_set, jailed).
     bind_io (assert_io is_in_set) (\<lambda>_.
     assert_io jailed)))))))))))))"

definition send_to_eth_and_cancel :: "libs \<Rightarrow> test_env \<Rightarrow> web3 \<Rightarrow> contact \<Rightarrow> grpc \<Rightarrow> timer \<Rightarrow> validator_keys list \<Rightarrow> eth_address \<Rightarrow> eth_address \<Rightarrow> unit test" where
  "send_to_eth_and_cancel L X W K G T keys gravity_address erc20_address =
     bind_io (start_orchestrators X keys gravity_address False create_default_test_config) (\<lambda>_.
     bind_io (get_user_key L X) (\<lambda>user_keys.
     bind_io (test_erc20_deposit L X W K G T (uk_cosmos_address user_keys) gravity_address erc20_address test_one_eth) (\<lambda>_.
     let token_name = ''nab'' @ address_to_string (cl L) erc20_address;
         bridge_denom_fee = \<lparr>denom = token_name, coin_amount = 500\<rparr> in
     bind_io (lift_io (u256_sub (nm L) test_one_eth 1500)) (\<lambda>amt.
     bind_io (unwrap_io (calling (send_to_eth L K (uk_cosmos_key user_keys) (uk_eth_address user_keys)
       \<lparr>denom = token_name, coin_amount = amt\<rparr> bridge_denom_fee bridge_denom_fee))) (\<lambda>_.
     bind_io (unwrap_io (calling (get_pending_send_to_eth L G (uk_cosmos_address user_keys)))) (\<lambda>res.
     bind_io (nth_io (unbatched_transfers res) 0) (\<lambda>tx.
     bind_io (unwrap_io (calling (cancel_send_to_eth L K (uk_cosmos_key user_keys) bridge_denom_fee (ptx_id tx)))) (\<lambda>_.
     bind_io (unwrap_io (calling (get_pending_send_to_eth L G (uk_cosmos_address user_keys)))) (\<lambda>res.
     assert_io (unbatched_transfers res = []))))))))))"

definition orch_keys :: "libs \<Rightarrow> contact \<Rightarrow> grpc \<Rightarrow> validator_keys list \<Rightarrow> unit test" where
  "orch_keys L K G keys =
     for_io keys (\<lambda>k.
       let eth_address = eth_key_to_address (cl L) (vk_eth_key k) in
       bind_io (lift_io (unwrap_sum (cosmos_key_to_address (ds L) (vk_orch_key k) (get_prefix K)))) (\<lambda>orch_address.
       bind_io (unwrap_io (query_io (get_delegate_key_by_eth G (address_to_string (cl L) eth_address)))) (\<lambda>eth_response.
       bind_io (lift_io (unwrap_sum (cosmos_parse (ds L) (dke_orchestrator_address eth_response)))) (\<lambda>parsed_orch_address.
       bind_io (assert_io (parsed_orch_address = orch_address)) (\<lambda>_.
       bind_io (unwrap_io (query_io (get_delegate_key_by_orchestrator G (cosmos_to_string (ds L) orch_address)))) (\<lambda>orchestrator_response.
       bind_io (lift_io (unwrap_sum (address_parse (cl L) (dko_eth_address orchestrator_response)))) (\<lambda>parsed_eth_address.
       assert_io (parsed_eth_address = eth_address))))))))"

definition arbitrary_logic_test :: "test_env \<Rightarrow> validator_keys list \<Rightarrow> eth_address \<Rightarrow> unit test" where
  "arbitrary_logic_test X keys gravity_address =
     start_orchestrators X keys gravity_address False create_default_test_config"

definition validator_set_stress_test :: "libs \<Rightarrow> test_env \<Rightarrow> web3 \<Rightarrow> grpc \<Rightarrow> timer \<Rightarrow> validator_keys list \<Rightarrow> eth_address \<Rightarrow> unit test" where
  "validator_set_stress_test L X W G T keys gravity_address =
     bind_io (start_orchestrators X keys gravity_address False create_default_test_config) (\<lambda>_.
     times_io 10 (test_valset_update L X W G T keys gravity_address))"


section \<open>The choice of a test\<close>

text \<open>\<open>main\<close> connects, reads the keys and, unless it only deploys the contracts, funds the validators
  and runs the test that \<open>TEST_TYPE\<close> names.  The stress test of \<open>transaction_stress_test.rs\<close>, whose
  futures run side by side, is an argument.\<close>

definition run_test :: "libs \<Rightarrow> test_env \<Rightarrow> web3 \<Rightarrow> contact \<Rightarrow> grpc \<Rightarrow> timer \<Rightarrow>
    (contact \<Rightarrow> validator_keys list \<Rightarrow> eth_address \<Rightarrow> eth_address list \<Rightarrow> unit test) \<Rightarrow>
    validator_keys list \<Rightarrow> eth_address \<Rightarrow> eth_address list \<Rightarrow> unit test" where
  "run_test L X W K G T transaction_stress_test keys gravity_address erc20_addresses =
     (case env_var X ''TEST_TYPE'' of
        None \<Rightarrow> bind_io (nth_io erc20_addresses 0) (\<lambda>erc20. happy_path_test L X W K G T keys gravity_address erc20 False)
      | Some test_type \<Rightarrow>
          if test_type = ''VALIDATOR_OUT'' then
            bind_io (nth_io erc20_addresses 0) (\<lambda>erc20. happy_path_test L X W K G T keys gravity_address erc20 True)
          else if test_type = ''BATCH_STRESS'' then
            bind_io (lift_io (unwrap_sum (new_contact (chain_net X) (COSMOS_NODE_GRPC X) TOTAL_TIMEOUT (ADDRESS_PREFIX L X)))) (\<lambda>K.
            transaction_stress_test K keys gravity_address erc20_addresses)
          else if test_type = ''VALSET_STRESS'' then validator_set_stress_test L X W G T keys gravity_address
          else if test_type = ''VALSET_REWARDS'' then valset_rewards_test L X W K G T keys gravity_address False
          else if test_type = ''V2_HAPPY_PATH'' \<or> test_type = ''HAPPY_PATH_V2'' then happy_path_test_v2 L X W K G T keys gravity_address False
          else if test_type = ''ARBITRARY_LOGIC'' then arbitrary_logic_test X keys gravity_address
          else if test_type = ''RELAY_MARKET'' then relay_market_test L X W K G T keys gravity_address
          else if test_type = ''ORCHESTRATOR_KEYS'' then orch_keys L K G keys
          else if test_type = ''EVIDENCE'' then evidence_based_slashing L X W K T keys gravity_address
          else if test_type = ''TXCANCEL'' then
            bind_io (nth_io erc20_addresses 0) (\<lambda>erc20. send_to_eth_and_cancel L X W K G T keys gravity_address erc20)
          else bind_io (nth_io erc20_addresses 0) (\<lambda>erc20. happy_path_test L X W K G T keys gravity_address erc20 False))"

definition test_runner_main :: "libs \<Rightarrow> test_env \<Rightarrow> timer \<Rightarrow>
    (web3 \<Rightarrow> grpc \<Rightarrow> contact \<Rightarrow> validator_keys list \<Rightarrow> eth_address \<Rightarrow> eth_address list \<Rightarrow> unit test) \<Rightarrow> unit test" where
  "test_runner_main L X T transaction_stress_test =
     bind_io (lift_io (unwrap_sum (new_contact (chain_net X) (COSMOS_NODE_GRPC X) OPERATION_TIMEOUT (ADDRESS_PREFIX L X)))) (\<lambda>K.
     bind_io (calling (wait_for_cosmos_online K T TOTAL_TIMEOUT)) (\<lambda>_.
     bind_io (unwrap_io (query_io (connect_grpc (chain_net X) (COSMOS_NODE_GRPC X)))) (\<lambda>G.
     let W = new_web3 (chain_net X) (ETH_NODE X) OPERATION_TIMEOUT in
     bind_io (get_keys L X) (\<lambda>keys.
     if should_deploy_contracts X then deploy_contracts L X K
     else
       bind_io (parse_contract_addresses L X) (\<lambda>contracts.
       bind_io (send_eth_to_orchestrators L X W keys) (\<lambda>_.
       bind_io (nth_io keys 0) (\<lambda>key0.
       bind_io (lift_io (unwrap_sum (cosmos_key_to_address (ds L) (vk_validator_key key0) (get_prefix K)))) (\<lambda>validator_address.
       bind_io (check_cosmos_balance K get_test_token_name validator_address) (\<lambda>balance.
       bind_io (assert_io (balance \<noteq> None)) (\<lambda>_.
       run_test L X W K G T (transaction_stress_test W G) keys (bc_gravity_contract contracts) (bc_erc20_addresses contracts)))))))))))"

section \<open>Runs of tests\<close>

text \<open>A test that returns has returned at each of its steps.\<close>

lemma bind_io_Ret: "bind_io m f s = Some (Ret r, t) \<longleftrightarrow> (\<exists>x s1. m s = Some (Ret x, s1) \<and> f x s1 = Some (Ret r, t))"
  by (auto simp: bind_io_Some_iff)

lemma unwrap_io_Ret: "unwrap_io m s = Some (Ret x, t) \<longleftrightarrow> m s = Some (Ret (Inr x), t)"
  by (auto simp: unwrap_io_def bind_io_Ret lift_io_run outcome_simps)

lemma expect_sum_Ret: "expect_sum e r = Ret x \<longleftrightarrow> r = Inr x"
  by (cases r) (auto simp: expect_sum_def)

lemma expect_io_Ret: "expect_io e m s = Some (Ret x, t) \<longleftrightarrow> m s = Some (Ret (Inr x), t)"
  by (auto simp: expect_io_def bind_io_Ret lift_io_run expect_sum_Ret)

lemma assert_io_Ret: "assert_io b s = Some (Ret x, t) \<longleftrightarrow> b \<and> t = s"
  by (auto simp: assert_io_def io_simps)

lemma query_io_Ret:
  "query_io ans s = Some (Ret x, t) \<longleftrightarrow> \<not> cut_off s \<and> ans (clock s) = x \<and> t = s\<lparr>clock := Suc (clock s)\<rparr>"
  by (auto simp: query_io_def)

lemma lift_io_Ret: "lift_io r s = Some (Ret x, t) \<longleftrightarrow> r = Ret x \<and> t = s"
  by (auto simp: lift_io_run)

lemma return_io_Ret: "return_io y s = Some (Ret x, t) \<longleftrightarrow> x = y \<and> t = s"
  by (auto simp: io_simps)

lemma panic_io_Ret: "panic_io p s = Some (Ret x, t) \<longleftrightarrow> False"
  by (simp add: io_simps)

lemma with_miner_Ret:
  "with_miner L X f s = Some (Ret r, t) \<longleftrightarrow>
     (\<exists>sk. MINER_PRIVATE_KEY X = Ret sk \<and> f sk (eth_key_to_address (cl L) sk) s = Some (Ret r, t))"
  by (cases "MINER_PRIVATE_KEY X") (auto simp: with_miner_def MINER_ADDRESS_def io_simps)

lemmas run_Ret = bind_io_Ret unwrap_io_Ret expect_io_Ret assert_io_Ret query_io_Ret lift_io_Ret return_io_Ret panic_io_Ret
  with_miner_Ret

text \<open>What a call appends to the trace of the test, and that it takes time.\<close>

lemma calling_emits:
  assumes "emits P m"
  shows "emits (\<lambda>e. \<exists>n. e = Node n \<and> P n) (calling m)"
proof (rule emitsI)
  fix s :: "test_effect io_state" and r t
  assume "calling m s = Some (r, t)"
  then obtain t' where t': "m \<lparr>clock = clock s, trace = [], horizon = horizon s\<rparr> = Some (r, t')"
    "trace t = trace s @ map Node (trace t')" by (auto simp: calling_def)
  from emitsD [OF assms t'(1)] t'(2) show "\<exists>new. trace t = trace s @ new \<and> list_all (\<lambda>e. \<exists>n. e = Node n \<and> P n) new"
    by (auto simp: list_all_iff)
qed

lemma calling_silent: "silent m \<Longrightarrow> silent (calling m)"
  by (drule calling_emits) (simp add: emits_def)

lemma emits_tests [emits_intros]:
  "emits P m \<Longrightarrow> emits P (unwrap_io m)" "emits P m \<Longrightarrow> emits P (expect_io e m)" "emits P (assert_io b)"
  unfolding unwrap_io_def expect_io_def assert_io_def by (auto intro: emits_intros)

lemma emits_clock [emits_intros]: "emits P (clock_io f)"
  by (simp add: emits_def clock_io_def)

lemma emits_timeout_loop [emits_intros]: "emits P body \<Longrightarrow> emits P (timeout_loop elapsed body)"
  unfolding timeout_loop_def by (intro emits_intros)

definition forward :: "('x, 'a) io \<Rightarrow> bool" where
  "forward m \<longleftrightarrow> (\<forall>s r t. m s = Some (r, t) \<longrightarrow> clock s \<le> clock t)"

named_theorems forward_intros \<open>which computations let time pass\<close>

lemma forwardD: "forward m \<Longrightarrow> m s = Some (r, t) \<Longrightarrow> clock s \<le> clock t"
  by (simp add: forward_def)

lemma forward_basic [forward_intros]:
  "forward (return_io x)" "forward (panic_io p)" "forward (lift_io r)" "forward (query_io ans)" "forward (effect_io e ans)"
  "forward (clock_io f)"
  by (auto simp: forward_def io_simps query_io_def effect_io_def clock_io_def)

lemma forward_bind [forward_intros]: "forward m \<Longrightarrow> (\<And>x. forward (f x)) \<Longrightarrow> forward (bind_io m f)"
  unfolding forward_def bind_io_Some_iff by (meson order_trans)

lemma forward_try [forward_intros]: "forward m \<Longrightarrow> (\<And>x. forward (f x)) \<Longrightarrow> forward (try_io m f)"
  unfolding try_io_def by (rule forward_bind) (auto intro: forward_basic split: sum.splits)

lemma forward_loop [forward_intros]:
  assumes "\<And>c. forward (body c)"
  shows "forward (loop_io body c)"
proof (unfold forward_def, intro allI impI)
  fix s r t
  assume run: "loop_io body c s = Some (r, t)"
  have step: "clock s \<le> clock s2" if "clock s \<le> clock s1" "body c' s1 = Some (q, s2)" for c' s1 q s2
    using that forwardD [OF assms] by (meson order_trans)
  show "clock s \<le> clock t"
    by (rule loop_io_induct [where I = "\<lambda>_ s'. clock s \<le> clock s'" and Q = "\<lambda>_ s'. clock s \<le> clock s'", OF run])
      (auto intro: step)
qed

lemma forward_if [forward_intros]: "forward m \<Longrightarrow> forward k \<Longrightarrow> forward (if b then m else k)"
  by simp

lemma forward_case_option [forward_intros]: "forward f \<Longrightarrow> (\<And>x. forward (g x)) \<Longrightarrow> forward (case r of None \<Rightarrow> f | Some x \<Rightarrow> g x)"
  by (cases r) auto

lemma forward_Let [forward_intros]: "(\<And>x. forward (f x)) \<Longrightarrow> forward (let x = v in f x)"
  by simp

lemma forward_calling [forward_intros]: "forward m \<Longrightarrow> forward (calling m)"
  unfolding forward_def calling_def by fastforce

lemma forward_calls [forward_intros]:
  "forward (ask conv ans)" "forward m \<Longrightarrow> forward (unwrap_io m)" "forward m \<Longrightarrow> forward (expect_io e m)"
  "forward k \<Longrightarrow> forward (convert_io conv k)" "forward body \<Longrightarrow> forward (timeout_loop elapsed body)"
  unfolding unwrap_io_def expect_io_def ask_def convert_io_def timeout_loop_def
  by (intro forward_intros; assumption)+

text \<open>A loop under a timeout that leaves with a value has made the turn that gave it.\<close>

lemma timeout_loop_Some:
  assumes "timeout_loop elapsed body s = Some (Ret (Some x), t)" "forward body"
  shows "\<exists>s'. clock s \<le> clock s' \<and> body s' = Some (Ret (Some x), t)"
proof -
  let ?body = "\<lambda>_ :: unit. bind_io (clock_io elapsed) (\<lambda>late. if late then return_io (Inr None)
    else bind_io body (\<lambda>r. return_io (case r of None \<Rightarrow> Inl () | Some x \<Rightarrow> Inr (Some x))))"
  let ?Q = "\<lambda>r t. \<forall>x. r = Ret (Some x) \<longrightarrow> (\<exists>s'. clock s \<le> clock s' \<and> body s' = Some (Ret (Some x), t))"
  have "forward (?body ())" using assms(2) by (intro forward_intros)
  then have step: "clock s1 \<le> clock s2" if "?body c s1 = Some (q, s2)" for c q s1 s2
    using that forwardD by blast
  have "?Q (Ret (Some x)) t"
  proof (rule loop_io_induct [where I = "\<lambda>_ s'. clock s \<le> clock s'" and Q = ?Q, OF assms(1) [unfolded timeout_loop_def]])
    show "clock s \<le> clock s2" if "clock s \<le> clock s1" "?body c s1 = Some (Ret (Inl c'), s2)" for c s1 c' s2
      using that step by (meson order_trans)
    show "?Q (Ret y) s2" if "clock s \<le> clock s1" "?body c s1 = Some (Ret (Inr y), s2)" for c s1 y s2
      using that by (auto simp: bind_io_Ret clock_io_def return_io_run split: if_splits option.splits)
  qed simp_all
  then show ?thesis by blast
qed


section \<open>Starting the orchestrators\<close>

text \<open>With a validator out, the last validator runs no orchestrator and all others do, if there are
  two at least; with none out, or a single validator, all do.\<close>

lemma start_orchestrators_spawns:
  "leads (\<lambda>_ new. new = map (\<lambda>k. SpawnOrchestrator k c get_fee config)
       (if validator_out \<and> 2 \<le> length keys then butlast keys else keys))
     (start_orchestrators X keys c validator_out config)"
proof -
  let ?spawn = "\<lambda>k. SpawnOrchestrator k c get_fee config"
  have go: "leads (\<lambda>_ new. new = map ?spawn (if validator_out \<and> i + 1 < n then take (n - 1 - i) ks else ks))
      (spawn_orchestrators X c validator_out config n i ks)" if "i + length ks = n" for i n ks
    using that
  proof (induction ks arbitrary: i)
    case Nil
    then show ?case by (auto intro: leads_return)
  next
    case (Cons k ks)
    let ?Q = "\<lambda>_ new. new = map ?spawn (if validator_out \<and> i + 1 < n then take (n - 1 - i) (k # ks) else k # ks)"
    have rest: "leads (\<lambda>r later. ?Q r ([?spawn k] @ later))
        (let i = i + 1 in if validator_out \<and> i = n - 1 then return_io () else spawn_orchestrators X c validator_out config n i ks)"
    proof (cases "validator_out \<and> i + 1 = n - 1")
      case True
      then have "n - 1 - i = 1" "i + 1 < n" by auto
      with True show ?thesis by (auto intro: leads_return)
    next
      case False
      have eq: "(if validator_out \<and> i + 1 < n then take (n - 1 - i) (k # ks) else k # ks) =
          k # (if validator_out \<and> i + 1 + 1 < n then take (n - 1 - (i + 1)) ks else ks)"
        using False Cons.prems by (cases "n - 1 - i") auto
      have "leads (\<lambda>_ new. new = map ?spawn (if validator_out \<and> i + 1 + 1 < n then take (n - 1 - (i + 1)) ks else ks))
          (spawn_orchestrators X c validator_out config n (i + 1) ks)"
        using Cons.prems by (intro Cons.IH) simp
      then show ?thesis unfolding eq Let_def if_not_P [OF False] by (rule leads_weaken) simp
    qed
    have "leads ?Q (bind_io (effect_io (?spawn k) (\<lambda>_. ())) (\<lambda>_. let i = i + 1 in
        if validator_out \<and> i = n - 1 then return_io () else spawn_orchestrators X c validator_out config n i ks))"
      by (rule leads_bind [where Q = "\<lambda>_ new. new = [?spawn k]"]) (use rest in \<open>auto intro: leads_effect simp: Let_def\<close>)
    then show ?case
      unfolding spawn_orchestrators.simps unwrap_io_def bind_io_assoc
      by (intro leads_bind_query leads_bind_lift)
  qed
  have "(if validator_out \<and> 0 + 1 < length keys then take (length keys - 1 - 0) keys else keys) =
      (if validator_out \<and> 2 \<le> length keys then butlast keys else keys)"
    by (auto simp: butlast_conv_take)
  with go [of 0 keys "length keys"] show ?thesis unfolding start_orchestrators_def by simp
qed

section \<open>What passing a check means\<close>

text \<open>The variable that the closure conjoins starts as true, so the check asks only that no validator of a
  decoded claim is foreign.\<close>

lemma fold_conj: "fold (\<lambda>x found. found \<and> P x) xs b \<longleftrightarrow> b \<and> list_all P xs"
  by (induction xs arbitrary: b) auto

lemma fold_conj_nested: "fold (\<lambda>c found. fold (\<lambda>x found. found \<and> P x) (f c) found) cs b \<longleftrightarrow> b \<and> list_all (\<lambda>c. list_all P (f c)) cs"
  by (induction cs arbitrary: b) (auto simp: fold_conj)

lemma calling_query:
  "horizon s = None \<Longrightarrow> calling (query_io ans) s = Some (Ret (ans (clock s)), s\<lparr>clock := Suc (clock s)\<rparr>)"
  by (simp add: calling_def query_io_def)

text \<open>C34: the check for a validator set update passes exactly when every member of every such claim the
  chain reports is one of our validators; with no claim at all it passes.\<close>

theorem valset_check_result:
  assumes "horizon s = None" "grpc_attestations G 1000 (clock s) = Inr atts"
  shows "check_valset_update_attestation L X G keys s =
    Some (if list_all (\<lambda>claim. list_all (is_validator L keys) (mvu_members claim)) (decoded_claims (decode_valset_updated X) atts)
          then Ret () else Panic ''Could not find the valset updated attestation we were looking for!'',
      s\<lparr>clock := Suc (clock s)\<rparr>)"
  using assms
  by (simp add: check_valset_update_attestation_def iterate_attestations_def expect_io_def get_attestations_def ask_def
      bind_io_def calling_query lift_io_def expect_sum_def return_io_def panic_io_def fold_conj_nested)

text \<open>The check for a deposit looks at the last claim only.\<close>

lemma fold_last: "fold (\<lambda>x found. P x) xs b \<longleftrightarrow> (if xs = [] then b else P (last xs))"
  by (induction xs arbitrary: b) auto

lemma deposit_attested:
  assumes "check_send_to_cosmos_attestation L X G T erc20 dest sender s = Some (Ret (), t)"
  shows "\<exists>n atts. clock s \<le> n \<and> clock t = Suc n \<and> grpc_attestations G 1000 n = Inr atts \<and>
    decoded_claims (decode_send_to_cosmos X) atts \<noteq> [] \<and>
    right_claim L erc20 dest sender (last (decoded_claims (decode_send_to_cosmos X) atts))"
proof -
  let ?body = "bind_io (iterate_attestations G (decode_send_to_cosmos X)
      (\<lambda>decoded found. right_claim L erc20 dest sender decoded) False) (\<lambda>found. return_io (if found then Some () else None)) :: unit option test"
  have fw: "forward ?body" unfolding iterate_attestations_def get_attestations_def by (intro forward_intros)
  from assms obtain s1 where s1: "timeout_loop (T TOTAL_TIMEOUT) ?body s = Some (Ret (Some ()), s1)" "t = s1"
    by (auto simp: check_send_to_cosmos_attestation_def run_Ret split: option.splits)
  from timeout_loop_Some [OF s1(1) fw] obtain s' where s': "clock s \<le> clock s'" "?body s' = Some (Ret (Some ()), t)"
    using s1(2) by auto
  from s'(2) obtain atts where a: "calling (get_attestations G None) s' = Some (Ret (Inr atts), t)"
    "fold (\<lambda>decoded found. right_claim L erc20 dest sender decoded) (decoded_claims (decode_send_to_cosmos X) atts) False"
    by (auto simp: iterate_attestations_def run_Ret split: if_splits)
  from a(1) have "grpc_attestations G 1000 (clock s') = Inr atts" "clock t = Suc (clock s')"
    by (auto simp: calling_def get_attestations_def ask_def query_io_def map_err_Ok_iff split: if_splits)
  with a(2) s'(1) show ?thesis by (auto simp: fold_last split: if_splits)
qed

lemma balance_seen:
  "check_cosmos_balance K d a s = Some (Ret c, t) \<Longrightarrow>
     \<exists>bs. get_balances K a (clock s) = Inr bs \<and> c = List.find (\<lambda>c. has_prefix (denom c) d) bs \<and> clock t = Suc (clock s)"
  by (auto simp: check_cosmos_balance_def run_Ret)

text \<open>The balance after a deposit, against the one before.\<close>

definition balance_rose :: "libs \<Rightarrow> uint256 \<Rightarrow> coin list \<Rightarrow> coin list \<Rightarrow> bool" where
  "balance_rose L amt before after \<longleftrightarrow>
     (let bridged = List.find (\<lambda>c. has_prefix (denom c) ''nab'') in
      case bridged after of
        None \<Rightarrow> False
      | Some e \<Rightarrow>
          (case bridged before of
             None \<Rightarrow> coin_amount e = amt
           | Some b \<Rightarrow> u256_add (nm L) (coin_amount b) amt = Ret (coin_amount e) \<and> denom b = denom e))"

lemma deposit_arrived_rose:
  "deposit_arrived L amt (List.find (\<lambda>c. has_prefix (denom c) ''nab'') before) (List.find (\<lambda>c. has_prefix (denom c) ''nab'') after) =
     Ret (Some (Inr ())) \<Longrightarrow> balance_rose L amt before after"
  by (auto simp: deposit_arrived_def balance_rose_def outcome_simps split: option.splits if_splits)

lemma deposit_awaited:
  assumes "await_deposit L K T dest amt (List.find (\<lambda>c. has_prefix (denom c) ''nab'') before) s = Some (Ret (), t)"
  shows "\<exists>n after. clock s \<le> n \<and> n < clock t \<and> get_balances K dest n = Inr after \<and> balance_rose L amt before after"
proof -
  let ?start = "List.find (\<lambda>c. has_prefix (denom c) ''nab'') before"
  let ?poll = "poll_deposit L K dest amt ?start"
  have fw: "forward ?poll" unfolding poll_deposit_def check_cosmos_balance_def by (intro forward_intros)
  from assms obtain r s1 where r: "timeout_loop (T TOTAL_TIMEOUT) ?poll s = Some (Ret r, s1)"
    "(case r of Some (Inr _) \<Rightarrow> return_io () | _ \<Rightarrow> panic_io ''Failed to bridge ERC20!'') s1 = Some (Ret (), t)"
    by (auto simp only: await_deposit_def bind_io_Ret)
  from r(2) have "r = Some (Inr ()) \<and> s1 = t" by (cases r; cases "the r") (auto simp: run_Ret)
  with r(1) have "timeout_loop (T TOTAL_TIMEOUT) ?poll s = Some (Ret (Some (Inr ())), t)" by simp
  from timeout_loop_Some [OF this fw] obtain s' where s': "clock s \<le> clock s'" "?poll s' = Some (Ret (Some (Inr ())), t)" by blast
  from s'(2) obtain c s2 r where p: "check_cosmos_balance K ''nab'' dest s' = Some (Ret c, s2)" "deposit_arrived L amt ?start c = Ret r"
    "(case r of Some x \<Rightarrow> return_io (Some x)
      | None \<Rightarrow> bind_io (unwrap_io (query_io (wait_for_next_block K TOTAL_TIMEOUT))) (\<lambda>_. return_io None)) s2 = Some (Ret (Some (Inr ())), t)"
    by (auto simp only: poll_deposit_def bind_io_Ret lift_io_Ret)
  from p(3) have "r = Some (Inr ()) \<and> s2 = t" by (cases r) (auto simp: run_Ret)
  with p(1,2) have c: "check_cosmos_balance K ''nab'' dest s' = Some (Ret c, t)" "deposit_arrived L amt ?start c = Ret (Some (Inr ()))"
    by simp_all
  from balance_seen [OF c(1)] c(2) s'(1) deposit_arrived_rose show ?thesis by fastforce
qed

text \<open>A deposit that succeeds ends with the call of the contract.\<close>

lemma leads_later:
  assumes "\<And>r new later. R r later \<Longrightarrow> R r (new @ later)" "emits P m" "\<And>x. leads R (f x)"
  shows "leads R (bind_io m f)"
proof (rule leads_bind [where Q = "\<lambda>_ _. True"])
  show "leads (\<lambda>_ _. True) m" using emitsD [OF assms(2)] unfolding leads_def by blast
  show "leads (\<lambda>r later. R r (new @ later)) (f x)" for x new
    by (rule leads_weaken [OF assms(3)]) (rule assms(1))
qed

definition ends_with_call :: "(effect \<Rightarrow> bool) \<Rightarrow> 'e + 'a \<Rightarrow> effect list \<Rightarrow> bool" where
  "ends_with_call P r new \<longleftrightarrow> (\<forall>x. r = Inr x \<longrightarrow> (\<exists>pre e. new = pre @ [e] \<and> P e))"

lemma ends_later: "ends_with_call P r later \<Longrightarrow> ends_with_call P r (new @ later)"
  by (auto simp: ends_with_call_def)

lemma ends_Inl: "ends_with_call P (Inl e) new"
  by (simp add: ends_with_call_def)

lemma leads_bind_later: "emits P m \<Longrightarrow> (\<And>x. leads (ends_with_call Q) (f x)) \<Longrightarrow> leads (ends_with_call Q) (bind_io m f)"
  by (rule leads_later) (auto intro: ends_later)

lemma leads_try_later: "emits P m \<Longrightarrow> (\<And>x. leads (ends_with_call Q) (f x)) \<Longrightarrow> leads (ends_with_call Q) (try_io m f)"
  unfolding try_io_def by (rule leads_bind_later) (auto intro: leads_return ends_Inl split: sum.splits)

definition is_deposit_call :: "eth_address \<Rightarrow> effect \<Rightarrow> bool" where
  "is_deposit_call c e \<longleftrightarrow> (\<exists>payload from sk opts. e = EthSendTransaction c payload 0 from sk opts)"

lemma send_to_cosmos_ends:
  "leads (ends_with_call (is_deposit_call c)) (send_to_cosmos L W T erc20 c amt dest sk None [])"
proof -
  let ?R = "ends_with_call (is_deposit_call c)"
  have call: "leads ?R (try_io (convert_io from_web3_error (eth_send W c payload 0 a sk os)) (\<lambda>h. try_io (return_io (Inr ())) (\<lambda>_. return_io (Inr h))))"
    for payload a os
    unfolding try_io_def convert_io_def bind_io_assoc eth_send_def
    by (rule leads_bind [where Q = "\<lambda>_ new. new = [EthSendTransaction c payload 0 a sk os]"])
      (auto intro!: leads_return leads_effect simp: ends_with_call_def is_deposit_call_def split: sum.splits)
  have no_nonce: "\<not> list_ex is_nonce_option []" by simp
  show ?thesis
    unfolding send_to_cosmos_def Let_def option.case if_not_P [OF no_nonce]
    by (intro leads_bind_later leads_try_later call; intro emits_intros TrueI)
qed

text \<open>C33: a deposit test that passes has first seen the receiver's balance, has then sent the deposit from the
  miner's account and nothing else, has after that seen as the last of the attestations one of a deposit of this
  token by the miner to the receiver (the check compares neither amount nor nonce), has then seen the deposit's own
  transaction in a block, and at last the receiver's balance higher by the amount.\<close>

theorem deposit_test_sound:
  assumes "test_erc20_deposit L X W K G T dest gravity erc20 amt s = Some (Ret (), t)"
  shows "\<exists>sk n s1 tx s2 k j m before atts receipt after new. MINER_PRIVATE_KEY X = Ret sk \<and>
    clock s \<le> n \<and> n < clock s1 \<and> clock s2 \<le> k \<and> k < j \<and> j < m \<and> m < clock t \<and>
    get_balances K dest n = Inr before \<and>
    calling (send_to_cosmos L W T erc20 gravity amt dest sk None []) s1 = Some (Ret (Inr tx), s2) \<and>
    trace s1 = trace s \<and> trace s2 = trace s @ map Node new \<and> trace t = trace s2 \<and>
    list_all (deposit_effect L erc20 gravity amt dest sk) new \<and> (\<exists>pre e. new = pre @ [e] \<and> is_deposit_call gravity e) \<and>
    grpc_attestations G 1000 k = Inr atts \<and> decoded_claims (decode_send_to_cosmos X) atts \<noteq> [] \<and>
    right_claim L erc20 dest (eth_key_to_address (cl L) sk) (last (decoded_claims (decode_send_to_cosmos X) atts)) \<and>
    wait_for_transaction W tx OPERATION_TIMEOUT j = Inr receipt \<and>
    get_balances K dest m = Inr after \<and> balance_rose L amt before after"
proof -
  from assms obtain sk nonce s1 c s2 tx s3 s4 receipt s5 where sk: "MINER_PRIVATE_KEY X = Ret sk"
    and s1: "calling (get_valset_nonce L W gravity (eth_key_to_address (cl L) sk)) s = Some (Ret (Inr nonce), s1)"
    and s2: "check_cosmos_balance K ''nab'' dest s1 = Some (Ret c, s2)"
    and s3: "calling (send_to_cosmos L W T erc20 gravity amt dest sk None []) s2 = Some (Ret (Inr tx), s3)"
    and s4: "check_send_to_cosmos_attestation L X G T erc20 dest (eth_key_to_address (cl L) sk) s3 = Some (Ret (), s4)"
    and s5: "s5 = s4\<lparr>clock := Suc (clock s4)\<rparr>" "wait_for_transaction W tx OPERATION_TIMEOUT (clock s4) = Inr receipt"
    and t: "await_deposit L K T dest amt c s5 = Some (Ret (), t)"
    by (auto simp: test_erc20_deposit_def run_Ret)
  have fw: "forward (get_valset_nonce L W gravity a)" for a
    unfolding get_valset_nonce_def nonce_query_def
    by (intro forward_intros)+
  have quiet: "silent (check_cosmos_balance K ''nab'' dest :: coin option test)"
    "silent (check_send_to_cosmos_attestation L X G T erc20 dest a)" "silent (await_deposit L K T dest amt c)" for a
    unfolding check_cosmos_balance_def check_send_to_cosmos_attestation_def await_deposit_def poll_deposit_def
      iterate_attestations_def get_attestations_def
    by (intro emits_intros calling_silent)+
  from s3 obtain t' where t': "send_to_cosmos L W T erc20 gravity amt dest sk None [] \<lparr>clock = clock s2, trace = [], horizon = horizon s2\<rparr> = Some (Ret (Inr tx), t')"
    "trace s3 = trace s2 @ map Node (trace t')" by (auto simp: calling_def)
  from emitsD [OF send_to_cosmos_emits t'(1)] have new: "list_all (deposit_effect L erc20 gravity amt dest sk) (trace t')" by simp
  from send_to_cosmos_ends t'(1) have call: "\<exists>pre e. trace t' = pre @ [e] \<and> is_deposit_call gravity e"
    unfolding leads_def ends_with_call_def by fastforce
  have trace: "trace s2 = trace s" "trace s3 = trace s @ map Node (trace t')" "trace t = trace s3"
    using silentD [OF calling_silent [OF emits_nonces(1)] s1] silentD [OF quiet(1) s2] silentD [OF quiet(2) s4] silentD [OF quiet(3) t] t'(2) s5(1)
    by simp_all
  obtain before where b: "get_balances K dest (clock s1) = Inr before" "c = List.find (\<lambda>c. has_prefix (denom c) ''nab'') before"
    "clock s2 = Suc (clock s1)" using balance_seen [OF s2] by blast
  obtain k atts where k: "clock s3 \<le> k" "clock s4 = Suc k" "grpc_attestations G 1000 k = Inr atts"
    "decoded_claims (decode_send_to_cosmos X) atts \<noteq> []"
    "right_claim L erc20 dest (eth_key_to_address (cl L) sk) (last (decoded_claims (decode_send_to_cosmos X) atts))"
    using deposit_attested [OF s4] by blast
  obtain m after where m: "clock s5 \<le> m" "m < clock t" "get_balances K dest m = Inr after" "balance_rose L amt before after"
    using deposit_awaited [OF t [unfolded b(2)]] by blast
  have "clock s \<le> clock s1" "clock s1 < clock s2" "k < clock s4" "clock s4 < m"
    using forwardD [OF forward_calling [OF fw] s1] b(3) k(2) m(1) s5(1) by simp_all
  with sk b(1) s3 trace new call k(1,3-5) s5(2) m(2-4) show ?thesis by blast
qed

section \<open>Bulk transfers\<close>

lemma leads_bind_unwrap_query: "(\<And>n x. ans n = Inr x \<Longrightarrow> leads R (f x)) \<Longrightarrow> leads R (bind_io (unwrap_io (query_io ans)) f)"
  unfolding unwrap_io_def bind_io_assoc
  by (intro leads_bind_query leads_bind_lift) (auto simp: outcome_simps)

lemma leads_bind_unwrap_effect:
  assumes "\<And>n x. ans n = Inr x \<Longrightarrow> leads (\<lambda>r later. R r (e # later)) (f x)"
  shows "leads R (bind_io (unwrap_io (effect_io e ans)) f)"
  unfolding unwrap_io_def bind_io_assoc
proof (rule leads_bind [where Q = "\<lambda>r new. new = [e] \<and> (\<exists>n. r = ans n)"])
  show "leads (\<lambda>r new. new = [e] \<and> (\<exists>n. r = ans n)) (effect_io e ans)" by (rule leads_effect) blast
  show "leads (\<lambda>r later. R r (new @ later)) (bind_io (lift_io (unwrap_sum x)) f)" if "new = [e] \<and> (\<exists>n. x = ans n)" for x new
    using that assms by (intro leads_bind_lift) (auto simp: outcome_simps)
qed

text \<open>A bulk transfer of ether sends one transaction to each destination in their order, signed with
  the miner's key, and numbers them consecutively from the miner's transaction count.\<close>

lemma send_eth_bulk_nonces:
  assumes "num256_arith (nm L)"
  shows "leads (\<lambda>_ new. \<exists>sk version n k j. MINER_PRIVATE_KEY X = Ret sk \<and> net_version W k = Inr version \<and>
      eth_get_transaction_count W (eth_key_to_address (cl L) sk) j = Inr n \<and>
      new = map (\<lambda>(nonce, a). RawTransaction (bulk_transaction amt nonce a) sk version) (enumerate n destinations))
    (send_eth_bulk L X W amt destinations)"
proof -
  let ?tx = "\<lambda>sk version. \<lambda>(nonce, a). RawTransaction (bulk_transaction amt nonce a) sk version"
  have step: "leads (\<lambda>r new. new = [?tx sk version (n, a)] \<and> r = n + 1) (bulk_step L X W amt sk version a n)" for sk version n a
  proof -
    have "leads (\<lambda>r later. ?tx sk version (n, a) # later = [?tx sk version (n, a)] \<and> r = n + 1) (lift_io (u256_add (nm L) n 1))"
      using u256_add_Ret [OF assms, of n 1] by (auto simp: leads_def lift_io_run)
    then show ?thesis unfolding bulk_step_def Let_def prod.case
      by (intro leads_bind_lift leads_bind_unwrap_effect leads_bind_unwrap_query)
  qed
  have each: "leads (\<lambda>_ new. new = map (?tx sk version) (enumerate n ds)) (fold_io (bulk_step L X W amt sk version) ds n)"
    for sk version n and ds :: "eth_address list"
  proof (induction ds arbitrary: n)
    case Nil
    show ?case by (auto intro: leads_return)
  next
    case (Cons a ds)
    show ?case unfolding fold_io.simps
      by (rule leads_bind [OF step]) (use Cons.IH in \<open>auto intro: leads_weaken\<close>)
  qed
  show ?thesis
    unfolding send_eth_bulk_def with_miner_def MINER_ADDRESS_def
    apply (intro leads_bind_lift leads_bind_unwrap_query)
    apply (rule leads_bind [OF each])
    apply (rule leads_return)
    apply (fastforce simp: outcome_simps)
    done
qed

end
