(* ===== verification/Test_Runs.thy ===== *)
theory Test_Runs
  imports Runs Proto_Build Test_Cases
begin

text \<open>
  The theorems on the generator of the bindings and on the test runner, applied to a small tree of
  generated files and to a test chain on which a deposit arrives.
\<close>

section \<open>Generated files\<close>

definition regex_ref :: "regex_item list \<Rightarrow> string \<Rightarrow> string \<Rightarrow> string" where
  "regex_ref r s t = replace_matches (match_regex r) t s"

text \<open>A walk that knows three paths.\<close>

definition generated_paths :: "path list" where
  "generated_paths = [[''/'', ''tmp'', ''gravity'', ''nab.v1.rs''], [''/'', ''tmp'', ''gravity'', ''google.api.rs''], [''out'', ''stale.rs'']]"

fun is_text :: "node option \<Rightarrow> bool" where
  "is_text (Some (File s)) = True"
| "is_text _ = False"

definition tools_ref :: build_tools where
  "tools_ref = \<lparr>
     walk_dir = (\<lambda>p fs. map (\<lambda>q. Inr (Walk_Entry q True))
       (filter (\<lambda>q. below p q \<and> is_text (fs q)) generated_paths)),
     prost_compile = (\<lambda>_ _ _ fs. (Inr (), fs)), tonic_compile = (\<lambda>_ _ _ fs. (Inr (), fs)),
     regex_replace_all = (\<lambda>p. map_option regex_ref (parse_regex p))\<rparr>"

text \<open>A path two levels up.\<close>

lemma regex_crate_ref: "regex_crate tools_ref"
  by (simp add: regex_crate_def tools_ref_def regex_ref_def)

theorem generated_paths_rewritten_witness:
  "\<exists>f. regex_replace_all tools_ref COSMOS_SDK_PROTO_REGEX = Some f \<and>
     \<not> sublist ''super::cosmos'' (patch_contents f ''pub c: super::super::cosmos::Coin'')"
  by (rule generated_paths_rewritten [OF regex_crate_ref]) (simp add: sublist_code)

definition path_ref :: "string \<Rightarrow> string \<Rightarrow> string" where
  "path_ref = regex_ref (Many ''super::'' # map (\<lambda>c. One [c]) ''cosmos'')"

lemma generated_names: "q \<in> set generated_paths \<Longrightarrow> \<exists>n. path_file_name q = Some n"
  by (auto simp: generated_paths_def path_file_name_def)

lemma walk_ref:
  "walk_dir tools_ref p fs = map (\<lambda>q. Inr (Walk_Entry q True)) (filter (\<lambda>q. below p q \<and> is_text (fs q)) generated_paths)"
  by (simp add: tools_ref_def)

lemma walks_ref: "walks tools_ref"
  unfolding walks_def walk_ref
proof (intro conjI allI impI)
  fix p :: path and fs fs' :: fs
  assume "\<forall>q. below p q \<longrightarrow> fs q = fs' q"
  then show "map (\<lambda>q. Inr (Walk_Entry q True)) (filter (\<lambda>q. below p q \<and> is_text (fs q)) generated_paths) =
      map (\<lambda>q. Inr (Walk_Entry q True)) (filter (\<lambda>q. below p q \<and> is_text (fs' q)) generated_paths)"
    by (metis (mono_tags, lifting) filter_cong)
qed (auto simp: generated_names elim: is_text.elims)

definition build_disk_ref :: build_disk where
  "build_disk_ref = \<lparr>write_denied = (\<lambda>_. False), read_denied = (\<lambda>_. False), undeletable = (\<lambda>_. False)\<rparr>"

definition generated_fs :: fs where
  "generated_fs = [[] \<mapsto> Directory, [''out''] \<mapsto> Directory, [''out'', ''stale.rs''] \<mapsto> File ''old'',
     [''/'', ''tmp'', ''gravity'', ''nab.v1.rs''] \<mapsto> File ''super::cosmos'', [''/'', ''tmp'', ''gravity'', ''google.api.rs''] \<mapsto> File ''x'']"

text \<open>One file is copied, one is excluded, and a stale one goes.\<close>

theorem copy_generated_files_result_witness:
  "\<exists>fs'. copy_generated_files tools_ref build_disk_ref [''/'', ''tmp'', ''gravity''] [''out''] generated_fs = (Ret (), fs') \<and>
     fs' [''out'', ''nab.v1.rs''] = Some (File ''cosmos_sdk_proto::cosmos'') \<and>
     fs' [''out'', ''google.api.rs''] = None \<and> fs' [''out'', ''stale.rs''] = None"
proof -
  let ?from = "[''/'', ''tmp'', ''gravity'']"
  have "walked tools_ref ?from generated_fs =
      [Walk_Entry [''/'', ''tmp'', ''gravity'', ''nab.v1.rs''] True, Walk_Entry [''/'', ''tmp'', ''gravity'', ''google.api.rs''] True]"
    by (simp add: walked_def tools_ref_def generated_paths_def below_def generated_fs_def)
  moreover have "patch_contents path_ref ''super::cosmos'' = ''cosmos_sdk_proto::cosmos''"
    by code_simp
  ultimately have copied: "copies path_ref [''out''] generated_fs (filter is_file (walked tools_ref ?from generated_fs)) =
      [([''out'', ''nab.v1.rs''], File ''cosmos_sdk_proto::cosmos'')]"
    by (simp add: copies_def excluded_def EXCLUDED_PROTO_PACKAGES_def starts_with_def path_file_name_def path_join_def
        file_text_def generated_fs_def)
  let ?copied = "map_of (rev (copies path_ref [''out''] generated_fs (filter is_file (walked tools_ref ?from generated_fs))))"
  have regex: "regex_replace_all tools_ref COSMOS_SDK_PROTO_REGEX = Some path_ref" by (simp add: tools_ref_def parse_path_regex path_ref_def)
  have disk: "lets_copy build_disk_ref ?from [''out'']" by (simp add: lets_copy_def build_disk_ref_def)
  have here: "replaceable [''out''] generated_fs" by (simp add: replaceable_def generated_fs_def)
  have apart: "\<not> below ?from [''out'']" "\<not> below [''out''] ?from" by (simp_all add: below_def)
  obtain fs' where run: "copy_generated_files tools_ref build_disk_ref ?from [''out''] generated_fs = (Ret (), fs')"
    and out: "\<forall>q. if below [''out''] q \<and> q \<noteq> [''out''] then fs' q = ?copied q else q = [''out''] \<or> fs' q = generated_fs q"
    using copy_generated_files_result [OF walks_ref regex disk here apart] by blast
  have "fs' [''out'', n] = ?copied [''out'', n]" for n
    using out [THEN spec, of "[''out'', n]"] by (simp add: below_def del: map_of.simps)
  with run show ?thesis unfolding copied by auto
qed


section \<open>A deposit that arrives\<close>

definition deposit_claim :: msg_send_to_cosmos_claim where
  "deposit_claim = \<lparr>msc_event_nonce = 1, msc_block_height = 1, msc_token_contract = address_to_string clarity_ref 5, msc_amount = ''100'',
     msc_ethereum_sender = address_to_string clarity_ref (eth_key_to_address clarity_ref [9]),
     msc_cosmos_receiver = cosmos_to_string deep_space_ref ref_address, msc_orchestrator = ''''\<rparr>"

definition test_env_ref :: test_env where
  "test_env_ref = \<lparr>
     env_var = (\<lambda>_. None), chain_net = network_ref, randomness = entropy_ref, gen_range = (\<lambda>_ _. 0),
     eth_key_parse = (\<lambda>_. Inr [9]), eth_key_hex = (\<lambda>_. ''''), cosmos_key_from_secret = (\<lambda>s. s),
     signed_transaction_bytes = (\<lambda>_ _ _. Inr []), eth_send_raw_transaction = (\<lambda>_ _. Inr 1), web3_error_string = (\<lambda>_. ''''),
     erc20_send = (\<lambda>_ _ _ _ _ _. Inr 1), wrap_eth = (\<lambda>_ _ _. Inr 1), swap_uniswap = (\<lambda>_ _ _ _ _. Inr 1), DAI_CONTRACT_ADDRESS = 3,
     delegate_to = (\<lambda>_ _ _ _ _. Inl NodeNotSynced), send_tokens_to = (\<lambda>_ _ _ _ _. Inl NodeNotSynced),
     create_gov_proposal = (\<lambda>_ _ _ _ _. Inl NodeNotSynced), proposals_in_voting_period = (\<lambda>_. Inr []),
     vote_on_gov_proposal = (\<lambda>_ _ _ _. Inl NodeNotSynced), get_validators_list = (\<lambda>_ _. Inr []), get_active_validators = (\<lambda>_. Inr []),
     coin_to_json = (\<lambda>_. Inr ''''), decode_valset_updated = (\<lambda>_. Inl ''''), decode_send_to_cosmos = (\<lambda>_. Inr deposit_claim),
     run_process = (\<lambda>_ _ _ _. Inl ''''), file_exists = (\<lambda>_ _. False), file_contents = (\<lambda>_ _. Inl ''''), file_create = (\<lambda>_ _ _. Inr ())\<rparr>"

definition some_attestation :: attestation where
  "some_attestation = \<lparr>att_observed = True, att_votes = [], att_height = 1, att_claim = Some \<lparr>type_url = '''', any_value = []\<rparr>\<rparr>"

definition attesting :: grpc where "attesting = grpc_ref\<lparr>grpc_attestations := (\<lambda>_ _. Inr [some_attestation])\<rparr>"

definition receiving :: contact where
  "receiving = contact_ref\<lparr>get_balances := (\<lambda>_ n. Inr (if n < 3 then [] else [\<lparr>denom = ''nab5'', coin_amount = 100\<rparr>]))\<rparr>"

definition test_start :: "test_effect io_state" where "test_start = \<lparr>clock = 0, trace = [], horizon = None\<rparr>"

text \<open>Nothing was claimed, and the check passes.\<close>

theorem valset_check_result_witness:
  "decoded_claims (decode_valset_updated test_env_ref) [some_attestation] = [] \<and>
   check_valset_update_attestation libs_ref test_env_ref attesting [] test_start = Some (Ret (), test_start\<lparr>clock := 1\<rparr>)"
  using valset_check_result [of test_start attesting "[some_attestation]" libs_ref test_env_ref "[]"]
  by (simp add: test_start_def attesting_def some_attestation_def decoded_claims_def test_env_ref_def)

text \<open>Two transfers of Ether.\<close>

lemma send_eth_bulk_nonces_witness:
  "leads (\<lambda>_ new. \<exists>sk version n k j. MINER_PRIVATE_KEY test_env_ref = Ret sk \<and> net_version web3_ref k = Inr version \<and>
      eth_get_transaction_count web3_ref (eth_key_to_address (cl libs_ref) sk) j = Inr n \<and>
      new = map (\<lambda>(nonce, a). RawTransaction (bulk_transaction 7 nonce a) sk version) (enumerate n [4, 5]))
    (send_eth_bulk libs_ref test_env_ref web3_ref 7 [4, 5])"
  by (rule send_eth_bulk_nonces) (simp add: num256_ref_laws)

text \<open>The deposit test, step by step: the nonce, the empty balance, the transfer, the attestation, the
  receipt, the balance.\<close>

lemma receiving_balances: "get_balances receiving a n = Inr (if n < 3 then [] else [\<lparr>denom = ''nab5'', coin_amount = 100\<rparr>])"
  by (simp add: receiving_def)

lemma balance_run:
  "horizon s = None \<Longrightarrow> check_cosmos_balance receiving ''nab'' a s =
     Some (Ret (if clock s < 3 then None else Some \<lparr>denom = ''nab5'', coin_amount = 100\<rparr>), s\<lparr>clock := Suc (clock s)\<rparr>)"
  by (simp add: check_cosmos_balance_def unwrap_io_def bind_io_assoc io_simps receiving_balances has_prefix_def)

lemma calling_run:
  "m \<lparr>clock = clock s, trace = [], horizon = horizon s\<rparr> = Some (r, t) \<Longrightarrow>
     calling m s = Some (r, \<lparr>clock = clock t, trace = trace s @ map Node (trace t), horizon = horizon t\<rparr>)"
  by (simp add: calling_def)

lemma send_run:
  "horizon s = None \<Longrightarrow> \<exists>e. send_to_cosmos libs_ref web3_ref T 5 7 100 ref_address [9] None [] s =
     Some (Ret (Inr 9), s\<lparr>clock := Suc (Suc (clock s)), trace := trace s @ [e]\<rparr>)"
  by (simp add: send_to_cosmos_def Let_def io_simps web3_ref_def clarity_ref_def convert_io_def eth_send_def bind_io_assoc try_io_def) (rule exI, rule refl)

lemma timeout_loop_now:
  "\<not> elapsed (clock s) \<Longrightarrow> body s = Some (Ret (Some x), t) \<Longrightarrow> timeout_loop elapsed body s = Some (Ret (Some x), t)"
  unfolding timeout_loop_def by (subst loop_io.simps) (simp add: bind_io_def clock_io_def return_io_def)

lemma attested_run:
  assumes "horizon s = None"
  shows "check_send_to_cosmos_attestation libs_ref test_env_ref attesting (\<lambda>_ _. False) 5 ref_address (eth_key_to_address clarity_ref [9]) s =
     Some (Ret (), s\<lparr>clock := Suc (clock s)\<rparr>)"
proof -
  have "decoded_claims (decode_send_to_cosmos test_env_ref) [some_attestation] = [deposit_claim]"
    by (simp add: decoded_claims_def some_attestation_def test_env_ref_def)
  moreover have "right_claim libs_ref 5 ref_address (eth_key_to_address clarity_ref [9]) deposit_claim"
    by (simp add: right_claim_def deposit_claim_def)
  ultimately show ?thesis
    unfolding check_send_to_cosmos_attestation_def
    by (subst bind_io_def, subst timeout_loop_now [where x = "()" and t = "s\<lparr>clock := Suc (clock s)\<rparr>"])
      (simp_all add: iterate_attestations_def expect_io_def get_attestations_def ask_def bind_io_def calling_query assms
        lift_io_def expect_sum_def return_io_def attesting_def)
qed

lemma awaited_run:
  assumes "horizon s = None" "3 \<le> clock s"
  shows "await_deposit libs_ref receiving (\<lambda>_ _. False) ref_address 100 None s = Some (Ret (), s\<lparr>clock := Suc (clock s)\<rparr>)"
proof -
  have "poll_deposit libs_ref receiving ref_address 100 None s = Some (Ret (Some (Inr ())), s\<lparr>clock := Suc (clock s)\<rparr>)"
    using assms by (simp add: poll_deposit_def bind_io_def balance_run lift_io_def return_io_def deposit_arrived_def)
  then show ?thesis unfolding await_deposit_def
    by (subst bind_io_def, subst timeout_loop_now [where x = "Inr ()" and t = "s\<lparr>clock := Suc (clock s)\<rparr>"])
      (simp_all add: return_io_def)
qed

lemma deposit_run:
  "\<exists>t. test_erc20_deposit libs_ref test_env_ref web3_ref receiving attesting (\<lambda>_ _. False) ref_address 7 5 100 test_start = Some (Ret (), t)"
proof -
  let ?s = "\<lambda>n tr. \<lparr>clock = n, trace = tr, horizon = None\<rparr>" and ?miner = "eth_key_to_address (cl libs_ref) [9]"
  have miner: "MINER_PRIVATE_KEY test_env_ref = Ret [9]" by (simp add: MINER_PRIVATE_KEY_def test_env_ref_def)
  have nonce: "calling (get_valset_nonce libs_ref web3_ref 7 ?miner) (?s 0 []) = Some (Ret (Inr 3), ?s 1 [])"
    using web3_ref_nonce [of "?s 0 []"] by (simp add: calling_def)
  have before: "check_cosmos_balance receiving ''nab'' ref_address (?s 1 []) = Some (Ret None, ?s 2 [])"
    by (simp add: balance_run numeral_2_eq_2)
  obtain e where "send_to_cosmos libs_ref web3_ref (\<lambda>_ _. False) 5 7 100 ref_address [9] None [] (?s 2 []) = Some (Ret (Inr 9), ?s 4 [e])"
    using send_run [of "?s 2 []"] by (auto simp: eval_nat_numeral)
  then have sent: "calling (send_to_cosmos libs_ref web3_ref (\<lambda>_ _. False) 5 7 100 ref_address [9] None []) (?s 2 []) = Some (Ret (Inr 9), ?s 4 [Node e])"
    by (simp add: calling_def)
  have attested: "check_send_to_cosmos_attestation libs_ref test_env_ref attesting (\<lambda>_ _. False) 5 ref_address ?miner (?s 4 [Node e]) = Some (Ret (), ?s 5 [Node e])"
    by (simp add: attested_run)
  have mined: "query_io (wait_for_transaction web3_ref 9 OPERATION_TIMEOUT) (?s 5 [Node e]) = Some (Ret (Inr ()), ?s 6 [Node e])"
    by (simp add: query_io_run web3_ref_def)
  have after: "await_deposit libs_ref receiving (\<lambda>_ _. False) ref_address 100 None (?s 6 [Node e]) = Some (Ret (), ?s 7 [Node e])"
    by (simp add: awaited_run)
  show ?thesis
    unfolding test_erc20_deposit_def with_miner_Ret bind_io_Ret expect_io_Ret test_start_def
    using miner nonce before sent attested mined after by blast
qed

text \<open>A deposit that arrives.\<close>

theorem deposit_test_sound_witness:
  "\<exists>(t :: test_effect io_state) sk n s1 tx s2 k j m before atts receipt after new. MINER_PRIVATE_KEY test_env_ref = Ret sk \<and>
    clock test_start \<le> n \<and> n < clock s1 \<and> clock s2 \<le> k \<and> k < j \<and> j < m \<and> m < clock t \<and>
    get_balances receiving ref_address n = Inr before \<and>
    calling (send_to_cosmos libs_ref web3_ref (\<lambda>_ _. False) 5 7 100 ref_address sk None []) s1 = Some (Ret (Inr tx), s2) \<and>
    trace s1 = trace test_start \<and> trace s2 = trace test_start @ map Node new \<and> trace t = trace s2 \<and>
    list_all (deposit_effect libs_ref 5 7 100 ref_address sk) new \<and> (\<exists>pre e. new = pre @ [e] \<and> is_deposit_call 7 e) \<and>
    grpc_attestations attesting 1000 k = Inr atts \<and> decoded_claims (decode_send_to_cosmos test_env_ref) atts \<noteq> [] \<and>
    right_claim libs_ref 5 ref_address (eth_key_to_address (cl libs_ref) sk) (last (decoded_claims (decode_send_to_cosmos test_env_ref) atts)) \<and>
    wait_for_transaction web3_ref tx OPERATION_TIMEOUT j = Inr receipt \<and>
    get_balances receiving ref_address m = Inr after \<and> balance_rose libs_ref 100 before after"
proof -
  obtain t where t: "test_erc20_deposit libs_ref test_env_ref web3_ref receiving attesting (\<lambda>_ _. False) ref_address 7 5 100 test_start = Some (Ret (), t)"
    using deposit_run by blast
  show ?thesis by (rule exI [of _ t]) (rule deposit_test_sound [OF t])
qed

end
