(* ===== verification/Spec2Isabelle.thy ===== *)
theory Spec2Isabelle
  imports Runs Bridge_Runs Test_Runs
begin

text \<open>
  The orchestrator workspace of the NEAR Aurora / Cosmos bridge (the Rust crates under
  \<open>src/orchestrator\<close>), modelled and verified.

  The program.  A validator runs \<open>nabt orchestrator\<close>.  It joins three loops on one task: the
  \<^emph>\<open>oracle\<close> reads the logs of the bridge contract on Ethereum and claims the events on the Cosmos
  chain; the \<^emph>\<open>signer\<close> signs the validator sets, batches and logic calls the chain asks it to;
  the \<^emph>\<open>relayer\<close> collects the signatures of all validators and submits what a quorum has signed to
  the contract.  The same relayer runs alone as \<open>nabt relayer\<close>; further commands set up keys and
  move tokens in either direction.

  Theories and sources (paths below \<open>src/orchestrator\<close>):

  \<^item> \<open>Prelude\<close>, \<open>Floats\<close>, \<open>Extern\<close>: outcomes with panics, slices, UTF-8, decimal numerals,
    machine words; IEEE rounding to 24 and 53 bits; the third party crates (\<open>clarity\<close>,
    \<open>deep_space\<close>, \<open>num256\<close>) as records of functions with their documented laws as named
    predicates.
  \<^item> \<open>Proto\<close>, \<open>Bridge_Types\<close>, \<open>Valsets\<close>, \<open>Events\<close>: \<open>gravity_proto\<close> and
    \<open>gravity_utils/src/types\<close>: the messages, batches, logic calls, validator sets with the
    aggregation of signatures (\<open>order_sigs\<close>, \<open>get_signature_status\<close>, \<open>power_diff\<close>), and the
    parsers of the five kinds of logs down to byte offsets.
  \<^item> \<open>Async\<close>, \<open>Env\<close>: computations that ask nodes and act on chains, the nodes (\<open>web3\<close>,
    \<open>contact\<close>, \<open>grpc\<close>), and \<open>gravity_utils/src/get_with_retry.rs\<close>.
  \<^item> \<open>Ethereum\<close>: \<open>ethereum_gravity\<close>.  \<open>Cosmos\<close>: \<open>cosmos_gravity\<close>.
  \<^item> \<open>Relayer\<close>: \<open>relayer\<close>.  \<open>Orchestrator\<close>: \<open>orchestrator\<close>, the oracle and the signer.
    \<open>Watch\<close> and \<open>Main_Loop\<close>: their endless loops and the join of the three.
  \<^item> \<open>Connection\<close>: \<open>gravity_utils/src/connection_prep.rs\<close>.  \<open>Key_Store\<close>, \<open>Nabt\<close>,
    \<open>Commands\<close>: \<open>nabt/src\<close>, the home directory with its key file, every command and the
    dispatch in \<open>main.rs\<close>.
  \<^item> \<open>Contract\<close>, \<open>Quorum\<close>: \<open>checkValidatorSignatures\<close> of \<open>Gravity.sol\<close> and how the relayer's
    check relates to it; signing, publishing and counting confirmations end to end.
  \<^item> \<open>Abi\<close>, \<open>Gravity\<close>: Solidity's \<open>abi.encode\<close>, and the whole of
    \<open>src/solidity/contracts/Gravity.sol\<close> as a state machine: the storage, the constructor and every
    public function as a function to the new storage or the reason of the revert, with the events
    emitted and the calls made; other contracts are a parameter and may call back.
    \<open>Bridge\<close>: the payloads of the relayer as calls of that contract, its events as the logs the
    oracle and the relayer read.
  \<^item> \<open>Proto_Build\<close>: \<open>proto_build/src/main.rs\<close>, the generator of the protobuf bindings, on a file
    system, with the part of the syntax of regular expressions it uses.
  \<^item> \<open>Test_Net\<close>, \<open>Test_Cases\<close>: \<open>test_runner/src\<close>, the bootstrapping, the helpers, the integration
    tests and the choice among them, on the models of the crates they call.
  \<^item> \<open>Reference\<close>, \<open>Witnesses\<close>, \<open>Runs\<close>, \<open>Bridge_Runs\<close>, \<open>Test_Runs\<close>: concrete libraries, nodes,
    contracts and disks that satisfy the hypotheses, and concrete runs.

  How programs are modelled.  A function without requests is a function into \<open>outcome\<close>
  (\<open>Ret\<close> or \<open>Panic\<close>), a \<open>Result\<close> inside it is a sum with the error on the left.  An \<open>async\<close>
  function is a function on a state with a clock, which counts the requests made, the list of
  effects so far (\<open>trace\<close>: transactions sent to either chain) and the \<open>horizon\<close>.  Every answer of
  a node is a parameter indexed by the clock, so nothing is assumed about nodes unless a theorem says
  so: they may fail, change their mind or lie.  Loops that need not end are
  \<open>partial_function (option)\<close>, so not coming back is the value \<open>None\<close>.  A horizon cuts a run off after
  a number of requests; \<open>watchable\<close> says that every cut run of a computation is defined, so a
  statement \<open>emits P\<close> about all effects of all runs covers the endless loops as well and is not
  satisfied by mere divergence.  \<open>yields Q\<close> speaks of the results, \<open>leads R\<close> of results with the
  effects that led to them, \<open>comes_back\<close> of termination.  Integers have their width (\<open>u64\<close>,
  \<open>usize\<close> as 64 bits) and wrap as in a release build; \<open>Uint256\<close> arithmetic panics on overflow as
  the crate does.

  What the lemmas show.
  \<^item> Signatures (C1, C2, C9, C25): which confirmations \<open>order_sigs\<close> accepts, when it panics, that the
    contract accepts what it lets pass except for a gap of a few hundred units of power that single
    precision leaves open, what \<open>power_diff\<close> computes; the lemma \<open>status_partition\<close>: power is
    accounted for exactly.
  \<^item> The contract (C4, C7): in every state it can reach, events are numbered without a gap, the
    checkpoint is the one of the set announced last, and nothing is executed twice.
  \<^item> Both ends together (C3, C5, C6, C8): what a relayed update or batch does on the contract, revert by
    revert, and that it otherwise makes exactly the transfers it lists, whatever the tokens call back
    meanwhile; the relayer finds the set the contract holds; the claims of the oracle continue the
    chain's events up to the last one of the contract, as long as the logs can be read.
  \<^item> Loops (C10 to C14): all that the three loops, alone and joined, can ever put on the chains, and
    how they can end.
  \<^item> Claims and submissions (C15 to C18, C21 to C23, C35): claims go out once and in the order of their
    nonces, every message under its own type; submissions carry accepted signatures and are sent
    once; checkpoints move as intended; the searches end and find what they should.
  \<^item> Conversions (C24, C26 and the lemmas next to them): round trips of logs and protobuf messages.
  \<^item> The command line (C19, C20, C27 to C30): what has been checked before the loops start,
    registration and the key file, transfers and amounts; endpoints and the initial configuration in
    lemmas of \<open>Connection\<close> and \<open>Key_Store\<close>.
  \<^item> Tools (C31 to C34): what the generator writes, and what a passing integration test has seen.
  \<^item> Errors (C34, C36 to C40 and the lemmas next to them, \<open>accepted_but_refused\<close> in \<open>Witnesses\<close> among
    them): behaviour the code does not intend.

  Interfaces are locales, interpreted on the model: requests repeated until they succeed
  (\<open>stubborn\<close>), conversions to and from protobuf (\<open>proto_codec\<close>), parsers of lists of logs
  (\<open>event_parser\<close>), the orders of members and signatures (\<open>power_then_address\<close>), confirmations
  that are signed, published and read (\<open>confirmation\<close>), the ordered map of claims
  (\<open>ordered_map\<close>) and the key file as one cell (\<open>key_cell\<close>).

  Bounds and abbreviations.  There is no fuel.  Floating point has no exponent range: validator
  powers lie between $2^{-32}$ and $2^{64}$, and for amounts both overflow and underflow end in the
  same integer.  Durations are whole seconds; \<open>delay_for\<close> and the log macros do nothing; the text of
  a formatted error is cut to its fixed part.  Iteration over a hash map is iteration over a list
  whose order the theorems leave open or the code does not depend on.  Futures in
  \<open>for_each_concurrent\<close> run one after the other; a timeout around a loop is looked at before each
  attempt, while the runtime can also cut an attempt short (these loops have no effects); the three joined loops interleave at their requests,
  each with its own moments, which the theorems leave open.

  Laws of other code.  \<open>evm_recovers\<close>: the recovery of a signer in \<open>clarity\<close> and in the EVM agree on
  valid signatures.  \<open>linked\<close>: the decoder of the contract reads back what \<open>clarity\<close> encoded, if every
  value has its type, and refuses a \<open>v\<close> that is not a byte.  \<open>node_of\<close>: the node answers requests for
  logs from the events of the contract.  \<open>regex_crate\<close>: the matches of the \<open>regex\<close> crate for patterns
  of literals and repeated groups of literals.  Each has an instance among the concrete libraries.

  Not modelled.  \<open>transaction_stress_test.rs\<close> of \<open>test_runner\<close>, an argument of the dispatch: it
  polls the transfers of all its users side by side, which computations that run one after the other
  do not describe.  The generated gRPC client and server and the query messages of
  \<open>nab.v1.rs\<close>: the answers of the nodes stand for them.  Argument parsing by \<open>clap\<close>, \<open>Display\<close>
  implementations, \<open>print_eth\<close> and \<open>print_atom\<close>: they format messages.  The unit tests inside the
  crates.  The Go module of the chain and the other Solidity contracts are other programs: what they
  do is left open.
\<close>

end
